(* ===== verification/Numerics.thy ===== *)
theory Numerics
  imports Complex_Main
begin

text \<open>
  Rounding of rational numbers to a fixed number of significant digits.

  The program computes with two kinds of numbers, and each operation on either rounds its exact
  result to the nearest representable value, ties to even: Python \<open>float\<close> (base 2, 53 digits)
  and \<open>decimal.Decimal\<close> in the default context (base 10, 28 digits). Both are instances of
  \<open>round_sig b p emin\<close>, the rounding to \<open>p\<close> base-\<open>b\<close> digits with no unit in the last place below
  \<open>b ^ emin\<close>. This theory defines it over \<^typ>\<open>rat\<close>, proves that it is monotone, odd, idempotent and
  exact on the representable values, and gives an integer version (\<open>round_int\<close>) that the kernel
  can evaluate (code equations of the theory PyNum).

  Not represented: the infinities, NaN and the sign of zero.
\<close>

subsection \<open>Definitions\<close>

text \<open>Round half to even, to an integer.\<close>

definition rne :: "rat \<Rightarrow> int" where
  "rne x = (let f = \<lfloor>x\<rfloor>; d = x - of_int f in
     if d < 1 / 2 then f else if 1 / 2 < d then f + 1 else if even f then f else f + 1)"

text \<open>\<open>ilog b n\<close> is the greatest \<open>k\<close> with \<open>b ^ k \<le> n\<close>, for \<open>1 \<le> n\<close>.\<close>

function ilog :: "int \<Rightarrow> int \<Rightarrow> int" where
  "ilog b n = (if b < 2 \<or> n < b then 0 else 1 + ilog b (n div b))"
  by pat_completeness auto
termination
  by (relation "measure (\<lambda>(b, n). nat n)") (auto intro: int_div_less_self)

declare ilog.simps [simp del]

text \<open>\<open>mag b x\<close> is the exponent of the leading base-\<open>b\<close> digit of \<open>x\<close>.\<close>

definition mag :: "int \<Rightarrow> rat \<Rightarrow> int" where
  "mag b x = (if 1 \<le> \<bar>x\<bar> then ilog b \<lfloor>\<bar>x\<bar>\<rfloor> else - (ilog b (\<lceil>1 / \<bar>x\<bar>\<rceil> - 1) + 1))"

definition round_sig :: "int \<Rightarrow> int \<Rightarrow> int \<Rightarrow> rat \<Rightarrow> rat" where
  "round_sig b p emin x = (if x = 0 then 0 else
     let u = of_int b powi (max (mag b x - p + 1) emin) in of_int (rne (x / u)) * u)"

subsection \<open>Rounding to an integer\<close>

lemma rne_of_int [simp]: "rne (of_int n) = n"
  by (simp add: rne_def)

lemma rne_0 [simp]: "rne 0 = 0"
  using rne_of_int [of 0] by simp

lemma rne_ge_floor: "\<lfloor>x\<rfloor> \<le> rne x"
  by (simp add: rne_def Let_def)

lemma rne_le_floor_plus: "rne x \<le> \<lfloor>x\<rfloor> + 1"
  by (simp add: rne_def Let_def)

lemma rne_near: "\<bar>of_int (rne x) - x\<bar> \<le> 1 / 2"
proof -
  have "of_int \<lfloor>x\<rfloor> \<le> x" and "x < of_int \<lfloor>x\<rfloor> + 1" by linarith+
  then show ?thesis by (auto simp: rne_def Let_def)
qed

lemma rne_mono: assumes "x \<le> y" shows "rne x \<le> rne y"
proof (cases "\<lfloor>x\<rfloor> = \<lfloor>y\<rfloor>")
  case True
  then show ?thesis using assms by (auto simp: rne_def Let_def)
next
  case False
  with floor_mono [OF assms] have "\<lfloor>x\<rfloor> + 1 \<le> \<lfloor>y\<rfloor>" by simp
  then show ?thesis using rne_le_floor_plus [of x] rne_ge_floor [of y] by linarith
qed

lemma rne_minus: "rne (- x) = - rne x"
proof (cases "x = of_int \<lfloor>x\<rfloor>")
  case True
  then have "- x = of_int (- \<lfloor>x\<rfloor>)" by simp
  then show ?thesis using True by (metis rne_of_int)
next
  case False
  define f where "f = \<lfloor>x\<rfloor>"
  have b: "of_int f < x" "x < of_int f + 1"
    using False of_int_floor_le [of x] unfolding f_def by linarith+
  have "\<lfloor>- x\<rfloor> = - f - 1"
    by (rule floor_unique) (use b in simp_all)
  then show ?thesis
    using b by (auto simp: rne_def Let_def f_def [symmetric])
qed

subsection \<open>Leading digits\<close>

lemma ilog_spec:
  assumes "2 \<le> b" "1 \<le> n"
  shows "0 \<le> ilog b n \<and> b ^ nat (ilog b n) \<le> n \<and> n < b ^ nat (ilog b n + 1)"
  using assms
proof (induction b n rule: ilog.induct)
  case (1 b n)
  show ?case
  proof (cases "n < b")
    case True
    then show ?thesis using "1.prems" by (simp add: ilog.simps [of b n])
  next
    case False
    define k where "k = ilog b (n div b)"
    have d: "1 \<le> n div b"
      using False "1.prems" by (simp add: int_one_le_iff_zero_less pos_imp_zdiv_pos_iff)
    have IH: "0 \<le> k" "b ^ nat k \<le> n div b" "n div b < b ^ nat (k + 1)"
      using "1.IH" "1.prems" False d unfolding k_def by auto
    have e: "ilog b n = 1 + k"
      using False "1.prems" by (simp add: ilog.simps [of b n] k_def)
    have s: "b ^ nat (1 + j) = b * b ^ nat j" if "0 \<le> j" for j :: int
      using that by (simp add: nat_add_distrib)
    have "b * b ^ nat k \<le> b * (n div b)" using IH "1.prems" by (simp add: mult_left_mono)
    also have "\<dots> \<le> n"
      using "1.prems" pos_mod_sign [of b n] mult_div_mod_eq [of b n] by linarith
    finally have lo: "b * b ^ nat k \<le> n" .
    have "n div b + 1 \<le> b ^ nat (k + 1)" using IH by simp
    then have "b * (n div b + 1) \<le> b * b ^ nat (k + 1)" using "1.prems" by (simp add: mult_left_mono)
    moreover have "n < b * (n div b + 1)"
      using "1.prems" pos_mod_bound [of b n] mult_div_mod_eq [of b n]
      by (simp only: distrib_left mult_1_right) linarith
    ultimately have hi: "n < b * b ^ nat (k + 1)" by linarith
    have "b ^ nat (1 + k + 1) = b * b ^ nat (k + 1)" using s [of "k + 1"] IH by (simp add: add.assoc)
    then show ?thesis using e IH lo hi s [of k] by (simp add: add.commute)
  qed
qed

lemma mag_spec:
  assumes "2 \<le> b" "x \<noteq> 0"
  shows "of_int b powi mag b x \<le> \<bar>x\<bar> \<and> \<bar>x\<bar> < of_int b powi (mag b x + 1)"
proof (cases "1 \<le> \<bar>x\<bar>")
  case True
  define n where "n = \<lfloor>\<bar>x\<bar>\<rfloor>"
  define k where "k = ilog b n"
  have n1: "1 \<le> n" using True by (simp add: n_def)
  from ilog_spec [OF assms(1) n1] have k: "0 \<le> k" "b ^ nat k \<le> n" "n + 1 \<le> b ^ nat (k + 1)"
    by (auto simp: k_def)
  have m: "mag b x = k" using True by (simp add: mag_def k_def n_def)
  have p: "(of_int b :: rat) powi j = of_int (b ^ nat j)" if "0 \<le> j" for j
    using that by (simp add: power_int_def)
  have "(of_int (b ^ nat k) :: rat) \<le> of_int n" using k by (simp only: of_int_le_iff)
  also have "\<dots> \<le> \<bar>x\<bar>" by (simp add: n_def)
  finally have lo: "of_int b powi k \<le> \<bar>x\<bar>" using p k by simp
  have "\<bar>x\<bar> < of_int (n + 1)" unfolding n_def by linarith
  also have "\<dots> \<le> of_int (b ^ nat (k + 1))" using k by (simp only: of_int_le_iff)
  finally have "\<bar>x\<bar> < of_int b powi (k + 1)" using p [of "k + 1"] k by simp
  with lo m show ?thesis by simp
next
  case False
  define c where "c = \<lceil>1 / \<bar>x\<bar>\<rceil> - 1"
  define k where "k = ilog b c"
  have y: "1 < 1 / \<bar>x\<bar>" using False assms by (simp add: field_simps)
  then have c1: "1 \<le> c" unfolding c_def by linarith
  from ilog_spec [OF assms(1) c1] have k: "0 \<le> k" "b ^ nat k \<le> c" "c + 1 \<le> b ^ nat (k + 1)"
    by (auto simp: k_def)
  have m: "mag b x = - (k + 1)" using False by (simp add: mag_def k_def c_def)
  have p: "(of_int b :: rat) powi (- j) = 1 / of_int (b ^ nat j)" if "0 \<le> j" for j
    using that by (cases "j = 0") (simp_all add: power_int_def inverse_eq_divide power_one_over)
  have bp: "0 < (of_int (b ^ j) :: rat)" for j using assms(1) by simp
  have "1 / \<bar>x\<bar> \<le> of_int (c + 1)" unfolding c_def by linarith
  also have "\<dots> \<le> of_int (b ^ nat (k + 1))" using k by (simp only: of_int_le_iff)
  finally have "1 / of_int (b ^ nat (k + 1)) \<le> \<bar>x\<bar>" using bp assms by (simp add: field_simps)
  then have lo: "of_int b powi (- (k + 1)) \<le> \<bar>x\<bar>" using p [of "k + 1"] k by simp
  have "(of_int (b ^ nat k) :: rat) \<le> of_int c" using k by (simp only: of_int_le_iff)
  also have "\<dots> < 1 / \<bar>x\<bar>" unfolding c_def by linarith
  finally have "\<bar>x\<bar> < 1 / of_int (b ^ nat k)" using bp assms by (simp add: field_simps)
  then have "\<bar>x\<bar> < of_int b powi (- k)" using p [of k] k by simp
  with lo m show ?thesis by simp
qed

lemma mag_le_iff:
  assumes "2 \<le> b" "x \<noteq> 0"
  shows "\<bar>x\<bar> < of_int b powi (k + 1) \<longleftrightarrow> mag b x \<le> k"
proof
  assume "\<bar>x\<bar> < of_int b powi (k + 1)"
  with mag_spec [OF assms] have "(of_int b :: rat) powi mag b x < of_int b powi (k + 1)" by linarith
  then have "\<not> k + 1 \<le> mag b x"
    using assms(1) power_int_increasing [of "k + 1" "mag b x" "of_int b :: rat"] by auto
  then show "mag b x \<le> k" by simp
next
  assume "mag b x \<le> k"
  then have "(of_int b :: rat) powi (mag b x + 1) \<le> of_int b powi (k + 1)"
    using assms(1) by (simp add: power_int_increasing)
  with mag_spec [OF assms] show "\<bar>x\<bar> < of_int b powi (k + 1)" by linarith
qed

lemma mag_minus [simp]: "mag b (- x) = mag b x"
  by (simp add: mag_def)

lemma mag_mono:
  assumes "2 \<le> b" "x \<noteq> 0" "\<bar>x\<bar> \<le> \<bar>y\<bar>"
  shows "mag b x \<le> mag b y"
proof -
  have "y \<noteq> 0" using assms by auto
  then have "\<bar>y\<bar> < of_int b powi (mag b y + 1)" using mag_spec assms(1) by blast
  with assms show ?thesis using mag_le_iff [of b x "mag b y"] by linarith
qed

subsection \<open>Rounding to significant digits\<close>

text \<open>The exponent of the unit in the last place.\<close>

definition ulp_exp :: "int \<Rightarrow> int \<Rightarrow> int \<Rightarrow> rat \<Rightarrow> int" where
  "ulp_exp b p emin x = max (mag b x - p + 1) emin"

lemma round_sig_alt:
  "x \<noteq> 0 \<Longrightarrow> round_sig b p emin x =
     of_int (rne (x / of_int b powi ulp_exp b p emin x)) * of_int b powi ulp_exp b p emin x"
  by (simp add: round_sig_def ulp_exp_def Let_def)

lemma round_sig_0 [simp]: "round_sig b p emin 0 = 0"
  by (simp add: round_sig_def)

lemma round_sig_minus: "round_sig b p emin (- x) = - round_sig b p emin x"
  by (simp add: round_sig_def Let_def rne_minus)

text \<open>Multiples of the unit in the last place are kept.\<close>

lemma powi_multiple:
  assumes "2 \<le> b" "e \<le> k"
  shows "(of_int m * of_int b powi k) / (of_int b powi e) = (of_int (m * b ^ nat (k - e)) :: rat)"
proof -
  have "(of_int b :: rat) powi k = of_int b powi e * of_int b powi (k - e)"
    using assms by (simp flip: power_int_add)
  also have "(of_int b :: rat) powi (k - e) = of_int (b ^ nat (k - e))"
    using assms by (simp add: power_int_def)
  finally have k: "(of_int b :: rat) powi k = of_int b powi e * of_int (b ^ nat (k - e))" .
  define u :: rat where "u = of_int b powi e"
  have "u \<noteq> 0" using assms by (simp add: u_def)
  then show ?thesis unfolding k u_def [symmetric] by simp
qed

lemma powi_shift:
  assumes "2 \<le> b" "0 \<le> p"
  shows "of_int (b ^ nat p) * (of_int b :: rat) powi e = of_int b powi (e + p)"
proof -
  have "of_int (b ^ nat p) = (of_int b :: rat) powi p" using assms by (simp add: power_int_def)
  then show ?thesis using assms by (simp add: power_int_add)
qed

lemma round_sig_multiple:
  assumes "2 \<le> b" "ulp_exp b p emin (of_int m * of_int b powi k) \<le> k"
  shows "round_sig b p emin (of_int m * of_int b powi k) = of_int m * of_int b powi k"
proof (cases "m = 0")
  case False
  define x :: rat where "x = of_int m * of_int b powi k"
  define e where "e = ulp_exp b p emin x"
  have x0: "x \<noteq> 0" using False assms by (simp add: x_def)
  have "x / of_int b powi e = of_int (m * b ^ nat (k - e))"
    unfolding x_def by (rule powi_multiple) (use assms in \<open>simp_all add: e_def x_def\<close>)
  then have "of_int (rne (x / of_int b powi e)) = x / of_int b powi e" by (simp only: rne_of_int)
  moreover have "(of_int b :: rat) powi e \<noteq> 0" using assms by simp
  ultimately have "round_sig b p emin x = x" using round_sig_alt [OF x0] by (simp add: e_def)
  then show ?thesis by (simp add: x_def)
qed simp

lemma round_sig_power:
  assumes "2 \<le> b" "1 \<le> p" "emin \<le> k"
  shows "round_sig b p emin (of_int b powi k) = of_int b powi k"
proof -
  define x :: rat where "x = of_int 1 * of_int b powi k"
  have "\<bar>x\<bar> < of_int b powi (k + 1)"
    using assms by (simp add: x_def power_int_strict_increasing)
  then have "mag b x \<le> k" using mag_le_iff [of b x k] assms by (simp add: x_def)
  then have "ulp_exp b p emin x \<le> k" using assms by (simp add: ulp_exp_def)
  then have "round_sig b p emin x = x" using round_sig_multiple assms unfolding x_def by blast
  then show ?thesis by (simp add: x_def)
qed

text \<open>Values of at most \<open>p\<close> digits are kept, so rounding is idempotent.\<close>

lemma round_sig_exact:
  assumes "2 \<le> b" "1 \<le> p" "\<bar>m\<bar> \<le> b ^ nat p" "emin \<le> k"
  shows "round_sig b p emin (of_int m * of_int b powi k) = of_int m * of_int b powi k"
proof (cases "\<bar>m\<bar> = b ^ nat p \<or> m = 0")
  case True
  have "of_int (b ^ nat p) * (of_int b :: rat) powi k = of_int b powi (k + p)"
    using assms by (intro powi_shift) simp_all
  moreover have "round_sig b p emin (of_int b powi (k + p)) = of_int b powi (k + p)"
    using assms by (intro round_sig_power) simp_all
  ultimately have "round_sig b p emin (of_int (b ^ nat p) * of_int b powi k) = of_int (b ^ nat p) * of_int b powi k"
    by simp
  moreover have "m = 0 \<or> m = b ^ nat p \<or> m = - (b ^ nat p)" using True by linarith
  ultimately show ?thesis by (auto simp: round_sig_minus)
next
  case False
  define x :: rat where "x = of_int m * of_int b powi k"
  have x0: "x \<noteq> 0" using False assms by (simp add: x_def)
  have lt: "\<bar>m\<bar> < b ^ nat p" using False assms by linarith
  have "\<bar>x\<bar> = of_int \<bar>m\<bar> * of_int b powi k" using assms by (simp add: x_def abs_mult)
  also have "\<dots> < of_int (b ^ nat p) * of_int b powi k"
    using lt assms by (intro mult_strict_right_mono) (simp_all only: of_int_less_iff, simp)
  also have "\<dots> = of_int b powi ((k + p - 1) + 1)"
    using powi_shift [of b p k] assms by simp
  finally have "mag b x \<le> k + p - 1" using mag_le_iff [OF assms(1) x0] by blast
  then have "ulp_exp b p emin x \<le> k" using assms by (simp add: ulp_exp_def)
  then show ?thesis using round_sig_multiple assms unfolding x_def by blast
qed

lemma round_sig_digits:
  assumes "2 \<le> b" "1 \<le> p"
  obtains m k where "round_sig b p emin x = of_int m * of_int b powi k" "\<bar>m\<bar> \<le> b ^ nat p" "emin \<le> k"
proof (cases "x = 0")
  case True
  then show ?thesis using that [of 0 emin] assms by simp
next
  case False
  define e where "e = ulp_exp b p emin x"
  define m where "m = rne (x / of_int b powi e)"
  have bp: "0 < (of_int b :: rat) powi e" using assms by simp
  have "\<bar>x\<bar> < of_int b powi (mag b x + 1)" using mag_spec [OF assms(1) False] by simp
  also have "\<dots> \<le> of_int b powi (p + e)"
    using assms by (intro power_int_increasing) (auto simp: e_def ulp_exp_def)
  also have "\<dots> = of_int (b ^ nat p) * of_int b powi e"
    using powi_shift [of b p e] assms by (simp add: add.commute)
  finally have lt: "\<bar>x / of_int b powi e\<bar> < of_int (b ^ nat p)"
    using bp by (simp add: pos_divide_less_eq)
  define q where "q = x / of_int b powi e"
  have "of_int (- (b ^ nat p)) \<le> q" and "q \<le> of_int (b ^ nat p)"
    using lt unfolding q_def [symmetric] by simp_all
  then have "rne (of_int (- (b ^ nat p))) \<le> rne q" and "rne q \<le> rne (of_int (b ^ nat p))"
    by (blast intro: rne_mono)+
  then have "\<bar>m\<bar> \<le> b ^ nat p" unfolding m_def q_def [symmetric] rne_of_int by linarith
  moreover have "round_sig b p emin x = of_int m * of_int b powi e"
    using round_sig_alt [OF False] by (simp add: m_def e_def)
  moreover have "emin \<le> e" by (simp add: e_def ulp_exp_def)
  ultimately show ?thesis using that by blast
qed

lemma round_sig_idem:
  assumes "2 \<le> b" "1 \<le> p"
  shows "round_sig b p emin (round_sig b p emin x) = round_sig b p emin x"
proof -
  obtain m k where "round_sig b p emin x = of_int m * of_int b powi k" "\<bar>m\<bar> \<le> b ^ nat p" "emin \<le> k"
    using round_sig_digits [OF assms] by blast
  then show ?thesis using round_sig_exact [OF assms] by simp
qed

text \<open>Rounding is monotone: two values with the same unit by monotonicity of \<open>rne\<close>; otherwise
  the power of \<open>b\<close> between them is kept by both roundings.\<close>

lemma round_sig_mono_pos:
  assumes b: "2 \<le> b" and p: "1 \<le> p" and x: "0 < x" and xy: "x \<le> y"
  shows "round_sig b p emin x \<le> round_sig b p emin y"
proof -
  define e f where "e = ulp_exp b p emin x" and "f = ulp_exp b p emin y"
  have xx: "x \<noteq> 0" and yy: "y \<noteq> 0" using x xy by auto
  have rx: "round_sig b p emin x = of_int (rne (x / of_int b powi e)) * of_int b powi e"
    and ry: "round_sig b p emin y = of_int (rne (y / of_int b powi f)) * of_int b powi f"
    using round_sig_alt [OF xx] round_sig_alt [OF yy] by (simp_all add: e_def f_def)
  have pe: "0 < (of_int b :: rat) powi e" and pf: "0 < (of_int b :: rat) powi f" using b by simp_all
  show ?thesis
  proof (cases "e = f")
    case True
    have "rne (x / of_int b powi e) \<le> rne (y / of_int b powi e)"
      using xy pe by (intro rne_mono) (simp add: divide_right_mono)
    then show ?thesis using rx ry True pe by (simp add: mult_right_mono)
  next
    case False
    define k where "k = mag b y"
    have mm: "mag b x \<le> mag b y" using mag_mono [OF b xx] x xy by simp
    with False have lt: "mag b x < k" "e \<le> k" "f \<le> k" "emin \<le> k"
      using p unfolding e_def f_def ulp_exp_def k_def by linarith+
    define B :: rat where "B = of_int 1 * of_int b powi k"
    have Bx: "x \<le> B"
    proof -
      have "x < of_int b powi (mag b x + 1)" using mag_spec [OF b xx] x by simp
      also have "\<dots> \<le> of_int b powi k" using lt b by (intro power_int_increasing) simp_all
      finally show ?thesis by (simp add: B_def)
    qed
    have By: "B \<le> y" using mag_spec [OF b yy] x xy by (simp add: B_def k_def)
    have Be: "of_int (rne (B / of_int b powi e)) * of_int b powi e = B"
      and Bf: "of_int (rne (B / of_int b powi f)) * of_int b powi f = B"
      using powi_multiple [OF b lt(2), of 1] powi_multiple [OF b lt(3), of 1] pe pf
      by (simp_all only: B_def rne_of_int) (metis less_irrefl nonzero_eq_divide_eq)+
    have "round_sig b p emin x \<le> of_int (rne (B / of_int b powi e)) * of_int b powi e"
      unfolding rx using Bx pe by (intro mult_right_mono) (simp_all add: rne_mono divide_right_mono)
    also have "\<dots> = of_int (rne (B / of_int b powi f)) * of_int b powi f" by (simp only: Be Bf)
    also have "\<dots> \<le> round_sig b p emin y"
      unfolding ry using By pf by (intro mult_right_mono) (simp_all add: rne_mono divide_right_mono)
    finally show ?thesis .
  qed
qed

lemma round_sig_nonneg:
  assumes "2 \<le> b" "0 \<le> x"
  shows "0 \<le> round_sig b p emin x"
proof (cases "x = 0")
  case False
  have "0 \<le> rne (x / of_int b powi ulp_exp b p emin x)"
    using rne_mono [of 0 "x / of_int b powi ulp_exp b p emin x"] assms by simp
  then show ?thesis using round_sig_alt [OF False] assms by simp
qed simp

lemma round_sig_mono:
  assumes b: "2 \<le> b" and p: "1 \<le> p" and xy: "x \<le> y"
  shows "round_sig b p emin x \<le> round_sig b p emin y"
proof -
  consider "0 < x" | "x \<le> 0" "0 \<le> y" | "y < 0" by linarith
  then show ?thesis
  proof cases
    case 1
    then show ?thesis using round_sig_mono_pos [OF b p] xy by simp
  next
    case 2
    then show ?thesis
      using round_sig_nonneg [OF b, of y p emin] round_sig_nonneg [OF b, of "- x" p emin]
      by (simp add: round_sig_minus)
  next
    case 3
    then have "round_sig b p emin (- y) \<le> round_sig b p emin (- x)"
      using round_sig_mono_pos [OF b p, of "- y" "- x" emin] xy by simp
    then show ?thesis by (simp add: round_sig_minus)
  qed
qed

text \<open>The relative error is at most half a unit of the last of the \<open>p\<close> digits.\<close>

lemma round_sig_near:
  assumes b: "2 \<le> b" and x: "x \<noteq> 0" and e: "emin \<le> mag b x - p + 1"
  shows "\<bar>round_sig b p emin x - x\<bar> \<le> \<bar>x\<bar> * of_int b powi (1 - p) / 2"
proof -
  define u :: rat where "u = of_int b powi (mag b x - p + 1)"
  have u: "0 < u" using b by (simp add: u_def)
  have r: "round_sig b p emin x = of_int (rne (x / u)) * u"
    using x e by (simp add: round_sig_def Let_def u_def max_def)
  have "\<bar>of_int (rne (x / u)) - x / u\<bar> * u \<le> 1 / 2 * u"
    using rne_near [of "x / u"] u by (intro mult_right_mono) simp_all
  moreover have "\<bar>of_int (rne (x / u)) - x / u\<bar> * u = \<bar>of_int (rne (x / u)) * u - x\<bar>"
    using u abs_mult [of "of_int (rne (x / u)) - x / u" u] by (simp add: left_diff_distrib)
  moreover have "u = of_int b powi mag b x * of_int b powi (1 - p)"
    using b power_int_add [of "of_int b :: rat" "mag b x" "1 - p"] by (simp add: u_def add_diff_eq diff_add_eq)
  moreover have "of_int b powi mag b x * of_int b powi (1 - p) \<le> \<bar>x\<bar> * of_int b powi (1 - p)"
    using mag_spec [OF b x] b by (intro mult_right_mono) simp_all
  ultimately show ?thesis by (simp add: r)
qed

subsection \<open>An integer version for evaluation\<close>

definition rne_div :: "int \<Rightarrow> int \<Rightarrow> int" where
  "rne_div n d = (let q = n div d; r = 2 * (n mod d) in
     if r < d then q else if d < r then q + 1 else if even q then q else q + 1)"

lemma rne_div_code [code]: "rne_div n d = (let q = n div d; r = 2 * (n - q * d) in
     if r < d then q else if d < r then q + 1 else if even q then q else q + 1)"
  by (simp only: rne_div_def Let_def minus_div_mult_eq_mod)

lemma rne_of_div:
  assumes "0 < d"
  shows "rne (of_int n / of_int d) = rne_div n d"
proof -
  have f: "\<lfloor>of_int n / (of_int d :: rat)\<rfloor> = n div d" by (rule floor_divide_of_int_eq)
  have n: "(of_int n :: rat) = of_int (n div d) * of_int d + of_int (n mod d)"
    by (metis div_mult_mod_eq of_int_add of_int_mult)
  have d: "of_int n / (of_int d :: rat) - of_int (n div d) = of_int (n mod d) / of_int d"
    using assms by (subst n) (simp add: add_divide_distrib)
  have iff: "(of_int r / of_int d < (1 / 2 :: rat)) = (2 * r < d)"
    "((1 / 2 :: rat) < of_int r / of_int d) = (d < 2 * r)" for r
  proof -
    have "(of_int r / of_int d < (1 / 2 :: rat)) = (2 * of_int r < (of_int d :: rat))"
      and "((1 / 2 :: rat) < of_int r / of_int d) = ((of_int d :: rat) < 2 * of_int r)"
      using assms by (auto simp: pos_divide_less_eq pos_less_divide_eq)
    moreover have "(2 * of_int r :: rat) = of_int (2 * r)" by simp
    ultimately show "(of_int r / of_int d < (1 / 2 :: rat)) = (2 * r < d)"
      and "((1 / 2 :: rat) < of_int r / of_int d) = (d < 2 * r)"
      by (simp_all only: of_int_less_iff)
  qed
  show ?thesis
    unfolding rne_def rne_div_def Let_def f d by (simp only: iff)
qed

function ipow :: "int \<Rightarrow> int \<Rightarrow> int" where
  "ipow b k = (if k \<le> 0 then 1 else let h = ipow b (k div 2) in if even k then h * h else b * (h * h))"
  by pat_completeness auto
termination
  by (relation "measure (\<lambda>(b, k). nat k)") auto

declare ipow.simps [simp del]

lemma ipow_eq: "0 \<le> k \<Longrightarrow> ipow b k = b ^ nat k"
proof (induction b k rule: ipow.induct)
  case (1 b k)
  show ?case
  proof (cases "k = 0")
    case True
    then show ?thesis by (simp add: ipow.simps [of b 0])
  next
    case False
    with "1.prems" have IH: "ipow b (k div 2) = b ^ nat (k div 2)" using "1.IH" by simp
    define h where "h = nat (k div 2)"
    obtain m where m: "k = int m" using "1.prems" by (rule nonneg_eq_int)
    then have "h = m div 2" by (simp add: h_def nat_div_distrib)
    then have "nat k = (if even k then h + h else Suc (h + h))" using m by simp presburger
    then show ?thesis
      using False "1.prems" IH by (simp add: ipow.simps [of b k] power_add Let_def h_def [symmetric])
  qed
qed

lemma rat_eq_quotient: "quotient_of x = (n, d) \<Longrightarrow> x = of_int n / of_int d \<and> 0 < d"
  by (simp add: quotient_of_div quotient_of_denom_pos)

text \<open>Logarithms by squaring the base; base 2 counts binary digits.\<close>

lemma ilog_unique:
  assumes "2 \<le> b" "1 \<le> n" "0 \<le> k" "b ^ nat k \<le> n" "n < b ^ nat (k + 1)"
  shows "ilog b n = k"
proof -
  note s = ilog_spec [OF assms(1,2)]
  have "b ^ nat (ilog b n) < b ^ nat (k + 1)" "b ^ nat k < b ^ nat (ilog b n + 1)"
    using s assms(4,5) by linarith+
  then have "nat (ilog b n) < nat (k + 1)" "nat k < nat (ilog b n + 1)"
    using assms(1) power_less_imp_less_exp [of b] by simp_all
  then show ?thesis using s assms(3) by simp
qed

lemma ilog_square:
  assumes "2 \<le> b" "b \<le> n"
  shows "ilog b n = (let k = 2 * ilog (b * b) n in if ipow b (k + 1) \<le> n then k + 1 else k)"
proof -
  define j where "j = ilog (b * b) n"
  have bb: "2 \<le> b * b" "1 \<le> n" using assms mult_mono [of 2 b 2 b] by simp_all
  have j: "0 \<le> j" "(b * b) ^ nat j \<le> n" "n < (b * b) ^ nat (j + 1)"
    using ilog_spec [OF bb] by (simp_all add: j_def)
  have p: "(b * b) ^ nat i = b ^ nat (2 * i)" if "0 \<le> i" for i
    using that by (simp add: nat_mult_distrib power_mult power2_eq_square)
  have e: "2 * (j + 1) = 2 * j + 1 + 1" by simp
  have up: "n < b ^ nat (2 * j + 1 + 1)" using j p [of "j + 1"] unfolding e by simp
  show ?thesis
  proof (cases "ipow b (2 * j + 1) \<le> n")
    case True
    have "ilog b n = 2 * j + 1"
      using assms j(1) up True by (intro ilog_unique) (simp_all add: ipow_eq)
    then show ?thesis using True by (simp add: j_def Let_def)
  next
    case False
    have "ilog b n = 2 * j"
      using assms j p [of j] False by (intro ilog_unique) (simp_all add: ipow_eq)
    then show ?thesis using False by (simp add: j_def Let_def)
  qed
qed

fun num_log :: "num \<Rightarrow> int" where
  "num_log num.One = 0"
| "num_log (num.Bit0 n) = 1 + num_log n"
| "num_log (num.Bit1 n) = 1 + num_log n"

lemma ilog_2_numeral: "ilog 2 (numeral n) = num_log n"
proof (induction n)
  case One
  then show ?case by (simp add: ilog.simps [of 2])
next
  case (Bit0 n)
  then show ?case by (simp add: ilog.simps [of 2 "numeral (num.Bit0 n)"])
next
  case (Bit1 n)
  then show ?case by (simp add: ilog.simps [of 2 "numeral (num.Bit1 n)"])
qed

definition ilog2 :: "int \<Rightarrow> int" where
  "ilog2 n = ilog 2 n"

lemma ilog2_code [code]: "ilog2 0 = 0" "ilog2 (Int.Pos n) = num_log n" "ilog2 (Int.Neg n) = 0"
  by (simp_all add: ilog2_def ilog_2_numeral) (simp_all add: ilog.simps)

lemma ilog_code [code]:
  "ilog b n = (if b < 2 \<or> n < b then 0 else if b = 2 then ilog2 n
     else let k = 2 * ilog (b * b) n in if ipow b (k + 1) \<le> n then k + 1 else k)"
proof (cases "b < 2 \<or> n < b")
  case True
  then show ?thesis by (simp add: ilog.simps [of b n])
next
  case False
  then show ?thesis using ilog_square [of b n] by (cases "b = 2") (simp_all add: ilog2_def)
qed

text \<open>The same on fractions that need not be in lowest terms: the digits and the exponent of the
  rounded value.\<close>

definition mag_frac :: "int \<Rightarrow> int \<Rightarrow> int \<Rightarrow> int" where
  "mag_frac b n d = (let m = \<bar>n\<bar> in
     if d \<le> m then ilog b (m div d) else - (ilog b (- ((- d) div m) - 1) + 1))"

lemma mag_frac:
  assumes d: "0 < d"
  shows "mag b (of_int n / of_int d) = mag_frac b n d"
proof -
  define x :: rat where "x = of_int n / of_int d"
  have a: "\<bar>x\<bar> = of_int \<bar>n\<bar> / of_int d" using d by (simp add: x_def)
  have "1 \<le> \<bar>x\<bar> \<longleftrightarrow> d \<le> \<bar>n\<bar>"
    using d by (simp add: a del: of_int_abs)
  moreover have "\<lfloor>\<bar>x\<bar>\<rfloor> = \<bar>n\<bar> div d"
    unfolding a by (rule floor_divide_of_int_eq)
  moreover have "\<lceil>1 / \<bar>x\<bar>\<rceil> = - ((- d) div \<bar>n\<bar>)"
  proof -
    have "- (1 / \<bar>x\<bar>) = of_int (- d) / of_int \<bar>n\<bar>" using d by (simp add: a)
    then show ?thesis unfolding ceiling_def by (simp only: floor_divide_of_int_eq)
  qed
  ultimately show ?thesis unfolding x_def [symmetric] by (simp add: mag_def mag_frac_def Let_def)
qed

lemma mag_code [code]: "mag b x = (case quotient_of x of (n, d) \<Rightarrow> mag_frac b n d)"
  using rat_eq_quotient [of x] mag_frac by (cases "quotient_of x") simp

definition round_frac :: "int \<Rightarrow> int \<Rightarrow> int \<Rightarrow> int \<times> int \<Rightarrow> int \<times> int" where
  "round_frac b p emin q = (case q of (n, d) \<Rightarrow> if n = 0 then (0, 0) else
     let e = max (mag_frac b n d - p + 1) emin in
     if 0 \<le> e then (rne_div n (d * ipow b e), e) else (rne_div (n * ipow b (- e)) d, e))"

definition scaled :: "int \<Rightarrow> int \<times> int \<Rightarrow> rat" where
  "scaled b q = (case q of (m, e) \<Rightarrow> of_int m * of_int b powi e)"

lemma round_sig_frac:
  assumes b: "2 \<le> b" and d: "0 < d"
  shows "round_sig b p emin (of_int n / of_int d) = scaled b (round_frac b p emin (n, d))"
proof -
  define x :: rat where "x = of_int n / of_int d"
  define e where "e = max (mag b x - p + 1) emin"
  define u where "u = ipow b \<bar>e\<bar>"
  have m: "mag_frac b n d = mag b x" by (simp add: x_def mag_frac [OF d])
  have u: "u = b ^ nat \<bar>e\<bar>" by (simp add: u_def ipow_eq)
  then have u0: "0 < u" using b by simp
  consider "n = 0" | "n \<noteq> 0" "0 \<le> e" | "n \<noteq> 0" "e < 0" by linarith
  then show ?thesis
  proof cases
    case 1
    then show ?thesis by (simp add: round_sig_def round_frac_def scaled_def)
  next
    case 2
    then have w: "of_int b powi e = (of_int u :: rat)" by (simp add: u power_int_def)
    have "x / of_int u = of_int n / of_int (d * u)" by (simp add: x_def)
    then have "rne (x / of_int u) = rne_div n (d * u)" using rne_of_div [of "d * u" n] d u0 by simp
    then show ?thesis
      using 2 w d unfolding x_def [symmetric]
      by (simp add: round_sig_def round_frac_def Let_def m e_def [symmetric] u_def scaled_def) (simp add: x_def)
  next
    case 3
    then have w: "of_int b powi e = 1 / (of_int u :: rat)"
      by (simp add: u power_int_def inverse_eq_divide power_one_over)
    have "x / (1 / of_int u) = of_int (n * u) / of_int d" by (simp add: x_def)
    then have "rne (x / (1 / of_int u)) = rne_div (n * u) d" using rne_of_div [of d "n * u"] d by simp
    moreover have "ipow b (- e) = u" using 3 by (simp add: u_def)
    ultimately show ?thesis
      using 3 w d unfolding x_def [symmetric]
      by (simp add: round_sig_def round_frac_def Let_def m e_def [symmetric] scaled_def) (simp add: x_def)
  qed
qed

text \<open>Cancelling a prime base instead of computing greatest common divisors.\<close>

function strip :: "int \<Rightarrow> int \<Rightarrow> int \<Rightarrow> int \<times> int" where
  "strip q m k = (if k \<le> 0 \<or> m mod q \<noteq> 0 then (m, k) else strip q (m div q) (k - 1))"
  by pat_completeness auto
termination
  by (relation "measure (\<lambda>(q, m, k). nat k)") auto

declare strip.simps [simp del]

lemma strip_props:
  assumes "strip q m k = (m', k')" "0 \<le> k" "q \<noteq> 0"
  shows "0 \<le> k'" "m * q ^ nat k' = m' * q ^ nat k" "k' = 0 \<or> \<not> q dvd m'" "m' dvd m"
proof -
  have "0 \<le> k' \<and> m * q ^ nat k' = m' * q ^ nat k \<and> (k' = 0 \<or> \<not> q dvd m') \<and> m' dvd m"
    using assms
  proof (induction q m k rule: strip.induct)
    case (1 q m k)
    show ?case
    proof (cases "k \<le> 0 \<or> m mod q \<noteq> 0")
      case True
      then show ?thesis using "1.prems" by (auto simp: strip.simps [of q m k] dvd_eq_mod_eq_0)
    next
      case False
      then have IH: "0 \<le> k'" "m div q * q ^ nat k' = m' * q ^ nat (k - 1)" "k' = 0 \<or> \<not> q dvd m'"
        "m' dvd m div q"
        using "1.IH" "1.prems" by (auto simp: strip.simps [of q m k])
      have m: "m = m div q * q" using False by (simp add: dvd_eq_mod_eq_0)
      have k: "nat k = Suc (nat (k - 1))" using False by (simp add: Suc_nat_eq_nat_zadd1)
      have "m * q ^ nat k' = (m div q * q ^ nat k') * q" using m by (metis mult.assoc mult.commute)
      also have "\<dots> = m' * q ^ nat k" by (simp add: IH(2) k)
      finally show ?thesis using IH m by (metis dvd_mult2)
    qed
  qed
  then show "0 \<le> k'" "m * q ^ nat k' = m' * q ^ nat k" "k' = 0 \<or> \<not> q dvd m'" "m' dvd m" by simp_all
qed

lemma coprime_5_iff: "coprime m (5 :: int) \<longleftrightarrow> \<not> 5 dvd m"
proof
  assume "\<not> 5 dvd m"
  then have "m mod 5 \<in> {1, 2, 3, 4}" by simp presburger
  moreover have "coprime m 5 \<longleftrightarrow> coprime (m mod 5) 5"
    using gcd_red_int [of m 5] by (simp add: coprime_iff_gcd_eq_1 gcd.commute)
  moreover have "coprime (1 :: int) 5" "coprime (2 :: int) 5" "coprime (3 :: int) 5" "coprime (4 :: int) 5"
    by code_simp+
  ultimately show "coprime m 5" by (elim insertE emptyE) simp_all
qed auto

text \<open>The reduced fraction of \<open>m\<close> times a power of 2 or of 10.\<close>

definition lowest_2 :: "int \<times> int \<Rightarrow> int \<times> int" where
  "lowest_2 q = (case q of (m, e) \<Rightarrow> if 0 \<le> e then (m * ipow 2 e, 1)
     else case strip 2 m (- e) of (n, k) \<Rightarrow> (n, ipow 2 k))"

definition lowest_10 :: "int \<times> int \<Rightarrow> int \<times> int" where
  "lowest_10 q = (case q of (m, e) \<Rightarrow> if 0 \<le> e then (m * ipow 10 e, 1)
     else case strip 10 m (- e) of (n, k) \<Rightarrow> case strip 2 n k of (n2, i) \<Rightarrow>
          case strip 5 n2 k of (n5, j) \<Rightarrow> (n5, ipow 2 i * ipow 5 j))"

lemma quotient_of_eqI: "coprime n d \<Longrightarrow> 0 < d \<Longrightarrow> x = of_int n / of_int d \<Longrightarrow> quotient_of x = (n, d)"
  by (simp add: Fract_of_int_quotient [symmetric] quotient_of_Fract Rat.normalize_def)

lemma scaled_neg:
  assumes "e < 0"
  shows "scaled b (m, e) = of_int m / of_int (b ^ nat (- e))"
  using assms by (simp add: scaled_def power_int_def divide_inverse power_inverse)

lemma quotient_scaled_nonneg: "0 \<le> e \<Longrightarrow> quotient_of (scaled b (m, e)) = (m * ipow b e, 1)"
  by (rule quotient_of_eqI) (simp_all add: scaled_def power_int_def ipow_eq)

lemma lowest_2: "quotient_of (scaled 2 q) = lowest_2 q"
proof -
  obtain m e where q: "q = (m, e)" by (cases q)
  show ?thesis
  proof (cases "0 \<le> e")
    case True
    then show ?thesis by (simp add: q lowest_2_def quotient_scaled_nonneg)
  next
    case False
    obtain n k where s: "strip 2 m (- e) = (n, k)" by (cases "strip 2 m (- e)")
    note p = strip_props [OF s]
    have k: "0 \<le> k" "m * 2 ^ nat k = n * 2 ^ nat (- e)" using p False by simp_all
    have "coprime n (2 ^ nat k)" using p(3) False by (auto simp: coprime_right_2_iff_odd)
    moreover have "of_int m * 2 ^ nat k = (of_int n * 2 ^ nat (- e) :: rat)"
      using arg_cong [OF k(2), of "of_int :: int \<Rightarrow> rat"] by simp
    ultimately show ?thesis
      using False k(1) unfolding q
      by (simp add: lowest_2_def s ipow_eq) (rule quotient_of_eqI, simp_all add: scaled_neg field_simps)
  qed
qed

lemma lowest_10: "quotient_of (scaled 10 q) = lowest_10 q"
proof -
  obtain m e where q: "q = (m, e)" by (cases q)
  show ?thesis
  proof (cases "0 \<le> e")
    case True
    then show ?thesis by (simp add: q lowest_10_def quotient_scaled_nonneg)
  next
    case False
    obtain n k where s: "strip 10 m (- e) = (n, k)" by (cases "strip 10 m (- e)")
    obtain n2 i where s2: "strip 2 n k = (n2, i)" by (cases "strip 2 n k")
    obtain n5 j where s5: "strip 5 n2 k = (n5, j)" by (cases "strip 5 n2 k")
    have k: "0 \<le> k" "m * 10 ^ nat k = n * 10 ^ nat (- e)" using strip_props [OF s] False by simp_all
    note p2 = strip_props [OF s2 k(1), simplified] and p5 = strip_props [OF s5 k(1), simplified]
    have "coprime n5 (2 ^ nat i)"
      using p2(3) p5(4) by (auto simp: coprime_right_2_iff_odd dest: dvd_trans)
    moreover have "coprime n5 (5 ^ nat j)" using p5(3) by (auto simp: coprime_5_iff)
    ultimately have c: "coprime n5 (2 ^ nat i * 5 ^ nat j)" by simp
    have "n * (2 ^ nat i * 5 ^ nat j) = n5 * 10 ^ nat k"
    proof -
      have "n * (2 ^ nat i * 5 ^ nat j) = (n2 * 5 ^ nat j) * 2 ^ nat k" using p2(2) by (simp add: ac_simps)
      also have "\<dots> = n5 * 5 ^ nat k * 2 ^ nat k" using p5(2) by simp
      also have "\<dots> = n5 * 10 ^ nat k" by (simp flip: power_mult_distrib)
      finally show ?thesis .
    qed
    then have n5: "n * (2 ^ nat i * 5 ^ nat j) = n5 * 10 ^ nat k" .
    define w where "w = (2 ^ nat i * 5 ^ nat j :: int)"
    have "(m * w) * 10 ^ nat k = (m * 10 ^ nat k) * w" by (simp only: ac_simps)
    also have "\<dots> = (n * w) * 10 ^ nat (- e)" unfolding k(2) by (simp only: ac_simps)
    also have "\<dots> = (n5 * 10 ^ nat (- e)) * 10 ^ nat k"
      unfolding w_def n5 by (simp only: ac_simps)
    finally have "m * (2 ^ nat i * 5 ^ nat j) = n5 * 10 ^ nat (- e)" by (simp add: w_def)
    from arg_cong [OF this, of "of_int :: int \<Rightarrow> rat"]
    have "of_int m * (2 ^ nat i * 5 ^ nat j) = (of_int n5 * 10 ^ nat (- e) :: rat)" by simp
    then have "scaled 10 (m, e) = of_int n5 / of_int (2 ^ nat i * 5 ^ nat j)"
      using False by (simp add: scaled_neg field_simps)
    then show ?thesis
      using False c p2(1) p5(1) unfolding q
      by (simp add: lowest_10_def s s2 s5 ipow_eq) (rule quotient_of_eqI, simp_all)
  qed
qed

text \<open>Fractions that are visibly in lowest terms: an odd number over a power of two.\<close>

fun pow2_num :: "num \<Rightarrow> bool" where
  "pow2_num num.One = True"
| "pow2_num (num.Bit0 n) = pow2_num n"
| "pow2_num (num.Bit1 n) = False"

lemma pow2_num: "pow2_num n \<Longrightarrow> \<exists>k. numeral n = (2 :: int) ^ k"
proof (induction n)
  case One
  then show ?case by (intro exI [of _ 0]) simp
next
  case (Bit0 n)
  then obtain k where "numeral n = (2 :: int) ^ k" by auto
  moreover have "numeral (num.Bit0 n) = 2 * (numeral n :: int)" 
    using mult_2 [of "numeral n :: int"] by (simp only: numeral_Bit0)
  ultimately have "numeral (num.Bit0 n) = (2 :: int) ^ Suc k" by simp
  then show ?case by blast
qed simp

definition is_pow2 :: "int \<Rightarrow> bool" where
  "is_pow2 n \<longleftrightarrow> 0 < n \<and> pow2_num (num_of_nat (nat n))"

lemma is_pow2_code [code]: "is_pow2 0 = False" "is_pow2 (Int.Neg n) = False" "is_pow2 (Int.Pos n) = pow2_num n"
  by (simp_all add: is_pow2_def num_of_nat_numeral_eq)

lemma is_pow2D:
  assumes "is_pow2 n"
  shows "\<exists>k. n = 2 ^ k"
proof -
  define m where "m = num_of_nat (nat n)"
  have "0 < n" "pow2_num m" using assms by (simp_all add: is_pow2_def m_def)
  moreover from this have "n = numeral m"
    using numeral_num_of_nat [of "nat n"] by (simp add: m_def) (metis int_nat_eq of_nat_numeral order_less_imp_le)
  ultimately show ?thesis using pow2_num [of m] by simp
qed

definition odd_int :: "int \<Rightarrow> bool" where
  "odd_int n \<longleftrightarrow> odd n"

lemma odd_int_code [code]:
  "odd_int 0 = False" "odd_int (Int.Pos num.One) = True" "odd_int (Int.Neg num.One) = True"
  "odd_int (Int.Pos (num.Bit0 n)) = False" "odd_int (Int.Pos (num.Bit1 n)) = True"
  "odd_int (Int.Neg (num.Bit0 n)) = False" "odd_int (Int.Neg (num.Bit1 n)) = True"
  by (simp_all add: odd_int_def)

lemma normalize_code [code]:
  "Rat.normalize p = (case p of (n, d) \<Rightarrow> if d = 1 then p else if odd_int n \<and> is_pow2 d then p
     else if 0 < d then (let g = gcd n d in (n div g, d div g))
     else if d = 0 then (0, 1) else (let g = - gcd n d in (n div g, d div g)))"
proof (cases p)
  case (Pair n d)
  have "coprime n d \<and> 0 < d" if "odd n" "is_pow2 d"
    using that(1) is_pow2D [OF that(2)] by (auto simp: coprime_right_2_iff_odd)
  then show ?thesis using Pair by (auto simp: Rat.normalize_def Let_def odd_int_def)
qed

end
