(* ===== verification/PyNum.thy ===== *)
theory PyNum
  imports Numerics
begin

text \<open>
  Python's numbers. A \<open>float\<close> and a finite \<open>Decimal\<close> are modelled by the rational number they
  denote; every arithmetic operation rounds (\<open>fadd\<close>, \<open>fmul\<close>, \<dots> for floats with \<open>fl\<close>, \<open>dadd\<close>,
  \<open>dmul\<close>, \<dots> for Decimals with \<open>dr\<close>). The locale \<open>rounding\<close> is the interface the components use:
  its laws (monotone, odd, idempotent, exact at 1) are discharged for both roundings below, and
  most facts about computed amounts need nothing else. Also here: \<open>Decimal.quantize\<close> with its
  \<open>InvalidOperation\<close>, \<open>round(x, n)\<close>, \<open>Decimal(str(x))\<close> for a float \<open>x\<close> (the shortest decimal that
  reads back as \<open>x\<close>), and the grids \<open>10 ^ -k\<close> on which Decimal arithmetic is exact.
\<close>

subsection \<open>The rounding interface\<close>

locale rounding =
  fixes rnd :: "rat \<Rightarrow> rat"
  assumes rnd_mono: "x \<le> y \<Longrightarrow> rnd x \<le> rnd y"
    and rnd_minus: "rnd (- x) = - rnd x"
    and rnd_one: "rnd 1 = 1"
    and rnd_idem: "rnd (rnd x) = rnd x"
begin

lemma rnd_zero: "rnd 0 = 0"
  using rnd_minus [of 0] by simp

lemma rnd_nonneg: "0 \<le> x \<Longrightarrow> 0 \<le> rnd x"
  using rnd_mono [of 0 x] rnd_zero by simp

lemma rnd_nonpos: "x \<le> 0 \<Longrightarrow> rnd x \<le> 0"
  using rnd_mono [of x 0] rnd_zero by simp

lemma rnd_pos_imp: "0 < rnd x \<Longrightarrow> 0 < x"
  using rnd_nonpos [of x] by linarith

lemma rnd_le_exact: "rnd y = y \<Longrightarrow> x \<le> y \<Longrightarrow> rnd x \<le> y"
  using rnd_mono [of x y] by simp

lemma rnd_ge_exact: "rnd y = y \<Longrightarrow> y \<le> x \<Longrightarrow> y \<le> rnd x"
  using rnd_mono [of y x] by simp

lemma rnd_abs: "\<bar>rnd x\<bar> = rnd \<bar>x\<bar>"
  using rnd_nonneg [of x] rnd_nonpos [of x] rnd_minus [of x] by (cases "0 \<le> x") auto

lemma rnd_unit: "0 \<le> x \<Longrightarrow> x \<le> 1 \<Longrightarrow> 0 \<le> rnd x \<and> rnd x \<le> 1"
  using rnd_nonneg rnd_le_exact [OF rnd_one] by blast

lemma rnd_unit_abs: "\<bar>x\<bar> \<le> 1 \<Longrightarrow> \<bar>rnd x\<bar> \<le> 1"
  using rnd_unit [of "\<bar>x\<bar>"] rnd_abs by simp

lemma rnd_ratio_le_one: "x \<le> y \<Longrightarrow> 0 < y \<Longrightarrow> rnd (x / y) \<le> 1"
  by (rule rnd_le_exact [OF rnd_one]) simp

lemma rnd_scale_le: "rnd y = y \<Longrightarrow> 0 \<le> y \<Longrightarrow> x \<le> 1 \<Longrightarrow> rnd (x * y) \<le> y"
  using mult_right_mono [of x 1 y] by (intro rnd_le_exact) simp_all

lemma rnd_scale_ge: "rnd y = y \<Longrightarrow> 0 \<le> y \<Longrightarrow> 1 \<le> x \<Longrightarrow> y \<le> rnd (x * y)"
  by (rule rnd_ge_exact) (simp_all add: mult_le_cancel_right1)

lemma rnd_diff_nonneg: "y \<le> x \<Longrightarrow> 0 \<le> rnd (x - y)"
  by (rule rnd_nonneg) simp

lemma rnd_diff_le: "rnd x = x \<Longrightarrow> 0 \<le> y \<Longrightarrow> rnd (x - y) \<le> x"
  by (rule rnd_le_exact) simp_all

end

subsection \<open>The two roundings of Python\<close>

text \<open>IEEE 754 binary64: 53 bits, least exponent -1074.\<close>

definition fl :: "rat \<Rightarrow> rat" where
  "fl = round_sig 2 53 (- 1074)"

text \<open>The default decimal context: 28 digits, \<open>Etiny = Emin - prec + 1 = -1000026\<close>.\<close>

definition dr :: "rat \<Rightarrow> rat" where
  "dr = round_sig 10 28 (- 1000026)"

text \<open>Evaluation: values that are exact already are recognised without dividing.\<close>

definition fl_frac :: "int \<times> int \<Rightarrow> rat" where
  "fl_frac q = (if is_pow2 (snd q) \<and> \<bar>fst q\<bar> \<le> 2 ^ 53 \<and> snd q \<le> 2 ^ 1000 then Fract (fst q) (snd q)
     else case lowest_2 (round_frac 2 53 (- 1074) q) of (n, d) \<Rightarrow> Fract n d)"

definition dr_frac :: "int \<times> int \<Rightarrow> rat" where
  "dr_frac q = (if 10 ^ 20 mod snd q = 0 \<and> \<bar>fst q\<bar> \<le> 10 ^ 8 * snd q then Fract (fst q) (snd q)
     else case lowest_10 (round_frac 10 28 (- 1000026) q) of (n, d) \<Rightarrow> Fract n d)"

lemma Fract_quotient: "quotient_of x = (n, d) \<Longrightarrow> Fract n d = x"
  using rat_eq_quotient [of x n d] by (simp add: Fract_of_int_quotient)

lemma fl_frac:
  assumes "0 < d"
  shows "fl (of_int n / of_int d) = fl_frac (n, d)"
proof (cases "is_pow2 d \<and> \<bar>n\<bar> \<le> 2 ^ 53 \<and> d \<le> 2 ^ 1000")
  case True
  then obtain k where k: "d = 2 ^ k" using is_pow2D by blast
  have "(2 :: int) ^ k \<le> 2 ^ 1000" using True unfolding k by (elim conjE)
  then have "k \<le> 1000" by (rule power_le_imp_le_exp [rotated]) simp
  then have "fl (of_int n * of_int 2 powi (- int k)) = of_int n * of_int 2 powi (- int k)"
    using True unfolding fl_def by (intro round_sig_exact) simp_all
  moreover have "of_int n * of_int 2 powi (- int k) = (of_int n / of_int d :: rat)"
    by (simp add: k power_int_minus divide_inverse)
  ultimately show ?thesis using True by (simp add: fl_frac_def Fract_of_int_quotient)
next
  case False
  have "fl (of_int n / of_int d) = scaled 2 (round_frac 2 53 (- 1074) (n, d))"
    unfolding fl_def by (rule round_sig_frac [OF _ assms]) simp
  with False show ?thesis
    by (auto simp: fl_frac_def lowest_2 [symmetric] split: prod.split dest: Fract_quotient)
qed

lemma fl_code [code]: "fl x = fl_frac (quotient_of x)"
  using rat_eq_quotient [of x] fl_frac by (cases "quotient_of x") simp

interpretation binary64: rounding fl
proof
  show "fl 1 = 1" using round_sig_power [of 2 53 "- 1074" 0] by (simp add: fl_def)
qed (simp_all add: fl_def round_sig_mono round_sig_minus round_sig_idem)

interpretation decimal28: rounding dr
proof
  show "dr 1 = 1" using round_sig_power [of 10 28 "- 1000026" 0] by (simp add: dr_def)
qed (simp_all add: dr_def round_sig_mono round_sig_minus round_sig_idem)

subsection \<open>Exact Decimal arithmetic on a grid\<close>

definition grid :: "nat \<Rightarrow> rat \<Rightarrow> bool" where
  "grid k x \<longleftrightarrow> (\<exists>m. x = of_int m / 10 ^ k)"

lemma grid_add: "grid k x \<Longrightarrow> grid k y \<Longrightarrow> grid k (x + y)"
  unfolding grid_def by (metis add_divide_distrib of_int_add)

lemma grid_minus: "grid k x \<Longrightarrow> grid k (- x)"
  unfolding grid_def by (metis minus_divide_left of_int_minus)

lemma grid_diff: "grid k x \<Longrightarrow> grid k y \<Longrightarrow> grid k (x - y)"
  using grid_add [of k x "- y"] grid_minus [of k y] by simp

lemma grid_zero: "grid k 0"
  unfolding grid_def by (rule exI [of _ 0]) simp

lemma grid_mult: "grid j x \<Longrightarrow> grid k y \<Longrightarrow> grid (j + k) (x * y)"
  unfolding grid_def by (metis of_int_mult power_add times_divide_times_eq)

lemma grid_weaken:
  assumes "grid j x" "j \<le> k"
  shows "grid k x"
proof -
  have "grid (k - j) 1" unfolding grid_def by (rule exI [of _ "10 ^ (k - j)"]) simp
  with grid_mult [OF assms(1), of "k - j" 1] assms(2) show ?thesis by simp
qed

lemma dr_exact:
  assumes "grid k x" "\<bar>x\<bar> \<le> 10 ^ 28 / 10 ^ k" "k \<le> 1000"
  shows "dr x = x"
proof -
  obtain m where m: "x = of_int m / 10 ^ k" using assms(1) by (auto simp: grid_def)
  have "\<bar>of_int m :: rat\<bar> / 10 ^ k \<le> 10 ^ 28 / 10 ^ k" using assms(2) by (simp add: m)
  then have "\<bar>of_int m :: rat\<bar> \<le> 10 ^ 28" by (simp add: divide_le_cancel)
  then have "of_int \<bar>m\<bar> \<le> (of_int (10 ^ 28) :: rat)" by simp
  then have "\<bar>m\<bar> \<le> 10 ^ nat 28" by (simp only: of_int_le_iff) simp
  moreover have "x = of_int m * of_int 10 powi (- int k)"
    by (simp add: m power_int_minus divide_inverse)
  ultimately show ?thesis
    using round_sig_exact [of 10 28 m "- 1000026" "- int k"] assms(3) by (simp add: dr_def)
qed

lemma grid_ge:
  assumes "grid k x" "0 < x"
  shows "1 / 10 ^ k \<le> x"
proof -
  obtain m where m: "x = of_int m / 10 ^ k" using assms(1) by (auto simp: grid_def)
  then have "(0 :: rat) < of_int m" using assms(2) by (simp add: zero_less_divide_iff)
  then have "of_int 1 \<le> (of_int m :: rat)" by simp
  then show ?thesis by (simp add: m divide_right_mono)
qed

lemma dr_grid_pos:
  assumes "grid k x" "0 < x" "k \<le> 28"
  shows "0 < dr x"
proof -
  have "(1 :: rat) \<le> 10 ^ 28 / 10 ^ k"
    using power_increasing [OF assms(3), of "10 :: rat"] by simp
  then have "\<bar>1 / 10 ^ k :: rat\<bar> \<le> 10 ^ 28 / 10 ^ k"
    by (simp add: divide_right_mono)
  moreover have "grid k (1 / 10 ^ k)" unfolding grid_def by (rule exI [of _ 1]) simp
  ultimately have "dr (1 / 10 ^ k) = 1 / 10 ^ k" using assms(3) by (intro dr_exact) auto
  then have "1 / 10 ^ k \<le> dr x" by (rule decimal28.rnd_ge_exact) (rule grid_ge [OF assms(1,2)])
  then show ?thesis using order_less_le_trans [of 0 "1 / 10 ^ k" "dr x"] by simp
qed

text \<open>The relative error of a Decimal operation.\<close>

lemma powi_neg: "(10 :: rat) powi (- int k) = 1 / 10 ^ k"
  by (simp add: power_int_minus inverse_eq_divide)

lemma dr_near:
  assumes "1 / 10 ^ 40 \<le> \<bar>x\<bar>"
  shows "\<bar>dr x - x\<bar> \<le> \<bar>x\<bar> / (2 * 10 ^ 27)"
proof -
  have x: "x \<noteq> 0" using assms by auto
  have p: "(of_int 10 :: rat) powi (- 41 + 1) = 1 / 10 ^ 40"
    using powi_neg [of 40] by (simp only: of_int_numeral) simp
  have "\<not> \<bar>x\<bar> < of_int 10 powi (- 41 + 1)" unfolding p not_less by (rule assms)
  then have "\<not> mag 10 x \<le> - 41" using mag_le_iff [of 10 x "- 41"] x by simp
  then have e: "- 1000026 \<le> mag 10 x - 28 + 1" by linarith
  have q: "(of_int 10 :: rat) powi (1 - 28) = 1 / 10 ^ 27"
    using powi_neg [of 27] by (simp only: of_int_numeral) simp
  have "\<bar>dr x - x\<bar> \<le> \<bar>x\<bar> * of_int 10 powi (1 - 28) / 2"
    unfolding dr_def by (rule round_sig_near [OF _ x e]) simp
  then show ?thesis unfolding q by (simp only: divide_divide_eq_left times_divide_eq_right mult_1_right mult.commute)
qed

subsection \<open>Operations\<close>

definition fadd :: "rat \<Rightarrow> rat \<Rightarrow> rat" where "fadd a b = fl (a + b)"
definition fsub :: "rat \<Rightarrow> rat \<Rightarrow> rat" where "fsub a b = fl (a - b)"
definition fmul :: "rat \<Rightarrow> rat \<Rightarrow> rat" where "fmul a b = fl (a * b)"
definition fdiv :: "rat \<Rightarrow> rat \<Rightarrow> rat" where "fdiv a b = fl (a / b)"
definition fround :: "nat \<Rightarrow> rat \<Rightarrow> rat" where
  "fround n x = fl (of_int (rne (x * 10 ^ n)) / 10 ^ n)"

definition dadd :: "rat \<Rightarrow> rat \<Rightarrow> rat" where "dadd a b = dr (a + b)"
definition dsub :: "rat \<Rightarrow> rat \<Rightarrow> rat" where "dsub a b = dr (a - b)"
definition dmul :: "rat \<Rightarrow> rat \<Rightarrow> rat" where "dmul a b = dr (a * b)"
definition ddiv :: "rat \<Rightarrow> rat \<Rightarrow> rat" where "ddiv a b = dr (a / b)"

text \<open>Evaluation without reducing the intermediate fractions.\<close>

definition frac_add :: "int \<times> int \<Rightarrow> int \<times> int \<Rightarrow> int \<times> int" where
  "frac_add p q = (case p of (a, b) \<Rightarrow> case q of (c, d) \<Rightarrow> if b = d then (a + c, b) else (a * d + c * b, b * d))"

definition frac_neg :: "int \<times> int \<Rightarrow> int \<times> int" where
  "frac_neg p = (case p of (a, b) \<Rightarrow> (- a, b))"

definition frac_mult :: "int \<times> int \<Rightarrow> int \<times> int \<Rightarrow> int \<times> int" where
  "frac_mult p q = (case p of (a, b) \<Rightarrow> case q of (c, d) \<Rightarrow> (a * c, b * d))"

definition frac_div :: "int \<times> int \<Rightarrow> int \<times> int \<Rightarrow> int \<times> int" where
  "frac_div p q = (case p of (a, b) \<Rightarrow> case q of (c, d) \<Rightarrow>
     if c = 0 then (0, 1) else if 0 < c then (a * d, b * c) else (- (a * d), - (b * c)))"

lemma frac_ops:
  assumes "quotient_of x = p" "quotient_of y = q"
  shows "\<exists>n d. frac_add p q = (n, d) \<and> 0 < d \<and> x + y = of_int n / of_int d"
    "\<exists>n d. frac_add p (frac_neg q) = (n, d) \<and> 0 < d \<and> x - y = of_int n / of_int d"
    "\<exists>n d. frac_mult p q = (n, d) \<and> 0 < d \<and> x * y = of_int n / of_int d"
    "\<exists>n d. frac_div p q = (n, d) \<and> 0 < d \<and> x / y = of_int n / of_int d"
proof -
  obtain a b c d where pq: "p = (a, b)" "q = (c, d)" by (cases p; cases q)
  have xy: "x = of_int a / of_int b" "0 < b" "y = of_int c / of_int d" "0 < d"
    using rat_eq_quotient assms pq by auto
  have bd: "of_int b \<noteq> (0 :: rat)" "of_int d \<noteq> (0 :: rat)" using xy(2,4) by simp_all
  have add: "\<exists>n k. frac_add (a, b) (c', d) = (n, k) \<and> 0 < k \<and>
      of_int a / of_int b + of_int c' / of_int d = (of_int n / of_int k :: rat)" for c'
  proof (cases "b = d")
    case True
    then show ?thesis using xy(4) by (simp add: frac_add_def add_divide_distrib)
  next
    case False
    then show ?thesis using xy(2,4) by (simp add: frac_add_def add_frac_eq [OF bd])
  qed
  show "\<exists>n d. frac_add p q = (n, d) \<and> 0 < d \<and> x + y = of_int n / of_int d"
    using add [of c] by (simp add: pq xy(1,3))
  show "\<exists>n d. frac_add p (frac_neg q) = (n, d) \<and> 0 < d \<and> x - y = of_int n / of_int d"
    using add [of "- c"] by (simp add: pq xy(1,3) frac_neg_def)
  show "\<exists>n d. frac_mult p q = (n, d) \<and> 0 < d \<and> x * y = of_int n / of_int d"
    using xy(2,4) by (simp add: pq xy(1,3) frac_mult_def)
  have "0 < - (b * c)" if "c < 0" using that xy(2) by (simp add: mult_less_0_iff)
  then show "\<exists>n d. frac_div p q = (n, d) \<and> 0 < d \<and> x / y = of_int n / of_int d"
    using xy(2) by (cases c "0 :: int" rule: linorder_cases) (simp_all add: pq xy(1,3) frac_div_def)
qed

lemma float_code [code]:
  "fadd a b = fl_frac (frac_add (quotient_of a) (quotient_of b))"
  "fsub a b = fl_frac (frac_add (quotient_of a) (frac_neg (quotient_of b)))"
  "fmul a b = fl_frac (frac_mult (quotient_of a) (quotient_of b))"
  "fdiv a b = fl_frac (frac_div (quotient_of a) (quotient_of b))"
  using frac_ops [OF refl refl, of a b] fl_frac
  by (auto simp: fadd_def fsub_def fmul_def fdiv_def)

lemma dr_frac:
  assumes "0 < d"
  shows "dr (of_int n / of_int d) = dr_frac (n, d)"
proof (cases "10 ^ 20 mod d = 0 \<and> \<bar>n\<bar> \<le> 10 ^ 8 * d")
  case True
  then have "d dvd 10 ^ 20" by (simp only: dvd_eq_mod_eq_0)
  then obtain c where c: "10 ^ 20 = d * c" by (rule dvdE)
  from arg_cong [OF this, of "of_int :: int \<Rightarrow> rat"] have "(10 ^ 20 :: rat) = of_int d * of_int c" by simp
  moreover have "c \<noteq> 0" using c by auto
  ultimately have "of_int n / of_int d = (of_int (n * c) / 10 ^ 20 :: rat)"
    using assms by (simp only: of_int_mult mult_divide_mult_cancel_right)
  then have "grid 20 (of_int n / of_int d)" unfolding grid_def by blast
  moreover have "\<bar>of_int n / of_int d\<bar> \<le> (10 ^ 28 / 10 ^ 20 :: rat)"
  proof -
    have "(of_int \<bar>n\<bar> :: rat) \<le> of_int (10 ^ 8 * d)" using True by (simp only: of_int_le_iff)
    then show ?thesis using assms by (simp add: pos_divide_le_eq)
  qed
  ultimately have "dr (of_int n / of_int d) = of_int n / of_int d" by (rule dr_exact) simp
  then show ?thesis using True by (simp add: dr_frac_def Fract_of_int_quotient)
next
  case False
  have "dr (of_int n / of_int d) = scaled 10 (round_frac 10 28 (- 1000026) (n, d))"
    unfolding dr_def by (rule round_sig_frac [OF _ assms]) simp
  with False show ?thesis
    by (auto simp: dr_frac_def lowest_10 [symmetric] split: prod.split dest: Fract_quotient)
qed

lemma dr_code [code]: "dr x = dr_frac (quotient_of x)"
  using rat_eq_quotient [of x] dr_frac by (cases "quotient_of x") simp

lemma decimal_code [code]:
  "dadd a b = dr_frac (frac_add (quotient_of a) (quotient_of b))"
  "dsub a b = dr_frac (frac_add (quotient_of a) (frac_neg (quotient_of b)))"
  "dmul a b = dr_frac (frac_mult (quotient_of a) (quotient_of b))"
  "ddiv a b = dr_frac (frac_div (quotient_of a) (quotient_of b))"
  using frac_ops [OF refl refl, of a b] dr_frac
  by (auto simp: dadd_def dsub_def dmul_def ddiv_def)

text \<open>\<open>ROUND_DOWN\<close>, and \<open>x.quantize(Decimal(10) ** -n, rounding=r)\<close>: \<open>InvalidOperation\<close> (here \<^term>\<open>None\<close>)
  when the result would have more than 28 digits.\<close>

definition toward_zero :: "rat \<Rightarrow> int" where
  "toward_zero x = (if 0 \<le> x then \<lfloor>x\<rfloor> else \<lceil>x\<rceil>)"

definition quantize :: "(rat \<Rightarrow> int) \<Rightarrow> nat \<Rightarrow> rat \<Rightarrow> rat option" where
  "quantize r n x = (let c = r (x * 10 ^ n) in
     if \<bar>c\<bar> < 10 ^ 28 then Some (of_int c / 10 ^ n) else None)"

subsection \<open>Decimal(str(x))\<close>

text \<open>\<open>repr\<close> of a float is the shortest decimal string that reads back as the float, the nearest
  one where several have that length. \<open>dec_candidates x n\<close> are the two decimals of \<open>n\<close> digits around
  \<open>x\<close>, the nearest first; 17 digits always suffice for binary64.\<close>

definition dec_candidates :: "rat \<Rightarrow> int \<Rightarrow> rat list" where
  "dec_candidates x n = (let u = 10 powi (mag 10 x - n + 1); q = x / u;
     lo = of_int \<lfloor>q\<rfloor> * u; hi = of_int \<lceil>q\<rceil> * u
   in if rne q = \<lfloor>q\<rfloor> then [lo, hi] else [hi, lo])"

fun dec_search :: "rat \<Rightarrow> nat \<Rightarrow> int \<Rightarrow> rat" where
  "dec_search x 0 n = x"
| "dec_search x (Suc k) n =
     (case List.find (\<lambda>c. fl c = x) (dec_candidates x n) of
        Some c \<Rightarrow> c | None \<Rightarrow> dec_search x k (n + 1))"

definition dec_of_float :: "rat \<Rightarrow> rat" where
  "dec_of_float x = (if x = 0 then 0 else dec_search x 17 1)"

subsection \<open>Facts about the operations\<close>

lemmas float_ops = fadd_def fsub_def fmul_def fdiv_def
lemmas decimal_ops = dadd_def dsub_def dmul_def ddiv_def

lemma toward_zero_mono:
  assumes "x \<le> y"
  shows "toward_zero x \<le> toward_zero y"
proof (cases "x < 0 \<and> 0 \<le> y")
  case True
  then have "\<lceil>x\<rceil> \<le> 0" "0 \<le> \<lfloor>y\<rfloor>" by (simp_all add: ceiling_le_iff)
  then have "\<lceil>x\<rceil> \<le> \<lfloor>y\<rfloor>" by (rule order_trans)
  then show ?thesis using True by (simp add: toward_zero_def)
next
  case False
  then show ?thesis
    using floor_mono [OF assms] ceiling_mono [OF assms] assms by (auto simp: toward_zero_def)
qed

lemma quantize_eq: "quantize r n x = Some y \<Longrightarrow> y = of_int (r (x * 10 ^ n)) / 10 ^ n"
  by (auto simp: quantize_def Let_def split: if_splits)

lemma quantize_grid: "quantize r n x = Some y \<Longrightarrow> grid n y"
  unfolding grid_def using quantize_eq by blast

lemma quantize_exact:
  assumes "quantize r n x = Some y" "n \<le> 1000"
  shows "dr y = y"
proof (rule dr_exact [OF quantize_grid [OF assms(1)] _ assms(2)])
  define c where "c = r (x * 10 ^ n)"
  have y: "y = of_int c / 10 ^ n" using quantize_eq [OF assms(1)] by (simp add: c_def)
  have "\<bar>c\<bar> \<le> 10 ^ 28"
    using assms(1) by (auto simp: quantize_def Let_def c_def split: if_splits)
  then have "of_int \<bar>c\<bar> \<le> (of_int (10 ^ 28) :: rat)" by (simp only: of_int_le_iff)
  then show "\<bar>y\<bar> \<le> 10 ^ 28 / 10 ^ n" by (simp add: y divide_right_mono)
qed

lemma quantize_mono:
  assumes "mono r" "x \<le> x'" "quantize r n x = Some y" "quantize r n x' = Some y'"
  shows "y \<le> y'"
proof -
  have "r (x * 10 ^ n) \<le> r (x' * 10 ^ n)"
    using assms(1,2) by (simp add: monoD mult_right_mono)
  then have "(of_int (r (x * 10 ^ n)) :: rat) \<le> of_int (r (x' * 10 ^ n))" by (simp only: of_int_le_iff)
  then show ?thesis
    using quantize_eq [OF assms(3)] quantize_eq [OF assms(4)] by (simp add: divide_right_mono)
qed

lemma mono_toward_zero: "mono toward_zero"
  by (rule monoI) (rule toward_zero_mono)

lemma mono_rne: "mono rne"
  by (rule monoI) (rule rne_mono)

lemma quantize_down_nonneg:
  assumes "0 \<le> x" "quantize toward_zero n x = Some y"
  shows "0 \<le> y \<and> y \<le> x"
proof -
  have "0 \<le> x * 10 ^ n" using assms(1) by simp
  then have "0 \<le> \<lfloor>x * 10 ^ n\<rfloor>" and "of_int \<lfloor>x * 10 ^ n\<rfloor> \<le> x * 10 ^ n" by simp_all
  then show ?thesis
    using quantize_eq [OF assms(2)] \<open>0 \<le> x * 10 ^ n\<close>
    by (simp add: toward_zero_def pos_divide_le_eq)
qed

lemma quantize_rne_nonpos:
  assumes "x \<le> 0" "quantize rne n x = Some y"
  shows "y \<le> 0"
proof -
  have "rne (x * 10 ^ n) \<le> rne 0" by (rule rne_mono) (use assms(1) in \<open>simp add: mult_le_0_iff\<close>)
  then have "(of_int (rne (x * 10 ^ n)) :: rat) \<le> of_int 0" by (simp only: of_int_le_iff rne_0)
  then show ?thesis using quantize_eq [OF assms(2)] by (simp add: divide_nonpos_pos)
qed

text \<open>A float survives the trip through \<open>Decimal(str(x))\<close> and back, so the conversion is strictly
  monotone and keeps the sign.\<close>

lemma dec_search_fl: "fl x = x \<Longrightarrow> fl (dec_search x k n) = x"
proof (induction x k n rule: dec_search.induct)
  case (2 x k n)
  then show ?case by (auto split: option.split simp: find_Some_iff)
qed simp

lemma dec_of_float_roundtrip: "fl x = x \<Longrightarrow> fl (dec_of_float x) = x"
  by (simp add: dec_of_float_def dec_search_fl binary64.rnd_zero)

lemma dec_of_float_strict_mono:
  assumes "fl x = x" "fl y = y" "x < y"
  shows "dec_of_float x < dec_of_float y"
proof (rule ccontr)
  assume "\<not> dec_of_float x < dec_of_float y"
  then have "fl (dec_of_float y) \<le> fl (dec_of_float x)" by (intro binary64.rnd_mono) simp
  then show False using assms by (simp add: dec_of_float_roundtrip)
qed

lemma dec_of_float_mono:
  "fl x = x \<Longrightarrow> fl y = y \<Longrightarrow> x \<le> y \<Longrightarrow> dec_of_float x \<le> dec_of_float y"
  using dec_of_float_strict_mono [of x y] by (cases "x = y") auto

lemma dec_of_float_0 [simp]: "dec_of_float 0 = 0"
  by (simp add: dec_of_float_def)

lemma dec_of_float_pos: "fl x = x \<Longrightarrow> 0 < x \<Longrightarrow> 0 < dec_of_float x"
  using dec_of_float_strict_mono [of 0 x] binary64.rnd_zero by simp

lemma dec_of_float_nonneg: "fl x = x \<Longrightarrow> 0 \<le> x \<Longrightarrow> 0 \<le> dec_of_float x"
  using dec_of_float_mono [of 0 x] binary64.rnd_zero by simp

lemma dec_of_float_1 [simp]: "dec_of_float 1 = 1"
  by code_simp

lemma dec_of_float_le_one: "fl x = x \<Longrightarrow> x \<le> 1 \<Longrightarrow> dec_of_float x \<le> 1"
  using dec_of_float_mono [of x 1] binary64.rnd_one by simp

lemma float_results [simp]:
  "fl (fl x) = fl x" "fl (fadd a b) = fadd a b" "fl (fsub a b) = fsub a b"
  "fl (fmul a b) = fmul a b" "fl (fdiv a b) = fdiv a b" "fl (fround n x) = fround n x"
  by (simp_all add: float_ops fround_def binary64.rnd_idem)

lemma decimal_results [simp]:
  "dr (dr x) = dr x" "dr (dadd a b) = dadd a b" "dr (dsub a b) = dsub a b"
  "dr (dmul a b) = dmul a b" "dr (ddiv a b) = ddiv a b"
  by (simp_all add: decimal_ops decimal28.rnd_idem)

lemma fl_of_small_int:
  assumes "\<bar>n\<bar> \<le> 2 ^ 53"
  shows "fl (of_int n) = of_int n"
  using round_sig_exact [of 2 53 n "- 1074" 0] assms by (simp add: fl_def)

end
