(* ===== verification/Prelude.thy ===== *)
theory Prelude
  imports "HOL-Library.AList" PyNum
begin

text \<open>
  What the components share: the names of the model's types, dictionaries with insertion order
  (association lists with distinct keys, after Python's \<open>dict\<close>), histories of bounded length, the
  failure of a raising function (a sum whose left side is the exception) and the collections of
  facts the component proofs use.
\<close>

named_theorems inv_intros \<open>introduction rules of the components' invariants\<close>
named_theorems float_consts \<open>values of float literals read as decimals\<close>

type_synonym symbol = string
type_synonym uuid = nat
type_synonym time = int  \<comment> \<open>microseconds since the epoch\<close>
type_synonym money = rat  \<comment> \<open>a \<open>Decimal\<close> amount\<close>
type_synonym ('k, 'v) dict = "('k \<times> 'v) list"

abbreviation seconds :: "time \<Rightarrow> rat" where
  "seconds d \<equiv> fl (of_int d / 10 ^ 6)"  \<comment> \<open>\<open>timedelta.total_seconds()\<close>\<close>

subsection \<open>Dictionaries\<close>

abbreviation dict_ok :: "('k, 'v) dict \<Rightarrow> bool" where
  "dict_ok d \<equiv> distinct (map fst d)"

abbreviation dvals :: "('k, 'v) dict \<Rightarrow> 'v list" where
  "dvals d \<equiv> map snd d"

lemma dict_ok_update [simp, intro]: "dict_ok d \<Longrightarrow> dict_ok (AList.update k v d)"
  by (rule distinct_update)

lemma dict_ok_delete [simp, intro]: "dict_ok d \<Longrightarrow> dict_ok (AList.delete k d)"
  by (rule distinct_delete)

lemma map_of_update [simp]: "map_of (AList.update k v d) j = (if j = k then Some v else map_of d j)"
  by (simp add: update_conv)

lemma map_of_delete [simp]: "map_of (AList.delete k d) j = (if j = k then None else map_of d j)"
  by (simp add: delete_conv)

lemma update_new: "map_of d k = None \<Longrightarrow> AList.update k v d = d @ [(k, v)]"
  by (induction d) (auto split: if_splits)

lemma delete_absent: "k \<notin> fst ` set d \<Longrightarrow> AList.delete k d = d"
  by (induction d) (auto simp: AList.delete_eq)

lemma length_delete_present: "dict_ok d \<Longrightarrow> map_of d k = Some v \<Longrightarrow> Suc (length (AList.delete k d)) = length d"
proof (induction d)
  case (Cons p d)
  then show ?case by (cases p) (auto simp: delete_absent)
qed simp

lemma length_update_present: "map_of d k = Some v \<Longrightarrow> length (AList.update k w d) = length d"
  by (induction d) (auto split: if_splits)

lemma length_update_le: "length (AList.update k v d) \<le> Suc (length d)"
  by (induction d) auto

lemma update_delete_new: "map_of d k = None \<Longrightarrow> AList.delete k (AList.update k v d) = d"
  by (induction d) (auto split: if_splits simp: AList.delete_eq)

lemma keys_delete: "fst ` set (AList.delete k d) = fst ` set d - {k}"
proof -
  have "set (map fst (AList.delete k d)) = set (map fst d) - {k}" unfolding delete_keys by simp
  then show ?thesis by simp
qed

lemma keys_update: "fst ` set (AList.update k v d) = insert k (fst ` set d)"
  by (simp add: dom_update)

lemma map_of_keys: "map_of d k = Some v \<Longrightarrow> k \<in> fst ` set d"
  by (rule image_eqI [of _ _ "(k, v)"]) (simp_all add: map_of_SomeD)

lemma sum_values_delete:
  fixes f :: "'v \<Rightarrow> 'a::ab_group_add"
  assumes "dict_ok d" "map_of d k = Some v"
  shows "sum_list (map f (dvals (AList.delete k d))) = sum_list (map f (dvals d)) - f v"
  using assms
proof (induction d)
  case (Cons p d)
  then show ?case by (cases p) (auto simp: delete_absent)
qed simp

lemma sum_values_update_new:
  fixes f :: "'v \<Rightarrow> 'a::ab_group_add"
  shows "map_of d k = None \<Longrightarrow>
    sum_list (map f (dvals (AList.update k v d))) = sum_list (map f (dvals d)) + f v"
  by (simp add: update_new)

lemma values_update_subset: "set (dvals (AList.update k v d)) \<subseteq> insert v (set (dvals d))"
  by (induction d) auto

lemma values_delete_subset: "set (dvals (AList.delete k d)) \<subseteq> set (dvals d)"
  by (auto simp: AList.delete_eq)

lemma set_update_subset: "set (AList.update k v d) \<subseteq> insert (k, v) (set d)"
  by (induction d) auto

lemma set_delete_subset: "set (AList.delete k d) \<subseteq> set d"
  by (auto simp: AList.delete_eq)

lemma map_of_mem: "map_of d k = Some v \<Longrightarrow> v \<in> set (dvals d)"
  by (metis map_of_SomeD image_eqI list.set_map snd_conv)

subsection \<open>Bounded histories\<close>

text \<open>An \<open>OrderedDict\<close> that evicts its oldest entry when it exceeds a bound, and a \<open>deque(maxlen=n)\<close>.\<close>

definition remember :: "nat \<Rightarrow> 'k \<Rightarrow> 'v \<Rightarrow> ('k, 'v) dict \<Rightarrow> ('k, 'v) dict" where
  "remember cap k v d = (let d' = AList.update k v d in if cap < length d' then tl d' else d')"

definition push_capped :: "nat \<Rightarrow> 'a \<Rightarrow> 'a list \<Rightarrow> 'a list" where
  "push_capped cap x xs = (let ys = xs @ [x] in drop (length ys - cap) ys)"

lemma dict_ok_remember [simp, intro]: "dict_ok d \<Longrightarrow> dict_ok (remember cap k v d)"
  using dict_ok_update [of d k v] by (auto simp: remember_def Let_def map_tl distinct_tl)

lemma length_remember: "length d \<le> cap \<Longrightarrow> length (remember cap k v d) \<le> cap"
  using length_update_le [of k v d] by (auto simp: remember_def Let_def)

lemma remember_lookup: "1 \<le> cap \<Longrightarrow> dict_ok d \<Longrightarrow> length d \<le> cap \<Longrightarrow> map_of (remember cap k v d) k = Some v"
proof -
  assume cap: "1 \<le> cap" "length d \<le> cap" and ok: "dict_ok d"
  show ?thesis
  proof (cases "cap < length (AList.update k v d)")
    case True
    then have new: "map_of d k = None"
      using cap length_update_present [of d k _ v] by (cases "map_of d k") auto
    obtain p d' where "d = p # d'" using True cap new by (cases d) auto
    then show ?thesis using new ok True
      by (auto simp: remember_def Let_def update_new map_of_append split: if_splits
          option.splits dest: map_of_SomeD)
  qed (simp add: remember_def Let_def)
qed

text \<open>An entry survives as many insertions of other keys as there are places left.\<close>

lemma remember_keeps_recent:
  assumes "d = xs @ (k, v) # ys" "length ys \<le> m" "Suc m < cap" "map_of d j = None" "length d \<le> cap"
  shows "\<exists>xs' ys'. remember cap j w d = xs' @ (k, v) # ys' \<and> length ys' \<le> Suc m"
proof -
  have u: "AList.update j w d = xs @ (k, v) # (ys @ [(j, w)])"
    using assms(4) by (simp add: update_new assms(1))
  show ?thesis
  proof (cases "cap < length (AList.update j w d)")
    case True
    then obtain p xs' where "xs = p # xs'" using assms(2,3) u by (cases xs) auto
    then show ?thesis using True u assms(2)
      by (intro exI [of _ xs'] exI [of _ "ys @ [(j, w)]"]) (simp add: remember_def Let_def)
  next
    case False
    then show ?thesis using u assms(2)
      by (intro exI [of _ xs] exI [of _ "ys @ [(j, w)]"]) (simp add: remember_def Let_def)
  qed
qed

lemma remember_new_last:
  assumes "map_of d k = None" "1 \<le> cap" "length d \<le> cap"
  shows "\<exists>xs. remember cap k v d = xs @ [(k, v)]"
proof (cases "cap < length (AList.update k v d)")
  case True
  then obtain p d' where "d = p # d'" using assms by (cases d) auto
  then show ?thesis using True assms(1) by (auto simp: remember_def Let_def update_new)
next
  case False
  then show ?thesis using assms(1) by (auto simp: remember_def Let_def update_new)
qed

text \<open>The contract of a component that remembers one new key per step at most: what it remembered
  last stays for as many steps as the memory has places.\<close>

locale bounded_memory =
  fixes step :: "'e \<Rightarrow> 's \<Rightarrow> 's"
    and memory :: "'s \<Rightarrow> ('k, 'v) dict"
    and cap :: nat
    and inv :: "'s \<Rightarrow> bool"
    and ok :: "'e \<Rightarrow> bool"
  assumes step_inv: "ok e \<Longrightarrow> inv s \<Longrightarrow> inv (step e s)"
    and inv_memory: "inv s \<Longrightarrow> dict_ok (memory s) \<and> length (memory s) \<le> cap"
    and step_memory: "inv s \<Longrightarrow> memory (step e s) = memory s \<or>
      (\<exists>k v. map_of (memory s) k = None \<and> memory (step e s) = remember cap k v (memory s))"
begin

lemma run_inv: "list_all ok es \<Longrightarrow> inv s \<Longrightarrow> inv (fold step es s)"
  by (induction es arbitrary: s) (simp_all add: step_inv)

lemma run_keeps:
  assumes "list_all ok es" "inv s" "length es + m < cap" "memory s = xs @ (k, v) # ys" "length ys \<le> m"
  shows "map_of (memory (fold step es s)) k = Some v"
  using assms
proof (induction es arbitrary: s xs ys m)
  case Nil
  then show ?case using inv_memory [of s] by (intro map_of_is_SomeI) simp_all
next
  case (Cons e es)
  have len: "length (memory s) \<le> cap" using inv_memory Cons.prems(2) by blast
  have "\<exists>xs' ys'. memory (step e s) = xs' @ (k, v) # ys' \<and> length ys' \<le> Suc m"
    using step_memory [OF Cons.prems(2), of e]
  proof (elim disjE exE conjE)
    assume "memory (step e s) = memory s"
    then show ?thesis using Cons.prems(4,5) by force
  next
    fix j w
    assume new: "map_of (memory s) j = None" "memory (step e s) = remember cap j w (memory s)"
    show ?thesis unfolding new(2)
      by (rule remember_keeps_recent [OF Cons.prems(4,5) _ new(1) len]) (use Cons.prems(3) in simp)
  qed
  then obtain xs' ys' where "memory (step e s) = xs' @ (k, v) # ys'" "length ys' \<le> Suc m" by blast
  from Cons.IH [OF _ step_inv _ this] Cons.prems show ?case by simp
qed

lemma remembered_stays:
  assumes "list_all ok es" "inv s" "length es < cap" "map_of d k = None" "length d \<le> cap"
    and "memory s = remember cap k v d"
  shows "map_of (memory (fold step es s)) k = Some v"
proof -
  obtain xs where "memory s = xs @ (k, v) # []"
    using remember_new_last [OF assms(4) _ assms(5), of v] assms(3,6) by auto
  then show ?thesis using run_keeps [OF assms(1,2), of 0] assms(3) by simp
qed

end

lemma set_remember: "set (remember cap k v d) \<subseteq> insert (k, v) (set d)"
  using set_update_subset [of k v d] by (auto simp: remember_def Let_def dest: list.set_sel(2) [rotated])

lemma length_push_capped: "length (push_capped cap x xs) = min cap (Suc (length xs))"
  by (simp add: push_capped_def Let_def)

lemma set_push_capped: "set (push_capped cap x xs) \<subseteq> insert x (set xs)"
  unfolding push_capped_def Let_def by (auto dest: in_set_dropD)

lemma last_push_capped: "1 \<le> cap \<Longrightarrow> last (push_capped cap x xs) = x"
  by (simp add: push_capped_def Let_def)

lemma sorted_push_capped:
  "sorted_wrt r xs \<Longrightarrow> (\<And>y. y \<in> set xs \<Longrightarrow> r y x) \<Longrightarrow> sorted_wrt r (push_capped cap x xs)"
  unfolding push_capped_def Let_def
  by (metis (no_types, lifting) sorted_wrt_append sorted_wrt1 singletonD list.set(1,2) sorted_wrt_drop)

subsection \<open>Sums of Decimals\<close>

text \<open>\<open>sum(xs, Decimal("0"))\<close> adds from the left, rounding each time; on a grid, while the partial
  sums of the absolute values stay within 28 digits, the sum is exact.\<close>

definition dsum :: "rat list \<Rightarrow> rat" where
  "dsum xs = foldl dadd 0 xs"

lemma dsum_exact_aux:
  assumes "\<forall>x\<in>set xs. grid k x" "grid k a"
    and "\<bar>a\<bar> + sum_list (map abs xs) \<le> 10 ^ 28 / 10 ^ k" "k \<le> 1000"
  shows "foldl dadd a xs = a + sum_list xs"
  using assms
proof (induction xs arbitrary: a)
  case (Cons x xs)
  have "0 \<le> sum_list (map abs xs)" by (rule sum_list_nonneg) auto
  moreover have "\<bar>a + x\<bar> \<le> \<bar>a\<bar> + \<bar>x\<bar>" by (rule abs_triangle_ineq)
  moreover have "grid k (a + x)" using Cons.prems by (simp add: grid_add)
  ultimately have "dadd a x = a + x" and "\<bar>a + x\<bar> + sum_list (map abs xs) \<le> 10 ^ 28 / 10 ^ k"
    using Cons.prems by (auto simp: dadd_def intro!: dr_exact [of k])
  then show ?case using Cons \<open>grid k (a + x)\<close> by simp
qed simp

lemma dsum_exact:
  "\<forall>x\<in>set xs. grid k x \<Longrightarrow> sum_list (map abs xs) \<le> 10 ^ 28 / 10 ^ k \<Longrightarrow> k \<le> 1000 \<Longrightarrow>
    dsum xs = sum_list xs"
  using dsum_exact_aux [of xs k 0] by (simp add: dsum_def grid_zero)

lemma dsum_nonneg: "\<forall>x\<in>set xs. 0 \<le> x \<Longrightarrow> 0 \<le> dsum xs"
proof -
  have "0 \<le> a \<Longrightarrow> \<forall>x\<in>set xs. 0 \<le> x \<Longrightarrow> 0 \<le> foldl dadd a xs" for a
    by (induction xs arbitrary: a) (auto simp: dadd_def decimal28.rnd_nonneg)
  then show "\<forall>x\<in>set xs. 0 \<le> x \<Longrightarrow> 0 \<le> dsum xs" by (simp add: dsum_def)
qed

subsection \<open>Raising functions\<close>

abbreviation returns :: "'e + 'a \<Rightarrow> bool" where "returns r \<equiv> (\<exists>a. r = Inr a)"

fun opt_to_sum :: "'e \<Rightarrow> 'a option \<Rightarrow> 'e + 'a" where
  "opt_to_sum e None = Inl e"
| "opt_to_sum e (Some a) = Inr a"

lemma opt_to_sum_Inr [simp]: "opt_to_sum e x = Inr a \<longleftrightarrow> x = Some a"
  by (cases x) auto

lemma opt_to_sum_Inl [simp]: "opt_to_sum e x = Inl e' \<longleftrightarrow> x = None \<and> e = e'"
  by (cases x) auto

end
