(* ===== verification/Errors.thy ===== *)
theory Errors
  imports Prelude
begin

text \<open>
  The exceptions of the program (\<open>core/exceptions.py\<close>) and the built-in ones its code raises or
  lets escape, as one datatype: the left side of the sums that model raising functions. The class
  hierarchy matters where a caller catches a base class; \<open>error_class\<close> gives the branch.
\<close>

datatype error =
    Runtime_error string            \<comment> \<open>\<open>RuntimeError\<close>: the live-mode guard\<close>
  | Validation_error string         \<comment> \<open>pydantic \<open>ValidationError\<close> / \<open>ValueError\<close>\<close>
  | Decimal_invalid                 \<comment> \<open>\<open>decimal.InvalidOperation\<close>\<close>
  | Zero_division                   \<comment> \<open>\<open>ZeroDivisionError\<close>, \<open>decimal.DivisionByZero\<close>\<close>
  | Key_error string
  | Type_error string
  | Index_error
  | Not_implemented_error string
  | Live_trading_not_enabled
  | Exchange_connection_error string
  | Exchange_rate_limit_error
  | Exchange_auth_error
  | Stale_data_error symbol rat int
  | Insufficient_data_error int int string
  | Signal_expired_error
  | Low_confidence_signal_error rat rat
  | Risk_veto_error string
  | Daily_loss_limit_error rat rat
  | Drawdown_limit_error rat rat
  | Circuit_breaker_error
  | Position_size_error
  | Order_rejected_error string
  | Order_timeout_error string
  | Insufficient_balance_error rat rat
  | Messaging_error string
  | Database_error string

datatype error_branch =
    Builtin_branch | Config_branch | Market_data_branch | Signal_branch | Risk_branch
  | Execution_branch | Infrastructure_branch

fun error_class :: "error \<Rightarrow> error_branch" where
  "error_class Live_trading_not_enabled = Config_branch"
| "error_class (Exchange_connection_error _) = Market_data_branch"
| "error_class Exchange_rate_limit_error = Market_data_branch"
| "error_class Exchange_auth_error = Market_data_branch"
| "error_class (Stale_data_error _ _ _) = Market_data_branch"
| "error_class (Insufficient_data_error _ _ _) = Market_data_branch"
| "error_class Signal_expired_error = Signal_branch"
| "error_class (Low_confidence_signal_error _ _) = Signal_branch"
| "error_class (Risk_veto_error _) = Risk_branch"
| "error_class (Daily_loss_limit_error _ _) = Risk_branch"
| "error_class (Drawdown_limit_error _ _) = Risk_branch"
| "error_class Circuit_breaker_error = Risk_branch"
| "error_class Position_size_error = Risk_branch"
| "error_class (Order_rejected_error _) = Execution_branch"
| "error_class (Order_timeout_error _) = Execution_branch"
| "error_class (Insufficient_balance_error _ _) = Execution_branch"
| "error_class (Messaging_error _) = Infrastructure_branch"
| "error_class (Database_error _) = Infrastructure_branch"
| "error_class _ = Builtin_branch"

text \<open>\<open>isinstance(e, TradingSystemError)\<close> and \<open>isinstance(e, ExecutionError)\<close>.\<close>

definition is_trading_system_error :: "error \<Rightarrow> bool" where
  "is_trading_system_error e \<longleftrightarrow> error_class e \<noteq> Builtin_branch"

definition is_execution_error :: "error \<Rightarrow> bool" where
  "is_execution_error e \<longleftrightarrow> error_class e = Execution_branch"

text \<open>\<open>[f(x) for x in xs]\<close> of a function that may raise.\<close>

fun map_ok :: "('a \<Rightarrow> error + 'b) \<Rightarrow> 'a list \<Rightarrow> error + 'b list" where
  "map_ok f [] = Inr []"
| "map_ok f (x # xs) = (case f x of Inl e \<Rightarrow> Inl e | Inr y \<Rightarrow>
     (case map_ok f xs of Inl e \<Rightarrow> Inl e | Inr ys \<Rightarrow> Inr (y # ys)))"

lemma map_ok_total: "(\<And>x. x \<in> set xs \<Longrightarrow> \<exists>y. f x = Inr y) \<Longrightarrow> \<exists>ys. map_ok f xs = Inr ys"
  by (induction xs) (force split: sum.splits)+

lemma map_ok_not_isl:
  assumes "\<And>x. \<not> isl (f x)"
  shows "\<not> isl (map_ok f xs)"
proof -
  have "\<exists>ys. map_ok f xs = Inr ys"
  proof (rule map_ok_total)
    fix x
    show "\<exists>y. f x = Inr y" using assms [of x] by (cases "f x") simp_all
  qed
  then show ?thesis by auto
qed

lemma map_ok_InrD: "map_ok f xs = Inr ys \<Longrightarrow> list_all2 (\<lambda>x y. f x = Inr y) xs ys"
  by (induction xs arbitrary: ys) (auto split: sum.splits)

end
