(* ===== verification/Config.thy ===== *)
theory Config
  imports Errors
begin

text \<open>
  The configuration the components read (\<open>core/config.py\<close>): one record per settings group with the
  defaults of its fields, the validator of the risk fractions and the paper-mode guard. Float
  fields hold values of \<^const>\<open>fl\<close>. Settings that only reach the infrastructure (hosts, pools,
  passwords) have no counterpart.
\<close>

abbreviation is_float :: "rat \<Rightarrow> bool" where "is_float x \<equiv> fl x = x"

datatype trading_mode = PAPER | LIVE

record risk_settings =
  rs_max_position_pct :: rat
  rs_max_open_positions :: int
  rs_min_order_size_usd :: rat
  rs_max_order_size_usd :: rat
  rs_max_daily_loss_pct :: rat
  rs_max_total_drawdown_pct :: rat
  rs_max_data_staleness_seconds :: int
  rs_max_agent_crashes :: int
  rs_crash_window_minutes :: int

definition default_risk_settings :: risk_settings where
  "default_risk_settings = \<lparr>rs_max_position_pct = fl (2 / 100), rs_max_open_positions = 3,
     rs_min_order_size_usd = 10, rs_max_order_size_usd = 1000,
     rs_max_daily_loss_pct = fl (5 / 100), rs_max_total_drawdown_pct = fl (15 / 100),
     rs_max_data_staleness_seconds = 60, rs_max_agent_crashes = 3, rs_crash_window_minutes = 5\<rparr>"

definition validate_fraction :: "rat \<Rightarrow> error + rat" where
  "validate_fraction v = (if \<not> (0 < v \<and> v \<le> 1)
     then Inl (Validation_error ''Expected fraction 0-1'') else Inr v)"

text \<open>What constructing \<open>RiskSettings\<close> accepts.\<close>

definition risk_settings_ok :: "risk_settings \<Rightarrow> bool" where
  "risk_settings_ok s \<longleftrightarrow>
     validate_fraction (rs_max_position_pct s) = Inr (rs_max_position_pct s) \<and>
     validate_fraction (rs_max_daily_loss_pct s) = Inr (rs_max_daily_loss_pct s) \<and>
     validate_fraction (rs_max_total_drawdown_pct s) = Inr (rs_max_total_drawdown_pct s)"

definition risk_settings_float :: "risk_settings \<Rightarrow> bool" where
  "risk_settings_float s \<longleftrightarrow> is_float (rs_max_position_pct s) \<and> is_float (rs_min_order_size_usd s) \<and>
     is_float (rs_max_order_size_usd s) \<and> is_float (rs_max_daily_loss_pct s) \<and>
     is_float (rs_max_total_drawdown_pct s)"

record market_data_settings =
  md_symbols :: "symbol list"
  md_ohlcv_timeframes :: "string list"
  md_ohlcv_history_limit :: int
  md_poll_interval_seconds :: rat
  md_orderbook_depth :: int

definition default_market_data_settings :: market_data_settings where
  "default_market_data_settings = \<lparr>md_symbols = [''BTC/USDT''],
     md_ohlcv_timeframes = [''1m'', ''5m'', ''1h''], md_ohlcv_history_limit = 500,
     md_poll_interval_seconds = 5, md_orderbook_depth = 20\<rparr>"

record ta_settings =
  ta_rsi_period :: int
  ta_rsi_overbought :: rat
  ta_rsi_oversold :: rat
  ta_macd_fast :: int
  ta_macd_slow :: int
  ta_macd_signal :: int
  ta_bb_period :: int
  ta_bb_std_dev :: rat
  ta_ema_short :: int
  ta_ema_long :: int
  ta_min_signal_confidence :: rat
  ta_signal_ttl_seconds :: int
  ta_use_ml_signals :: bool
  ta_ml_model_path :: "string option"

definition default_ta_settings :: ta_settings where
  "default_ta_settings = \<lparr>ta_rsi_period = 14, ta_rsi_overbought = 70, ta_rsi_oversold = 30,
     ta_macd_fast = 12, ta_macd_slow = 26, ta_macd_signal = 9, ta_bb_period = 20,
     ta_bb_std_dev = 2, ta_ema_short = 9, ta_ema_long = 21,
     ta_min_signal_confidence = fl (6 / 10), ta_signal_ttl_seconds = 300,
     ta_use_ml_signals = False, ta_ml_model_path = None\<rparr>"

record monitoring_settings =
  mon_heartbeat_interval_seconds :: int
  mon_heartbeat_timeout_seconds :: int
  mon_alert_on_agent_crash :: bool
  mon_alert_on_daily_loss_threshold :: bool

definition default_monitoring_settings :: monitoring_settings where
  "default_monitoring_settings = \<lparr>mon_heartbeat_interval_seconds = 10,
     mon_heartbeat_timeout_seconds = 30, mon_alert_on_agent_crash = True,
     mon_alert_on_daily_loss_threshold = True\<rparr>"

record mt5_settings =
  mt_request_timeout_ms :: int
  mt_enabled :: bool
  mt_stop_loss_pct :: rat
  mt_take_profit_pct :: rat
  mt_min_volume :: rat
  mt_max_volume :: rat
  mt_volume_step :: rat
  mt_position_monitor_interval_seconds :: int

definition default_mt5_settings :: mt5_settings where
  "default_mt5_settings = \<lparr>mt_request_timeout_ms = 5000, mt_enabled = False,
     mt_stop_loss_pct = fl (2 / 100), mt_take_profit_pct = fl (4 / 100),
     mt_min_volume = fl (1 / 100), mt_max_volume = 10, mt_volume_step = fl (1 / 100),
     mt_position_monitor_interval_seconds = 5\<rparr>"

record settings =
  st_trading_mode :: trading_mode
  st_risk :: risk_settings
  st_market_data :: market_data_settings
  st_technical_analysis :: ta_settings
  st_monitoring :: monitoring_settings
  st_mt5 :: mt5_settings
  st_execution_broker :: string
  st_control_api_key :: "string option"
  st_paper_initial_balance_usd :: rat

definition default_settings :: settings where
  "default_settings = \<lparr>st_trading_mode = PAPER, st_risk = default_risk_settings,
     st_market_data = default_market_data_settings, st_technical_analysis = default_ta_settings,
     st_monitoring = default_monitoring_settings, st_mt5 = default_mt5_settings,
     st_execution_broker = ''paper'', st_control_api_key = None,
     st_paper_initial_balance_usd = 10000\<rparr>"

definition is_paper_trading :: "settings \<Rightarrow> bool" where
  "is_paper_trading s \<longleftrightarrow> st_trading_mode s = PAPER"

definition assert_paper_mode :: "settings \<Rightarrow> error + unit" where
  "assert_paper_mode s = (if \<not> is_paper_trading s
     then Inl (Runtime_error ''This operation is restricted to paper trading mode.'') else Inr ())"

lemma assert_paper_mode_iff [simp]:
  "assert_paper_mode s = Inr () \<longleftrightarrow> is_paper_trading s"
  "assert_paper_mode s = Inl e \<longleftrightarrow> \<not> is_paper_trading s \<and>
     e = Runtime_error ''This operation is restricted to paper trading mode.''"
  by (auto simp: assert_paper_mode_def)

lemma validate_fraction_iff [simp]: "validate_fraction v = Inr w \<longleftrightarrow> 0 < v \<and> v \<le> 1 \<and> w = v"
  by (auto simp: validate_fraction_def)

lemma risk_settings_okD:
  "risk_settings_ok s \<Longrightarrow> 0 < rs_max_position_pct s \<and> rs_max_position_pct s \<le> 1"
  by (simp add: risk_settings_ok_def)

text \<open>The defaults as literals, for evaluation.\<close>

lemma default_risk_settings_code [code]:
  "default_risk_settings = \<lparr>rs_max_position_pct = 5764607523034235 / 288230376151711744, rs_max_open_positions = 3,
     rs_min_order_size_usd = 10, rs_max_order_size_usd = 1000,
     rs_max_daily_loss_pct = 3602879701896397 / 72057594037927936, rs_max_total_drawdown_pct = 5404319552844595 / 36028797018963968,
     rs_max_data_staleness_seconds = 60, rs_max_agent_crashes = 3, rs_crash_window_minutes = 5\<rparr>"
proof -
  have "fl (2 / 100) = 5764607523034235 / 288230376151711744" "fl (5 / 100) = 3602879701896397 / 72057594037927936" "fl (15 / 100) = 5404319552844595 / 36028797018963968" by code_simp+
  then show ?thesis by (simp only: default_risk_settings_def)
qed

lemma default_ta_settings_code [code]:
  "default_ta_settings = \<lparr>ta_rsi_period = 14, ta_rsi_overbought = 70, ta_rsi_oversold = 30,
     ta_macd_fast = 12, ta_macd_slow = 26, ta_macd_signal = 9, ta_bb_period = 20,
     ta_bb_std_dev = 2, ta_ema_short = 9, ta_ema_long = 21,
     ta_min_signal_confidence = 5404319552844595 / 9007199254740992, ta_signal_ttl_seconds = 300,
     ta_use_ml_signals = False, ta_ml_model_path = None\<rparr>"
proof -
  have "fl (6 / 10) = 5404319552844595 / 9007199254740992" by code_simp
  then show ?thesis by (simp only: default_ta_settings_def)
qed

lemma default_mt5_settings_code [code]:
  "default_mt5_settings = \<lparr>mt_request_timeout_ms = 5000, mt_enabled = False,
     mt_stop_loss_pct = 5764607523034235 / 288230376151711744, mt_take_profit_pct = 5764607523034235 / 144115188075855872,
     mt_min_volume = 5764607523034235 / 576460752303423488, mt_max_volume = 10, mt_volume_step = 5764607523034235 / 576460752303423488,
     mt_position_monitor_interval_seconds = 5\<rparr>"
proof -
  have "fl (2 / 100) = 5764607523034235 / 288230376151711744" "fl (4 / 100) = 5764607523034235 / 144115188075855872" "fl (1 / 100) = 5764607523034235 / 576460752303423488" by code_simp+
  then show ?thesis by (simp only: default_mt5_settings_def)
qed

end
