(* ===== verification/Market_Models.thy ===== *)
theory Market_Models
  imports Config
begin

text \<open>
  Market data as it travels between the agents (\<open>core/models/market.py\<close>): candles, order books and
  tickers, their validators, their derived values and their construction from the exchange library's
  raw responses. A raw response is a list or a record of optional floats (the library is not part of
  the program); a missing number reaches \<open>Decimal(str(None))\<close> and raises \<open>InvalidOperation\<close>.
\<close>

datatype timeframe = ONE_MINUTE | FIVE_MINUTES | FIFTEEN_MINUTES | ONE_HOUR | FOUR_HOURS | ONE_DAY

fun timeframe_value :: "timeframe \<Rightarrow> string" where
  "timeframe_value ONE_MINUTE = ''1m''"
| "timeframe_value FIVE_MINUTES = ''5m''"
| "timeframe_value FIFTEEN_MINUTES = ''15m''"
| "timeframe_value ONE_HOUR = ''1h''"
| "timeframe_value FOUR_HOURS = ''4h''"
| "timeframe_value ONE_DAY = ''1d''"

text \<open>\<open>symbol.replace("/", "-")\<close>: the form of a symbol inside a channel name.\<close>

definition safe_symbol :: "symbol \<Rightarrow> string" where
  "safe_symbol s = map (\<lambda>c. if c = CHR ''/'' then CHR ''-'' else c) s"

text \<open>Timestamps arrive as milliseconds, as naive or as aware datetimes; all end as UTC.
  \<open>datetime.fromtimestamp\<close> rounds the fraction of the second half-even to microseconds.\<close>

datatype raw_stamp = Stamp_millis rat | Stamp_naive time | Stamp_aware time

definition from_timestamp :: "rat \<Rightarrow> time" where
  "from_timestamp x = (let i = toward_zero x in i * 10 ^ 6 + rne (fl ((x - of_int i) * 10 ^ 6)))"

fun ensure_utc :: "raw_stamp \<Rightarrow> time" where
  "ensure_utc (Stamp_millis v) = from_timestamp (fdiv v 1000)"
| "ensure_utc (Stamp_naive t) = t"
| "ensure_utc (Stamp_aware t) = t"

subsection \<open>Candles\<close>

record candle =
  oc_symbol :: symbol
  oc_timeframe :: string
  oc_timestamp :: time
  oc_open :: rat
  oc_high :: rat
  oc_low :: rat
  oc_close :: rat
  oc_volume :: rat
  oc_quote_volume :: "rat option"
  oc_is_closed :: bool
  oc_received_at :: time

definition validate_ohlcv_consistency :: "candle \<Rightarrow> error + candle" where
  "validate_ohlcv_consistency c = (
     if oc_high c < oc_low c then Inl (Validation_error ''high < low'')
     else if oc_high c < oc_open c \<or> oc_high c < oc_close c
       then Inl (Validation_error ''high must be >= open and close'')
     else if oc_low c > oc_open c \<or> oc_low c > oc_close c
       then Inl (Validation_error ''low must be <= open and close'')
     else if oc_volume c < 0 then Inl (Validation_error ''volume cannot be negative'')
     else Inr c)"

definition candle_ok :: "candle \<Rightarrow> bool" where
  "candle_ok c \<longleftrightarrow> oc_low c \<le> oc_open c \<and> oc_low c \<le> oc_close c \<and> oc_open c \<le> oc_high c \<and>
     oc_close c \<le> oc_high c \<and> 0 \<le> oc_volume c"

lemma validate_ohlcv_iff: "validate_ohlcv_consistency c = Inr d \<longleftrightarrow> d = c \<and> candle_ok c"
  by (auto simp: validate_ohlcv_consistency_def candle_ok_def)

definition candle_channel_key :: "candle \<Rightarrow> string" where
  "candle_channel_key c = ''market.ohlcv.'' @ safe_symbol (oc_symbol c) @ ''.'' @ oc_timeframe c"

definition price_change_pct :: "candle \<Rightarrow> rat" where
  "price_change_pct c = (if oc_open c = 0 then 0
     else fl (dmul (ddiv (dsub (oc_close c) (oc_open c)) (oc_open c)) 100))"

definition candle_is_bullish :: "candle \<Rightarrow> bool" where
  "candle_is_bullish c \<longleftrightarrow> oc_open c \<le> oc_close c"

text \<open>\<open>Decimal(str(raw[i]))\<close>, and the constructor from the exchange's six-element list.\<close>

definition raw_decimal :: "rat option list \<Rightarrow> nat \<Rightarrow> error + rat" where
  "raw_decimal raw i = (if i < length raw
     then (case raw ! i of None \<Rightarrow> Inl Decimal_invalid | Some x \<Rightarrow> Inr (dec_of_float x))
     else Inl Index_error)"

definition candle_from_ccxt ::
  "time \<Rightarrow> rat option list \<Rightarrow> symbol \<Rightarrow> string \<Rightarrow> error + candle" where
  "candle_from_ccxt now raw smb tf = (case raw of [] \<Rightarrow> Inl Index_error | stamp # _ \<Rightarrow>
    (case raw_decimal raw 1 of Inl e \<Rightarrow> Inl e | Inr op \<Rightarrow>
    (case raw_decimal raw 2 of Inl e \<Rightarrow> Inl e | Inr hi \<Rightarrow>
    (case raw_decimal raw 3 of Inl e \<Rightarrow> Inl e | Inr lo \<Rightarrow>
    (case raw_decimal raw 4 of Inl e \<Rightarrow> Inl e | Inr cl \<Rightarrow>
    (case raw_decimal raw 5 of Inl e \<Rightarrow> Inl e | Inr vol \<Rightarrow>
    (case stamp of None \<Rightarrow> Inl (Validation_error ''timestamp'') | Some ms \<Rightarrow>
      validate_ohlcv_consistency
        \<lparr>oc_symbol = smb, oc_timeframe = tf, oc_timestamp = ensure_utc (Stamp_millis ms),
         oc_open = op, oc_high = hi, oc_low = lo, oc_close = cl, oc_volume = vol,
         oc_quote_volume = None, oc_is_closed = True, oc_received_at = now\<rparr>)))))))"

subsection \<open>Order books\<close>

record order_book_level =
  obl_price :: rat
  obl_quantity :: rat

record order_book =
  ob_symbol :: symbol
  ob_timestamp :: time
  ob_bids :: "order_book_level list"
  ob_asks :: "order_book_level list"

definition best_bid :: "order_book \<Rightarrow> rat option" where
  "best_bid b = (case ob_bids b of [] \<Rightarrow> None | l # _ \<Rightarrow> Some (obl_price l))"

definition best_ask :: "order_book \<Rightarrow> rat option" where
  "best_ask b = (case ob_asks b of [] \<Rightarrow> None | l # _ \<Rightarrow> Some (obl_price l))"

text \<open>Python's truth of an optional number: neither \<open>None\<close> nor zero.\<close>

fun truthy :: "rat option \<Rightarrow> bool" where
  "truthy None = False"
| "truthy (Some x) = (x \<noteq> 0)"

definition mid_price :: "order_book \<Rightarrow> rat option" where
  "mid_price b = (if truthy (best_bid b) \<and> truthy (best_ask b)
     then Some (ddiv (dadd (the (best_bid b)) (the (best_ask b))) 2) else None)"

definition spread :: "order_book \<Rightarrow> rat option" where
  "spread b = (if truthy (best_bid b) \<and> truthy (best_ask b)
     then Some (dsub (the (best_ask b)) (the (best_bid b))) else None)"

definition spread_pct :: "order_book \<Rightarrow> rat option" where
  "spread_pct b = (if truthy (mid_price b) \<and> truthy (spread b)
     then Some (fl (dmul (ddiv (the (spread b)) (the (mid_price b))) 100)) else None)"

definition levels_from_ccxt :: "(rat \<times> rat) list \<Rightarrow> order_book_level list" where
  "levels_from_ccxt = map (\<lambda>(p, q). \<lparr>obl_price = dec_of_float p, obl_quantity = dec_of_float q\<rparr>)"

definition order_book_from_ccxt ::
  "time \<Rightarrow> rat option \<Rightarrow> (rat \<times> rat) list option \<Rightarrow> (rat \<times> rat) list option \<Rightarrow> symbol \<Rightarrow> order_book" where
  "order_book_from_ccxt now stamp bids asks smb =
     \<lparr>ob_symbol = smb,
      ob_timestamp = (if truthy stamp then ensure_utc (Stamp_millis (the stamp)) else now),
      ob_bids = levels_from_ccxt (case bids of None \<Rightarrow> [] | Some b \<Rightarrow> b),
      ob_asks = levels_from_ccxt (case asks of None \<Rightarrow> [] | Some a \<Rightarrow> a)\<rparr>"

subsection \<open>Tickers\<close>

record ticker =
  tk_symbol :: symbol
  tk_timestamp :: time
  tk_last :: rat
  tk_bid :: "rat option"
  tk_ask :: "rat option"
  tk_high_24h :: "rat option"
  tk_low_24h :: "rat option"
  tk_volume_24h :: "rat option"
  tk_change_24h_pct :: "rat option"

record raw_ticker =
  rt_symbol :: symbol
  rt_timestamp :: "rat option"
  rt_last :: "rat option"
  rt_bid :: "rat option"
  rt_ask :: "rat option"
  rt_high :: "rat option"
  rt_low :: "rat option"
  rt_base_volume :: "rat option"
  rt_percentage :: "rat option"

definition truthy_decimal :: "rat option \<Rightarrow> rat option" where
  "truthy_decimal x = (if truthy x then Some (dec_of_float (the x)) else None)"

definition ticker_from_ccxt :: "time \<Rightarrow> raw_ticker \<Rightarrow> error + ticker" where
  "ticker_from_ccxt now raw = (case rt_last raw of
     None \<Rightarrow> Inl Decimal_invalid
   | Some l \<Rightarrow> Inr \<lparr>tk_symbol = rt_symbol raw,
       tk_timestamp = (if truthy (rt_timestamp raw)
         then ensure_utc (Stamp_millis (the (rt_timestamp raw))) else now),
       tk_last = dec_of_float l, tk_bid = truthy_decimal (rt_bid raw),
       tk_ask = truthy_decimal (rt_ask raw), tk_high_24h = truthy_decimal (rt_high raw),
       tk_low_24h = truthy_decimal (rt_low raw),
       tk_volume_24h = truthy_decimal (rt_base_volume raw),
       tk_change_24h_pct = rt_percentage raw\<rparr>)"

subsection \<open>Facts\<close>

lemma candle_from_ccxt_ok:
  assumes "candle_from_ccxt now raw smb tf = Inr c"
  shows "candle_ok c" "oc_symbol c = smb" "oc_timeframe c = tf"
  using assms by (auto simp: candle_from_ccxt_def validate_ohlcv_iff split: list.splits sum.splits option.splits)

lemma from_timestamp_int:
  assumes "0 \<le> s"
  shows "from_timestamp (of_int s) = s * 10 ^ 6"
  using assms binary64.rnd_zero by (simp add: from_timestamp_def toward_zero_def)

text \<open>A symbol without a dash can be read back from its channel form.\<close>

lemma safe_symbol_inj:
  assumes "CHR ''-'' \<notin> set s" "CHR ''-'' \<notin> set t" "safe_symbol s = safe_symbol t"
  shows "s = t"
  using assms
proof (induction s arbitrary: t)
  case Nil then show ?case by (simp add: safe_symbol_def)
next
  case (Cons c s) then show ?case by (cases t) (auto simp: safe_symbol_def split: if_splits)
qed

end
