(* ===== verification/Signal_Models.thy ===== *)
theory Signal_Models
  imports Market_Models
begin

text \<open>
  Signals (\<open>core/models/signals.py\<close>): directions with their scalar, indicator readings, technical,
  sentiment and aggregated signals, the range constraints of their pydantic fields, expiry. The
  direction type is a linear order through its scalar (an instantiation of the library's class).
  A metadata dictionary maps names to \<open>meta_value\<close>s.
\<close>

datatype signal_direction = STRONG_SELL | SELL_DIR | NEUTRAL | BUY_DIR | STRONG_BUY

fun direction_value :: "signal_direction \<Rightarrow> string" where
  "direction_value STRONG_BUY = ''strong_buy''"
| "direction_value BUY_DIR = ''buy''"
| "direction_value NEUTRAL = ''neutral''"
| "direction_value SELL_DIR = ''sell''"
| "direction_value STRONG_SELL = ''strong_sell''"

text \<open>\<open>_to_direction\<close> on the string form, as it comes back from JSON.\<close>

definition to_direction :: "string \<Rightarrow> error + signal_direction" where
  "to_direction v = (if v = ''strong_buy'' then Inr STRONG_BUY
     else if v = ''buy'' then Inr BUY_DIR
     else if v = ''neutral'' then Inr NEUTRAL
     else if v = ''sell'' then Inr SELL_DIR
     else if v = ''strong_sell'' then Inr STRONG_SELL
     else Inl (Validation_error ''not a valid SignalDirection''))"

fun scalar_direction :: "signal_direction \<Rightarrow> rat" where
  "scalar_direction STRONG_BUY = 1"
| "scalar_direction BUY_DIR = 1 / 2"
| "scalar_direction NEUTRAL = 0"
| "scalar_direction SELL_DIR = - 1 / 2"
| "scalar_direction STRONG_SELL = - 1"

lemma scalar_direction_inj: "scalar_direction a = scalar_direction b \<Longrightarrow> a = b"
  by (cases a; cases b) simp_all

instantiation signal_direction :: linorder
begin

definition less_eq_signal_direction :: "signal_direction \<Rightarrow> signal_direction \<Rightarrow> bool" where
  "less_eq_signal_direction a b \<longleftrightarrow> scalar_direction a \<le> scalar_direction b"

definition less_signal_direction :: "signal_direction \<Rightarrow> signal_direction \<Rightarrow> bool" where
  "less_signal_direction a b \<longleftrightarrow> scalar_direction a < scalar_direction b"

instance
  by standard
    (auto simp: less_eq_signal_direction_def less_signal_direction_def intro: scalar_direction_inj)

end

definition bullish :: "signal_direction \<Rightarrow> bool" where
  "bullish d \<longleftrightarrow> d = BUY_DIR \<or> d = STRONG_BUY"

definition bearish :: "signal_direction \<Rightarrow> bool" where
  "bearish d \<longleftrightarrow> d = SELL_DIR \<or> d = STRONG_SELL"

datatype signal_source = TECHNICAL | SENTIMENT | ML_SOURCE | MANUAL

datatype indicator_name = RSI | MACD | BOLLINGER_BANDS | EMA_CROSS | VOLUME

datatype meta_value =
    Meta_num rat | Meta_text string | Meta_bool bool | Meta_null | Meta_list "meta_value list"
  | Meta_dict "(string \<times> meta_value) list"

subsection \<open>Signals\<close>

record indicator_reading =
  ir_name :: indicator_name
  ir_value :: rat
  ir_signal :: signal_direction
  ir_weight :: rat
  ir_metadata :: "(string, meta_value) dict"

record technical_signal =
  ts_signal_id :: uuid
  ts_source :: signal_source
  ts_symbol :: symbol
  ts_timeframe :: string
  ts_timestamp :: time
  ts_expires_at :: time
  ts_direction :: signal_direction
  ts_confidence :: rat
  ts_indicators :: "indicator_reading list"
  ts_price :: rat
  ts_price_change_1h_pct :: "rat option"
  ts_metadata :: "(string, meta_value) dict"

record sentiment_signal =
  ss_signal_id :: uuid
  ss_source :: signal_source
  ss_symbol :: symbol
  ss_timestamp :: time
  ss_expires_at :: time
  ss_direction :: signal_direction
  ss_confidence :: rat
  ss_sentiment_score :: rat
  ss_article_count :: int

record aggregated_signal =
  as_signal_id :: uuid
  as_symbol :: symbol
  as_timestamp :: time
  as_direction :: signal_direction
  as_confidence :: rat
  as_composite_score :: rat
  as_technical_signal :: "technical_signal option"
  as_sentiment_signal :: "sentiment_signal option"
  as_technical_weight :: rat
  as_sentiment_weight :: rat
  as_total_signals :: int
  as_signals_discarded :: int

text \<open>The \<open>ge\<close>/\<open>le\<close> constraints, checked by every constructor call.\<close>

definition new_indicator_reading :: "indicator_reading \<Rightarrow> error + indicator_reading" where
  "new_indicator_reading r = (if 0 \<le> ir_weight r \<and> ir_weight r \<le> 1 then Inr r
     else Inl (Validation_error ''weight''))"

definition new_technical_signal :: "technical_signal \<Rightarrow> error + technical_signal" where
  "new_technical_signal s = (if 0 \<le> ts_confidence s \<and> ts_confidence s \<le> 1 then Inr s
     else Inl (Validation_error ''confidence''))"

definition new_sentiment_signal :: "sentiment_signal \<Rightarrow> error + sentiment_signal" where
  "new_sentiment_signal s =
     (if \<not> (0 \<le> ss_confidence s \<and> ss_confidence s \<le> 1) then Inl (Validation_error ''confidence'')
      else if \<not> (- 1 \<le> ss_sentiment_score s \<and> ss_sentiment_score s \<le> 1)
        then Inl (Validation_error ''sentiment_score'')
      else Inr s)"

definition new_aggregated_signal :: "aggregated_signal \<Rightarrow> error + aggregated_signal" where
  "new_aggregated_signal s =
     (if \<not> (0 \<le> as_confidence s \<and> as_confidence s \<le> 1) then Inl (Validation_error ''confidence'')
      else if \<not> (- 1 \<le> as_composite_score s \<and> as_composite_score s \<le> 1)
        then Inl (Validation_error ''composite_score'')
      else Inr s)"

text \<open>\<open>expires_at=None\<close> becomes five minutes from now.\<close>

definition default_expiry :: "time \<Rightarrow> time option \<Rightarrow> time" where
  "default_expiry now v = (case v of None \<Rightarrow> now + 300 * 10 ^ 6 | Some t \<Rightarrow> t)"

definition technical_expired :: "time \<Rightarrow> technical_signal \<Rightarrow> bool" where
  "technical_expired now s \<longleftrightarrow> now > ts_expires_at s"

definition is_actionable :: "time \<Rightarrow> technical_signal \<Rightarrow> bool" where
  "is_actionable now s \<longleftrightarrow> \<not> technical_expired now s \<and> ts_direction s \<noteq> NEUTRAL"

definition sentiment_expired :: "time \<Rightarrow> sentiment_signal \<Rightarrow> bool" where
  "sentiment_expired now s \<longleftrightarrow> now > ss_expires_at s"

definition technical_channel_key :: "technical_signal \<Rightarrow> string" where
  "technical_channel_key s = ''signal.technical.'' @ safe_symbol (ts_symbol s)"

definition sentiment_channel_key :: "sentiment_signal \<Rightarrow> string" where
  "sentiment_channel_key s = ''signal.sentiment.'' @ safe_symbol (ss_symbol s)"

subsection \<open>Facts\<close>

lemma to_direction_value [simp]: "to_direction (direction_value d) = Inr d"
  by (cases d) (simp_all add: to_direction_def)

lemma to_direction_sound: "to_direction v = Inr d \<Longrightarrow> direction_value d = v"
  by (auto simp: to_direction_def split: if_splits)

lemma scalar_direction_bounds: "- 1 \<le> scalar_direction d \<and> scalar_direction d \<le> 1"
  by (cases d) simp_all

lemma scalar_direction_float: "fl (scalar_direction d) = scalar_direction d"
proof -
  have "list_all (\<lambda>d. fl (scalar_direction d) = scalar_direction d)
      [STRONG_SELL, SELL_DIR, NEUTRAL, BUY_DIR, STRONG_BUY]"
    by code_simp
  then show ?thesis by (cases d) simp_all
qed

lemma direction_cases: "bullish d \<or> bearish d \<or> d = NEUTRAL"
  by (cases d) (simp_all add: bullish_def bearish_def)

lemma bullish_iff: "bullish d \<longleftrightarrow> 0 < scalar_direction d"
  by (cases d) (simp_all add: bullish_def)

lemma bearish_iff: "bearish d \<longleftrightarrow> scalar_direction d < 0"
  by (cases d) (simp_all add: bearish_def)

end
