(* ===== verification/System_Models.thy ===== *)
theory System_Models
  imports Signal_Models
begin

text \<open>
  Control-plane messages (\<open>core/models/system.py\<close>): agent states, commands, heartbeats, risk
  overrides and alerts.
\<close>

datatype agent_status = STARTING | RUNNING | PAUSED | STOPPING | STOPPED | ERROR | QUARANTINED

datatype system_command = PAUSE | RESUME | STOP | RESTART | HALT_TRADING | EMERGENCY_EXIT

datatype alert_severity = INFO | WARNING | CRITICAL

datatype alert_type =
    AGENT_CRASH | AGENT_STALE | DAILY_LOSS_THRESHOLD | DRAWDOWN_THRESHOLD | STALE_MARKET_DATA_ALERT
  | CIRCUIT_BREAKER_TRIPPED | ORDER_REJECTED | EXCHANGE_CONNECTION_LOST

record agent_heartbeat =
  hb_agent_name :: string
  hb_status :: agent_status
  hb_timestamp :: time
  hb_messages_processed :: int
  hb_errors_since_start :: int
  hb_uptime_seconds :: rat
  hb_extra :: "(string, meta_value) dict"

record system_command_message =
  sc_command_id :: uuid
  sc_command :: system_command
  sc_target_agent :: string
  sc_issued_by :: string
  sc_timestamp :: time
  sc_reason :: "string option"

record risk_override =
  ro_override_id :: uuid
  ro_reason :: string
  ro_triggered_by :: string
  ro_timestamp :: time
  ro_daily_loss_pct :: "rat option"
  ro_total_drawdown_pct :: "rat option"
  ro_requires_human_reset :: bool

record system_alert =
  al_alert_id :: uuid
  al_alert_type :: alert_type
  al_severity :: alert_severity
  al_timestamp :: time
  al_message :: string
  al_agent_name :: "string option"
  al_resolved :: bool

end
