(* ===== verification/Base_Agent.thy ===== *)
theory Base_Agent
  imports System_Models
begin

text \<open>
  The life of an agent (\<open>agents/base.py\<close>): the status and error counters every agent keeps, the
  start/run/stop sequence, the halt latch and the override listener, the heartbeat, and the
  supervisor that restarts crashed agents. What the environment decides (whether the bus connects,
  how \<open>setup\<close> and \<open>run_loop\<close> end, what the latch key holds) is an argument.

  The error circuit breaker keeps an agent running exactly as long as it has not failed
  \<open>max_agent_crashes\<close> times in a row; the supervisor always ends.
\<close>

record base_agent =
  ba_name :: string
  ba_status :: agent_status
  ba_stop_event :: bool
  ba_consecutive_errors :: int
  ba_total_errors :: int
  ba_messages_processed :: int
  ba_last_error :: "error option"
  ba_max_consecutive_errors :: int
  ba_trading_halted :: bool

definition new_base_agent :: "settings \<Rightarrow> string \<Rightarrow> base_agent" where
  "new_base_agent s name = \<lparr>ba_name = name, ba_status = STARTING, ba_stop_event = False,
     ba_consecutive_errors = 0, ba_total_errors = 0, ba_messages_processed = 0,
     ba_last_error = None, ba_max_consecutive_errors = rs_max_agent_crashes (st_risk s),
     ba_trading_halted = False\<rparr>"

subsection \<open>Control helpers\<close>

definition should_continue :: "base_agent \<Rightarrow> bool" where
  "should_continue a \<longleftrightarrow> \<not> ba_stop_event a \<and> ba_status a \<notin> {STOPPING, STOPPED, QUARANTINED}"

definition record_success :: "base_agent \<Rightarrow> base_agent" where
  "record_success a = a\<lparr>ba_consecutive_errors := 0, ba_messages_processed := ba_messages_processed a + 1\<rparr>"

definition handle_error :: "error \<Rightarrow> base_agent \<Rightarrow> base_agent" where
  "handle_error e a =
    (let a1 = a\<lparr>ba_consecutive_errors := ba_consecutive_errors a + 1,
                ba_total_errors := ba_total_errors a + 1, ba_last_error := Some e\<rparr>
     in if ba_consecutive_errors a1 \<ge> ba_max_consecutive_errors a1
        then a1\<lparr>ba_status := QUARANTINED, ba_stop_event := True\<rparr> else a1)"

text \<open>The latch read: it fails, or finds no key, or a reason; an empty reason counts as none.\<close>

definition load_halt_latch :: "(error + string option) \<Rightarrow> base_agent \<Rightarrow> base_agent" where
  "load_halt_latch latch a = (case latch of
     Inl e \<Rightarrow> a
   | Inr None \<Rightarrow> a
   | Inr (Some reason) \<Rightarrow> if reason \<noteq> [] then a\<lparr>ba_trading_halted := True\<rparr> else a)"

definition heartbeat :: "time \<Rightarrow> rat \<Rightarrow> (string, meta_value) dict \<Rightarrow> base_agent \<Rightarrow> agent_heartbeat" where
  "heartbeat now uptime extra a = \<lparr>hb_agent_name = ba_name a, hb_status = ba_status a,
     hb_timestamp = now, hb_messages_processed = ba_messages_processed a,
     hb_errors_since_start = ba_total_errors a, hb_uptime_seconds = uptime, hb_extra = extra\<rparr>"

subsection \<open>Lifecycle\<close>

definition start_agent ::
  "error option \<Rightarrow> (error + string option) \<Rightarrow> error option \<Rightarrow> base_agent \<Rightarrow> (error + unit) \<times> base_agent" where
  "start_agent connect_error latch setup_error a =
    (let a1 = a\<lparr>ba_status := STARTING\<rparr> in
     case connect_error of Some e \<Rightarrow> (Inl e, a1) | None \<Rightarrow>
    (let a2 = load_halt_latch latch a1 in
     case setup_error of Some e \<Rightarrow> (Inl e, a2) | None \<Rightarrow> (Inr (), a2\<lparr>ba_status := RUNNING\<rparr>)))"

definition stop_agent :: "base_agent \<Rightarrow> base_agent" where
  "stop_agent a = a\<lparr>ba_status := STOPPED, ba_stop_event := True\<rparr>"

definition on_risk_override :: "risk_override \<Rightarrow> base_agent \<Rightarrow> base_agent" where
  "on_risk_override ro a = (let a1 = a\<lparr>ba_trading_halted := True\<rparr> in
     if ro_requires_human_reset ro then stop_agent a1 else a1)"

datatype loop_end = Loop_returned | Loop_cancelled | Loop_raised error

definition finish_run :: "loop_end \<Rightarrow> base_agent \<Rightarrow> (error + unit) \<times> base_agent" where
  "finish_run out a = (case out of
     Loop_raised e \<Rightarrow> (Inl e, stop_agent (handle_error e (a\<lparr>ba_status := ERROR\<rparr>)))
   | _ \<Rightarrow> (Inr (), stop_agent a))"

text \<open>\<open>run()\<close>: a failing \<open>start()\<close> propagates at once, it is outside the \<open>try\<close>. The loop is a state
  transformer with its way to end.\<close>

definition run_once ::
  "error option \<Rightarrow> (error + string option) \<Rightarrow> error option \<Rightarrow> (base_agent \<Rightarrow> loop_end \<times> base_agent) \<Rightarrow>
     base_agent \<Rightarrow> (error + unit) \<times> base_agent" where
  "run_once connect_error latch setup_error loop a =
    (case start_agent connect_error latch setup_error a of
       (Inl e, a1) \<Rightarrow> (Inl e, a1)
     | (Inr _, a1) \<Rightarrow> (case loop a1 of (out, a2) \<Rightarrow> finish_run out a2))"

subsection \<open>The supervisor\<close>

text \<open>\<open>attempt k\<close> tells how the \<open>k\<close>-th instance ends. The result is the list of waits between the
  instances and the verdict. The construction of the next instance is taken to succeed.\<close>

datatype run_end = Clean_exit | Cancelled_run | Crashed error
datatype verdict = Agent_exited | Agent_cancelled | Agent_quarantined

function supervise :: "int \<Rightarrow> int \<Rightarrow> (nat \<Rightarrow> run_end) \<Rightarrow> int list \<times> verdict" where
  "supervise max_crashes crash_count attempt =
    (if crash_count < max_crashes then
       (case attempt (nat crash_count) of
          Clean_exit \<Rightarrow> ([], Agent_exited)
        | Cancelled_run \<Rightarrow> ([], Agent_cancelled)
        | Crashed e \<Rightarrow>
           (if crash_count + 1 \<ge> max_crashes then ([], Agent_quarantined)
            else (case supervise max_crashes (crash_count + 1) attempt of
                    (waits, v) \<Rightarrow> (2 ^ nat (crash_count + 1) # waits, v))))
     else ([], Agent_quarantined))"
  by pat_completeness auto
termination
  by (relation "measure (\<lambda>(m, c, _). nat (m - c))") auto

declare supervise.simps [simp del]

definition run_agent :: "settings \<Rightarrow> (nat \<Rightarrow> run_end) \<Rightarrow> int list \<times> verdict" where
  "run_agent s attempt = supervise (rs_max_agent_crashes (st_risk s)) 0 attempt"

subsection \<open>The error circuit breaker\<close>

text \<open>What a run loop does with a sequence of successful and failing operations.\<close>

definition process :: "error \<Rightarrow> bool list \<Rightarrow> base_agent \<Rightarrow> base_agent" where
  "process e outcomes a = fold (\<lambda>ok. if ok then record_success else handle_error e) outcomes a"

definition fails_in_a_row :: "nat \<Rightarrow> bool list \<Rightarrow> bool" where
  "fails_in_a_row m outcomes \<longleftrightarrow> (\<exists>xs ys. outcomes = xs @ replicate m False @ ys)"

definition trailing :: "bool list \<Rightarrow> nat" where
  "trailing outcomes = length (takeWhile Not (rev outcomes))"

lemma handle_keeps_halt_flag [simp]:
  "ba_trading_halted (record_success a) = ba_trading_halted a"
  "ba_trading_halted (handle_error e a) = ba_trading_halted a"
  "ba_trading_halted (on_risk_override ro a)"
  by (simp_all add: record_success_def handle_error_def Let_def on_risk_override_def stop_agent_def)

lemma trailing_snoc [simp]:
  "trailing [] = 0" "trailing (xs @ [True]) = 0" "trailing (xs @ [False]) = Suc (trailing xs)"
  by (simp_all add: trailing_def)

lemma trailing_suffix: "m \<le> trailing xs \<Longrightarrow> \<exists>us. xs = us @ replicate m False"
proof (induction xs arbitrary: m rule: rev_induct)
  case (snoc x xs)
  show ?case
  proof (cases m)
    case (Suc k)
    then have "\<not> x" "k \<le> trailing xs" using snoc.prems by (cases x; simp)+
    then obtain us where "xs = us @ replicate k False" using snoc.IH by blast
    then show ?thesis using Suc \<open>\<not> x\<close> by (auto simp: replicate_append_same)
  qed simp
qed simp

lemma suffix_trailing: "m \<le> trailing (us @ replicate m False)"
proof (induction m)
  case (Suc m)
  have "us @ replicate (Suc m) False = (us @ replicate m False) @ [False]"
    by (simp add: replicate_append_same)
  then show ?case using Suc.IH by (simp only: trailing_snoc)
qed simp

lemma fails_in_a_row_snoc:
  "fails_in_a_row m (xs @ [x]) \<longleftrightarrow> fails_in_a_row m xs \<or> m \<le> trailing (xs @ [x])"
proof
  assume "fails_in_a_row m (xs @ [x])"
  then obtain us ys where u: "xs @ [x] = us @ replicate m False @ ys" by (auto simp: fails_in_a_row_def)
  show "fails_in_a_row m xs \<or> m \<le> trailing (xs @ [x])"
  proof (cases ys rule: rev_cases)
    case Nil
    then show ?thesis using u suffix_trailing [of m us] by simp
  next
    case (snoc ys' y)
    then have "xs = us @ replicate m False @ ys'" using u by simp
    then show ?thesis by (auto simp: fails_in_a_row_def)
  qed
next
  assume "fails_in_a_row m xs \<or> m \<le> trailing (xs @ [x])"
  then show "fails_in_a_row m (xs @ [x])"
  proof
    assume "fails_in_a_row m xs"
    then obtain us ys where "xs = us @ replicate m False @ ys" by (auto simp: fails_in_a_row_def)
    then have "xs @ [x] = us @ replicate m False @ (ys @ [x])" by simp
    then show ?thesis unfolding fails_in_a_row_def by blast
  next
    assume "m \<le> trailing (xs @ [x])"
    then obtain us where "xs @ [x] = us @ replicate m False @ []"
      using trailing_suffix [of m "xs @ [x]"] by auto
    then show ?thesis unfolding fails_in_a_row_def by blast
  qed
qed

lemma process_snoc: "process e (xs @ [ok]) a = (if ok then record_success else handle_error e) (process e xs a)"
  by (simp add: process_def)

lemma process_invariant:
  assumes "ba_consecutive_errors a = 0" "ba_max_consecutive_errors a = int m" "1 \<le> m" "should_continue a"
  shows "ba_max_consecutive_errors (process e xs a) = int m \<and>
    ba_consecutive_errors (process e xs a) = int (trailing xs) \<and>
    (should_continue (process e xs a) \<longleftrightarrow> \<not> fails_in_a_row m xs)"
proof (induction xs rule: rev_induct)
  case Nil
  then show ?case using assms by (simp add: process_def fails_in_a_row_def)
next
  case (snoc x xs)
  then show ?case
    using assms(3) by (cases x)
      (auto simp: process_snoc record_success_def handle_error_def Let_def should_continue_def
        fails_in_a_row_snoc)
qed

lemma supervise_spec:
  assumes "0 \<le> c" "c < mx"
  shows "case supervise mx c attempt of (waits, v) \<Rightarrow>
    c + int (length waits) < mx \<and>
    waits = map (\<lambda>i. 2 ^ (nat c + i + 1)) [0..<length waits] \<and>
    (\<forall>i<length waits. \<exists>e. attempt (nat c + i) = Crashed e) \<and>
    (v = Agent_quarantined \<longleftrightarrow> (\<exists>e. attempt (nat c + length waits) = Crashed e)) \<and>
    (v = Agent_quarantined \<longrightarrow> c + int (length waits) + 1 = mx)"
  using assms
proof (induction mx c attempt rule: supervise.induct)
  case (1 mx c attempt)
  show ?case
  proof (cases "attempt (nat c)")
    case (Crashed e)
    show ?thesis
    proof (cases "c + 1 \<ge> mx")
      case True
      then show ?thesis using 1 Crashed by (simp add: supervise.simps [of mx c attempt])
    next
      case False
      obtain ws v where w: "supervise mx (c + 1) attempt = (ws, v)" by (cases "supervise mx (c + 1) attempt")
      have n: "nat (c + 1) = Suc (nat c)" using 1 by simp
      have all: "(\<forall>i<Suc k. P i) \<longleftrightarrow> P 0 \<and> (\<forall>i<k. P (Suc i))" for k and P :: "nat \<Rightarrow> bool"
        using less_Suc_eq_0_disj by auto
      have "supervise mx c attempt = (2 ^ Suc (nat c) # ws, v)"
        using 1 Crashed False w n by (simp add: supervise.simps [of mx c attempt])
      moreover have "map f [0..<Suc k] = f 0 # map (\<lambda>i. f (Suc i)) [0..<k]" for f :: "nat \<Rightarrow> int" and k
        by (simp add: upt_conv_Cons map_Suc_upt [symmetric] del: upt_Suc)
      ultimately show ?thesis
        using 1(1) [OF _ Crashed False] 1(2,3) False w Crashed
        by (simp add: n all del: upt_Suc)
    qed
  qed (use 1 in \<open>simp_all add: supervise.simps [of mx c attempt]\<close>)
qed

subsection \<open>Properties\<close>

text \<open>C37: the error circuit breaker is exact: an agent that starts with no halt in force keeps running
  over any sequence of successful and failing operations (with no risk override among them) until, and
  only until, as many operations in a row have failed as \<open>max_agent_crashes\<close> says; a success in
  between starts the count again.\<close>

theorem agent_runs_until_repeated_failure:
  assumes "0 < rs_max_agent_crashes (st_risk s)"
    and "start_agent None latch None (new_base_agent s name) = (Inr (), a)"
    and "\<not> ba_trading_halted a"
  shows "should_continue (process e outcomes a) \<longleftrightarrow>
    \<not> fails_in_a_row (nat (rs_max_agent_crashes (st_risk s))) outcomes"
proof -
  have "ba_consecutive_errors a = 0" "should_continue a"
    "ba_max_consecutive_errors a = rs_max_agent_crashes (st_risk s)"
    using assms(2) by (auto simp: start_agent_def Let_def load_halt_latch_def new_base_agent_def
        should_continue_def split: sum.splits option.splits if_splits)
  then show ?thesis
    using process_invariant [of a "nat (rs_max_agent_crashes (st_risk s))" e outcomes] assms(1) by simp
qed

theorem agent_runs_until_repeated_failure_witness:
  "let a = snd (start_agent None (Inr None) None (new_base_agent default_settings ''ta''))
   in should_continue (process Zero_division [False, False, True, False, False] a) \<and>
      \<not> should_continue (process Zero_division [True, False, False, False] a)"
proof -
  define a where "a = snd (start_agent None (Inr None) None (new_base_agent default_settings ''ta''))"
  have st: "start_agent None (Inr None) None (new_base_agent default_settings ''ta'') = (Inr (), a)"
    by (simp add: a_def start_agent_def load_halt_latch_def)
  have m: "rs_max_agent_crashes (st_risk default_settings) = 3"
    by (simp add: default_settings_def default_risk_settings_def)
  have f: "fails_in_a_row 3 [True, False, False, False]"
    unfolding fails_in_a_row_def by (rule exI [of _ "[True]"], rule exI [of _ "[]"]) (simp add: numeral_3_eq_3)
  have g: "\<not> fails_in_a_row 3 [False, False, True, False, False]"
    using fails_in_a_row_snoc [of 3 "[False, False, True, False]" False]
      fails_in_a_row_snoc [of 3 "[False, False, True]" False] fails_in_a_row_snoc [of 3 "[False, False]" True]
      fails_in_a_row_snoc [of 3 "[False]" False] fails_in_a_row_snoc [of 3 "[]" False]
    by (simp add: trailing_def fails_in_a_row_def)
  have h: "\<not> ba_trading_halted a" by (simp add: a_def start_agent_def load_halt_latch_def new_base_agent_def)
  have th: "should_continue (process Zero_division xs a) \<longleftrightarrow> \<not> fails_in_a_row 3 xs" for xs
    using agent_runs_until_repeated_failure [OF _ st h, of Zero_division xs] by (simp add: m)
  show ?thesis unfolding a_def [symmetric] Let_def th using f g by simp
qed

text \<open>C36: the supervisor always ends, after at most \<open>max_agent_crashes\<close> instances: it waits 2, 4, 8,
  ... seconds between them, each wait follows a crash, and it gives up exactly when every one of the
  \<open>max_agent_crashes\<close> instances has crashed.\<close>

theorem supervisor_gives_up:
  assumes "0 < rs_max_agent_crashes (st_risk s)" "run_agent s attempt = (waits, v)"
  shows "int (length waits) < rs_max_agent_crashes (st_risk s) \<and>
    waits = map (\<lambda>i. 2 ^ (i + 1)) [0..<length waits] \<and>
    (\<forall>i<length waits. \<exists>e. attempt i = Crashed e) \<and>
    (v = Agent_quarantined \<longleftrightarrow> (\<forall>i. int i < rs_max_agent_crashes (st_risk s) \<longrightarrow> (\<exists>e. attempt i = Crashed e)))"
proof -
  define m where "m = rs_max_agent_crashes (st_risk s)"
  have sp: "int (length waits) < m" "waits = map (\<lambda>i. 2 ^ (i + 1)) [0..<length waits]"
    "\<forall>i<length waits. \<exists>e. attempt i = Crashed e"
    "v = Agent_quarantined \<longleftrightarrow> (\<exists>e. attempt (length waits) = Crashed e)"
    "v = Agent_quarantined \<longrightarrow> int (length waits) + 1 = m"
    using supervise_spec [of 0 m attempt] assms by (simp_all add: run_agent_def m_def)
  have "v = Agent_quarantined \<longleftrightarrow> (\<forall>i. int i < m \<longrightarrow> (\<exists>e. attempt i = Crashed e))"
  proof
    assume q: "v = Agent_quarantined"
    then have "int i < m \<Longrightarrow> i < length waits \<or> i = length waits" for i using sp(5) by linarith
    then show "\<forall>i. int i < m \<longrightarrow> (\<exists>e. attempt i = Crashed e)" using sp(3,4) q by blast
  qed (use sp(1,4) in blast)
  then show ?thesis using sp(1-3) unfolding m_def by blast
qed

theorem supervisor_gives_up_witness:
  "case run_agent default_settings (\<lambda>k. if k < 2 then Crashed Zero_division else Clean_exit) of
     (waits, v) \<Rightarrow> waits = [2, 4] \<and> v = Agent_exited \<and> int (length waits) < 3"
proof -
  have m: "rs_max_agent_crashes (st_risk default_settings) = 3"
    by (simp add: default_settings_def default_risk_settings_def)
  obtain waits v where w: "run_agent default_settings (\<lambda>k. if k < 2 then Crashed Zero_division else Clean_exit) = (waits, v)"
    by fastforce
  have "waits = [2, 4]" "v = Agent_exited"
    using w by (simp_all add: run_agent_def m supervise.simps)
  moreover have "int (length waits) < 3"
    using supervisor_gives_up [OF _ w] by (simp add: m)
  ultimately show ?thesis using w by simp
qed

end
