(* ===== verification/Circuit_Breaker.thy ===== *)
theory Circuit_Breaker
  imports Prelude
begin

text \<open>
  The risk agent's manual circuit breaker (\<open>agents/risk/circuit_breaker.py\<close>). It is a latch: the
  locale \<open>latch\<close> states what its client relies on (tripping trips, a tripped latch stays as it is,
  reset clears) and derives that the first reason survives any further trips; the interpretation
  discharges the laws for the code's breaker.
\<close>

record circuit_breaker =
  cb_tripped :: bool
  cb_reason :: "string option"
  cb_tripped_at :: "time option"

definition new_circuit_breaker :: circuit_breaker where
  "new_circuit_breaker = \<lparr>cb_tripped = False, cb_reason = None, cb_tripped_at = None\<rparr>"

definition trip :: "time \<Rightarrow> string \<Rightarrow> circuit_breaker \<Rightarrow> circuit_breaker" where
  "trip now reason b = (if \<not> cb_tripped b
     then b\<lparr>cb_tripped := True, cb_reason := Some reason, cb_tripped_at := Some now\<rparr> else b)"

definition reset_breaker :: "circuit_breaker \<Rightarrow> circuit_breaker" where
  "reset_breaker b = b\<lparr>cb_tripped := False, cb_reason := None, cb_tripped_at := None\<rparr>"

locale latch =
  fixes set :: "'c \<Rightarrow> 'b \<Rightarrow> 'b"
    and clear :: "'b \<Rightarrow> 'b"
    and is_set :: "'b \<Rightarrow> bool"
    and cause :: "'b \<Rightarrow> 'c option"
  assumes set_open: "\<not> is_set b \<Longrightarrow> is_set (set c b) \<and> cause (set c b) = Some c"
    and set_latched: "is_set b \<Longrightarrow> set c b = b"
    and clear_open: "\<not> is_set (clear b) \<and> cause (clear b) = None"
begin

lemma first_cause_kept:
  "\<not> is_set b \<Longrightarrow> is_set (fold set (c # cs) b) \<and> cause (fold set (c # cs) b) = Some c"
proof -
  assume "\<not> is_set b"
  then have "is_set (set c b)" "cause (set c b) = Some c" using set_open by auto
  moreover have "is_set b' \<Longrightarrow> fold set cs b' = b'" for b'
    by (induction cs arbitrary: b') (simp_all add: set_latched)
  ultimately show ?thesis by simp
qed

lemma stays_set: "is_set b \<Longrightarrow> fold set cs b = b"
  by (induction cs arbitrary: b) (simp_all add: set_latched)

end

interpretation breaker: latch "\<lambda>(now, reason). trip now reason" reset_breaker cb_tripped
  "\<lambda>b. if cb_tripped b then (case (cb_tripped_at b, cb_reason b) of (Some t, Some r) \<Rightarrow> Some (t, r) | _ \<Rightarrow> None) else None"
  by unfold_locales (auto simp: trip_def reset_breaker_def)

lemma trip_trips [simp]: "cb_tripped (trip now reason b)"
  by (simp add: trip_def)

lemma trip_tripped: "cb_tripped b \<Longrightarrow> trip now reason b = b"
  by (simp add: trip_def)

end
