(* ===== verification/Trade_Models.thy ===== *)
theory Trade_Models
  imports Signal_Models
begin

text \<open>
  Trade proposals, risk assessments and execution results (\<open>core/models/trade.py\<close>): the records
  that carry a trade from the decision agent through risk to execution, with their validators and
  derived properties.
\<close>

datatype order_side = BUY | SELL

fun order_side_value :: "order_side \<Rightarrow> string" where
  "order_side_value BUY = ''buy''"
| "order_side_value SELL = ''sell''"

fun opposite :: "order_side \<Rightarrow> order_side" where
  "opposite BUY = SELL"
| "opposite SELL = BUY"

datatype order_type = MARKET | LIMIT | STOP_LOSS | TAKE_PROFIT

datatype order_status =
  PENDING | OPEN | PARTIALLY_FILLED | FILLED | CANCELLED | REJECTED_STATUS | EXPIRED

fun order_status_value :: "order_status \<Rightarrow> string" where
  "order_status_value PENDING = ''pending''"
| "order_status_value OPEN = ''open''"
| "order_status_value PARTIALLY_FILLED = ''partially_filled''"
| "order_status_value FILLED = ''filled''"
| "order_status_value CANCELLED = ''cancelled''"
| "order_status_value REJECTED_STATUS = ''rejected''"
| "order_status_value EXPIRED = ''expired''"

datatype risk_decision = APPROVED | MODIFIED | REJECTED

datatype rejection_reason =
    MAX_POSITION_SIZE | MAX_OPEN_POSITIONS | DAILY_LOSS_LIMIT | TOTAL_DRAWDOWN_LIMIT
  | STALE_MARKET_DATA | LOW_CONFIDENCE | SYMBOL_NOT_WHITELISTED | ORDER_SIZE_TOO_SMALL
  | ORDER_SIZE_TOO_LARGE | CIRCUIT_BREAKER_ACTIVE | INSUFFICIENT_BALANCE | DUPLICATE_SIGNAL

subsection \<open>Proposals\<close>

record trade_proposal =
  tp_proposal_id :: uuid
  tp_symbol :: symbol
  tp_side :: order_side
  tp_order_type :: order_type
  tp_timestamp :: time
  tp_requested_size_usd :: money
  tp_requested_quantity :: "money option"
  tp_limit_price :: "money option"
  tp_suggested_stop_loss_pct :: "rat option"
  tp_suggested_take_profit_pct :: "rat option"
  tp_signal :: aggregated_signal
  tp_reasoning :: string

definition new_trade_proposal :: "trade_proposal \<Rightarrow> error + trade_proposal" where
  "new_trade_proposal p = (if tp_requested_size_usd p \<le> 0
     then Inl (Validation_error ''Position size must be positive'') else Inr p)"

definition is_long :: "trade_proposal \<Rightarrow> bool" where
  "is_long p \<longleftrightarrow> tp_side p = BUY"

definition is_short :: "trade_proposal \<Rightarrow> bool" where
  "is_short p \<longleftrightarrow> tp_side p = SELL"

subsection \<open>Assessments\<close>

record risk_assessment =
  ra_assessment_id :: uuid
  ra_proposal_id :: uuid
  ra_timestamp :: time
  ra_decision :: risk_decision
  ra_rejection_reason :: "rejection_reason option"
  ra_rejection_detail :: "string option"
  ra_approved_size_usd :: "money option"
  ra_approved_quantity :: "money option"
  ra_approved_stop_loss_pct :: "rat option"
  ra_approved_take_profit_pct :: "rat option"
  ra_portfolio_value_usd :: "money option"
  ra_current_daily_loss_pct :: "rat option"
  ra_open_positions_count :: int
  ra_original_proposal :: trade_proposal

definition is_approved :: "risk_assessment \<Rightarrow> bool" where
  "is_approved a \<longleftrightarrow> ra_decision a \<in> {APPROVED, MODIFIED}"

definition is_rejected :: "risk_assessment \<Rightarrow> bool" where
  "is_rejected a \<longleftrightarrow> ra_decision a = REJECTED"

text \<open>\<open>self.approved_size_usd or self.original_proposal.requested_size_usd\<close>: zero counts as absent.\<close>

definition effective_size_usd :: "risk_assessment \<Rightarrow> money" where
  "effective_size_usd a = (if truthy (ra_approved_size_usd a) then the (ra_approved_size_usd a)
     else tp_requested_size_usd (ra_original_proposal a))"

subsection \<open>Results\<close>

record execution_result =
  er_result_id :: uuid
  er_proposal_id :: uuid
  er_assessment_id :: uuid
  er_exchange_order_id :: "string option"
  er_timestamp :: time
  er_symbol :: symbol
  er_side :: order_side
  er_order_type :: order_type
  er_status :: order_status
  er_requested_quantity :: money
  er_filled_quantity :: money
  er_average_fill_price :: "money option"
  er_total_cost_usd :: "money option"
  er_fee_usd :: "money option"
  er_fee_currency :: "string option"
  er_realized_pnl_usd :: "money option"
  er_stop_loss_order_id :: "string option"
  er_take_profit_order_id :: "string option"
  er_is_paper :: bool
  er_error_message :: "string option"
  er_retry_count :: int

definition is_successful :: "execution_result \<Rightarrow> bool" where
  "is_successful r \<longleftrightarrow> er_status r \<in> {FILLED, PARTIALLY_FILLED}"

lemma opposite_opposite [simp]: "opposite (opposite s) = s"
  by (cases s) simp_all

lemma opposite_neq [simp]: "opposite s \<noteq> s" "s \<noteq> opposite s"
  by (cases s; simp)+

lemma side_cases: "s = t \<or> s = opposite t"
  by (cases s; cases t) simp_all

subsection \<open>Concrete records\<close>

text \<open>Records with the given values and neutral ones elsewhere, for evaluating the definitions.\<close>

definition mk_technical :: "symbol \<Rightarrow> signal_direction \<Rightarrow> rat \<Rightarrow> rat \<Rightarrow> time \<Rightarrow> technical_signal" where
  "mk_technical symbol d conf price t = \<lparr>ts_signal_id = 1, ts_source = TECHNICAL,
     ts_symbol = symbol, ts_timeframe = ''1m'', ts_timestamp = t, ts_expires_at = t + 300 * 10 ^ 6,
     ts_direction = d, ts_confidence = conf, ts_indicators = [], ts_price = price,
     ts_price_change_1h_pct = None, ts_metadata = []\<rparr>"

definition mk_aggregated :: "technical_signal \<Rightarrow> aggregated_signal" where
  "mk_aggregated s = \<lparr>as_signal_id = 2, as_symbol = ts_symbol s, as_timestamp = ts_timestamp s,
     as_direction = ts_direction s, as_confidence = ts_confidence s,
     as_composite_score = scalar_direction (ts_direction s), as_technical_signal = Some s,
     as_sentiment_signal = None, as_technical_weight = 1, as_sentiment_weight = 0,
     as_total_signals = 1, as_signals_discarded = 0\<rparr>"

definition mk_proposal :: "uuid \<Rightarrow> symbol \<Rightarrow> order_side \<Rightarrow> money \<Rightarrow> rat \<Rightarrow> time \<Rightarrow> trade_proposal" where
  "mk_proposal pid symbol side amount price t = \<lparr>tp_proposal_id = pid, tp_symbol = symbol, tp_side = side,
     tp_order_type = MARKET, tp_timestamp = t, tp_requested_size_usd = amount,
     tp_requested_quantity = None, tp_limit_price = None, tp_suggested_stop_loss_pct = None,
     tp_suggested_take_profit_pct = None,
     tp_signal = mk_aggregated (mk_technical symbol (case side of BUY \<Rightarrow> BUY_DIR | SELL \<Rightarrow> SELL_DIR)
       (3 / 4) price t),
     tp_reasoning = []\<rparr>"

definition mk_assessment :: "uuid \<Rightarrow> symbol \<Rightarrow> order_side \<Rightarrow> money \<Rightarrow> rat \<Rightarrow> risk_assessment" where
  "mk_assessment pid symbol side amount price = \<lparr>ra_assessment_id = 3, ra_proposal_id = pid,
     ra_timestamp = 0, ra_decision = APPROVED, ra_rejection_reason = None,
     ra_rejection_detail = None, ra_approved_size_usd = Some amount, ra_approved_quantity = None,
     ra_approved_stop_loss_pct = None, ra_approved_take_profit_pct = None,
     ra_portfolio_value_usd = None, ra_current_daily_loss_pct = None, ra_open_positions_count = 0,
     ra_original_proposal = mk_proposal pid symbol side amount price 0\<rparr>"

end
