(* ===== verification/Drawdown_Monitor.thy ===== *)
theory Drawdown_Monitor
  imports Trade_Models
begin

text \<open>
  The risk agent's ledger (\<open>agents/risk/drawdown_monitor.py\<close>): cash, cost basis and side per open
  position, and the daily and total loss fractions. The locale \<open>ledger\<close> is the contract between a
  ledger and its client: an operation changes the value of the ledger by its gain. The
  interpretation shows that the monitor is one, on amounts where 28-digit arithmetic is exact.
\<close>

subsection \<open>State and derived values\<close>

record portfolio_state =
  pf_initial_balance_usd :: money
  pf_current_balance_usd :: money
  pf_daily_start_balance_usd :: money
  pf_open_positions :: "(symbol, money) dict"
  pf_position_sides :: "(symbol, order_side) dict"
  pf_daily_realized_pnl :: money
  pf_last_reset_date :: int  \<comment> \<open>days since the epoch, UTC\<close>

definition portfolio_value_usd :: "portfolio_state \<Rightarrow> money" where
  "portfolio_value_usd st = dadd (pf_current_balance_usd st) (dsum (dvals (pf_open_positions st)))"

definition open_positions_count :: "portfolio_state \<Rightarrow> int" where
  "open_positions_count st = int (length (pf_open_positions st))"

definition loss_fraction :: "money \<Rightarrow> portfolio_state \<Rightarrow> rat" where
  "loss_fraction base st = (if base = 0 then 0
     else fl (ddiv (dsub base (portfolio_value_usd st)) base))"

definition daily_loss_pct :: "portfolio_state \<Rightarrow> rat" where
  "daily_loss_pct st = loss_fraction (pf_daily_start_balance_usd st) st"

definition total_drawdown_pct :: "portfolio_state \<Rightarrow> rat" where
  "total_drawdown_pct st = loss_fraction (pf_initial_balance_usd st) st"

record drawdown_monitor =
  dm_max_daily_loss_pct :: rat
  dm_max_total_drawdown_pct :: rat
  dm_state :: portfolio_state

definition utc_date :: "time \<Rightarrow> int" where
  "utc_date now = now div (86400 * 10 ^ 6)"

definition new_drawdown_monitor :: "time \<Rightarrow> rat \<Rightarrow> rat \<Rightarrow> rat \<Rightarrow> drawdown_monitor" where
  "new_drawdown_monitor now initial_balance_usd max_daily max_total =
    (let initial = dec_of_float initial_balance_usd in
     \<lparr>dm_max_daily_loss_pct = max_daily, dm_max_total_drawdown_pct = max_total,
      dm_state = \<lparr>pf_initial_balance_usd = initial, pf_current_balance_usd = initial,
        pf_daily_start_balance_usd = initial, pf_open_positions = [], pf_position_sides = [],
        pf_daily_realized_pnl = 0, pf_last_reset_date = utc_date now\<rparr>\<rparr>)"

subsection \<open>Limit checks\<close>

definition maybe_reset_daily :: "time \<Rightarrow> portfolio_state \<Rightarrow> portfolio_state" where
  "maybe_reset_daily now st = (if pf_last_reset_date st \<noteq> utc_date now
     then st\<lparr>pf_daily_start_balance_usd := portfolio_value_usd st, pf_daily_realized_pnl := 0,
             pf_last_reset_date := utc_date now\<rparr>
     else st)"

definition daily_loss_limit_breached :: "time \<Rightarrow> drawdown_monitor \<Rightarrow> bool \<times> drawdown_monitor" where
  "daily_loss_limit_breached now m = (let st = maybe_reset_daily now (dm_state m) in
     (daily_loss_pct st \<ge> dm_max_daily_loss_pct m, m\<lparr>dm_state := st\<rparr>))"

definition total_drawdown_limit_breached :: "drawdown_monitor \<Rightarrow> bool" where
  "total_drawdown_limit_breached m \<longleftrightarrow> total_drawdown_pct (dm_state m) \<ge> dm_max_total_drawdown_pct m"

subsection \<open>Positions\<close>

definition position_side :: "symbol \<Rightarrow> portfolio_state \<Rightarrow> order_side option" where
  "position_side symbol st = (if map_of (pf_open_positions st) symbol = None then None
     else Some (case map_of (pf_position_sides st) symbol of None \<Rightarrow> BUY | Some s \<Rightarrow> s))"

definition ledger_open :: "symbol \<Rightarrow> money \<Rightarrow> order_side option \<Rightarrow> portfolio_state \<Rightarrow> portfolio_state" where
  "ledger_open symbol size_usd side st =
     st\<lparr>pf_current_balance_usd := dsub (pf_current_balance_usd st) size_usd,
        pf_open_positions := AList.update symbol size_usd (pf_open_positions st),
        pf_position_sides := (case side of None \<Rightarrow> pf_position_sides st
          | Some s \<Rightarrow> AList.update symbol s (pf_position_sides st))\<rparr>"

definition adjust_position_cost :: "symbol \<Rightarrow> money \<Rightarrow> portfolio_state \<Rightarrow> portfolio_state" where
  "adjust_position_cost symbol actual_cost_usd st =
    (case map_of (pf_open_positions st) symbol of
       None \<Rightarrow> st
     | Some reserved \<Rightarrow>
         st\<lparr>pf_current_balance_usd := dadd (pf_current_balance_usd st) (dsub reserved actual_cost_usd),
            pf_open_positions := AList.update symbol actual_cost_usd (pf_open_positions st)\<rparr>)"

definition ledger_close :: "symbol \<Rightarrow> money \<Rightarrow> portfolio_state \<Rightarrow> portfolio_state" where
  "ledger_close symbol pnl_usd st =
    (let entry_cost = (case map_of (pf_open_positions st) symbol of None \<Rightarrow> 0 | Some c \<Rightarrow> c) in
     st\<lparr>pf_open_positions := AList.delete symbol (pf_open_positions st),
        pf_position_sides := AList.delete symbol (pf_position_sides st),
        pf_current_balance_usd := dadd (pf_current_balance_usd st) (dadd entry_cost pnl_usd),
        pf_daily_realized_pnl := dadd (pf_daily_realized_pnl st) pnl_usd\<rparr>)"

text \<open>Each open position has one cost and one side.\<close>

definition positions_paired :: "portfolio_state \<Rightarrow> bool" where
  "positions_paired st \<longleftrightarrow> dict_ok (pf_open_positions st) \<and> dict_ok (pf_position_sides st) \<and>
     fst ` set (pf_position_sides st) = fst ` set (pf_open_positions st)"

lemma positions_paired_open [inv_intros]:
  "positions_paired st \<Longrightarrow> positions_paired (ledger_open s c (Some side) st)"
  by (simp add: positions_paired_def ledger_open_def keys_update distinct_update)

lemma positions_paired_adjust [inv_intros]:
  "positions_paired st \<Longrightarrow> positions_paired (adjust_position_cost s c st)"
  by (auto simp: positions_paired_def adjust_position_cost_def keys_update insert_absorb map_of_keys
      distinct_update split: option.split)

lemma positions_paired_close [inv_intros]:
  "positions_paired st \<Longrightarrow> positions_paired (ledger_close s c st)"
  by (simp add: positions_paired_def ledger_close_def Let_def keys_delete dict_ok_delete)

lemma positions_paired_reset [inv_intros]:
  "positions_paired st \<Longrightarrow> positions_paired (maybe_reset_daily now st)"
  by (simp add: positions_paired_def maybe_reset_daily_def)

subsection \<open>The ledger contract\<close>

locale ledger =
  fixes step :: "'op \<Rightarrow> 's \<Rightarrow> 's"
    and worth :: "'s \<Rightarrow> rat"
    and gain :: "'op \<Rightarrow> 's \<Rightarrow> rat"
    and exact :: "'s \<Rightarrow> bool"
    and fits :: "'op \<Rightarrow> 's \<Rightarrow> bool"
  assumes step_worth: "exact s \<Longrightarrow> fits op s \<Longrightarrow> worth (step op s) = worth s + gain op s"
    and step_exact: "exact s \<Longrightarrow> fits op s \<Longrightarrow> exact (step op s)"
begin

fun gains :: "'op list \<Rightarrow> 's \<Rightarrow> rat" where
  "gains [] s = 0"
| "gains (op # ops) s = gain op s + gains ops (step op s)"

fun all_fit :: "'op list \<Rightarrow> 's \<Rightarrow> bool" where
  "all_fit [] s = True"
| "all_fit (op # ops) s = (fits op s \<and> all_fit ops (step op s))"

lemma run_worth:
  "exact s \<Longrightarrow> all_fit ops s \<Longrightarrow> worth (fold step ops s) = worth s + gains ops s \<and> exact (fold step ops s)"
  by (induction ops arbitrary: s) (simp_all add: step_worth step_exact)

end

subsection \<open>The monitor is a ledger\<close>

definition worth :: "portfolio_state \<Rightarrow> rat" where
  "worth st = pf_current_balance_usd st + sum_list (dvals (pf_open_positions st))"

definition cents :: "rat \<Rightarrow> bool" where
  "cents x \<longleftrightarrow> grid 16 x \<and> \<bar>x\<bar> \<le> 10 ^ 11"

definition ledger_exact :: "portfolio_state \<Rightarrow> bool" where
  "ledger_exact st \<longleftrightarrow> dict_ok (pf_open_positions st) \<and> cents (pf_current_balance_usd st) \<and>
     list_all cents (dvals (pf_open_positions st))"

datatype ledger_op =
    L_open symbol money order_side
  | L_adjust symbol money
  | L_close symbol money

definition booked :: "symbol \<Rightarrow> portfolio_state \<Rightarrow> rat" where
  "booked symbol st = (case map_of (pf_open_positions st) symbol of None \<Rightarrow> 0 | Some c \<Rightarrow> c)"

fun ledger_step :: "ledger_op \<Rightarrow> portfolio_state \<Rightarrow> portfolio_state" where
  "ledger_step (L_open s c side) st = ledger_open s c (Some side) st"
| "ledger_step (L_adjust s c) st = adjust_position_cost s c st"
| "ledger_step (L_close s pnl) st = ledger_close s pnl st"

text \<open>A close gains its PnL. Opening a symbol that already has a position overwrites the cost
  booked for it, which is lost; for a symbol without a position that is 0.\<close>

fun closed_pnl :: "ledger_op \<Rightarrow> rat" where
  "closed_pnl (L_close s pnl) = pnl"
| "closed_pnl _ = 0"

fun overwritten :: "ledger_op \<Rightarrow> portfolio_state \<Rightarrow> rat" where
  "overwritten (L_open s c side) st = booked s st"
| "overwritten _ st = 0"

definition ledger_gain :: "ledger_op \<Rightarrow> portfolio_state \<Rightarrow> rat" where
  "ledger_gain op st = closed_pnl op - overwritten op st"

fun costs_overwritten :: "ledger_op list \<Rightarrow> portfolio_state \<Rightarrow> rat" where
  "costs_overwritten [] st = 0"
| "costs_overwritten (op # ops) st = overwritten op st + costs_overwritten ops (ledger_step op st)"

text \<open>All amounts are exact, before and after.\<close>

fun ledger_fits :: "ledger_op \<Rightarrow> portfolio_state \<Rightarrow> bool" where
  "ledger_fits (L_open s c side) st = (cents c \<and> \<bar>pf_current_balance_usd st - c\<bar> \<le> 10 ^ 11)"
| "ledger_fits (L_adjust s c) st = (cents c \<and>
     \<bar>pf_current_balance_usd st + (booked s st - c)\<bar> \<le> 10 ^ 11)"
| "ledger_fits (L_close s pnl) st = (cents pnl \<and>
     \<bar>pf_current_balance_usd st + (booked s st + pnl)\<bar> \<le> 10 ^ 11)"

lemma dr_cents: "grid 16 x \<Longrightarrow> \<bar>x\<bar> \<le> 10 ^ 12 \<Longrightarrow> dr x = x"
  by (rule dr_exact [of 16]) simp_all

lemma cents_bounded: "cents x \<Longrightarrow> cents y \<Longrightarrow> \<bar>x - y\<bar> \<le> 10 ^ 12 \<and> \<bar>x + y\<bar> \<le> 10 ^ 12"
  by (auto simp: cents_def)

lemma cents_booked: "ledger_exact st \<Longrightarrow> cents (booked s st)"
  by (auto simp: booked_def ledger_exact_def list_all_iff cents_def grid_zero
      split: option.split dest!: map_of_mem)

lemma cash_after:
  assumes "ledger_exact st" "cents c"
  shows "\<bar>pf_current_balance_usd st - c\<bar> \<le> 10 ^ 11 \<Longrightarrow>
      dsub (pf_current_balance_usd st) c = pf_current_balance_usd st - c \<and>
      cents (dsub (pf_current_balance_usd st) c)"
    and "\<bar>pf_current_balance_usd st + (booked s st - c)\<bar> \<le> 10 ^ 11 \<Longrightarrow>
      dadd (pf_current_balance_usd st) (dsub (booked s st) c) = pf_current_balance_usd st + (booked s st - c) \<and>
      cents (dadd (pf_current_balance_usd st) (dsub (booked s st) c))"
    and "\<bar>pf_current_balance_usd st + (booked s st + c)\<bar> \<le> 10 ^ 11 \<Longrightarrow>
      dadd (pf_current_balance_usd st) (dadd (booked s st) c) = pf_current_balance_usd st + (booked s st + c) \<and>
      cents (dadd (pf_current_balance_usd st) (dadd (booked s st) c))"
proof -
  have g: "grid 16 (pf_current_balance_usd st)" "grid 16 c" "grid 16 (booked s st)"
    using assms cents_booked [OF assms(1), of s] by (auto simp: ledger_exact_def cents_def)
  have b: "dsub (booked s st) c = booked s st - c" "dadd (booked s st) c = booked s st + c"
    unfolding dsub_def dadd_def
    using g cents_bounded [OF cents_booked [OF assms(1), of s] assms(2)]
    by (auto intro!: dr_cents grid_diff grid_add)
  show "\<bar>pf_current_balance_usd st - c\<bar> \<le> 10 ^ 11 \<Longrightarrow>
      dsub (pf_current_balance_usd st) c = pf_current_balance_usd st - c \<and>
      cents (dsub (pf_current_balance_usd st) c)"
    using g dr_cents [OF grid_diff [OF g(1,2)]] by (simp add: dsub_def cents_def grid_diff)
  show "\<bar>pf_current_balance_usd st + (booked s st - c)\<bar> \<le> 10 ^ 11 \<Longrightarrow>
      dadd (pf_current_balance_usd st) (dsub (booked s st) c) = pf_current_balance_usd st + (booked s st - c) \<and>
      cents (dadd (pf_current_balance_usd st) (dsub (booked s st) c))"
    using dr_cents [OF grid_add [OF g(1) grid_diff [OF g(3,2)]]] grid_add [OF g(1) grid_diff [OF g(3,2)]]
    unfolding b by (simp add: dadd_def cents_def)
  show "\<bar>pf_current_balance_usd st + (booked s st + c)\<bar> \<le> 10 ^ 11 \<Longrightarrow>
      dadd (pf_current_balance_usd st) (dadd (booked s st) c) = pf_current_balance_usd st + (booked s st + c) \<and>
      cents (dadd (pf_current_balance_usd st) (dadd (booked s st) c))"
    using dr_cents [OF grid_add [OF g(1) grid_add [OF g(3,2)]]] grid_add [OF g(1) grid_add [OF g(3,2)]]
    unfolding b by (simp add: dadd_def cents_def)
qed

lemma sum_update_present:
  "dict_ok d \<Longrightarrow> map_of d k = Some v \<Longrightarrow>
    sum_list (dvals (AList.update k w d)) = sum_list (dvals d) - v + (w :: rat)"
  by (induction d) (auto split: if_splits dest: map_of_SomeD)

lemma list_all_update: "list_all P (dvals d) \<Longrightarrow> P w \<Longrightarrow> list_all P (dvals (AList.update k w d))"
  unfolding list_all_iff using values_update_subset [of k w d] by blast

lemma list_all_delete: "list_all P (dvals d) \<Longrightarrow> list_all P (dvals (AList.delete k d))"
  unfolding list_all_iff using values_delete_subset [of k d] by blast

lemma sum_delete_booked:
  assumes "dict_ok (pf_open_positions st)"
  shows "sum_list (dvals (AList.delete s (pf_open_positions st))) = sum_list (dvals (pf_open_positions st)) - booked s st"
proof (cases "map_of (pf_open_positions st) s")
  case None
  then have "booked s st = 0" "s \<notin> fst ` set (pf_open_positions st)"
    by (simp_all add: booked_def map_of_eq_None_iff [symmetric])
  then show ?thesis by (simp add: delete_absent)
next
  case (Some c)
  then show ?thesis using sum_values_delete [OF assms, of s c "\<lambda>x. x"] by (simp add: booked_def)
qed

lemma sum_update_booked:
  assumes "dict_ok (pf_open_positions st)"
  shows "sum_list (dvals (AList.update s c (pf_open_positions st))) =
    sum_list (dvals (pf_open_positions st)) - booked s st + c"
proof (cases "map_of (pf_open_positions st) s")
  case None
  then show ?thesis by (simp add: booked_def update_new)
next
  case (Some b)
  then show ?thesis using sum_update_present [OF assms Some, of c] by (simp add: booked_def)
qed

interpretation monitor: ledger ledger_step worth ledger_gain ledger_exact ledger_fits
proof
  fix st op assume e: "ledger_exact st" and f: "ledger_fits op st"
  have ok: "dict_ok (pf_open_positions st)" "list_all cents (dvals (pf_open_positions st))"
    using e by (simp_all add: ledger_exact_def)
  have "worth (ledger_step op st) = worth st + ledger_gain op st \<and> ledger_exact (ledger_step op st)"
  proof (cases op)
    case (L_open s c side)
    then have c: "cents c"
      "dsub (pf_current_balance_usd st) c = pf_current_balance_usd st - c"
      "cents (pf_current_balance_usd st - c)"
      using f cash_after(1) [OF e, of c] by auto
    have "dict_ok (AList.update s c (pf_open_positions st))" using ok(1) by (rule dict_ok_update)
    then show ?thesis
      using L_open c ok sum_update_booked [OF ok(1), of s c]
      by (simp add: ledger_open_def worth_def ledger_exact_def ledger_gain_def list_all_update)
  next
    case (L_adjust s c)
    then show ?thesis
      using f ok cash_after(2) [OF e, of c s] sum_update_present [OF ok(1), of s] e
      by (cases "map_of (pf_open_positions st) s")
        (auto simp: adjust_position_cost_def worth_def ledger_exact_def booked_def list_all_update ledger_gain_def)
  next
    case (L_close s pnl)
    then have "dadd (pf_current_balance_usd st) (dadd (booked s st) pnl)
        = pf_current_balance_usd st + (booked s st + pnl)"
      "cents (pf_current_balance_usd st + (booked s st + pnl))"
      using f cash_after(3) [OF e, of pnl s] by auto
    then show ?thesis
      using L_close ok sum_delete_booked [OF ok(1), of s]
      by (simp add: ledger_close_def worth_def ledger_exact_def booked_def [symmetric] list_all_delete Let_def
          ledger_gain_def)
  qed
  then show "worth (ledger_step op st) = worth st + ledger_gain op st"
    and "ledger_exact (ledger_step op st)" by simp_all
qed

subsection \<open>Properties\<close>

lemma portfolio_value_exact:
  assumes "ledger_exact st" "sum_list (map abs (dvals (pf_open_positions st))) \<le> 10 ^ 11"
  shows "portfolio_value_usd st = worth st"
proof -
  define cs where "cs = dvals (pf_open_positions st)"
  have g: "\<forall>x\<in>set cs. grid 16 x" "grid 16 (pf_current_balance_usd st)" "\<bar>pf_current_balance_usd st\<bar> \<le> 10 ^ 11"
    using assms(1) by (auto simp: ledger_exact_def cs_def list_all_iff cents_def)
  have le: "\<bar>sum_list cs\<bar> \<le> 10 ^ 11"
    using sum_list_abs [of cs] assms(2) by (simp add: cs_def)
  have d: "dsum cs = sum_list cs" by (rule dsum_exact [OF g(1)]) (use assms(2) in \<open>simp_all add: cs_def\<close>)
  have "grid 16 (sum_list cs)" using g(1) by (induction cs) (auto simp: grid_zero grid_add)
  then have "dadd (pf_current_balance_usd st) (sum_list cs) = pf_current_balance_usd st + sum_list cs"
    using g(2,3) le unfolding dadd_def by (intro dr_cents grid_add) simp_all
  then show ?thesis using d by (simp add: portfolio_value_usd_def worth_def cs_def)
qed

text \<open>C18: reservations and reconciliations never create money in the risk agent's ledger: after any
  sequence of openings, cost adjustments and closes (on amounts with at most 16 decimal places below
  100 billion) the portfolio value is the initial balance plus the sum of the realized PnLs that were
  closed, less the costs that were overwritten by opening a symbol that already had a position; so a
  sequence that opens only symbols without a position loses none either.\<close>

theorem ledger_value_is_initial_plus_pnl:
  assumes "cents (dec_of_float balance)"
    and "monitor.all_fit ops (dm_state (new_drawdown_monitor now balance d t))"
  defines "st0 \<equiv> dm_state (new_drawdown_monitor now balance d t)"
  defines "st \<equiv> fold ledger_step ops st0"
  assumes "sum_list (map abs (dvals (pf_open_positions st))) \<le> 10 ^ 11"
  shows "portfolio_value_usd st =
    dec_of_float balance + sum_list (map closed_pnl ops) - costs_overwritten ops st0"
proof -
  have e: "ledger_exact st0" "worth st0 = dec_of_float balance"
    using assms(1) by (simp_all add: st0_def new_drawdown_monitor_def ledger_exact_def worth_def Let_def)
  have gains: "monitor.gains ops s = sum_list (map closed_pnl ops) - costs_overwritten ops s" for s
    by (induction ops arbitrary: s) (simp_all add: ledger_gain_def)
  have "worth st = worth st0 + monitor.gains ops st0" "ledger_exact st"
    using monitor.run_worth [OF e(1)] assms(2) by (simp_all add: st_def st0_def)
  then show ?thesis using portfolio_value_exact [of st] assms(5) e(2) gains by simp
qed

theorem ledger_value_is_initial_plus_pnl_witness:
  "portfolio_value_usd (fold ledger_step [L_open ''BTC/USDT'' 200 BUY, L_adjust ''BTC/USDT'' (19990 / 100),
     L_close ''BTC/USDT'' 15, L_open ''ETH/USDT'' 200 BUY, L_open ''ETH/USDT'' 100 BUY, L_close ''ETH/USDT'' 0]
     (dm_state (new_drawdown_monitor 0 10000 (1 / 20) (3 / 20)))) = 9815"
proof -
  define ops where "ops = [L_open ''BTC/USDT'' 200 BUY, L_adjust ''BTC/USDT'' (19990 / 100), L_close ''BTC/USDT'' 15,
    L_open ''ETH/USDT'' 200 BUY, L_open ''ETH/USDT'' 100 BUY, L_close ''ETH/USDT'' 0]"
  have b: "dec_of_float 10000 = 10000" by code_simp
  have g: "grid 16 10000" "grid 16 200" "grid 16 15" "grid 16 (1999 / 10)" "grid 16 100" "grid 16 0"
    unfolding grid_def
    by (rule exI [of _ "10 ^ 20"], simp, rule exI [of _ "200 * 10 ^ 16"], simp,
        rule exI [of _ "15 * 10 ^ 16"], simp, rule exI [of _ "1999 * 10 ^ 15"], simp,
        rule exI [of _ "10 ^ 18"], simp, rule exI [of _ "0"], simp)
  have ds: "dsub 10000 200 = 9800" "dsub 200 (1999 / 10) = 1 / 10" "dadd 9800 (1 / 10) = 98001 / 10"
    "dadd (1999 / 10) 15 = 2149 / 10" "dadd (98001 / 10) (2149 / 10) = 10015" "dsub 10015 200 = 9815"
    "dsub 9815 100 = 9715"
    by code_simp+
  have "monitor.all_fit ops (dm_state (new_drawdown_monitor 0 10000 (1 / 20) (3 / 20)))"
    by (simp add: ops_def new_drawdown_monitor_def b Let_def cents_def g ledger_open_def ledger_close_def
        adjust_position_cost_def booked_def ds)
  moreover have "pf_open_positions (fold ledger_step ops (dm_state (new_drawdown_monitor 0 10000 (1 / 20) (3 / 20)))) = []"
    by (simp add: ops_def new_drawdown_monitor_def b Let_def ledger_open_def adjust_position_cost_def
        ledger_close_def)
  moreover have "costs_overwritten ops (dm_state (new_drawdown_monitor 0 10000 (1 / 20) (3 / 20))) = 200"
    by (simp add: ops_def new_drawdown_monitor_def b Let_def ledger_open_def adjust_position_cost_def
        ledger_close_def booked_def)
  ultimately show ?thesis
    using ledger_value_is_initial_plus_pnl [of 10000 ops 0 "1 / 20" "3 / 20"] g
    by (simp add: b cents_def) (simp add: ops_def)
qed

end
