(* ===== verification/Position_Sizer.thy ===== *)
theory Position_Sizer
  imports Trade_Models
begin

text \<open>
  Fixed-fraction position sizing (\<open>agents/risk/position_sizer.py\<close>). A metadata value that is text
  stands for text that is not a number (\<open>float\<close> raises \<open>ValueError\<close>).
\<close>

definition ATR_STOP_MULTIPLIER :: rat where "ATR_STOP_MULTIPLIER = 3 / 2"
definition MIN_STOP_LOSS_PCT :: rat where "MIN_STOP_LOSS_PCT = fl (5 / 1000)"

record position_sizer =
  sz_max_position_pct :: rat
  sz_min_order_usd :: rat
  sz_max_order_usd :: rat
  sz_risk_per_trade_pct :: rat

definition new_position_sizer :: "rat \<Rightarrow> rat \<Rightarrow> rat \<Rightarrow> position_sizer" where
  "new_position_sizer max_pct min_usd max_usd = \<lparr>sz_max_position_pct = max_pct,
     sz_min_order_usd = min_usd, sz_max_order_usd = max_usd, sz_risk_per_trade_pct = fl (1 / 100)\<rparr>"

definition calculate :: "position_sizer \<Rightarrow> money \<Rightarrow> rat \<Rightarrow> money" where
  "calculate z portfolio_value_usd stop_loss_pct =
    (let effective_stop = max stop_loss_pct MIN_STOP_LOSS_PCT;
         risk_amount = dmul (dec_of_float (sz_risk_per_trade_pct z)) portfolio_value_usd;
         raw_size = ddiv risk_amount (dec_of_float effective_stop);
         max_from_pct = dmul (dec_of_float (sz_max_position_pct z)) portfolio_value_usd;
         abs_max = dec_of_float (sz_max_order_usd z);
         abs_min = dec_of_float (sz_min_order_usd z);
         capped = min (min raw_size max_from_pct) abs_max
     in max capped abs_min)"

fun meta_float :: "meta_value \<Rightarrow> rat option" where
  "meta_float (Meta_num x) = Some x"
| "meta_float (Meta_bool b) = Some (if b then 1 else 0)"
| "meta_float (Meta_text t) = None"
| "meta_float Meta_null = None"
| "meta_float (Meta_list xs) = None"
| "meta_float (Meta_dict d) = None"

definition extract_atr_pct :: "trade_proposal \<Rightarrow> rat option" where
  "extract_atr_pct p = (case as_technical_signal (tp_signal p) of
     None \<Rightarrow> None
   | Some tech \<Rightarrow> (case map_of (ts_metadata tech) ''atr_pct_of_price'' of
       None \<Rightarrow> None | Some v \<Rightarrow> meta_float v))"

definition get_stop_loss_pct :: "trade_proposal \<Rightarrow> rat" where
  "get_stop_loss_pct p =
    (case extract_atr_pct p of
       Some atr \<Rightarrow> if 0 < atr then fmul atr ATR_STOP_MULTIPLIER
         else (case tp_suggested_stop_loss_pct p of
                 Some s \<Rightarrow> if 0 < s then s else fl (2 / 100) | None \<Rightarrow> fl (2 / 100))
     | None \<Rightarrow> (case tp_suggested_stop_loss_pct p of
                 Some s \<Rightarrow> if 0 < s then s else fl (2 / 100) | None \<Rightarrow> fl (2 / 100)))"

subsection \<open>Facts\<close>

lemma calculate_ge_min: "dec_of_float (sz_min_order_usd z) \<le> calculate z v stop"
  by (simp add: calculate_def Let_def)

lemma calculate_le:
  "calculate z v stop \<le> max (dec_of_float (sz_min_order_usd z)) (dec_of_float (sz_max_order_usd z))"
  by (auto simp: calculate_def Let_def)

lemma calculate_le_max:
  "dec_of_float (sz_min_order_usd z) \<le> dec_of_float (sz_max_order_usd z) \<Longrightarrow>
    calculate z v stop \<le> dec_of_float (sz_max_order_usd z)"
  by (simp add: calculate_def Let_def)

lemma calculate_le_pct:
  "dec_of_float (sz_min_order_usd z) \<le> dmul (dec_of_float (sz_max_position_pct z)) v \<Longrightarrow>
    calculate z v stop \<le> dmul (dec_of_float (sz_max_position_pct z)) v"
  by (simp add: calculate_def Let_def min_le_iff_disj)

lemma min_stop_pos: "fl MIN_STOP_LOSS_PCT = MIN_STOP_LOSS_PCT" "0 < MIN_STOP_LOSS_PCT"
  "dec_of_float MIN_STOP_LOSS_PCT = 5 / 1000"
  by (simp add: MIN_STOP_LOSS_PCT_def, code_simp, code_simp)

lemma calculate_anti:
  assumes "is_float s" "is_float s'" "s \<le> s'" "0 \<le> v"
    and "0 \<le> sz_risk_per_trade_pct z" "is_float (sz_risk_per_trade_pct z)"
  shows "calculate z v s' \<le> calculate z v s"
proof -
  define e where "e = max s MIN_STOP_LOSS_PCT"
  define e' where "e' = max s' MIN_STOP_LOSS_PCT"
  have f: "is_float e" "is_float e'" "0 < e" "e \<le> e'"
    using assms(1-3) min_stop_pos by (auto simp: e_def e'_def max_def)
  have d: "0 < dec_of_float e" "dec_of_float e \<le> dec_of_float e'"
    using f by (auto intro: dec_of_float_pos dec_of_float_mono)
  have "0 \<le> dec_of_float (sz_risk_per_trade_pct z)" using assms(5,6) by (rule dec_of_float_nonneg [rotated])
  then have r: "0 \<le> dmul (dec_of_float (sz_risk_per_trade_pct z)) v"
    using assms(4) by (simp add: dmul_def decimal28.rnd_nonneg)
  have "ddiv (dmul (dec_of_float (sz_risk_per_trade_pct z)) v) (dec_of_float e')
      \<le> ddiv (dmul (dec_of_float (sz_risk_per_trade_pct z)) v) (dec_of_float e)"
    unfolding ddiv_def by (rule decimal28.rnd_mono) (use r d in \<open>simp add: frac_le\<close>)
  then show ?thesis unfolding calculate_def Let_def e_def [symmetric] e'_def [symmetric] by linarith
qed

text \<open>C33: the sizer keeps the operator's limits: the size is at least the minimum order, at most the
  maximum order, and at most the maximum fraction of the portfolio wherever that fraction reaches the
  minimum order; and a wider stop never gives a larger size.\<close>

theorem sizer_respects_limits:
  assumes "is_float (sz_min_order_usd z)" "is_float (sz_max_order_usd z)"
    and "sz_min_order_usd z \<le> sz_max_order_usd z" "0 \<le> v"
    and "0 \<le> sz_risk_per_trade_pct z" "is_float (sz_risk_per_trade_pct z)"
    and "is_float stop" "is_float stop'" "stop \<le> stop'"
  shows "dec_of_float (sz_min_order_usd z) \<le> calculate z v stop \<and>
    calculate z v stop \<le> dec_of_float (sz_max_order_usd z) \<and>
    (dec_of_float (sz_min_order_usd z) \<le> dmul (dec_of_float (sz_max_position_pct z)) v \<longrightarrow>
      calculate z v stop \<le> dmul (dec_of_float (sz_max_position_pct z)) v) \<and>
    calculate z v stop' \<le> calculate z v stop"
proof -
  have "dec_of_float (sz_min_order_usd z) \<le> dec_of_float (sz_max_order_usd z)"
    by (rule dec_of_float_mono [OF assms(1-3)])
  then show ?thesis
    using calculate_ge_min calculate_le_max calculate_le_pct calculate_anti [OF assms(7-9,4,5,6)] by blast
qed

theorem sizer_respects_limits_witness:
  "let z = new_position_sizer (1 / 64) 10 1000
   in 10 \<le> calculate z 10000 (1 / 32) \<and> calculate z 10000 (1 / 32) \<le> 1000 \<and>
      calculate z 10000 (1 / 32) \<le> dmul (1 / 64) 10000 \<and>
      calculate z 10000 (1 / 16) \<le> calculate z 10000 (1 / 32)"
proof -
  define z where "z = new_position_sizer (1 / 64) 10 1000"
  have d: "dec_of_float 10 = 10" "dec_of_float 1000 = 1000" "dec_of_float (1 / 64) = 1 / 64"
    "fl 10 = 10" "fl 1000 = 1000" "fl (1 / 32) = 1 / 32" "fl (1 / 16) = 1 / 16"
    "0 \<le> fl (1 / 100)" "10 \<le> dmul (1 / 64) 10000"
    by code_simp+
  show ?thesis
    using sizer_respects_limits [of z 10000 "1 / 32" "1 / 16"]
    unfolding z_def [symmetric] Let_def by (simp add: d z_def new_position_sizer_def)
qed

text \<open>A volatility reading written as a percentage, as the technical agent writes it, sets the
  stop a hundred times too wide: with the metadata value 2 (an ATR of 2 percent of the price) the
  stop is 3 times the price, where the fraction 0.02 gives 0.03.\<close>

theorem atr_stop_unit_mismatch:
  assumes "as_technical_signal (tp_signal p) = Some tech"
    and "map_of (ts_metadata tech) ''atr_pct_of_price'' = Some (Meta_num x)" "0 < x" "is_float x"
  shows "get_stop_loss_pct p = fl (x * (3 / 2)) \<and> (1 \<le> x \<longrightarrow> 1 < get_stop_loss_pct p)"
proof -
  have s: "get_stop_loss_pct p = fl (x * (3 / 2))"
    using assms by (simp add: get_stop_loss_pct_def extract_atr_pct_def fmul_def ATR_STOP_MULTIPLIER_def)
  have "fl (3 / 2) = 3 / 2" by code_simp
  then have "3 / 2 \<le> fl (x * (3 / 2))" if "1 \<le> x" using that by (intro binary64.rnd_ge_exact) simp_all
  then show ?thesis using s by fastforce
qed

theorem atr_stop_unit_mismatch_witness:
  "let tech = (mk_technical ''BTC/USDT'' BUY_DIR (3 / 4) 64000 0)\<lparr>ts_metadata := [(''atr_pct_of_price'', Meta_num 2)]\<rparr>;
       p = (mk_proposal 1 ''BTC/USDT'' BUY 200 64000 0)\<lparr>tp_signal := mk_aggregated tech\<rparr>
   in get_stop_loss_pct p = 3"
proof -
  define tech where "tech = (mk_technical ''BTC/USDT'' BUY_DIR (3 / 4) 64000 0)\<lparr>ts_metadata := [(''atr_pct_of_price'', Meta_num 2)]\<rparr>"
  have "fl 2 = 2" "fl (2 * (3 / 2)) = 3" by code_simp+
  then show ?thesis
    using atr_stop_unit_mismatch [of "(mk_proposal 1 ''BTC/USDT'' BUY 200 64000 0)\<lparr>tp_signal := mk_aggregated tech\<rparr>" tech 2]
    unfolding tech_def [symmetric] Let_def by (simp add: mk_aggregated_def) (simp add: tech_def)
qed

end
