(* ===== verification/Risk_Agent.thy ===== *)
theory Risk_Agent
  imports Base_Agent Circuit_Breaker Drawdown_Monitor Position_Sizer
begin

text \<open>
  The risk agent (\<open>agents/risk/agent.py\<close>): the ten checks on a proposal in their order, the
  emergency halt, the reservation of approved sizes in the ledger and their reconciliation with the
  execution results, idempotent per result id. The environment (clock readings, fresh ids, success
  of the writes to Redis and of the publications) is the argument \<open>risk_env\<close>; the published
  override messages are returned. Log and rejection texts are shortened.

  Proved here: the state invariant, that an approval implies every guard, that a halt latches, that
  results are applied once, and that reservations are released.
\<close>

definition SEEN_RESULTS_MAX :: nat where "SEEN_RESULTS_MAX = 1000"

record risk_agent =
  rk_base :: base_agent
  rk_settings :: settings
  rk_drawdown :: drawdown_monitor
  rk_sizer :: position_sizer
  rk_breaker :: circuit_breaker
  rk_seen_results :: "(uuid, unit) dict"
  rk_bus :: bool
  rk_stored_value :: "money option"  \<comment> \<open>the key \<open>portfolio:paper:value_usd\<close>\<close>
  rk_halt_key :: "string option"     \<comment> \<open>the halt latch in Redis\<close>

record risk_env =
  re_reset_now :: time
  re_age_now :: time
  re_trip_now :: time
  re_stamp_now :: time
  re_assessment_id :: uuid
  re_override_id :: uuid
  re_halt_write_ok :: bool
  re_override_publish_ok :: bool
  re_value_write_ok :: bool
  re_publish_error :: "error option"

definition new_risk_agent :: "settings \<Rightarrow> time \<Rightarrow> bool \<Rightarrow> risk_agent" where
  "new_risk_agent s now up = \<lparr>rk_base = new_base_agent s ''risk_agent'', rk_settings = s,
     rk_drawdown = new_drawdown_monitor now (st_paper_initial_balance_usd s)
       (rs_max_daily_loss_pct (st_risk s)) (rs_max_total_drawdown_pct (st_risk s)),
     rk_sizer = new_position_sizer (rs_max_position_pct (st_risk s))
       (rs_min_order_size_usd (st_risk s)) (rs_max_order_size_usd (st_risk s)),
     rk_breaker = new_circuit_breaker, rk_seen_results = [], rk_bus = up, rk_stored_value = None,
     rk_halt_key = None\<rparr>"

abbreviation rk_state :: "risk_agent \<Rightarrow> portfolio_state" where
  "rk_state ag \<equiv> dm_state (rk_drawdown ag)"

abbreviation set_state :: "portfolio_state \<Rightarrow> risk_agent \<Rightarrow> risk_agent" where
  "set_state st ag \<equiv> ag\<lparr>rk_drawdown := (rk_drawdown ag)\<lparr>dm_state := st\<rparr>\<rparr>"

subsection \<open>Helpers\<close>

definition persist_portfolio_value :: "bool \<Rightarrow> risk_agent \<Rightarrow> risk_agent" where
  "persist_portfolio_value ok ag = (if rk_bus ag \<and> ok
     then ag\<lparr>rk_stored_value := Some (portfolio_value_usd (rk_state ag))\<rparr> else ag)"

definition risk_setup :: "bool \<Rightarrow> risk_agent \<Rightarrow> risk_agent" where
  "risk_setup ok ag = persist_portfolio_value ok ag"

definition signal_age_seconds :: "time \<Rightarrow> trade_proposal \<Rightarrow> rat" where
  "signal_age_seconds now p = (case as_technical_signal (tp_signal p) of
     None \<Rightarrow> 0 | Some tech \<Rightarrow> max 0 (seconds (now - ts_timestamp tech)))"

definition reject ::
  "risk_env \<Rightarrow> trade_proposal \<Rightarrow> rejection_reason \<Rightarrow> string \<Rightarrow> money \<Rightarrow> rat \<Rightarrow> int \<Rightarrow> risk_assessment" where
  "reject env p reason detail portfolio_value daily_loss open_count =
     \<lparr>ra_assessment_id = re_assessment_id env, ra_proposal_id = tp_proposal_id p,
      ra_timestamp = re_stamp_now env, ra_decision = REJECTED, ra_rejection_reason = Some reason,
      ra_rejection_detail = Some detail, ra_approved_size_usd = None, ra_approved_quantity = None,
      ra_approved_stop_loss_pct = None, ra_approved_take_profit_pct = None,
      ra_portfolio_value_usd = Some portfolio_value, ra_current_daily_loss_pct = Some daily_loss,
      ra_open_positions_count = open_count, ra_original_proposal = p\<rparr>"

definition approve ::
  "risk_env \<Rightarrow> trade_proposal \<Rightarrow> risk_decision \<Rightarrow> money \<Rightarrow> rat option \<Rightarrow> rat option \<Rightarrow> money \<Rightarrow> rat \<Rightarrow> int \<Rightarrow>
     risk_assessment" where
  "approve env p decision approved stop target portfolio_value daily_loss open_count =
     \<lparr>ra_assessment_id = re_assessment_id env, ra_proposal_id = tp_proposal_id p,
      ra_timestamp = re_stamp_now env, ra_decision = decision, ra_rejection_reason = None,
      ra_rejection_detail = None, ra_approved_size_usd = Some approved, ra_approved_quantity = None,
      ra_approved_stop_loss_pct = stop, ra_approved_take_profit_pct = target,
      ra_portfolio_value_usd = Some portfolio_value, ra_current_daily_loss_pct = Some daily_loss,
      ra_open_positions_count = open_count, ra_original_proposal = p\<rparr>"

text \<open>The breaker trips whatever happens to the two messages; the latch is written before the
  override is published, and a failed write skips the publication.\<close>

definition emergency_halt ::
  "risk_env \<Rightarrow> string \<Rightarrow> rat option \<Rightarrow> rat option \<Rightarrow> risk_agent \<Rightarrow> risk_override list \<times> risk_agent" where
  "emergency_halt env reason daily_loss total_drawdown ag =
    (let ag1 = ag\<lparr>rk_breaker := trip (re_trip_now env) reason (rk_breaker ag)\<rparr>;
         ro = \<lparr>ro_override_id = re_override_id env, ro_reason = reason,
               ro_triggered_by = ba_name (rk_base ag), ro_timestamp = re_stamp_now env,
               ro_daily_loss_pct = daily_loss, ro_total_drawdown_pct = total_drawdown,
               ro_requires_human_reset = True\<rparr>
     in if rk_bus ag \<and> \<not> re_halt_write_ok env then ([], ag1)
        else (let ag2 = (if rk_bus ag then ag1\<lparr>rk_halt_key := Some reason\<rparr> else ag1)
              in (if re_override_publish_ok env then [ro] else [], ag2)))"

subsection \<open>Evaluation\<close>

text \<open>Checks 8 to 10: size the order, compare with the minimum, reserve.\<close>

definition size_and_reserve ::
  "risk_env \<Rightarrow> trade_proposal \<Rightarrow> money \<Rightarrow> rat \<Rightarrow> int \<Rightarrow> risk_agent \<Rightarrow> risk_assessment \<times> risk_agent" where
  "size_and_reserve env p portfolio_value daily_loss open_count ag =
    (let stop_pct = get_stop_loss_pct p;
         sized = calculate (rk_sizer ag) portfolio_value stop_pct
     in if sized < dec_of_float (rs_min_order_size_usd (st_risk (rk_settings ag)))
        then (reject env p ORDER_SIZE_TOO_SMALL ''Approved size below minimum'' portfolio_value daily_loss open_count, ag)
     else let requested = tp_requested_size_usd p;
         decision = (if sized \<ge> requested then APPROVED else MODIFIED);
         approved = (if sized \<ge> requested then requested else sized);
         ag1 = set_state (ledger_open (tp_symbol p) approved (Some (tp_side p)) (rk_state ag)) ag
     in (approve env p decision approved (Some stop_pct) (tp_suggested_take_profit_pct p)
           portfolio_value daily_loss (open_count + 1),
         persist_portfolio_value (re_value_write_ok env) ag1))"

text \<open>Checks 5 to 10, once the system is not halted and the limits hold.\<close>

definition position_checks ::
  "risk_env \<Rightarrow> trade_proposal \<Rightarrow> money \<Rightarrow> rat \<Rightarrow> int \<Rightarrow> risk_agent \<Rightarrow> risk_assessment \<times> risk_agent" where
  "position_checks env p portfolio_value daily_loss open_count ag =
    (let rej = (\<lambda>reason detail. reject env p reason detail portfolio_value daily_loss open_count);
         risk = st_risk (rk_settings ag)
     in if signal_age_seconds (re_age_now env) p > of_int (rs_max_data_staleness_seconds risk)
        then (rej STALE_MARKET_DATA ''Underlying signal is stale'', ag)
     else case position_side (tp_symbol p) (rk_state ag) of
        Some held \<Rightarrow>
          if held = tp_side p
          then (rej DUPLICATE_SIGNAL ''Already has an open position (no stacking)'', ag)
          else (approve env p APPROVED (the (map_of (pf_open_positions (rk_state ag)) (tp_symbol p)))
                  None None portfolio_value daily_loss open_count, ag)
      | None \<Rightarrow>
          if open_count \<ge> rs_max_open_positions risk
          then (rej MAX_OPEN_POSITIONS ''Max open positions reached'', ag)
          else size_and_reserve env p portfolio_value daily_loss open_count ag)"

definition evaluate ::
  "risk_env \<Rightarrow> trade_proposal \<Rightarrow> risk_agent \<Rightarrow> risk_assessment \<times> risk_override list \<times> risk_agent" where
  "evaluate env p ag =
    (let st = rk_state ag; portfolio_value = portfolio_value_usd st;
         daily_loss = daily_loss_pct st; open_count = open_positions_count st;
         rej = (\<lambda>reason detail. reject env p reason detail portfolio_value daily_loss open_count)
     in if cb_tripped (rk_breaker ag)
        then (rej CIRCUIT_BREAKER_ACTIVE ''Circuit breaker tripped'', [], ag)
     else if ba_trading_halted (rk_base ag)
        then (rej CIRCUIT_BREAKER_ACTIVE ''Trading halted by risk override signal'', [], ag)
     else (case daily_loss_limit_breached (re_reset_now env) (rk_drawdown ag) of (breached, dm) \<Rightarrow>
     let ag1 = ag\<lparr>rk_drawdown := dm\<rparr> in
     if breached
        then (case emergency_halt env ''Daily loss limit breached'' (Some (daily_loss_pct (dm_state dm))) None ag1 of
                (ros, ag2) \<Rightarrow> (rej DAILY_LOSS_LIMIT ''Daily loss exceeds limit'', ros, ag2))
     else if total_drawdown_limit_breached dm
        then (case emergency_halt env ''Total drawdown limit breached'' None (Some (total_drawdown_pct (dm_state dm))) ag1 of
                (ros, ag2) \<Rightarrow> (rej TOTAL_DRAWDOWN_LIMIT ''Total drawdown exceeds limit'', ros, ag2))
     else (case position_checks env p portfolio_value daily_loss open_count ag1 of
             (a, ag2) \<Rightarrow> (a, [], ag2))))"

subsection \<open>Execution results\<close>

datatype result_action = Duplicate | Released | Ignored | Closed | Reconciled | Adopted

definition apply_execution_result :: "execution_result \<Rightarrow> risk_agent \<Rightarrow> result_action \<times> risk_agent" where
  "apply_execution_result r ag =
    (if map_of (rk_seen_results ag) (er_result_id r) \<noteq> None then (Duplicate, ag)
     else
     let ag1 = ag\<lparr>rk_seen_results := remember SEEN_RESULTS_MAX (er_result_id r) () (rk_seen_results ag)\<rparr>;
         st = rk_state ag; symbol = er_symbol r; side = er_side r;
         held_side = position_side symbol st;
         filled = (er_status r \<in> {FILLED, PARTIALLY_FILLED} \<and> er_filled_quantity r > 0)
     in if \<not> filled
        then (if held_side = Some side then (Released, set_state (ledger_close symbol 0 st) ag1)
              else (Ignored, ag1))
     else if held_side \<noteq> None \<and> held_side \<noteq> Some side
        then (let pnl = (case er_realized_pnl_usd r of None \<Rightarrow> 0 | Some x \<Rightarrow> x)
              in (Closed, set_state (ledger_close symbol pnl st) ag1))
     else
     let actual_cost = dadd (case er_total_cost_usd r of None \<Rightarrow> 0 | Some x \<Rightarrow> x)
                            (case er_fee_usd r of None \<Rightarrow> 0 | Some x \<Rightarrow> x)
     in if held_side = Some side
        then (Reconciled, set_state (adjust_position_cost symbol actual_cost st) ag1)
     else (Adopted, set_state (ledger_open symbol actual_cost (Some side) st) ag1))"

definition track_execution_result :: "bool \<Rightarrow> execution_result \<Rightarrow> risk_agent \<Rightarrow> risk_agent" where
  "track_execution_result ok r ag =
    (if \<not> should_continue (rk_base ag) then ag
     else persist_portfolio_value ok (snd (apply_execution_result r ag)))"

text \<open>One turn of the run loop: what is published, and the agent afterwards. The audit write is best
  effort and has no effect on the agent.\<close>

definition handle_proposal ::
  "risk_env \<Rightarrow> trade_proposal \<Rightarrow> risk_agent \<Rightarrow> risk_assessment option \<times> risk_override list \<times> risk_agent" where
  "handle_proposal env p ag =
    (if \<not> should_continue (rk_base ag) then (None, [], ag)
     else case evaluate env p ag of (a, ros, ag1) \<Rightarrow>
       (case re_publish_error env of
          None \<Rightarrow> (Some a, ros, ag1\<lparr>rk_base := record_success (rk_base ag1)\<rparr>)
        | Some e \<Rightarrow> (None, ros, ag1\<lparr>rk_base := handle_error e (rk_base ag1)\<rparr>)))"

subsection \<open>The state invariant\<close>

definition risk_ok :: "risk_agent \<Rightarrow> bool" where
  "risk_ok ag \<longleftrightarrow> positions_paired (rk_state ag) \<and> dict_ok (rk_seen_results ag) \<and> length (rk_seen_results ag) \<le> SEEN_RESULTS_MAX"

datatype risk_event =
    R_proposal risk_env trade_proposal
  | R_result bool execution_result
  | R_override risk_override

fun risk_step :: "risk_event \<Rightarrow> risk_agent \<Rightarrow> risk_agent" where
  "risk_step (R_proposal env p) ag = snd (snd (handle_proposal env p ag))"
| "risk_step (R_result ok r) ag = track_execution_result ok r ag"
| "risk_step (R_override ro) ag = ag\<lparr>rk_base := on_risk_override ro (rk_base ag)\<rparr>"

definition risk_run :: "risk_event list \<Rightarrow> risk_agent \<Rightarrow> risk_agent" where
  "risk_run evs ag = fold risk_step evs ag"

lemma persist_fields [simp]:
  "rk_drawdown (persist_portfolio_value ok ag) = rk_drawdown ag"
  "rk_breaker (persist_portfolio_value ok ag) = rk_breaker ag"
  "rk_base (persist_portfolio_value ok ag) = rk_base ag"
  "rk_seen_results (persist_portfolio_value ok ag) = rk_seen_results ag"
  "rk_settings (persist_portfolio_value ok ag) = rk_settings ag"
  "rk_sizer (persist_portfolio_value ok ag) = rk_sizer ag"
  by (simp_all add: persist_portfolio_value_def)

lemma emergency_halt_fields:
  assumes "emergency_halt env reason d t ag = (ros, ag')"
  shows "rk_drawdown ag' = rk_drawdown ag" "rk_base ag' = rk_base ag" "cb_tripped (rk_breaker ag')"
    "rk_seen_results ag' = rk_seen_results ag" "rk_settings ag' = rk_settings ag" "rk_sizer ag' = rk_sizer ag"
  using assms by (auto simp: emergency_halt_def Let_def split: if_splits)

lemma daily_check_state:
  "snd (daily_loss_limit_breached now m) = m\<lparr>dm_state := maybe_reset_daily now (dm_state m)\<rparr>"
  "fst (daily_loss_limit_breached now m) \<longleftrightarrow>
     daily_loss_pct (maybe_reset_daily now (dm_state m)) \<ge> dm_max_daily_loss_pct m"
  by (simp_all add: daily_loss_limit_breached_def Let_def)

lemma maybe_reset_fields [simp]:
  "pf_open_positions (maybe_reset_daily now st) = pf_open_positions st"
  "pf_position_sides (maybe_reset_daily now st) = pf_position_sides st"
  "pf_current_balance_usd (maybe_reset_daily now st) = pf_current_balance_usd st"
  "pf_initial_balance_usd (maybe_reset_daily now st) = pf_initial_balance_usd st"
  "portfolio_value_usd (maybe_reset_daily now st) = portfolio_value_usd st"
  by (simp_all add: maybe_reset_daily_def portfolio_value_usd_def)

lemma position_side_reset [simp]: "position_side s (maybe_reset_daily now st) = position_side s st"
  by (simp add: position_side_def)

text \<open>How the checks on positions end: declined without any change, approved to close, or approved to
  open with the reservation made.\<close>

lemma position_checks_cases:
  assumes "position_checks env p pv dl oc ag = (a, ag')"
  obtains
    (declined) reason where "ra_decision a = REJECTED" "ra_rejection_reason a = Some reason"
      "reason \<in> {STALE_MARKET_DATA, DUPLICATE_SIGNAL, MAX_OPEN_POSITIONS, ORDER_SIZE_TOO_SMALL}" "ag' = ag"
      "reason = ORDER_SIZE_TOO_SMALL \<longrightarrow> calculate (rk_sizer ag) pv (get_stop_loss_pct p)
          < dec_of_float (rs_min_order_size_usd (st_risk (rk_settings ag)))"
      "reason = DUPLICATE_SIGNAL \<longrightarrow> position_side (tp_symbol p) (rk_state ag) = Some (tp_side p)"
  | (offsetting) held where "position_side (tp_symbol p) (rk_state ag) = Some held" "held \<noteq> tp_side p"
      "ra_decision a = APPROVED" "ag' = ag"
      "ra_approved_size_usd a = map_of (pf_open_positions (rk_state ag)) (tp_symbol p)"
      "ra_rejection_reason a = None"
      "signal_age_seconds (re_age_now env) p \<le> of_int (rs_max_data_staleness_seconds (st_risk (rk_settings ag)))"
  | (reserving) sized where "position_side (tp_symbol p) (rk_state ag) = None"
      "oc < rs_max_open_positions (st_risk (rk_settings ag))"
      "sized = calculate (rk_sizer ag) pv (get_stop_loss_pct p)"
      "dec_of_float (rs_min_order_size_usd (st_risk (rk_settings ag))) \<le> sized"
      "ra_decision a = (if sized \<ge> tp_requested_size_usd p then APPROVED else MODIFIED)"
      "ra_approved_size_usd a = Some (min sized (tp_requested_size_usd p))"
      "ag' = persist_portfolio_value (re_value_write_ok env)
         (set_state (ledger_open (tp_symbol p) (min sized (tp_requested_size_usd p)) (Some (tp_side p)) (rk_state ag)) ag)"
      "signal_age_seconds (re_age_now env) p \<le> of_int (rs_max_data_staleness_seconds (st_risk (rk_settings ag)))"
      "ra_rejection_reason a = None"
proof (cases "signal_age_seconds (re_age_now env) p > of_int (rs_max_data_staleness_seconds (st_risk (rk_settings ag)))")
  case True
  then show thesis using assms
    by (intro declined [of STALE_MARKET_DATA]) (auto simp: position_checks_def Let_def reject_def)
next
  case False
  note fresh = False
  show thesis
  proof (cases "position_side (tp_symbol p) (rk_state ag)")
    case (Some held)
    then have "map_of (pf_open_positions (rk_state ag)) (tp_symbol p) \<noteq> None"
      by (auto simp: position_side_def split: if_splits)
    then show thesis using assms fresh Some
      by (cases "held = tp_side p")
        (auto simp: position_checks_def Let_def reject_def approve_def intro: declined [of DUPLICATE_SIGNAL] offsetting)
  next
    case None
    define sized where "sized = calculate (rk_sizer ag) pv (get_stop_loss_pct p)"
    consider "rs_max_open_positions (st_risk (rk_settings ag)) \<le> oc"
      | "oc < rs_max_open_positions (st_risk (rk_settings ag))"
        "sized < dec_of_float (rs_min_order_size_usd (st_risk (rk_settings ag)))"
      | "oc < rs_max_open_positions (st_risk (rk_settings ag))"
        "dec_of_float (rs_min_order_size_usd (st_risk (rk_settings ag))) \<le> sized" by linarith
    then show thesis
    proof cases
      case 1
      then show thesis using assms fresh None
        by (intro declined [of MAX_OPEN_POSITIONS]) (auto simp: position_checks_def Let_def reject_def)
    next
      case 2
      then show thesis using assms fresh None
        by (intro declined [of ORDER_SIZE_TOO_SMALL])
          (auto simp: position_checks_def size_and_reserve_def Let_def sized_def reject_def)
    next
      case 3
      then show thesis using assms fresh None
        by (intro reserving [of sized])
          (auto simp: position_checks_def size_and_reserve_def Let_def sized_def [symmetric] approve_def min_def)
    qed
  qed
qed

text \<open>How an evaluation ends.\<close>

lemma evaluate_cases:
  assumes "evaluate env p ag = (a, ros, ag')"
  obtains
    (halted) "cb_tripped (rk_breaker ag) \<or> ba_trading_halted (rk_base ag)" "ag' = ag" "ros = []"
      "ra_decision a = REJECTED" "ra_rejection_reason a = Some CIRCUIT_BREAKER_ACTIVE"
  | (limit) "\<not> cb_tripped (rk_breaker ag)" "\<not> ba_trading_halted (rk_base ag)"
      "ra_decision a = REJECTED" "ra_rejection_reason a \<in> {Some DAILY_LOSS_LIMIT, Some TOTAL_DRAWDOWN_LIMIT}"
      "rk_state ag' = maybe_reset_daily (re_reset_now env) (rk_state ag)" "rk_base ag' = rk_base ag"
      "rk_seen_results ag' = rk_seen_results ag" "cb_tripped (rk_breaker ag')"
  | (checked) ag1 where "\<not> cb_tripped (rk_breaker ag)" "\<not> ba_trading_halted (rk_base ag)" "ros = []"
      "ag1 = set_state (maybe_reset_daily (re_reset_now env) (rk_state ag)) ag"
      "daily_loss_pct (rk_state ag1) < dm_max_daily_loss_pct (rk_drawdown ag)"
      "total_drawdown_pct (rk_state ag1) < dm_max_total_drawdown_pct (rk_drawdown ag)"
      "position_checks env p (portfolio_value_usd (rk_state ag)) (daily_loss_pct (rk_state ag))
         (open_positions_count (rk_state ag)) ag1 = (a, ag')"
proof -
  define st where "st = maybe_reset_daily (re_reset_now env) (rk_state ag)"
  have d: "daily_loss_limit_breached (re_reset_now env) (rk_drawdown ag) =
      (daily_loss_pct st \<ge> dm_max_daily_loss_pct (rk_drawdown ag), (rk_drawdown ag)\<lparr>dm_state := st\<rparr>)"
    using daily_check_state [of "re_reset_now env" "rk_drawdown ag"] by (simp add: prod_eq_iff st_def)
  show thesis
  proof (cases "cb_tripped (rk_breaker ag) \<or> ba_trading_halted (rk_base ag)")
    case True
    then show thesis using assms
      by (intro halted) (auto simp: evaluate_def Let_def reject_def split: if_splits)
  next
    case False
    note nf = False
    show thesis
    proof (cases "daily_loss_pct st \<ge> dm_max_daily_loss_pct (rk_drawdown ag) \<or>
        total_drawdown_pct st \<ge> dm_max_total_drawdown_pct (rk_drawdown ag)")
      case True
      then show thesis using assms nf
        by (intro limit) (auto simp: evaluate_def Let_def reject_def d total_drawdown_limit_breached_def st_def
            dest: emergency_halt_fields split: prod.splits if_splits)
    next
      case False
      then show thesis using assms nf
        by (intro checked [of "set_state st ag"])
          (auto simp: evaluate_def Let_def d total_drawdown_limit_breached_def st_def [symmetric] split: prod.splits)
    qed
  qed
qed

subsection \<open>The invariant holds on every trace\<close>

lemmas ledger_defs = ledger_open_def ledger_close_def adjust_position_cost_def

lemma position_side_none: "position_side s st = None \<longleftrightarrow> map_of (pf_open_positions st) s = None"
  by (simp add: position_side_def)

lemma position_checks_ok:
  assumes "position_checks env p pv dl oc ag = (a, ag')" "risk_ok ag"
  shows "risk_ok ag'" "rk_breaker ag' = rk_breaker ag" "rk_base ag' = rk_base ag"
proof -
  have "risk_ok ag' \<and> rk_breaker ag' = rk_breaker ag \<and> rk_base ag' = rk_base ag"
    using assms(1)
    by (cases rule: position_checks_cases) (use assms(2) in \<open>simp_all add: risk_ok_def positions_paired_open\<close>)
  then show "risk_ok ag'" "rk_breaker ag' = rk_breaker ag" "rk_base ag' = rk_base ag" by simp_all
qed

lemma evaluate_ok:
  assumes "evaluate env p ag = (a, ros, ag')" "risk_ok ag"
  shows "risk_ok ag'" "rk_base ag' = rk_base ag"
proof -
  have "risk_ok ag' \<and> rk_base ag' = rk_base ag"
    using assms(1)
  proof (cases rule: evaluate_cases)
    case (checked ag1)
    then have "risk_ok ag1" using assms(2) by (simp add: risk_ok_def positions_paired_reset)
    then show ?thesis using position_checks_ok [OF checked(7)] checked(4) by simp
  qed (use assms(2) in \<open>simp_all add: risk_ok_def positions_paired_reset\<close>)
  then show "risk_ok ag'" "rk_base ag' = rk_base ag" by simp_all
qed

lemma apply_result_ok: "risk_ok ag \<Longrightarrow> risk_ok (snd (apply_execution_result r ag))"
  by (simp add: apply_execution_result_def Let_def risk_ok_def length_remember inv_intros)

lemma persist_ok [simp]: "risk_ok (persist_portfolio_value ok ag) \<longleftrightarrow> risk_ok ag"
  by (simp add: risk_ok_def)

lemma base_ok [simp]: "risk_ok (ag\<lparr>rk_base := x\<rparr>) \<longleftrightarrow> risk_ok ag"
  by (simp add: risk_ok_def)

lemma risk_step_ok: "risk_ok ag \<Longrightarrow> risk_ok (risk_step ev ag)"
proof (cases ev)
  case (R_proposal env p)
  assume ok: "risk_ok ag"
  obtain a ros ag1 where "evaluate env p ag = (a, ros, ag1)" by (cases "evaluate env p ag")
  then show ?thesis using evaluate_ok(1) [of env p ag a ros ag1] ok R_proposal
    by (simp add: handle_proposal_def split: option.split)
qed (simp_all add: track_execution_result_def apply_result_ok)

lemma risk_run_ok: "risk_ok ag \<Longrightarrow> risk_ok (risk_run evs ag)"
  by (induction evs arbitrary: ag) (simp_all add: risk_run_def risk_step_ok)

lemma new_risk_agent_ok: "risk_ok (new_risk_agent s now up)"
  by (simp add: risk_ok_def positions_paired_def new_risk_agent_def new_drawdown_monitor_def Let_def)

subsection \<open>Halting\<close>

definition halted :: "risk_agent \<Rightarrow> bool" where
  "halted ag \<longleftrightarrow> cb_tripped (rk_breaker ag) \<or> ba_trading_halted (rk_base ag)"

lemma halted_evaluate:
  assumes "halted ag" "evaluate env p ag = (a, ros, ag')"
  shows "ra_decision a = REJECTED" "ra_rejection_reason a = Some CIRCUIT_BREAKER_ACTIVE" "ros = []" "ag' = ag"
  using assms(2) by (cases rule: evaluate_cases; use assms(1) in \<open>simp add: halted_def\<close>)+

lemma apply_result_other_fields [simp]:
  "rk_breaker (snd (apply_execution_result r ag)) = rk_breaker ag"
  "rk_base (snd (apply_execution_result r ag)) = rk_base ag"
  "rk_settings (snd (apply_execution_result r ag)) = rk_settings ag"
  by (auto simp: apply_execution_result_def Let_def)

lemma halted_step:
  assumes "halted ag"
  shows "halted (risk_step ev ag)"
proof (cases ev)
  case (R_proposal env p)
  obtain a ros ag1 where e: "evaluate env p ag = (a, ros, ag1)" by (cases "evaluate env p ag")
  then have "ag1 = ag" by (rule halted_evaluate(4) [OF assms])
  then show ?thesis using assms R_proposal e
    by (simp add: handle_proposal_def halted_def split: option.split)
qed (use assms in \<open>simp_all add: track_execution_result_def halted_def\<close>)

lemma halted_run: "halted ag \<Longrightarrow> halted (risk_run evs ag)"
  by (induction evs arbitrary: ag) (simp_all add: risk_run_def halted_step)

subsection \<open>Results are remembered\<close>

lemma evaluate_seen: "evaluate env p ag = (a, ros, ag') \<Longrightarrow> rk_seen_results ag' = rk_seen_results ag"
proof (induction rule: evaluate_cases)
  case (checked ag1)
  from checked(7) show ?case by (cases rule: position_checks_cases) (use checked(4) in simp_all)
qed simp_all

lemma apply_result_seen:
  "rk_seen_results (snd (apply_execution_result r ag)) =
    (if map_of (rk_seen_results ag) (er_result_id r) = None
     then remember SEEN_RESULTS_MAX (er_result_id r) () (rk_seen_results ag) else rk_seen_results ag)"
  by (simp add: apply_execution_result_def Let_def)

lemma risk_step_seen:
  "rk_seen_results (risk_step ev ag) = rk_seen_results ag \<or>
    (\<exists>k v. map_of (rk_seen_results ag) k = None \<and>
      rk_seen_results (risk_step ev ag) = remember SEEN_RESULTS_MAX k v (rk_seen_results ag))"
proof (cases ev)
  case (R_proposal env p)
  obtain a ros ag1 where e: "evaluate env p ag = (a, ros, ag1)" by (cases "evaluate env p ag")
  then show ?thesis using evaluate_seen [OF e] R_proposal by (simp add: handle_proposal_def split: option.split)
next
  case (R_result ok r)
  then show ?thesis using apply_result_seen [of r ag]
    by (cases "map_of (rk_seen_results ag) (er_result_id r)") (auto simp: track_execution_result_def)
qed simp

interpretation seen: bounded_memory risk_step rk_seen_results SEEN_RESULTS_MAX risk_ok "\<lambda>_. True"
  by unfold_locales (use risk_step_ok risk_step_seen in \<open>auto simp: risk_ok_def\<close>)

subsection \<open>Concrete agents\<close>

definition mk_risk_env :: "time \<Rightarrow> risk_env" where
  "mk_risk_env now = \<lparr>re_reset_now = now, re_age_now = now, re_trip_now = now, re_stamp_now = now,
     re_assessment_id = 3, re_override_id = 4, re_halt_write_ok = True, re_override_publish_ok = True,
     re_value_write_ok = True, re_publish_error = None\<rparr>"

definition demo_agent :: risk_agent where "demo_agent = new_risk_agent default_settings 0 True"
definition demo_proposal :: trade_proposal where "demo_proposal = mk_proposal 7 ''BTC/USDT'' BUY 150 64000 0"
definition demo_verdict :: risk_assessment where
  "demo_verdict = fst (evaluate (mk_risk_env 0) demo_proposal demo_agent)"
definition demo_reserved :: risk_agent where
  "demo_reserved = snd (snd (evaluate (mk_risk_env 0) demo_proposal demo_agent))"

lemma demo_evaluated:
  "evaluate (mk_risk_env 0) demo_proposal demo_agent = (demo_verdict, fst (snd (evaluate (mk_risk_env 0) demo_proposal demo_agent)), demo_reserved)"
  by (simp add: demo_verdict_def demo_reserved_def)

lemma demo_verdict: "ra_decision demo_verdict = APPROVED" "ra_approved_size_usd demo_verdict = Some 150"
  by code_simp+

lemma demo_flat: "position_side s (rk_state demo_agent) = None" "risk_ok demo_agent"
  using new_risk_agent_ok [of default_settings 0 True]
  by (simp_all add: demo_agent_def new_risk_agent_def new_drawdown_monitor_def position_side_def Let_def)

subsection \<open>Properties\<close>

text \<open>C1: an order is approved only when every guard holds: nothing has halted trading, today's loss
  and the total drawdown are below their limits, the signal is fresh, and the symbol is not already
  held on the proposal's side. When the symbol is flat, fewer than the allowed positions were open; the
  approved size is never more than requested, at least the request or the operator's minimum, whichever
  is smaller, and at most the larger of the operator's maximum and minimum; it is reserved in the ledger
  on the proposal's side, and the number of positions is still within the limit. When the symbol is held
  on the opposite side, the approval is for exactly the cost booked for it, to close it, and the ledger
  keeps its positions and cash until the execution result arrives.\<close>

theorem risk_approval_implies_guards:
  assumes "evaluate env p ag = (a, ros, ag')" "is_approved a"
  defines "today \<equiv> maybe_reset_daily (re_reset_now env) (rk_state ag)"
  defines "max_open \<equiv> rs_max_open_positions (st_risk (rk_settings ag))"
  shows "\<not> halted ag \<and> daily_loss_pct today < dm_max_daily_loss_pct (rk_drawdown ag) \<and>
    total_drawdown_pct today < dm_max_total_drawdown_pct (rk_drawdown ag) \<and>
    signal_age_seconds (re_age_now env) p \<le> of_int (rs_max_data_staleness_seconds (st_risk (rk_settings ag))) \<and>
    position_side (tp_symbol p) (rk_state ag) \<noteq> Some (tp_side p) \<and>
    (if map_of (pf_open_positions (rk_state ag)) (tp_symbol p) = None
     then open_positions_count (rk_state ag) < max_open \<and>
       (\<exists>approved. ra_approved_size_usd a = Some approved \<and> approved \<le> tp_requested_size_usd p \<and>
          min (tp_requested_size_usd p) (dec_of_float (sz_min_order_usd (rk_sizer ag))) \<le> approved \<and>
          approved \<le> max (dec_of_float (sz_min_order_usd (rk_sizer ag))) (dec_of_float (sz_max_order_usd (rk_sizer ag))) \<and>
          map_of (pf_open_positions (rk_state ag')) (tp_symbol p) = Some approved) \<and>
       position_side (tp_symbol p) (rk_state ag') = Some (tp_side p) \<and>
       open_positions_count (rk_state ag') \<le> max_open
     else ra_approved_size_usd a = map_of (pf_open_positions (rk_state ag)) (tp_symbol p) \<and>
       pf_open_positions (rk_state ag') = pf_open_positions (rk_state ag) \<and>
       pf_position_sides (rk_state ag') = pf_position_sides (rk_state ag) \<and>
       pf_current_balance_usd (rk_state ag') = pf_current_balance_usd (rk_state ag))"
  using assms(1)
proof (cases rule: evaluate_cases)
  case c: (checked ag1)
  note guards = c(1,2,5,6) [unfolded c(4), simplified]
  from c(7) show ?thesis
  proof (cases rule: position_checks_cases)
    case o: (offsetting held)
    then have "map_of (pf_open_positions (rk_state ag)) (tp_symbol p) \<noteq> None"
      using position_side_none [of "tp_symbol p" "rk_state ag"] c(4) by simp
    then show ?thesis using o guards c(4) by (auto simp: halted_def today_def)
  next
    case r: (reserving sized)
    have "length (pf_open_positions (rk_state ag')) \<le> Suc (length (pf_open_positions (rk_state ag)))"
      using length_update_le by (simp add: r(7) c(4) ledger_open_def)
    then have count: "open_positions_count (rk_state ag) < max_open" "open_positions_count (rk_state ag') \<le> max_open"
      using r(2) c(4) by (simp_all add: open_positions_count_def max_open_def)
    have none: "map_of (pf_open_positions (rk_state ag)) (tp_symbol p) = None"
      using r(1) c(4) by (simp add: position_side_none)
    have "dec_of_float (sz_min_order_usd (rk_sizer ag)) \<le> sized"
      "sized \<le> max (dec_of_float (sz_min_order_usd (rk_sizer ag))) (dec_of_float (sz_max_order_usd (rk_sizer ag)))"
      using calculate_ge_min calculate_le by (simp_all add: r(3) c(4))
    then have size: "min sized (tp_requested_size_usd p) \<le> tp_requested_size_usd p"
      "min (tp_requested_size_usd p) (dec_of_float (sz_min_order_usd (rk_sizer ag))) \<le> min sized (tp_requested_size_usd p)"
      "min sized (tp_requested_size_usd p) \<le> max (dec_of_float (sz_min_order_usd (rk_sizer ag))) (dec_of_float (sz_max_order_usd (rk_sizer ag)))"
      by linarith+
    have held: "map_of (pf_open_positions (rk_state ag')) (tp_symbol p) = Some (min sized (tp_requested_size_usd p))"
      "position_side (tp_symbol p) (rk_state ag') = Some (tp_side p)"
      by (simp_all add: r(7) ledger_open_def position_side_def)
    show ?thesis using r(6,8) guards c(4) count none size held
      by (auto simp: halted_def today_def position_side_none [symmetric])
  qed (use assms(2) in \<open>simp add: is_approved_def\<close>)
qed (use assms(2) in \<open>simp_all add: is_approved_def\<close>)

theorem risk_approval_implies_guards_witness:
  "\<not> halted demo_agent \<and> map_of (pf_open_positions (rk_state demo_reserved)) ''BTC/USDT'' = Some 150"
proof -
  have "map_of (pf_open_positions (rk_state demo_agent)) (tp_symbol demo_proposal) = None"
    using demo_flat(1) by (simp add: position_side_none)
  then show ?thesis
    using risk_approval_implies_guards [OF demo_evaluated] demo_verdict
    by (auto simp: is_approved_def demo_proposal_def mk_proposal_def)
qed

text \<open>C7: a breached limit is final: once a proposal has been rejected for the daily loss, the total
  drawdown or an active halt, every later proposal, after any sequence of proposals, results and
  overrides, is rejected as halted, publishes no second override and leaves the agent untouched.\<close>

theorem risk_halt_is_final:
  assumes "evaluate env p ag = (a, ros, ag1)"
    and "ra_rejection_reason a \<in> {Some DAILY_LOSS_LIMIT, Some TOTAL_DRAWDOWN_LIMIT, Some CIRCUIT_BREAKER_ACTIVE}"
    and "evaluate env' p' (risk_run evs ag1) = (a', ros', ag2)"
  shows "ra_decision a' = REJECTED \<and> ra_rejection_reason a' = Some CIRCUIT_BREAKER_ACTIVE \<and>
    ros' = [] \<and> ag2 = risk_run evs ag1"
proof -
  have "halted ag1"
    using assms(1)
  proof (cases rule: evaluate_cases)
    case (checked ag0)
    from checked(7) show ?thesis
      by (cases rule: position_checks_cases) (use assms(2) in auto)
  qed (simp_all add: halted_def)
  then have "halted (risk_run evs ag1)" by (rule halted_run)
  from halted_evaluate [OF this assms(3)] show ?thesis by simp
qed

definition demo_losing :: risk_agent where
  "demo_losing = set_state ((rk_state demo_agent)\<lparr>pf_current_balance_usd := 9000\<rparr>) demo_agent"

theorem risk_halt_is_final_witness:
  "case evaluate (mk_risk_env 0) demo_proposal demo_losing of (a, ros, ag1) \<Rightarrow>
     ra_rejection_reason a = Some DAILY_LOSS_LIMIT \<and>
     ra_rejection_reason (fst (evaluate (mk_risk_env 9) demo_proposal
       (risk_run [R_proposal (mk_risk_env 5) demo_proposal] ag1))) = Some CIRCUIT_BREAKER_ACTIVE"
proof -
  obtain a ros ag1 where e: "evaluate (mk_risk_env 0) demo_proposal demo_losing = (a, ros, ag1)"
    by (cases "evaluate (mk_risk_env 0) demo_proposal demo_losing")
  have "ra_rejection_reason (fst (evaluate (mk_risk_env 0) demo_proposal demo_losing)) = Some DAILY_LOSS_LIMIT"
    by code_simp
  then have r: "ra_rejection_reason a = Some DAILY_LOSS_LIMIT" by (simp add: e)
  obtain a' ros' ag2 where e': "evaluate (mk_risk_env 9) demo_proposal
      (risk_run [R_proposal (mk_risk_env 5) demo_proposal] ag1) = (a', ros', ag2)"
    by (cases "evaluate (mk_risk_env 9) demo_proposal (risk_run [R_proposal (mk_risk_env 5) demo_proposal] ag1)")
  show ?thesis using risk_halt_is_final [OF e _ e'] r by (simp add: e e')
qed

text \<open>C12: an execution result counts once: while fewer than 1000 further events have happened,
  applying it again reports a duplicate and changes nothing.\<close>

theorem risk_results_applied_once:
  assumes "risk_ok ag" "apply_execution_result r ag = (act, ag1)" "act \<noteq> Duplicate" "length evs < 1000"
  shows "apply_execution_result r (risk_run evs ag1) = (Duplicate, risk_run evs ag1)"
proof -
  have new: "map_of (rk_seen_results ag) (er_result_id r) = None"
  proof (rule ccontr)
    assume "map_of (rk_seen_results ag) (er_result_id r) \<noteq> None"
    then have "apply_execution_result r ag = (Duplicate, ag)" unfolding apply_execution_result_def by (rule if_P)
    then show False using assms(2,3) by simp
  qed
  have "rk_seen_results ag1 = remember SEEN_RESULTS_MAX (er_result_id r) () (rk_seen_results ag)"
    using apply_result_seen [of r ag] new assms(2) by simp
  moreover have "risk_ok ag1" using apply_result_ok [OF assms(1), of r] assms(2) by simp
  ultimately have "map_of (rk_seen_results (risk_run evs ag1)) (er_result_id r) = Some ()"
    unfolding risk_run_def using assms(1,4) new
    by (intro seen.remembered_stays) (simp_all add: risk_ok_def SEEN_RESULTS_MAX_def list_all_iff)
  then show ?thesis by (simp add: apply_execution_result_def)
qed

definition demo_result :: "uuid \<Rightarrow> order_status \<Rightarrow> execution_result" where
  "demo_result i st = \<lparr>er_result_id = i, er_proposal_id = 7, er_assessment_id = 3,
     er_exchange_order_id = None, er_timestamp = 0, er_symbol = ''BTC/USDT'', er_side = BUY,
     er_order_type = MARKET, er_status = st, er_requested_quantity = 1, er_filled_quantity = 1,
     er_average_fill_price = Some 150, er_total_cost_usd = Some 150, er_fee_usd = Some (15 / 100),
     er_fee_currency = None, er_realized_pnl_usd = None, er_stop_loss_order_id = None,
     er_take_profit_order_id = None, er_is_paper = True, er_error_message = None, er_retry_count = 0\<rparr>"

theorem risk_results_applied_once_witness:
  "let ag1 = snd (apply_execution_result (demo_result 5 FILLED) demo_agent)
   in apply_execution_result (demo_result 5 FILLED) (risk_run [R_result True (demo_result 6 REJECTED_STATUS)] ag1)
     = (Duplicate, risk_run [R_result True (demo_result 6 REJECTED_STATUS)] ag1)"
proof -
  have "fst (apply_execution_result (demo_result 5 FILLED) demo_agent) = Adopted"
    using demo_flat(1) by (simp add: apply_execution_result_def Let_def demo_result_def demo_agent_def new_risk_agent_def)
  then show ?thesis
    using risk_results_applied_once [OF demo_flat(2) prod.collapse [symmetric], of "demo_result 5 FILLED"] by simp
qed

text \<open>C20: a failed order gives its reservation back: approving an order to open a position and then
  learning that it failed leaves positions, cash and portfolio value exactly as they were (on amounts
  with at most 16 decimal places below 100 billion).\<close>

theorem risk_reservation_released:
  assumes "evaluate env p ag = (a, ros, ag1)" "is_approved a" "position_side (tp_symbol p) (rk_state ag) = None"
    and "ledger_exact (rk_state ag)" "\<forall>c. ra_approved_size_usd a = Some c \<longrightarrow> cents c \<and> \<bar>pf_current_balance_usd (rk_state ag) - c\<bar> \<le> 10 ^ 11"
    and "er_symbol r = tp_symbol p" "er_side r = tp_side p" "er_status r \<notin> {FILLED, PARTIALLY_FILLED}"
    and "map_of (rk_seen_results ag) (er_result_id r) = None"
    and "apply_execution_result r ag1 = (act, ag2)"
  shows "act = Released \<and> pf_open_positions (rk_state ag2) = pf_open_positions (rk_state ag) \<and>
    pf_current_balance_usd (rk_state ag2) = pf_current_balance_usd (rk_state ag) \<and>
    portfolio_value_usd (rk_state ag2) = portfolio_value_usd (rk_state ag)"
  using assms(1)
proof (cases rule: evaluate_cases)
  case c: (checked ag0)
  from c(7) show ?thesis
  proof (cases rule: position_checks_cases)
    case (reserving sized)
    define x where "x = min sized (tp_requested_size_usd p)"
    define st where "st = maybe_reset_daily (re_reset_now env) (rk_state ag)"
    have none: "map_of (pf_open_positions (rk_state ag)) (tp_symbol p) = None"
      using assms(3) by (simp add: position_side_none)
    have x: "cents x" "\<bar>pf_current_balance_usd (rk_state ag) - x\<bar> \<le> 10 ^ 11"
      using assms(5) reserving(6) by (simp_all add: x_def)
    have s1: "rk_state ag1 = ledger_open (tp_symbol p) x (Some (tp_side p)) st"
      by (simp add: reserving(7) c(4) x_def st_def)
    have "rk_seen_results ag1 = rk_seen_results ag" using evaluate_seen [OF assms(1)] .
    then have s2: "act = Released" "rk_state ag2 = ledger_close (tp_symbol p) 0 (rk_state ag1)"
      using assms(6-10) by (auto simp: apply_execution_result_def Let_def s1 position_side_def ledger_open_def)
    have e: "ledger_exact st" using assms(4) by (simp add: ledger_exact_def st_def)
    have cash: "pf_current_balance_usd (rk_state ag1) = pf_current_balance_usd (rk_state ag) - x"
      using cash_after(1) [OF assms(4) x(1,2)] by (simp add: s1 ledger_open_def st_def)
    have "dadd x 0 = x" using x(1) by (auto simp: dadd_def cents_def intro: dr_cents)
    moreover have "dadd (pf_current_balance_usd (rk_state ag) - x) x = pf_current_balance_usd (rk_state ag)"
      using assms(4) by (auto simp: dadd_def cents_def ledger_exact_def intro: dr_cents)
    ultimately have "pf_current_balance_usd (rk_state ag2) = pf_current_balance_usd (rk_state ag)"
      "pf_open_positions (rk_state ag2) = pf_open_positions (rk_state ag)"
      using none by (simp_all add: s2 ledger_close_def cash)
        (simp_all add: s1 ledger_open_def st_def update_delete_new)
    then show ?thesis using s2(1) by (simp add: portfolio_value_usd_def)
  qed (use assms(2,3) c(4) in \<open>auto simp: is_approved_def\<close>)
qed (use assms(2) in \<open>simp_all add: is_approved_def\<close>)

theorem risk_reservation_released_witness:
  "case apply_execution_result (demo_result 5 REJECTED_STATUS) demo_reserved of (act, ag2) \<Rightarrow>
     act = Released \<and> pf_open_positions (rk_state ag2) = [] \<and>
     pf_current_balance_usd (rk_state ag2) = pf_current_balance_usd (rk_state demo_agent)"
proof -
  obtain act ag2 where e: "apply_execution_result (demo_result 5 REJECTED_STATUS) demo_reserved = (act, ag2)"
    by (cases "apply_execution_result (demo_result 5 REJECTED_STATUS) demo_reserved")
  have b: "dec_of_float 10000 = 10000" by code_simp
  have g: "grid 16 10000" "grid 16 150"
    unfolding grid_def by (rule exI [of _ "10 ^ 20"], simp, rule exI [of _ "150 * 10 ^ 16"], simp)
  have st: "pf_current_balance_usd (rk_state demo_agent) = 10000" "pf_open_positions (rk_state demo_agent) = []"
    "rk_seen_results demo_agent = []"
    by (simp_all add: demo_agent_def new_risk_agent_def new_drawdown_monitor_def default_settings_def b Let_def)
  have "ledger_exact (rk_state demo_agent)" using g by (simp add: ledger_exact_def st cents_def)
  moreover have "\<forall>c. ra_approved_size_usd demo_verdict = Some c \<longrightarrow>
      cents c \<and> \<bar>pf_current_balance_usd (rk_state demo_agent) - c\<bar> \<le> 10 ^ 11"
    using g demo_verdict(2) by (simp add: cents_def st)
  moreover have "er_symbol (demo_result 5 REJECTED_STATUS) = tp_symbol demo_proposal"
    "er_side (demo_result 5 REJECTED_STATUS) = tp_side demo_proposal"
    "er_status (demo_result 5 REJECTED_STATUS) \<notin> {FILLED, PARTIALLY_FILLED}"
    by (simp_all add: demo_result_def demo_proposal_def mk_proposal_def)
  ultimately show ?thesis
    using risk_reservation_released [OF demo_evaluated _ demo_flat(1) _ _ _ _ _ _ e] demo_verdict(1)
    by (simp add: e st is_approved_def)
qed

text \<open>Whatever arrives, only an execution result for the symbol moves the reservation made for it.\<close>

fun result_for :: "symbol \<Rightarrow> risk_event \<Rightarrow> bool" where
  "result_for s (R_result ok r) = (er_symbol r = s)"
| "result_for s _ = False"

lemma evaluate_keeps_held:
  assumes "evaluate env p ag = (a, ros, ag')" "position_side s (rk_state ag) = Some side"
  shows "position_side s (rk_state ag') = Some side"
    "tp_symbol p = s \<Longrightarrow> tp_side p = side \<Longrightarrow> is_rejected a"
proof -
  have "position_side s (rk_state ag') = Some side \<and> (tp_symbol p = s \<longrightarrow> tp_side p = side \<longrightarrow> is_rejected a)"
    using assms(1)
  proof (cases rule: evaluate_cases)
    case c: (checked ag1)
    from c(7) show ?thesis
    proof (cases rule: position_checks_cases)
      case r: (reserving sized)
      then have "tp_symbol p \<noteq> s" using assms(2) c(4) by auto
      then show ?thesis using r(7) assms(2) c(4)
        by (auto simp: ledger_open_def position_side_def update_conv' split: if_splits)
    qed (use assms(2) c(4) in \<open>auto simp: is_rejected_def\<close>)
  qed (use assms(2) in \<open>simp_all add: is_rejected_def\<close>)
  then show "position_side s (rk_state ag') = Some side"
    "tp_symbol p = s \<Longrightarrow> tp_side p = side \<Longrightarrow> is_rejected a" by simp_all
qed

lemma handle_proposal_state:
  "rk_state (snd (snd (handle_proposal env p ag))) =
    (if should_continue (rk_base ag) then rk_state (snd (snd (evaluate env p ag))) else rk_state ag)"
  by (simp add: handle_proposal_def split: prod.split option.split)

lemma other_result_keeps_side:
  "er_symbol r \<noteq> s \<Longrightarrow> position_side s (rk_state (snd (apply_execution_result r ag))) = position_side s (rk_state ag)"
  by (auto simp: apply_execution_result_def Let_def ledger_defs position_side_def update_conv' delete_conv'
      split: option.split)

lemma risk_run_keeps_held:
  assumes "list_all (\<lambda>ev. \<not> result_for s ev) evs" "position_side s (rk_state ag) = Some side"
  shows "position_side s (rk_state (risk_run evs ag)) = Some side"
  using assms
proof (induction evs arbitrary: ag)
  case (Cons ev evs)
  have "position_side s (rk_state (risk_step ev ag)) = Some side"
  proof (cases ev)
    case (R_proposal env p)
    obtain a ros ag1 where e: "evaluate env p ag = (a, ros, ag1)" by (cases "evaluate env p ag")
    show ?thesis using evaluate_keeps_held(1) [OF e] Cons.prems(2) R_proposal handle_proposal_state [of env p ag]
      by (simp add: e)
  next
    case (R_result ok r)
    then show ?thesis using Cons.prems by (simp add: track_execution_result_def other_result_keeps_side)
  qed (use Cons.prems in simp)
  then show ?case using Cons by (simp add: risk_run_def)
qed (simp add: risk_run_def)

text \<open>C39: a reservation whose assessment cannot be published stays: when publishing an approval to
  open fails, nothing is published but the ledger holds the position, and after any further proposals,
  overrides and results for other symbols it still does, and every proposal on that side of the symbol
  is rejected.\<close>

theorem risk_publish_failure_leaks_reservation:
  assumes "handle_proposal env p ag = (out, ros, ag1)" "should_continue (rk_base ag)"
    and "re_publish_error env = Some e" "evaluate env p ag = (a, ros0, ag0)" "is_approved a"
    and "position_side (tp_symbol p) (rk_state ag) = None"
    and "list_all (\<lambda>ev. \<not> result_for (tp_symbol p) ev) evs"
    and "tp_symbol p' = tp_symbol p" "tp_side p' = tp_side p"
    and "evaluate env' p' (risk_run evs ag1) = (a', ros', ag2)"
  shows "out = None \<and> position_side (tp_symbol p) (rk_state (risk_run evs ag1)) = Some (tp_side p) \<and>
    is_rejected a' \<and> position_side (tp_symbol p) (rk_state ag2) = Some (tp_side p)"
proof -
  have h: "out = None" "rk_state ag1 = rk_state ag0"
    using assms(1-4) by (auto simp: handle_proposal_def)
  have "position_side (tp_symbol p) (rk_state ag1) = Some (tp_side p)"
    using assms(4)
  proof (cases rule: evaluate_cases)
    case c: (checked agx)
    from c(7) show ?thesis
    proof (cases rule: position_checks_cases)
      case o: (offsetting)
      then show ?thesis using assms(6) c(4) by (simp add: position_side_reset)
    qed (use assms(5) c(4) h(2) in \<open>auto simp: is_approved_def ledger_open_def position_side_def\<close>)
  qed (use assms(5) in \<open>simp_all add: is_approved_def\<close>)
  then have "position_side (tp_symbol p) (rk_state (risk_run evs ag1)) = Some (tp_side p)"
    by (rule risk_run_keeps_held [OF assms(7)])
  then show ?thesis using h(1) evaluate_keeps_held [OF assms(10)] assms(8,9) by simp
qed

theorem risk_publish_failure_leaks_reservation_witness:
  "let env = (mk_risk_env 0)\<lparr>re_publish_error := Some (Messaging_error [])\<rparr>;
       (out, ros, ag1) = handle_proposal env demo_proposal demo_agent
   in out = None \<and> is_rejected (fst (evaluate (mk_risk_env 0) demo_proposal (risk_run [R_proposal (mk_risk_env 0) demo_proposal] ag1)))"
proof -
  define env where "env = (mk_risk_env 0)\<lparr>re_publish_error := Some (Messaging_error [])\<rparr>"
  obtain out ros ag1 where h: "handle_proposal env demo_proposal demo_agent = (out, ros, ag1)"
    by (cases "handle_proposal env demo_proposal demo_agent")
  obtain a ros0 ag0 where e: "evaluate env demo_proposal demo_agent = (a, ros0, ag0)"
    by (cases "evaluate env demo_proposal demo_agent")
  define evs where "evs = [R_proposal (mk_risk_env 0) demo_proposal]"
  then have evs: "list_all (\<lambda>ev. \<not> result_for (tp_symbol demo_proposal) ev) evs" by simp
  obtain a' ros' ag2 where e': "evaluate (mk_risk_env 0) demo_proposal (risk_run evs ag1) = (a', ros', ag2)"
    by (cases "evaluate (mk_risk_env 0) demo_proposal (risk_run evs ag1)")
  have "ra_decision (fst (evaluate ((mk_risk_env 0)\<lparr>re_publish_error := Some (Messaging_error [])\<rparr>) demo_proposal demo_agent)) = APPROVED"
    by code_simp
  then have "is_approved a" using e by (simp add: is_approved_def env_def)
  moreover have "should_continue (rk_base demo_agent)" by code_simp
  ultimately show ?thesis
    using risk_publish_failure_leaks_reservation [OF h _ _ e _ demo_flat(1) evs refl refl e'] h e'
    by (simp add: env_def [symmetric] evs_def [symmetric]) (simp add: env_def)
qed

text \<open>the minimum order check can never reject: the sizer already raised the size to the minimum.
  A request below the minimum is approved unchanged, so the minimum is not enforced on it.\<close>

theorem risk_minimum_check_is_dead:
  assumes "sz_min_order_usd (rk_sizer ag) = rs_min_order_size_usd (st_risk (rk_settings ag))"
    and "evaluate env p ag = (a, ros, ag')"
  shows "ra_rejection_reason a \<noteq> Some ORDER_SIZE_TOO_SMALL \<and>
    (is_approved a \<and> position_side (tp_symbol p) (rk_state ag) = None \<and>
     tp_requested_size_usd p < dec_of_float (rs_min_order_size_usd (st_risk (rk_settings ag))) \<longrightarrow>
     ra_approved_size_usd a = Some (tp_requested_size_usd p))"
  using assms(2)
proof (cases rule: evaluate_cases)
  case c: (checked ag0)
  from c(7) show ?thesis
  proof (cases rule: position_checks_cases)
    case (declined reason)
    then show ?thesis using calculate_ge_min [of "rk_sizer ag"] assms(1) c(4)
      by (auto simp: is_approved_def not_less [symmetric])
  next
    case (offsetting held)
    then show ?thesis using c(4) by simp
  next
    case (reserving sized)
    then show ?thesis using c(4) by (auto simp: min_def)
  qed
qed (auto simp: is_approved_def)

theorem risk_minimum_check_is_dead_witness:
  "case evaluate (mk_risk_env 0) (demo_proposal\<lparr>tp_requested_size_usd := 5\<rparr>) demo_agent of (a, ros, ag') \<Rightarrow>
     ra_approved_size_usd a = Some 5"
proof -
  define p where "p = demo_proposal\<lparr>tp_requested_size_usd := 5\<rparr>"
  obtain a ros ag' where e: "evaluate (mk_risk_env 0) p demo_agent = (a, ros, ag')"
    by (cases "evaluate (mk_risk_env 0) p demo_agent")
  have "ra_decision (fst (evaluate (mk_risk_env 0) (demo_proposal\<lparr>tp_requested_size_usd := 5\<rparr>) demo_agent)) = APPROVED"
    by code_simp
  then have "is_approved a" using e by (simp add: is_approved_def p_def)
  moreover have "dec_of_float 10 = 10" by code_simp
  ultimately show ?thesis
    using risk_minimum_check_is_dead [OF _ e] demo_flat(1) unfolding p_def [symmetric]
    by (simp add: e) (simp add: demo_agent_def new_risk_agent_def new_position_sizer_def
        default_settings_def default_risk_settings_def p_def)
qed

end
