(* ===== verification/Float_Functions.thy ===== *)
theory Float_Functions
  imports PyNum
begin

text \<open>
  Two functions on floats. \<open>round(x, n)\<close> is monotone. \<open>math.sqrt\<close> is computed by integer square roots: the argument is scaled by a power of four so that
  the integer root has at least 56 bits; when the root is not exact, the midpoint to the next
  integer stands for it, which rounds to the same float.
\<close>

function isqrt :: "int \<Rightarrow> int" where
  "isqrt n = (if n \<le> 0 then 0
     else let r = 2 * isqrt (n div 4) in if (r + 1) * (r + 1) \<le> n then r + 1 else r)"
  by pat_completeness auto
termination
  by (relation "measure nat") auto

declare isqrt.simps [simp del]

definition fsqrt :: "rat \<Rightarrow> rat" where
  "fsqrt x = (if x \<le> 0 then 0
     else let k = nat (max 0 (56 - mag 2 x div 2)); y = x * 4 ^ k; r = isqrt \<lfloor>y\<rfloor>
       in fl (if of_int (r * r) = y then of_int r / 2 ^ k else of_int (2 * r + 1) / 2 ^ Suc k))"

lemma isqrt_spec: "0 \<le> n \<Longrightarrow> 0 \<le> isqrt n \<and> isqrt n * isqrt n \<le> n \<and> n < (isqrt n + 1) * (isqrt n + 1)"
proof (induction n rule: isqrt.induct)
  case (1 n)
  show ?case
  proof (cases "n \<le> 0")
    case True
    then show ?thesis using 1(2) by (subst (1 2 3 4 5) isqrt.simps) simp
  next
    case False
    define m where "m = isqrt (n div 4)"
    have m: "0 \<le> m" "m * m \<le> n div 4" "n div 4 < (m + 1) * (m + 1)"
      using 1 False by (simp_all add: m_def)
    have "4 * (m * m) \<le> n" "n < 4 * ((m + 1) * (m + 1))" using m(2,3) by linarith+
    moreover have "isqrt n = (if (2 * m + 1) * (2 * m + 1) \<le> n then 2 * m + 1 else 2 * m)"
      using False by (subst isqrt.simps) (simp add: m_def Let_def)
    ultimately show ?thesis using m(1) by (auto simp: algebra_simps)
  qed
qed

lemma fsqrt_nonneg: "0 \<le> fsqrt x"
proof (cases "x \<le> 0")
  case False
  define k where "k = nat (max 0 (56 - mag 2 x div 2))"
  have "0 \<le> \<lfloor>x * 4 ^ k\<rfloor>" using False by simp
  then have "0 \<le> isqrt \<lfloor>x * 4 ^ k\<rfloor>" using isqrt_spec by blast
  then show ?thesis
    using False by (simp add: fsqrt_def Let_def k_def [symmetric]) (auto intro!: binary64.rnd_nonneg)
qed (simp add: fsqrt_def)

lemma fsqrt_le_one:
  assumes "x \<le> 1"
  shows "fsqrt x \<le> 1"
proof (cases "x \<le> 0")
  case False
  define k where "k = nat (max 0 (56 - mag 2 x div 2))"
  define y where "y = x * 4 ^ k"
  define r where "r = isqrt \<lfloor>y\<rfloor>"
  have y: "0 \<le> \<lfloor>y\<rfloor>" "y \<le> 4 ^ k" using False assms by (simp_all add: y_def mult_le_cancel_right1)
  have r: "0 \<le> r" "r * r \<le> \<lfloor>y\<rfloor>" using isqrt_spec [OF y(1)] by (simp_all add: r_def)
  have ry: "of_int (r * r) \<le> y" using r(2) by (simp only: le_floor_iff)
  have sq: "(of_int r :: rat) * of_int r \<le> 2 ^ k * 2 ^ k"
    using order_trans [OF ry y(2)] by (simp add: power_mult_distrib [symmetric])
  then have le: "(of_int r :: rat) \<le> 2 ^ k" using r(1) by (metis of_int_0_le_iff zero_le_numeral zero_le_power mult_mono' not_le mult_strict_mono')
  have "of_int (2 * r + 1) \<le> (2 ^ Suc k :: rat)" if "of_int (r * r) \<noteq> y"
  proof -
    have "(of_int r :: rat) * of_int r < 2 ^ k * 2 ^ k"
      using that ry y(2) by (simp add: power_mult_distrib [symmetric])
    then have "of_int r < (of_int (2 ^ k) :: rat)" using le by (cases "of_int r = (2 ^ k :: rat)") auto
    then have "r + 1 \<le> 2 ^ k" by (simp only: of_int_less_iff)
    then have "2 * r + 1 \<le> 2 ^ Suc k" by simp
    then have "of_int (2 * r + 1) \<le> (of_int (2 ^ Suc k) :: rat)" by (simp only: of_int_le_iff)
    then show ?thesis by simp
  qed
  then show ?thesis
    using False le
    unfolding fsqrt_def Let_def k_def [symmetric] y_def [symmetric] r_def [symmetric]
    by (auto intro!: binary64.rnd_le_exact [OF binary64.rnd_one] simp: divide_le_eq)
qed (simp add: fsqrt_def)

subsection \<open>Rounding to places\<close>

lemma fround_mono: "x \<le> y \<Longrightarrow> fround n x \<le> fround n y"
  unfolding fround_def
  by (intro binary64.rnd_mono divide_right_mono) (simp_all add: rne_mono mult_right_mono)

lemma fround_le: "fround n y = y \<Longrightarrow> x \<le> y \<Longrightarrow> fround n x \<le> y"
  using fround_mono [of x y n] by simp

lemma fround_ge: "fround n y = y \<Longrightarrow> y \<le> x \<Longrightarrow> y \<le> fround n x"
  using fround_mono [of y x n] by simp

lemma fround4_values: "fround 4 1 = 1" "fround 4 (- 1) = - 1" "fround 4 0 = 0"
  "fround 4 (1 / 4) = 1 / 4" "fround 4 (- 1 / 4) = - 1 / 4"
  by code_simp+

end
