(* ===== verification/Signal_Aggregator.thy ===== *)
theory Signal_Aggregator
  imports Trade_Models Float_Functions
begin

text \<open>
  Signal fusion (\<open>agents/decision/signal_aggregator.py\<close>): expired and low-confidence signals are
  dropped, the rest is combined with the configured weights in float arithmetic. The two clock
  readings of \<open>is_expired\<close> and the id and time stamp of the new signal are the argument
  \<open>agg_env\<close>.

  Proved here: the constructor's range checks always pass, what survives the filter, the direction
  of a lone signal, and the whole table of direction pairs under the default weights.
\<close>

definition STRONG_THRESHOLD :: rat where "STRONG_THRESHOLD = fl (65 / 100)"
definition TECHNICAL_WEIGHT :: rat where "TECHNICAL_WEIGHT = fl (7 / 10)"
definition SENTIMENT_WEIGHT :: rat where "SENTIMENT_WEIGHT = fl (3 / 10)"

lemma literal_code [code]:
  "STRONG_THRESHOLD = 5854679515581645 / 9007199254740992"
  "TECHNICAL_WEIGHT = 3152519739159347 / 4503599627370496"
  "SENTIMENT_WEIGHT = 5404319552844595 / 18014398509481984"
  unfolding STRONG_THRESHOLD_def TECHNICAL_WEIGHT_def SENTIMENT_WEIGHT_def by code_simp+

definition scalar_to_direction :: "rat \<Rightarrow> signal_direction" where
  "scalar_to_direction score =
    (if score \<ge> STRONG_THRESHOLD then STRONG_BUY
     else if score \<ge> 1 / 4 then BUY_DIR
     else if score \<le> - STRONG_THRESHOLD then STRONG_SELL
     else if score \<le> - (1 / 4) then SELL_DIR
     else NEUTRAL)"

record signal_aggregator =
  sg_technical_weight :: rat
  sg_sentiment_weight :: rat
  sg_min_confidence :: rat

definition new_signal_aggregator :: "rat \<Rightarrow> signal_aggregator" where
  "new_signal_aggregator min_confidence = \<lparr>sg_technical_weight = TECHNICAL_WEIGHT,
     sg_sentiment_weight = SENTIMENT_WEIGHT, sg_min_confidence = min_confidence\<rparr>"

record agg_env =
  ae_technical_now :: time
  ae_sentiment_now :: time
  ae_signal_id :: uuid
  ae_stamp :: time

definition valid_technical ::
  "agg_env \<Rightarrow> signal_aggregator \<Rightarrow> technical_signal option \<Rightarrow> technical_signal option" where
  "valid_technical env z technical = (case technical of None \<Rightarrow> None
     | Some s \<Rightarrow> if \<not> technical_expired (ae_technical_now env) s \<and> ts_confidence s \<ge> sg_min_confidence z
         then Some s else None)"

definition valid_sentiment ::
  "agg_env \<Rightarrow> signal_aggregator \<Rightarrow> sentiment_signal option \<Rightarrow> sentiment_signal option" where
  "valid_sentiment env z sentiment = (case sentiment of None \<Rightarrow> None
     | Some s \<Rightarrow> if \<not> sentiment_expired (ae_sentiment_now env) s \<and> ss_confidence s \<ge> sg_min_confidence z
         then Some s else None)"

definition present :: "'a option \<Rightarrow> int" where
  "present x = (if x = None then 0 else 1)"

text \<open>One weighted average: the accumulation of the terms of the signals that are present, starting
  at \<open>0.0\<close>, and the division when some weight was added.\<close>

definition weighted :: "(rat \<times> rat) option \<Rightarrow> (rat \<times> rat) option \<Rightarrow> rat" where
  "weighted t s =
    (let acc = (\<lambda>x (tot, w). case x of None \<Rightarrow> (tot, w)
                   | Some (v, wt) \<Rightarrow> (fadd tot (fmul v wt), fadd w wt))
     in case acc s (acc t (0, 0)) of (tot, w) \<Rightarrow> if 0 < w then fdiv tot w else 0)"

definition clamp :: "rat \<Rightarrow> rat \<Rightarrow> rat \<Rightarrow> rat" where
  "clamp lo hi x = max lo (min hi x)"

definition aggregate ::
  "agg_env \<Rightarrow> signal_aggregator \<Rightarrow> symbol \<Rightarrow> technical_signal option \<Rightarrow> sentiment_signal option \<Rightarrow>
     error + aggregated_signal option" where
  "aggregate env z symbol technical sentiment =
    (let vt = valid_technical env z technical; vs = valid_sentiment env z sentiment;
         total = present technical + present sentiment;
         discarded = total - (present vt + present vs);
         tw = sg_technical_weight z; sw = sg_sentiment_weight z
     in if vt = None \<and> vs = None then Inr None
     else
     let score = clamp (- 1) 1 (weighted
           (map_option (\<lambda>s. (scalar_direction (ts_direction s), tw)) vt)
           (map_option (\<lambda>s. (scalar_direction (ss_direction s), sw)) vs));
         conf = clamp 0 1 (weighted
           (map_option (\<lambda>s. (ts_confidence s, tw)) vt)
           (map_option (\<lambda>s. (ss_confidence s, sw)) vs))
     in case new_aggregated_signal \<lparr>as_signal_id = ae_signal_id env, as_symbol = symbol,
            as_timestamp = ae_stamp env, as_direction = scalar_to_direction score,
            as_confidence = fround 4 conf, as_composite_score = fround 4 score,
            as_technical_signal = vt, as_sentiment_signal = vs, as_technical_weight = tw,
            as_sentiment_weight = sw, as_total_signals = total, as_signals_discarded = discarded\<rparr> of
          Inl e \<Rightarrow> Inl e | Inr a \<Rightarrow> Inr (Some a))"

subsection \<open>Facts\<close>

lemma threshold_value: "1 / 4 < STRONG_THRESHOLD"
  by code_simp

lemma clamp_bounds: "lo \<le> hi \<Longrightarrow> lo \<le> clamp lo hi x \<and> clamp lo hi x \<le> hi"
  by (simp add: clamp_def)

lemma clamp_id [simp]: "lo \<le> x \<Longrightarrow> x \<le> hi \<Longrightarrow> clamp lo hi x = x"
  by (simp add: clamp_def)

lemma scalar_to_direction_sign:
  "bullish (scalar_to_direction x) \<longleftrightarrow> 1 / 4 \<le> x"
  "bearish (scalar_to_direction x) \<longleftrightarrow> x \<le> - 1 / 4"
  using threshold_value
  by (auto simp: scalar_to_direction_def bullish_def bearish_def)

lemma valid_technical_Some:
  "valid_technical env z t = Some s \<longleftrightarrow>
     t = Some s \<and> \<not> technical_expired (ae_technical_now env) s \<and> sg_min_confidence z \<le> ts_confidence s"
  by (auto simp: valid_technical_def split: option.splits)

lemma valid_sentiment_Some:
  "valid_sentiment env z t = Some s \<longleftrightarrow>
     t = Some s \<and> \<not> sentiment_expired (ae_sentiment_now env) s \<and> sg_min_confidence z \<le> ss_confidence s"
  by (auto simp: valid_sentiment_def split: option.splits)

lemma new_aggregated_signal_in_range:
  "0 \<le> as_confidence s \<Longrightarrow> as_confidence s \<le> 1 \<Longrightarrow> - 1 \<le> as_composite_score s \<Longrightarrow>
    as_composite_score s \<le> 1 \<Longrightarrow> new_aggregated_signal s = Inr s"
  by (simp add: new_aggregated_signal_def)

text \<open>The two outcomes of an aggregation.\<close>

lemma aggregate_cases:
  obtains (dropped) "aggregate env z symbol t s = Inr None"
      "valid_technical env z t = None" "valid_sentiment env z s = None"
  | (fused) a score conf where "aggregate env z symbol t s = Inr (Some a)"
      "valid_technical env z t \<noteq> None \<or> valid_sentiment env z s \<noteq> None"
      "as_technical_signal a = valid_technical env z t" "as_sentiment_signal a = valid_sentiment env z s"
      "as_symbol a = symbol" "as_direction a = scalar_to_direction score"
      "as_composite_score a = fround 4 score" "- 1 \<le> score" "score \<le> 1"
      "score = clamp (- 1) 1 (weighted
         (map_option (\<lambda>x. (scalar_direction (ts_direction x), sg_technical_weight z)) (valid_technical env z t))
         (map_option (\<lambda>x. (scalar_direction (ss_direction x), sg_sentiment_weight z)) (valid_sentiment env z s)))"
      "as_confidence a = fround 4 conf" "0 \<le> conf" "conf \<le> 1"
      "as_total_signals a = present t + present s"
      "as_signals_discarded a = as_total_signals a
         - (present (valid_technical env z t) + present (valid_sentiment env z s))"
proof (cases "valid_technical env z t = None \<and> valid_sentiment env z s = None")
  case True
  then show thesis by (intro dropped) (simp_all add: aggregate_def)
next
  case False
  define score where "score = clamp (- 1) 1 (weighted
    (map_option (\<lambda>x. (scalar_direction (ts_direction x), sg_technical_weight z)) (valid_technical env z t))
    (map_option (\<lambda>x. (scalar_direction (ss_direction x), sg_sentiment_weight z)) (valid_sentiment env z s)))"
  define conf where "conf = clamp 0 1 (weighted
    (map_option (\<lambda>x. (ts_confidence x, sg_technical_weight z)) (valid_technical env z t))
    (map_option (\<lambda>x. (ss_confidence x, sg_sentiment_weight z)) (valid_sentiment env z s)))"
  have b: "- 1 \<le> score" "score \<le> 1" "0 \<le> conf" "conf \<le> 1"
    using clamp_bounds [of "- 1" 1] clamp_bounds [of 0 1] by (simp_all add: score_def conf_def)
  then have r: "- 1 \<le> fround 4 score" "fround 4 score \<le> 1" "0 \<le> fround 4 conf" "fround 4 conf \<le> 1"
    using fround_le fround_ge fround4_values by blast+
  define a where "a = \<lparr>as_signal_id = ae_signal_id env, as_symbol = symbol,
    as_timestamp = ae_stamp env, as_direction = scalar_to_direction score,
    as_confidence = fround 4 conf, as_composite_score = fround 4 score,
    as_technical_signal = valid_technical env z t, as_sentiment_signal = valid_sentiment env z s,
    as_technical_weight = sg_technical_weight z, as_sentiment_weight = sg_sentiment_weight z,
    as_total_signals = present t + present s, as_signals_discarded = present t + present s
      - (present (valid_technical env z t) + present (valid_sentiment env z s))\<rparr>"
  have "new_aggregated_signal a = Inr a"
    by (rule new_aggregated_signal_in_range) (use r in \<open>simp_all add: a_def\<close>)
  moreover have "aggregate env z symbol t s =
      (case new_aggregated_signal a of Inl e \<Rightarrow> Inl e | Inr a \<Rightarrow> Inr (Some a))"
    using False unfolding aggregate_def Let_def a_def score_def conf_def by (simp only: if_False)
  ultimately have "aggregate env z symbol t s = Inr (Some a)" by simp
  then show thesis
    by (rule fused [of a score conf]) (use False b score_def in \<open>auto simp: a_def\<close>)
qed

text \<open>C32: every aggregation yields nothing or a well-formed signal, never an exception: confidence
  and score are in range, only signals that are neither expired nor below the minimum confidence
  survive, the counts add up, and the direction agrees in sign with the published score.\<close>

theorem aggregate_total_and_in_range:
  "case aggregate env z symbol t s of
     Inl e \<Rightarrow> False
   | Inr None \<Rightarrow> \<forall>x y. t = Some x \<and> s = Some y \<longrightarrow>
       (technical_expired (ae_technical_now env) x \<or> ts_confidence x < sg_min_confidence z) \<and>
       (sentiment_expired (ae_sentiment_now env) y \<or> ss_confidence y < sg_min_confidence z)
   | Inr (Some a) \<Rightarrow>
       0 \<le> as_confidence a \<and> as_confidence a \<le> 1 \<and> - 1 \<le> as_composite_score a \<and> as_composite_score a \<le> 1 \<and>
       (\<forall>x. as_technical_signal a = Some x \<longrightarrow> t = Some x \<and>
          \<not> technical_expired (ae_technical_now env) x \<and> sg_min_confidence z \<le> ts_confidence x) \<and>
       (\<forall>x. as_sentiment_signal a = Some x \<longrightarrow> s = Some x \<and>
          \<not> sentiment_expired (ae_sentiment_now env) x \<and> sg_min_confidence z \<le> ss_confidence x) \<and>
       (as_technical_signal a \<noteq> None \<or> as_sentiment_signal a \<noteq> None) \<and>
       as_total_signals a = as_signals_discarded a + present (as_technical_signal a) + present (as_sentiment_signal a) \<and>
       (bullish (as_direction a) \<longrightarrow> 1 / 4 \<le> as_composite_score a) \<and>
       (bearish (as_direction a) \<longrightarrow> as_composite_score a \<le> - 1 / 4)"
proof (cases rule: aggregate_cases [of env z symbol t s])
  case d: dropped
  then show ?thesis by (auto simp: valid_technical_def valid_sentiment_def not_le split: if_splits)
next
  case a: (fused a score conf)
  have "0 \<le> fround 4 conf" "fround 4 conf \<le> 1" "- 1 \<le> fround 4 score" "fround 4 score \<le> 1"
    using a(8,9,12,13) fround_le fround_ge fround4_values by blast+
  moreover have "bullish (as_direction a) \<longrightarrow> 1 / 4 \<le> as_composite_score a"
    "bearish (as_direction a) \<longrightarrow> as_composite_score a \<le> - 1 / 4"
    using fround_ge [OF fround4_values(4), of score] fround_le [OF fround4_values(5), of score]
    by (simp_all only: a(6,7) scalar_to_direction_sign) blast+
  ultimately show ?thesis
    using a(1-5,7,11,14,15) by (simp add: valid_technical_Some valid_sentiment_Some)
qed

subsection \<open>Directions under the default weights\<close>

text \<open>The exact decision: twice the scalars are integers, so the weighted sum of a pair of directions
  is \<open>n / 20\<close> with \<open>n = 7 t + 3 s\<close>.\<close>

fun steps :: "signal_direction \<Rightarrow> int" where
  "steps STRONG_BUY = 2"
| "steps BUY_DIR = 1"
| "steps NEUTRAL = 0"
| "steps SELL_DIR = - 1"
| "steps STRONG_SELL = - 2"

definition exact_direction :: "int \<Rightarrow> signal_direction" where
  "exact_direction n = (if n \<ge> 13 then STRONG_BUY else if n \<ge> 5 then BUY_DIR
     else if n \<le> - 13 then STRONG_SELL else if n \<le> - 5 then SELL_DIR else NEUTRAL)"

definition float_direction :: "signal_direction \<Rightarrow> signal_direction \<Rightarrow> signal_direction" where
  "float_direction t s = scalar_to_direction (clamp (- 1) 1
     (weighted (Some (scalar_direction t, TECHNICAL_WEIGHT)) (Some (scalar_direction s, SENTIMENT_WEIGHT))))"

definition pair_direction :: "signal_direction \<Rightarrow> signal_direction \<Rightarrow> signal_direction" where
  "pair_direction t s = (let n = 7 * steps t + 3 * steps s
     in if n = 13 then BUY_DIR else if n = - 13 then SELL_DIR else exact_direction n)"

lemma float_direction [simp]: "float_direction t s = pair_direction t s"
  by (induct t; induct s; code_simp)

definition lone_technical :: "signal_direction \<Rightarrow> rat" where
  "lone_technical d = clamp (- 1) 1 (weighted (Some (scalar_direction d, TECHNICAL_WEIGHT)) None)"

lemma lone_technical [simp]: "lone_technical d = scalar_direction d"
  by (induct d; code_simp)

lemma scalar_to_direction_scalar [simp]: "scalar_to_direction (scalar_direction d) = d"
  by (induct d; code_simp)

lemma fround_scalar [simp]: "fround 4 (scalar_direction d) = scalar_direction d"
  by (induct d; code_simp)

text \<open>C31: with the default weights the float arithmetic decides every pair of directions as exact
  arithmetic does, except at the strong threshold: the pair of score exactly 0.65 (a buy with a strong
  buy) gives a plain buy, and symmetrically for sells.\<close>

theorem aggregate_agrees_with_exact:
  assumes "aggregate env (new_signal_aggregator m) symbol (Some x) (Some y) = Inr (Some a)"
    and "as_technical_signal a = Some x" "as_sentiment_signal a = Some y"
  shows "let n = 7 * steps (ts_direction x) + 3 * steps (ss_direction y)
    in (\<bar>n\<bar> \<noteq> 13 \<longrightarrow> as_direction a = exact_direction n) \<and>
       (\<bar>n\<bar> = 13 \<longrightarrow> as_direction a \<noteq> exact_direction n \<and>
          (bullish (as_direction a) \<longleftrightarrow> bullish (exact_direction n)) \<and>
          (bearish (as_direction a) \<longleftrightarrow> bearish (exact_direction n)))"
proof -
  have "as_direction a = pair_direction (ts_direction x) (ss_direction y)"
  proof (cases rule: aggregate_cases [of env "new_signal_aggregator m" symbol "Some x" "Some y"])
    case f: (fused b score conf)
    then have "a = b" using assms(1) by simp
    then show ?thesis
      using f(3,4,6,10) assms(2,3) unfolding float_direction [symmetric] float_direction_def
      by (simp add: new_signal_aggregator_def)
  qed (use assms in simp)
  then show ?thesis
    by (auto simp: pair_direction_def exact_direction_def Let_def bullish_def bearish_def)
qed

definition mk_sentiment :: "symbol \<Rightarrow> signal_direction \<Rightarrow> rat \<Rightarrow> time \<Rightarrow> sentiment_signal" where
  "mk_sentiment symbol d conf t = \<lparr>ss_signal_id = 3, ss_source = SENTIMENT, ss_symbol = symbol,
     ss_timestamp = t, ss_expires_at = t + 300 * 10 ^ 6, ss_direction = d, ss_confidence = conf,
     ss_sentiment_score = 0, ss_article_count = 1\<rparr>"

definition mk_agg_env :: "time \<Rightarrow> agg_env" where
  "mk_agg_env t = \<lparr>ae_technical_now = t, ae_sentiment_now = t, ae_signal_id = 2, ae_stamp = t\<rparr>"

theorem aggregate_agrees_with_exact_witness:
  "case aggregate (mk_agg_env 0) (new_signal_aggregator (1 / 2)) ''BTC/USDT''
      (Some (mk_technical ''BTC/USDT'' BUY_DIR 1 64000 0))
      (Some (mk_sentiment ''BTC/USDT'' STRONG_BUY 1 0)) of
     Inr (Some a) \<Rightarrow> as_direction a \<noteq> STRONG_BUY \<and> bullish (as_direction a) | _ \<Rightarrow> False"
proof -
  define x where "x = mk_technical ''BTC/USDT'' BUY_DIR 1 64000 0"
  define y where "y = mk_sentiment ''BTC/USDT'' STRONG_BUY 1 0"
  have v: "valid_technical (mk_agg_env 0) (new_signal_aggregator (1 / 2)) (Some x) = Some x"
    "valid_sentiment (mk_agg_env 0) (new_signal_aggregator (1 / 2)) (Some y) = Some y"
    "steps (ts_direction x) = 1" "steps (ss_direction y) = 2"
    by (simp_all add: valid_technical_def valid_sentiment_def x_def y_def mk_technical_def mk_sentiment_def
        mk_agg_env_def new_signal_aggregator_def technical_expired_def sentiment_expired_def)
  show ?thesis
  proof (cases rule: aggregate_cases [of "mk_agg_env 0" "new_signal_aggregator (1 / 2)" "''BTC/USDT''" "Some x" "Some y"])
    case a: (fused a score conf)
    have "as_direction a \<noteq> exact_direction 13 \<and> (bullish (as_direction a) \<longleftrightarrow> bullish (exact_direction 13))"
      using aggregate_agrees_with_exact [OF a(1)] a(3,4) v by (simp add: Let_def)
    then show ?thesis
      using a(1) by (simp add: x_def [symmetric] y_def [symmetric] exact_direction_def bullish_def) blast
  qed (use v in simp)
qed

lemma lone_technical_aggregate:
  assumes "valid_technical env (new_signal_aggregator m) t = Some x"
    and "valid_sentiment env (new_signal_aggregator m) s = None"
  shows "\<exists>a. aggregate env (new_signal_aggregator m) symbol t s = Inr (Some a) \<and>
    as_direction a = ts_direction x \<and> as_composite_score a = scalar_direction (ts_direction x) \<and>
    as_technical_signal a = Some x \<and> as_symbol a = symbol"
proof (cases rule: aggregate_cases [of env "new_signal_aggregator m" symbol t s])
  case a: (fused a score conf)
  have "score = lone_technical (ts_direction x)"
    using a(10) unfolding assms option.map lone_technical_def by (simp add: new_signal_aggregator_def)
  then show ?thesis using a(1,3,5,6,7) assms(1) by simp
qed (use assms in simp)

text \<open>a technical signal that is the only survivor keeps its direction, with its own scalar as
  the published score.\<close>

theorem aggregate_lone_technical:
  assumes "valid_technical env (new_signal_aggregator m) t = Some x"
    and "valid_sentiment env (new_signal_aggregator m) s = None"
  shows "\<exists>a. aggregate env (new_signal_aggregator m) symbol t s = Inr (Some a) \<and>
    as_direction a = ts_direction x \<and> as_composite_score a = scalar_direction (ts_direction x) \<and>
    as_technical_signal a = Some x \<and> as_symbol a = symbol"
  by (rule lone_technical_aggregate [OF assms])

theorem aggregate_lone_technical_witness:
  "\<exists>a. aggregate (mk_agg_env 0) (new_signal_aggregator (1 / 2)) ''BTC/USDT''
      (Some (mk_technical ''BTC/USDT'' BUY_DIR 1 64000 0)) None = Inr (Some a) \<and> as_direction a = BUY_DIR"
  using aggregate_lone_technical [of "mk_agg_env 0" "1 / 2" "Some (mk_technical ''BTC/USDT'' BUY_DIR 1 64000 0)"
      "mk_technical ''BTC/USDT'' BUY_DIR 1 64000 0" None "''BTC/USDT''"]
  by (auto simp: valid_technical_def valid_sentiment_def mk_technical_def mk_agg_env_def
      new_signal_aggregator_def technical_expired_def)

lemma demo_lone_valid:
  "valid_technical (mk_agg_env 0) (new_signal_aggregator (1 / 2)) (Some (mk_technical ''BTC/USDT'' BUY_DIR 1 64000 0)) =
     Some (mk_technical ''BTC/USDT'' BUY_DIR 1 64000 0)"
  "valid_sentiment (mk_agg_env 0) (new_signal_aggregator (1 / 2)) None = None"
  by (simp_all add: valid_technical_def valid_sentiment_def mk_technical_def mk_agg_env_def
      new_signal_aggregator_def technical_expired_def)

theorem aggregate_total_and_in_range_witness:
  "\<exists>a. aggregate (mk_agg_env 0) (new_signal_aggregator (1 / 2)) ''BTC/USDT''
      (Some (mk_technical ''BTC/USDT'' BUY_DIR 1 64000 0)) None = Inr (Some a) \<and>
     0 \<le> as_confidence a \<and> as_confidence a \<le> 1 \<and> 1 / 4 \<le> as_composite_score a"
proof -
  obtain a where a: "aggregate (mk_agg_env 0) (new_signal_aggregator (1 / 2)) ''BTC/USDT''
      (Some (mk_technical ''BTC/USDT'' BUY_DIR 1 64000 0)) None = Inr (Some a)" "bullish (as_direction a)"
    using lone_technical_aggregate [OF demo_lone_valid, where symbol = "''BTC/USDT''"]
    by (auto simp: mk_technical_def bullish_def)
  then show ?thesis
    using aggregate_total_and_in_range [where env = "mk_agg_env 0" and z = "new_signal_aggregator (1 / 2)"
        and symbol = "''BTC/USDT''" and t = "Some (mk_technical ''BTC/USDT'' BUY_DIR 1 64000 0)" and s = None]
    by simp
qed

end
