(* ===== verification/Text_Format.thy ===== *)
theory Text_Format
  imports Config
begin

text \<open>
  The formatting the program writes into records and keys: \<open>str(n)\<close>, \<open>f"{x:.nf}"\<close>, \<open>f"{x:+.nf}"\<close> and
  \<open>f"{x:.n%}"\<close>. Fixed-point formatting rounds the exact value of the float half to even.
\<close>

definition digit :: "int \<Rightarrow> char" where
  "digit n = char_of (48 + n)"

text \<open>The digits of a number that is not negative.\<close>

function digits :: "int \<Rightarrow> string" where
  "digits n = (if n < 10 then [digit n] else digits (n div 10) @ [digit (n mod 10)])"
  by pat_completeness auto
termination
  by (relation "measure nat") auto

declare digits.simps [simp del]

definition int_text :: "int \<Rightarrow> string" where
  "int_text z = (if z < 0 then ''-'' else []) @ digits \<bar>z\<bar>"

definition padded :: "nat \<Rightarrow> string \<Rightarrow> string" where
  "padded n t = replicate (n - length t) (digit 0) @ t"

definition fixed :: "nat \<Rightarrow> rat \<Rightarrow> string" where
  "fixed n x = (let c = \<bar>rne (x * 10 ^ n)\<bar>
     in (if x < 0 then ''-'' else []) @ digits (c div 10 ^ n) @
        (if n = 0 then [] else ''.'' @ padded n (digits (c mod 10 ^ n))))"

definition signed_fixed :: "nat \<Rightarrow> rat \<Rightarrow> string" where
  "signed_fixed n x = (if x < 0 then [] else ''+'') @ fixed n x"

definition percent :: "nat \<Rightarrow> rat \<Rightarrow> string" where
  "percent n x = fixed n (fmul x 100) @ ''%''"

text \<open>\<open>sep.join(parts)\<close>.\<close>

fun join :: "string \<Rightarrow> string list \<Rightarrow> string" where
  "join sep [] = []"
| "join sep [p] = p"
| "join sep (p # q # ps) = p @ sep @ join sep (q # ps)"

subsection \<open>Reading digits back\<close>

definition digit_value :: "char \<Rightarrow> int option" where
  "digit_value c = (let n = of_char c in if 48 \<le> n \<and> n \<le> 57 then Some (n - 48) else None)"

definition read_digit :: "int option \<Rightarrow> char \<Rightarrow> int option" where
  "read_digit acc c = (case (acc, digit_value c) of (Some a, Some d) \<Rightarrow> Some (10 * a + d) | _ \<Rightarrow> None)"

definition read_digits :: "string \<Rightarrow> int option" where
  "read_digits t = (if t = [] then None else foldl read_digit (Some 0) t)"

lemma digit_value_digit [simp]:
  assumes "0 \<le> n" "n < 10"
  shows "digit_value (digit n) = Some n"
proof -
  have "list_all (\<lambda>n. digit_value (digit n) = Some n) [0, 1, 2, 3, 4, 5, 6, 7, 8, 9]" by code_simp
  moreover have "n \<in> {0, 1, 2, 3, 4, 5, 6, 7, 8, 9}"
    unfolding insert_iff empty_iff using assms by presburger
  ultimately show ?thesis by (auto simp: list_all_iff)
qed

lemma foldl_read_digits: "0 \<le> n \<Longrightarrow> foldl read_digit (Some 0) (digits n) = Some n"
proof (induction n rule: digits.induct)
  case (1 n)
  show ?case
  proof (cases "n < 10")
    case True
    then show ?thesis using 1 by (subst digits.simps) (simp add: read_digit_def)
  next
    case False
    then have "foldl read_digit (Some 0) (digits n) = read_digit (Some (n div 10)) (digit (n mod 10))"
      using 1 by (subst digits.simps) simp
    also have "\<dots> = Some n" by (simp add: read_digit_def)
    finally show ?thesis .
  qed
qed

lemma digits_nonempty [simp]: "digits n \<noteq> []"
  by (subst digits.simps) simp

lemma read_digits [simp]: "0 \<le> n \<Longrightarrow> read_digits (digits n) = Some n"
  by (simp add: read_digits_def foldl_read_digits)

lemma digits_inject: "0 \<le> m \<Longrightarrow> 0 \<le> n \<Longrightarrow> digits m = digits n \<longleftrightarrow> m = n"
  by (metis read_digits option.inject)

lemma digit_neq_minus: "0 \<le> n \<Longrightarrow> n < 10 \<Longrightarrow> digit n \<noteq> CHR ''-''"
proof
  assume n: "0 \<le> n" "n < 10" "digit n = CHR ''-''"
  have "digit_value (CHR ''-'') = None" by code_simp
  then show False using n digit_value_digit [of n] by simp
qed

lemma hd_digits: "0 \<le> n \<Longrightarrow> \<exists>d. 0 \<le> d \<and> d < 10 \<and> hd (digits n) = digit d"
proof (induction n rule: digits.induct)
  case (1 n)
  then show ?case by (subst digits.simps) auto
qed

lemma digits_not_minus: "0 \<le> n \<Longrightarrow> digits n \<noteq> CHR ''-'' # t"
  using hd_digits [of n] digit_neq_minus by (metis list.sel(1))

lemma int_text_inject [simp]: "int_text y = int_text z \<longleftrightarrow> y = z"
proof
  assume eq: "int_text y = int_text z"
  then have "(y < 0) = (z < 0)"
    using digits_not_minus [of "\<bar>y\<bar>"] digits_not_minus [of "\<bar>z\<bar>", THEN not_sym]
    by (auto simp: int_text_def split: if_splits)
  then show "y = z" using eq by (auto simp: int_text_def digits_inject split: if_splits)
qed simp

end
