(* ===== verification/Proposal_Builder.thy ===== *)
theory Proposal_Builder
  imports Trade_Models Text_Format
begin

text \<open>
  From an aggregated signal to a trade proposal (\<open>agents/decision/proposal_builder.py\<close>), with the
  audit text it writes.
\<close>

record proposal_builder =
  pb_max_position_pct :: rat
  pb_default_stop_loss_pct :: rat
  pb_default_take_profit_pct :: rat
  pb_max_order_size_usd :: rat

definition new_proposal_builder :: "rat \<Rightarrow> rat \<Rightarrow> proposal_builder" where
  "new_proposal_builder max_pct max_order = \<lparr>pb_max_position_pct = max_pct,
     pb_default_stop_loss_pct = fl (2 / 100), pb_default_take_profit_pct = fl (4 / 100),
     pb_max_order_size_usd = max_order\<rparr>"

fun side_upper :: "order_side \<Rightarrow> string" where
  "side_upper BUY = ''BUY''"
| "side_upper SELL = ''SELL''"

definition build_reasoning :: "aggregated_signal \<Rightarrow> order_side \<Rightarrow> money \<Rightarrow> string" where
  "build_reasoning sig side size_usd =
    (let sources = (if as_technical_signal sig \<noteq> None
                    then [''technical('' @ percent 0 (as_technical_weight sig) @ '')''] else []) @
                   (if as_sentiment_signal sig \<noteq> None
                    then [''sentiment('' @ percent 0 (as_sentiment_weight sig) @ '')''] else [])
     in side_upper side @ '' '' @ as_symbol sig @ '': direction='' @ direction_value (as_direction sig) @
        '' confidence='' @ fixed 2 (as_confidence sig) @
        '' score='' @ signed_fixed 3 (as_composite_score sig) @
        '' size=$'' @ fixed 2 (fl size_usd) @ '' sources=['' @ join '', '' sources @ '']'')"

definition requested_size :: "proposal_builder \<Rightarrow> money \<Rightarrow> money" where
  "requested_size z portfolio_value_usd =
    (let requested = dmul (dec_of_float (pb_max_position_pct z)) portfolio_value_usd;
         abs_max = dec_of_float (pb_max_order_size_usd z)
     in if requested > abs_max then abs_max else requested)"

text \<open>The fresh proposal id and the clock reading come first.\<close>

definition build ::
  "uuid \<Rightarrow> time \<Rightarrow> proposal_builder \<Rightarrow> aggregated_signal \<Rightarrow> money \<Rightarrow> error + trade_proposal option" where
  "build pid now z sig portfolio_value_usd =
    (let proposal = (\<lambda>side. let requested = requested_size z portfolio_value_usd in
       (case new_trade_proposal \<lparr>tp_proposal_id = pid, tp_symbol = as_symbol sig, tp_side = side,
          tp_order_type = MARKET, tp_timestamp = now, tp_requested_size_usd = requested,
          tp_requested_quantity = None, tp_limit_price = None,
          tp_suggested_stop_loss_pct = Some (pb_default_stop_loss_pct z),
          tp_suggested_take_profit_pct = Some (pb_default_take_profit_pct z), tp_signal = sig,
          tp_reasoning = build_reasoning sig side requested\<rparr> of
          Inl e \<Rightarrow> Inl e | Inr p \<Rightarrow> Inr (Some p)))
     in case as_direction sig of
          NEUTRAL \<Rightarrow> Inr None
        | BUY_DIR \<Rightarrow> proposal BUY | STRONG_BUY \<Rightarrow> proposal BUY
        | SELL_DIR \<Rightarrow> proposal SELL | STRONG_SELL \<Rightarrow> proposal SELL)"

subsection \<open>Facts\<close>

lemma requested_size_bounds:
  "requested_size z v \<le> dec_of_float (pb_max_order_size_usd z)"
  "requested_size z v \<le> dmul (dec_of_float (pb_max_position_pct z)) v"
  by (auto simp: requested_size_def Let_def)

lemma build_Some:
  assumes "build pid now z sig v = Inr (Some p)"
  shows "tp_symbol p = as_symbol sig" "tp_signal p = sig" "tp_requested_size_usd p = requested_size z v"
    "0 < tp_requested_size_usd p" "tp_proposal_id p = pid"
    "tp_side p = BUY \<longleftrightarrow> bullish (as_direction sig)" "tp_side p = SELL \<longleftrightarrow> bearish (as_direction sig)"
  using assms
  by (auto simp: build_def Let_def new_trade_proposal_def bullish_def bearish_def
      split: signal_direction.splits if_splits)

lemma build_None: "build pid now z sig v = Inr None \<longleftrightarrow> as_direction sig = NEUTRAL"
  by (auto simp: build_def Let_def new_trade_proposal_def split: signal_direction.splits if_splits)

lemma build_Inl: "build pid now z sig v = Inl e \<Longrightarrow> requested_size z v \<le> 0"
  by (auto simp: build_def Let_def new_trade_proposal_def split: signal_direction.splits if_splits)

end
