(* ===== verification/Decision_Agent.thy ===== *)
theory Decision_Agent
  imports Base_Agent Signal_Aggregator Proposal_Builder
begin

text \<open>
  The decision agent (\<open>agents/decision/agent.py\<close>): it caches the latest signal of each kind per
  symbol, and on every arrival fuses what is cached, filters against the trend and publishes a
  proposal. Clock readings, fresh ids and the failures of the cache write and of the publication are
  the argument \<open>decision_env\<close>.

  Proved here: what a published proposal guarantees, that a halted agent publishes nothing, and that
  a failed cache write loses the arrival's proposal but not the signal.
\<close>

record decision_agent =
  da_base :: base_agent
  da_settings :: settings
  da_aggregator :: signal_aggregator
  da_builder :: proposal_builder
  da_latest_technical :: "(symbol, technical_signal) dict"
  da_latest_sentiment :: "(symbol, sentiment_signal) dict"

record decision_env =
  de_agg :: agg_env
  de_proposal_id :: uuid
  de_proposal_now :: time
  de_cache_error :: "error option"
  de_publish_error :: "error option"

definition new_decision_agent :: "settings \<Rightarrow> decision_agent" where
  "new_decision_agent s = \<lparr>da_base = new_base_agent s ''decision_agent'', da_settings = s,
     da_aggregator = new_signal_aggregator (ta_min_signal_confidence (st_technical_analysis s)),
     da_builder = new_proposal_builder (rs_max_position_pct (st_risk s)) (rs_max_order_size_usd (st_risk s)),
     da_latest_technical = [], da_latest_sentiment = []\<rparr>"

subsection \<open>Aggregation and proposal\<close>

definition portfolio_value :: "decision_agent \<Rightarrow> money" where
  "portfolio_value ag = dec_of_float (st_paper_initial_balance_usd (da_settings ag))"

text \<open>\<open>float(v)\<close> of a metadata value; text stands for text that is not a number.\<close>

fun metadata_float :: "meta_value \<Rightarrow> error + rat" where
  "metadata_float (Meta_num x) = Inr x"
| "metadata_float (Meta_bool b) = Inr (if b then 1 else 0)"
| "metadata_float (Meta_text t) = Inl (Validation_error ''could not convert string to float'')"
| "metadata_float Meta_null = Inl (Validation_error ''float() argument'')"
| "metadata_float (Meta_list xs) = Inl (Validation_error ''float() argument'')"
| "metadata_float (Meta_dict d) = Inl (Validation_error ''float() argument'')"

text \<open>The trend filter reads the distance to the 50-period average from the latest technical signal,
  also when that signal was dropped from the aggregation.\<close>

definition passes_trend :: "technical_signal option \<Rightarrow> signal_direction \<Rightarrow> error + bool" where
  "passes_trend technical d =
    (case technical of None \<Rightarrow> Inr True
     | Some s \<Rightarrow> (case map_of (ts_metadata s) ''ema_50_dist'' of
         None \<Rightarrow> Inr True
       | Some Meta_null \<Rightarrow> Inr True
       | Some v \<Rightarrow> (case metadata_float v of Inl e \<Rightarrow> Inl e
           | Inr away \<Rightarrow> Inr (\<not> (bullish d \<and> away < 0) \<and> \<not> (bearish d \<and> away > 0)))))"

definition try_aggregate_and_propose ::
  "decision_env \<Rightarrow> symbol \<Rightarrow> decision_agent \<Rightarrow> error + trade_proposal option" where
  "try_aggregate_and_propose env symbol ag =
    (if ba_trading_halted (da_base ag) then Inr None
     else let technical = map_of (da_latest_technical ag) symbol;
              sentiment = map_of (da_latest_sentiment ag) symbol
     in case aggregate (de_agg env) (da_aggregator ag) symbol technical sentiment of
          Inl e \<Rightarrow> Inl e
        | Inr None \<Rightarrow> Inr None
        | Inr (Some a) \<Rightarrow> (case passes_trend technical (as_direction a) of
            Inl e \<Rightarrow> Inl e
          | Inr False \<Rightarrow> Inr None
          | Inr True \<Rightarrow> (case build (de_proposal_id env) (de_proposal_now env) (da_builder ag) a (portfolio_value ag) of
              Inl e \<Rightarrow> Inl e
            | Inr None \<Rightarrow> Inr None
            | Inr (Some p) \<Rightarrow> (case de_publish_error env of Some e \<Rightarrow> Inl e | None \<Rightarrow> Inr (Some p)))))"

subsection \<open>Signal handlers\<close>

definition on_technical_signal ::
  "decision_env \<Rightarrow> technical_signal \<Rightarrow> decision_agent \<Rightarrow> (error + trade_proposal option) \<times> decision_agent" where
  "on_technical_signal env s ag =
    (let ag1 = ag\<lparr>da_latest_technical := AList.update (ts_symbol s) s (da_latest_technical ag)\<rparr>
     in case de_cache_error env of Some e \<Rightarrow> (Inl e, ag1)
        | None \<Rightarrow> (try_aggregate_and_propose env (ts_symbol s) ag1, ag1))"

definition on_sentiment_signal ::
  "decision_env \<Rightarrow> sentiment_signal \<Rightarrow> decision_agent \<Rightarrow> (error + trade_proposal option) \<times> decision_agent" where
  "on_sentiment_signal env s ag =
    (let ag1 = ag\<lparr>da_latest_sentiment := AList.update (ss_symbol s) s (da_latest_sentiment ag)\<rparr>
     in case de_cache_error env of Some e \<Rightarrow> (Inl e, ag1)
        | None \<Rightarrow> (try_aggregate_and_propose env (ss_symbol s) ag1, ag1))"

definition account ::
  "(error + trade_proposal option) \<times> decision_agent \<Rightarrow> trade_proposal option \<times> decision_agent" where
  "account r = (case r of
     (Inr out, ag) \<Rightarrow> (out, ag\<lparr>da_base := record_success (da_base ag)\<rparr>)
   | (Inl e, ag) \<Rightarrow> (None, ag\<lparr>da_base := handle_error e (da_base ag)\<rparr>))"

definition consume_technical ::
  "decision_env \<Rightarrow> technical_signal \<Rightarrow> decision_agent \<Rightarrow> trade_proposal option \<times> decision_agent" where
  "consume_technical env s ag = (if \<not> should_continue (da_base ag) then (None, ag)
     else account (on_technical_signal env s ag))"

definition consume_sentiment ::
  "decision_env \<Rightarrow> sentiment_signal \<Rightarrow> decision_agent \<Rightarrow> trade_proposal option \<times> decision_agent" where
  "consume_sentiment env s ag = (if \<not> should_continue (da_base ag) then (None, ag)
     else account (on_sentiment_signal env s ag))"

definition health_extra :: "bool \<Rightarrow> decision_agent \<Rightarrow> (string, meta_value) dict" where
  "health_extra sentiment_enabled ag = [(''symbols'', Meta_list (map Meta_text (md_symbols (st_market_data (da_settings ag))))),
     (''cached_technical_signals'', Meta_num (of_nat (length (da_latest_technical ag)))),
     (''cached_sentiment_signals'', Meta_num (of_nat (length (da_latest_sentiment ag)))),
     (''sentiment_enabled'', Meta_bool sentiment_enabled)]"

subsection \<open>Runs\<close>

datatype decision_event =
    D_technical decision_env technical_signal
  | D_sentiment decision_env sentiment_signal
  | D_override risk_override

fun decision_step :: "decision_event \<Rightarrow> decision_agent \<Rightarrow> trade_proposal option \<times> decision_agent" where
  "decision_step (D_technical env s) ag = consume_technical env s ag"
| "decision_step (D_sentiment env s) ag = consume_sentiment env s ag"
| "decision_step (D_override ro) ag = (None, ag\<lparr>da_base := on_risk_override ro (da_base ag)\<rparr>)"

fun decision_run :: "decision_event list \<Rightarrow> decision_agent \<Rightarrow> trade_proposal list \<times> decision_agent" where
  "decision_run [] ag = ([], ag)"
| "decision_run (ev # evs) ag = (case decision_step ev ag of (out, ag1) \<Rightarrow>
     (case decision_run evs ag1 of (ps, ag2) \<Rightarrow>
        (case out of None \<Rightarrow> ps | Some p \<Rightarrow> p # ps, ag2)))"

text \<open>The environment a signal is handled in: its clock readings are those of the arrival.\<close>

fun event_env :: "decision_event \<Rightarrow> decision_env option" where
  "event_env (D_technical env s) = Some env"
| "event_env (D_sentiment env s) = Some env"
| "event_env (D_override ro) = None"

text \<open>The invariant: both caches are dictionaries whose entries are signals of their symbol.\<close>

definition decision_ok :: "decision_agent \<Rightarrow> bool" where
  "decision_ok ag \<longleftrightarrow> dict_ok (da_latest_technical ag) \<and> dict_ok (da_latest_sentiment ag) \<and>
     list_all (\<lambda>(k, s). ts_symbol s = k) (da_latest_technical ag) \<and>
     list_all (\<lambda>(k, s). ss_symbol s = k) (da_latest_sentiment ag)"

subsection \<open>Facts\<close>

lemma new_decision_agent_ok: "decision_ok (new_decision_agent s)"
  by (simp add: decision_ok_def new_decision_agent_def)

lemma list_all_entries_update: "list_all P d \<Longrightarrow> P (k, v) \<Longrightarrow> list_all P (AList.update k v d)"
  using set_update_subset [of k v d] by (auto simp: list_all_iff)

lemma consume_technical_state:
  "decision_ok ag \<Longrightarrow> decision_ok (snd (consume_technical env s ag))"
  by (auto simp: consume_technical_def account_def on_technical_signal_def decision_ok_def Let_def
      intro: list_all_entries_update split: option.splits sum.splits)

lemma consume_sentiment_state:
  "decision_ok ag \<Longrightarrow> decision_ok (snd (consume_sentiment env s ag))"
  by (auto simp: consume_sentiment_def account_def on_sentiment_signal_def decision_ok_def Let_def
      intro: list_all_entries_update split: option.splits sum.splits)

lemma decision_step_ok [inv_intros]: "decision_ok ag \<Longrightarrow> decision_ok (snd (decision_step ev ag))"
  using consume_technical_state consume_sentiment_state by (cases ev) (simp_all, simp add: decision_ok_def)

text \<open>What has happened when a proposal was published.\<close>

lemma try_published:
  assumes "try_aggregate_and_propose env symbol ag = Inr (Some p)"
  obtains a where "\<not> ba_trading_halted (da_base ag)"
    "aggregate (de_agg env) (da_aggregator ag) symbol (map_of (da_latest_technical ag) symbol)
       (map_of (da_latest_sentiment ag) symbol) = Inr (Some a)"
    "passes_trend (map_of (da_latest_technical ag) symbol) (as_direction a) = Inr True"
    "build (de_proposal_id env) (de_proposal_now env) (da_builder ag) a (portfolio_value ag) = Inr (Some p)"
  using assms
  by (auto simp: try_aggregate_and_propose_def Let_def split: if_splits sum.splits option.splits bool.splits)

lemma account_published:
  "fst (account r) = Some p \<longleftrightarrow> fst r = Inr (Some p)"
  by (cases r) (auto simp: account_def split: sum.splits)

text \<open>A published proposal names its arrival's symbol; the agent that decided it differs from the one
  before the arrival in a cache only.\<close>

lemma decision_published:
  assumes "decision_step ev ag = (Some p, ag')"
  obtains env symbol ag1 where "event_env ev = Some env" "should_continue (da_base ag)" "da_base ag1 = da_base ag"
    "da_builder ag1 = da_builder ag" "da_settings ag1 = da_settings ag" "da_aggregator ag1 = da_aggregator ag"
    "decision_ok ag \<Longrightarrow> decision_ok ag1" "try_aggregate_and_propose env symbol ag1 = Inr (Some p)"
    "da_latest_technical ag' = da_latest_technical ag1" "da_latest_sentiment ag' = da_latest_sentiment ag1"
proof (cases ev)
  case (D_technical env s)
  define ag1 where "ag1 = ag\<lparr>da_latest_technical := AList.update (ts_symbol s) s (da_latest_technical ag)\<rparr>"
  have c: "should_continue (da_base ag)" "fst (account (on_technical_signal env s ag)) = Some p"
    "ag' = snd (account (on_technical_signal env s ag))"
    using assms D_technical by (auto simp: consume_technical_def split: if_splits)
  then have o: "on_technical_signal env s ag = (Inr (Some p), ag1)"
    unfolding account_published on_technical_signal_def Let_def ag1_def [symmetric]
    by (auto split: option.splits)
  then have "try_aggregate_and_propose env (ts_symbol s) ag1 = Inr (Some p)"
    unfolding on_technical_signal_def Let_def ag1_def [symmetric] by (simp split: option.splits)
  then show thesis using c(1,3) o
    by (intro that [of env ag1 "ts_symbol s"])
      (auto simp: D_technical ag1_def account_def decision_ok_def intro: list_all_entries_update)
next
  case (D_sentiment env s)
  define ag1 where "ag1 = ag\<lparr>da_latest_sentiment := AList.update (ss_symbol s) s (da_latest_sentiment ag)\<rparr>"
  have c: "should_continue (da_base ag)" "fst (account (on_sentiment_signal env s ag)) = Some p"
    "ag' = snd (account (on_sentiment_signal env s ag))"
    using assms D_sentiment by (auto simp: consume_sentiment_def split: if_splits)
  then have o: "on_sentiment_signal env s ag = (Inr (Some p), ag1)"
    unfolding account_published on_sentiment_signal_def Let_def ag1_def [symmetric]
    by (auto split: option.splits)
  then have "try_aggregate_and_propose env (ss_symbol s) ag1 = Inr (Some p)"
    unfolding on_sentiment_signal_def Let_def ag1_def [symmetric] by (simp split: option.splits)
  then show thesis using c(1,3) o
    by (intro that [of env ag1 "ss_symbol s"])
      (auto simp: D_sentiment ag1_def account_def decision_ok_def intro: list_all_entries_update)
qed (use assms in simp)

lemma passes_trendD:
  assumes "passes_trend (Some s) d = Inr True" "map_of (ts_metadata s) ''ema_50_dist'' = Some (Meta_num x)"
  shows "(bullish d \<longrightarrow> 0 \<le> x) \<and> (bearish d \<longrightarrow> x \<le> 0)"
  using assms by (auto simp: passes_trend_def not_less)

lemma decision_step_halted:
  "ba_trading_halted (da_base ag) \<Longrightarrow>
    fst (decision_step ev ag) = None \<and> ba_trading_halted (da_base (snd (decision_step ev ag)))"
  by (cases ev) (auto simp: consume_technical_def consume_sentiment_def account_def on_technical_signal_def
      on_sentiment_signal_def try_aggregate_and_propose_def Let_def split: option.split)

lemma decision_run_halted:
  "ba_trading_halted (da_base ag) \<Longrightarrow>
    fst (decision_run evs ag) = [] \<and> ba_trading_halted (da_base (snd (decision_run evs ag)))"
proof (induction evs arbitrary: ag)
  case (Cons ev evs)
  then show ?case using decision_step_halted [of ag ev] Cons.IH [of "snd (decision_step ev ag)"]
    by (cases "decision_step ev ag") (auto split: prod.splits)
qed simp

text \<open>C9: a published proposal is sound: the agent is live and not halted; its signal is fused from
  exactly those of the latest technical and the latest sentiment signal of its symbol that, at the
  moment they are read, are not past their expiry and have at least the configured confidence, and there is at
  least one; its side is the fused direction, the price is not on the wrong side of its 50-period
  average, and its size is positive and within the order cap.\<close>

theorem decision_proposal_sound:
  assumes "decision_step ev ag = (Some p, ag')" "decision_ok ag"
  shows "should_continue (da_base ag) \<and> \<not> ba_trading_halted (da_base ag) \<and>
    0 < tp_requested_size_usd p \<and>
    tp_requested_size_usd p \<le> dec_of_float (pb_max_order_size_usd (da_builder ag)) \<and>
    as_symbol (tp_signal p) = tp_symbol p \<and>
    (tp_side p = BUY \<longleftrightarrow> bullish (as_direction (tp_signal p))) \<and>
    (tp_side p = SELL \<longleftrightarrow> bearish (as_direction (tp_signal p))) \<and>
    (\<exists>env. event_env ev = Some env \<and>
      (\<forall>s. as_technical_signal (tp_signal p) = Some s \<longleftrightarrow>
         map_of (da_latest_technical ag') (tp_symbol p) = Some s \<and> ts_symbol s = tp_symbol p \<and>
         ae_technical_now (de_agg env) \<le> ts_expires_at s \<and>
         sg_min_confidence (da_aggregator ag) \<le> ts_confidence s) \<and>
      (\<forall>s. as_sentiment_signal (tp_signal p) = Some s \<longleftrightarrow>
         map_of (da_latest_sentiment ag') (tp_symbol p) = Some s \<and> ss_symbol s = tp_symbol p \<and>
         ae_sentiment_now (de_agg env) \<le> ss_expires_at s \<and>
         sg_min_confidence (da_aggregator ag) \<le> ss_confidence s)) \<and>
    (as_technical_signal (tp_signal p) \<noteq> None \<or> as_sentiment_signal (tp_signal p) \<noteq> None) \<and>
    (\<forall>s x. map_of (da_latest_technical ag') (tp_symbol p) = Some s \<and>
       map_of (ts_metadata s) ''ema_50_dist'' = Some (Meta_num x) \<longrightarrow>
       (if tp_side p = BUY then 0 \<le> x else x \<le> 0))"
proof -
  obtain env symbol ag1 where p: "event_env ev = Some env" "should_continue (da_base ag)"
    "da_base ag1 = da_base ag" "da_builder ag1 = da_builder ag" "da_aggregator ag1 = da_aggregator ag"
    "decision_ok ag1" "try_aggregate_and_propose env symbol ag1 = Inr (Some p)"
    "da_latest_technical ag' = da_latest_technical ag1" "da_latest_sentiment ag' = da_latest_sentiment ag1"
    by (rule decision_published [OF assms(1)]) (use assms(2) in blast)
  obtain a where a: "\<not> ba_trading_halted (da_base ag1)"
    "aggregate (de_agg env) (da_aggregator ag1) symbol (map_of (da_latest_technical ag1) symbol)
       (map_of (da_latest_sentiment ag1) symbol) = Inr (Some a)"
    "passes_trend (map_of (da_latest_technical ag1) symbol) (as_direction a) = Inr True"
    "build (de_proposal_id env) (de_proposal_now env) (da_builder ag1) a (portfolio_value ag1) = Inr (Some p)"
    by (rule try_published [OF p(7)])
  note b = build_Some [OF a(4)]
  have t: "as_symbol a = symbol"
    "as_technical_signal a = valid_technical (de_agg env) (da_aggregator ag) (map_of (da_latest_technical ag1) symbol)"
    "as_sentiment_signal a = valid_sentiment (de_agg env) (da_aggregator ag) (map_of (da_latest_sentiment ag1) symbol)"
    "as_technical_signal a \<noteq> None \<or> as_sentiment_signal a \<noteq> None"
    using a(2) p(5) by (cases rule: aggregate_cases [of "de_agg env" "da_aggregator ag1" symbol
        "map_of (da_latest_technical ag1) symbol" "map_of (da_latest_sentiment ag1) symbol"]; simp)+
  have k: "map_of (da_latest_technical ag1) symbol = Some x \<Longrightarrow> ts_symbol x = symbol"
    "map_of (da_latest_sentiment ag1) symbol = Some y \<Longrightarrow> ss_symbol y = symbol" for x y
    using p(6) map_of_SomeD [of "da_latest_technical ag1" symbol x] map_of_SomeD [of "da_latest_sentiment ag1" symbol y]
    by (auto simp: decision_ok_def list_all_iff)
  have v: "as_technical_signal a = Some x \<longleftrightarrow> map_of (da_latest_technical ag1) symbol = Some x \<and>
      ts_symbol x = symbol \<and> ae_technical_now (de_agg env) \<le> ts_expires_at x \<and>
      sg_min_confidence (da_aggregator ag) \<le> ts_confidence x"
    "as_sentiment_signal a = Some y \<longleftrightarrow> map_of (da_latest_sentiment ag1) symbol = Some y \<and>
      ss_symbol y = symbol \<and> ae_sentiment_now (de_agg env) \<le> ss_expires_at y \<and>
      sg_min_confidence (da_aggregator ag) \<le> ss_confidence y" for x y
    using k(1) [of x] k(2) [of y] unfolding t(2,3) valid_technical_Some valid_sentiment_Some
    by (auto simp: technical_expired_def sentiment_expired_def not_less)
  have "tp_side p = BUY \<or> tp_side p = SELL" by (cases "tp_side p") simp_all
  then have "if tp_side p = BUY then 0 \<le> x else x \<le> 0"
    if "map_of (da_latest_technical ag1) symbol = Some s" "map_of (ts_metadata s) ''ema_50_dist'' = Some (Meta_num x)" for s x
    using passes_trendD [OF a(3) [unfolded that(1)] that(2)] b(6,7) by auto
  moreover have "tp_signal p = a" "tp_symbol p = symbol" using b t(1) by simp_all
  ultimately show ?thesis
    using p(1-4,8,9) a(1) b t(1,4) v requested_size_bounds(1) [of "da_builder ag1"] by simp
qed

definition demo_decision_env :: decision_env where
  "demo_decision_env = \<lparr>de_agg = mk_agg_env 0, de_proposal_id = 7, de_proposal_now = 0,
     de_cache_error = None, de_publish_error = None\<rparr>"

definition demo_technical :: technical_signal where
  "demo_technical = (mk_technical ''BTC/USDT'' STRONG_BUY 1 64000 0)\<lparr>ts_metadata := [(''ema_50_dist'', Meta_num (1 / 2))]\<rparr>"

definition demo_decision :: decision_agent where
  "demo_decision = new_decision_agent default_settings"

lemma demo_published:
  "\<exists>p ag. decision_step (D_technical demo_decision_env demo_technical) demo_decision = (Some p, ag)"
proof -
  have "fst (decision_step (D_technical demo_decision_env demo_technical) demo_decision) \<noteq> None"
    by code_simp
  then show ?thesis by (cases "decision_step (D_technical demo_decision_env demo_technical) demo_decision") auto
qed

theorem decision_proposal_sound_witness:
  "\<exists>p ag. decision_step (D_technical demo_decision_env demo_technical) demo_decision = (Some p, ag) \<and>
     0 < tp_requested_size_usd p \<and> tp_requested_size_usd p \<le> 1000"
proof -
  obtain p ag where e: "decision_step (D_technical demo_decision_env demo_technical) demo_decision = (Some p, ag)"
    using demo_published by blast
  have "dec_of_float 1000 = 1000" by code_simp
  then have "dec_of_float (pb_max_order_size_usd (da_builder demo_decision)) = 1000"
    by (simp add: demo_decision_def new_decision_agent_def new_proposal_builder_def default_settings_def default_risk_settings_def)
  then show ?thesis
    using decision_proposal_sound [OF e] e by (simp add: demo_decision_def new_decision_agent_ok)
qed

text \<open>Once trading is halted, by the latch or by an override, the agent never publishes again,
  whatever arrives.\<close>

theorem decision_halt_is_final:
  assumes "ba_trading_halted (da_base ag)"
  shows "fst (decision_run evs ag) = [] \<and> ba_trading_halted (da_base (snd (decision_run evs ag)))"
  by (rule decision_run_halted [OF assms])

theorem decision_halt_is_final_witness:
  "fst (decision_run [D_technical demo_decision_env demo_technical]
     (demo_decision\<lparr>da_base := (da_base demo_decision)\<lparr>ba_trading_halted := True\<rparr>\<rparr>)) = []"
  using decision_halt_is_final [of "demo_decision\<lparr>da_base := (da_base demo_decision)\<lparr>ba_trading_halted := True\<rparr>\<rparr>"
      "[D_technical demo_decision_env demo_technical]"]
  by simp

text \<open>When the cache write to Redis fails, nothing is published and one error is counted, yet the
  arriving signal is already the latest of its symbol and takes part in the next aggregation.\<close>

theorem decision_cache_failure_keeps_signal:
  assumes "should_continue (da_base ag)" "de_cache_error env = Some e"
  shows "case consume_technical env s ag of (out, ag') \<Rightarrow> out = None \<and>
    map_of (da_latest_technical ag') (ts_symbol s) = Some s \<and>
    (\<forall>k. k \<noteq> ts_symbol s \<longrightarrow> map_of (da_latest_technical ag') k = map_of (da_latest_technical ag) k) \<and>
    ba_consecutive_errors (da_base ag') = ba_consecutive_errors (da_base ag) + 1 \<and>
    ba_last_error (da_base ag') = Some e"
  using assms
  by (simp add: consume_technical_def on_technical_signal_def account_def Let_def handle_error_def)

theorem decision_cache_failure_keeps_signal_witness:
  "fst (consume_technical (demo_decision_env\<lparr>de_cache_error := Some (Messaging_error [])\<rparr>) demo_technical demo_decision) = None"
proof -
  have "should_continue (da_base demo_decision)" by code_simp
  then show ?thesis
    using decision_cache_failure_keeps_signal [of demo_decision "demo_decision_env\<lparr>de_cache_error := Some (Messaging_error [])\<rparr>"
        "Messaging_error []" demo_technical] by (auto split: prod.splits)
qed

end
