(* ===== verification/Normaliser.thy ===== *)
theory Normaliser
  imports Market_Models
begin

text \<open>
  The data quality gate (\<open>agents/market_data/normalizer.py\<close>): per symbol and timeframe it remembers
  the last 200 timestamps, the last candle and four counters. A batch is sorted, deduplicated and
  checked for gaps. The \<open>defaultdict\<close>s are dictionaries read with a default.

  Proved here: the output of a batch is strictly ascending, the counters account for every candle,
  and, over any interleaving of the batches of all feeds, a candle is not published again before 200
  others of its feed have been.
\<close>

definition TIMEFRAME_SECONDS :: "(string, int) dict" where
  "TIMEFRAME_SECONDS = [(''1m'', 60), (''3m'', 180), (''5m'', 300), (''15m'', 900), (''30m'', 1800),
     (''1h'', 3600), (''2h'', 7200), (''4h'', 14400), (''6h'', 21600), (''12h'', 43200),
     (''1d'', 86400), (''1w'', 604800)]"

definition DEDUP_BUFFER_SIZE :: nat where "DEDUP_BUFFER_SIZE = 200"

definition timeframe_seconds :: "string \<Rightarrow> int" where
  "timeframe_seconds tf = (case map_of TIMEFRAME_SECONDS tf of None \<Rightarrow> 60 | Some s \<Rightarrow> s)"

definition closed_candles :: "time \<Rightarrow> candle list \<Rightarrow> candle list" where
  "closed_candles now cs = filter (\<lambda>c. case map_of TIMEFRAME_SECONDS (oc_timeframe c) of
       None \<Rightarrow> True | Some s \<Rightarrow> oc_timestamp c + s * 10 ^ 6 \<le> now) cs"

type_synonym feed = "symbol \<times> string"

record feed_stats =
  fs_received :: int
  fs_duplicates :: int
  fs_gaps :: int
  fs_published :: int

definition no_stats :: feed_stats where
  "no_stats = \<lparr>fs_received = 0, fs_duplicates = 0, fs_gaps = 0, fs_published = 0\<rparr>"

record normaliser =
  nm_seen :: "(feed, time list) dict"
  nm_last :: "(feed, candle) dict"
  nm_stats :: "(feed, feed_stats) dict"

definition new_normaliser :: normaliser where
  "new_normaliser = \<lparr>nm_seen = [], nm_last = [], nm_stats = []\<rparr>"

definition seen_of :: "normaliser \<Rightarrow> feed \<Rightarrow> time list" where
  "seen_of n key = (case map_of (nm_seen n) key of None \<Rightarrow> [] | Some ts \<Rightarrow> ts)"

definition stats_of :: "normaliser \<Rightarrow> feed \<Rightarrow> feed_stats" where
  "stats_of n key = (case map_of (nm_stats n) key of None \<Rightarrow> no_stats | Some s \<Rightarrow> s)"

definition update_stats :: "feed \<Rightarrow> (feed_stats \<Rightarrow> feed_stats) \<Rightarrow> normaliser \<Rightarrow> normaliser" where
  "update_stats key f n = n\<lparr>nm_stats := AList.update key (f (stats_of n key)) (nm_stats n)\<rparr>"

definition is_duplicate :: "candle \<Rightarrow> feed \<Rightarrow> normaliser \<Rightarrow> bool" where
  "is_duplicate c key n \<longleftrightarrow> oc_timestamp c \<in> set (seen_of n key)"

definition is_gap :: "candle \<Rightarrow> candle \<Rightarrow> feed \<Rightarrow> bool" where
  "is_gap c prev key \<longleftrightarrow>
     seconds (oc_timestamp c - oc_timestamp prev) > fmul (of_int (timeframe_seconds (snd key))) (3 / 2)"

definition check_gap :: "candle \<Rightarrow> candle \<Rightarrow> feed \<Rightarrow> normaliser \<Rightarrow> normaliser" where
  "check_gap c prev key n = (if is_gap c prev key
     then update_stats key (\<lambda>s. s\<lparr>fs_gaps := fs_gaps s + 1\<rparr>) n else n)"

text \<open>One candle of the sorted batch.\<close>

definition process_candle :: "feed \<Rightarrow> candle \<Rightarrow> normaliser \<Rightarrow> candle list \<times> normaliser" where
  "process_candle key c n =
    (if is_duplicate c key n then ([], update_stats key (\<lambda>s. s\<lparr>fs_duplicates := fs_duplicates s + 1\<rparr>) n)
     else let n1 = (case map_of (nm_last n) key of None \<Rightarrow> n | Some prev \<Rightarrow> check_gap c prev key n);
              n2 = n1\<lparr>nm_seen := AList.update key (push_capped DEDUP_BUFFER_SIZE (oc_timestamp c) (seen_of n1 key)) (nm_seen n1),
                      nm_last := AList.update key c (nm_last n1)\<rparr>
          in ([c], update_stats key (\<lambda>s. s\<lparr>fs_published := fs_published s + 1\<rparr>) n2))"

fun process_sorted :: "feed \<Rightarrow> candle list \<Rightarrow> normaliser \<Rightarrow> candle list \<times> normaliser" where
  "process_sorted key [] n = ([], n)"
| "process_sorted key (c # cs) n = (case process_candle key c n of (out, n1) \<Rightarrow>
     case process_sorted key cs n1 of (out2, n2) \<Rightarrow> (out @ out2, n2))"

text \<open>The feed is that of the first candle of the batch, before sorting; the sort is stable.\<close>

definition process_batch :: "candle list \<Rightarrow> normaliser \<Rightarrow> candle list \<times> normaliser" where
  "process_batch cs n = (case cs of [] \<Rightarrow> ([], n)
     | c # _ \<Rightarrow> let key = (oc_symbol c, oc_timeframe c); sorted_cs = sort_key oc_timestamp cs
        in process_sorted key sorted_cs
             (update_stats key (\<lambda>s. s\<lparr>fs_received := fs_received s + int (length sorted_cs)\<rparr>) n))"

definition process_single :: "candle \<Rightarrow> normaliser \<Rightarrow> candle option \<times> normaliser" where
  "process_single c n = (case process_batch [c] n of (out, n1) \<Rightarrow>
     (case out of [] \<Rightarrow> None | x # _ \<Rightarrow> Some x, n1))"

definition get_last_candle :: "symbol \<Rightarrow> string \<Rightarrow> normaliser \<Rightarrow> candle option" where
  "get_last_candle symbol tf n = map_of (nm_last n) (symbol, tf)"

definition get_data_age_seconds :: "time \<Rightarrow> symbol \<Rightarrow> string \<Rightarrow> normaliser \<Rightarrow> rat option" where
  "get_data_age_seconds now symbol tf n = (case get_last_candle symbol tf n of None \<Rightarrow> None
     | Some c \<Rightarrow> Some (seconds (now - oc_received_at c)))"

definition get_stats :: "normaliser \<Rightarrow> (string \<times> feed_stats) list" where
  "get_stats n = map (\<lambda>((s, tf), v). (s @ ''/'' @ tf, v)) (nm_stats n)"

definition reset_feed :: "symbol \<Rightarrow> string \<Rightarrow> normaliser \<Rightarrow> normaliser" where
  "reset_feed symbol tf n = (let key = (symbol, tf) in
     n\<lparr>nm_seen := AList.delete key (nm_seen n), nm_last := AList.delete key (nm_last n),
       nm_stats := AList.delete key (nm_stats n)\<rparr>)"

subsection \<open>The window\<close>

definition window_ok :: "feed \<Rightarrow> normaliser \<Rightarrow> bool" where
  "window_ok key n \<longleftrightarrow> distinct (seen_of n key) \<and> length (seen_of n key) \<le> DEDUP_BUFFER_SIZE"

lemma seen_update_stats [simp]: "seen_of (update_stats key f n) k = seen_of n k"
  by (simp add: seen_of_def update_stats_def)

lemma seen_check_gap [simp]: "seen_of (check_gap c l key n) k = seen_of n k"
  by (simp add: check_gap_def)

lemma process_candle_seen:
  "seen_of (snd (process_candle key c n)) k =
    (if k = key \<and> oc_timestamp c \<notin> set (seen_of n key)
     then push_capped DEDUP_BUFFER_SIZE (oc_timestamp c) (seen_of n key) else seen_of n k)"
proof -
  have u: "seen_of (m\<lparr>nm_seen := AList.update key ts (nm_seen m), nm_last := l\<rparr>) j = (if j = key then ts else seen_of m j)" for m ts l j
    by (simp add: seen_of_def)
  show ?thesis
    by (cases "map_of (nm_last n) key") (simp_all add: process_candle_def is_duplicate_def Let_def u)
qed

lemma process_candle_out:
  "fst (process_candle key c n) = (if oc_timestamp c \<in> set (seen_of n key) then [] else [c])"
  by (simp add: process_candle_def is_duplicate_def Let_def)

lemma distinct_push_capped: "distinct xs \<Longrightarrow> x \<notin> set xs \<Longrightarrow> distinct (push_capped cap x xs)"
  by (simp add: push_capped_def Let_def del: drop_append)

lemma window_candle: "window_ok key n \<Longrightarrow> window_ok key (snd (process_candle key c n))"
  by (simp add: window_ok_def process_candle_seen distinct_push_capped length_push_capped)

subsection \<open>Batches\<close>

text \<open>A candle that leaves the window as it is has been published within it.\<close>

lemma seen_after: "window_ok key n \<Longrightarrow> oc_timestamp c \<in> set (seen_of (snd (process_candle key c n)) key)"
  using last_push_capped [of DEDUP_BUFFER_SIZE "oc_timestamp c" "seen_of n key"] last_in_set
  by (fastforce simp: process_candle_seen DEDUP_BUFFER_SIZE_def push_capped_def Let_def)

lemma process_sorted_subset: "set (fst (process_sorted key cs n)) \<subseteq> set cs"
proof (induction cs arbitrary: n)
  case (Cons c cs)
  have "set (fst (process_candle key c n)) \<subseteq> {c}" by (simp add: process_candle_out)
  then show ?case using Cons [of "snd (process_candle key c n)"] by (fastforce split: prod.splits)
qed simp

lemma process_sorted_Cons:
  "process_sorted key (c # cs) n =
    (fst (process_candle key c n) @ fst (process_sorted key cs (snd (process_candle key c n))),
     snd (process_sorted key cs (snd (process_candle key c n))))"
  by (simp split: prod.splits)

lemma process_sorted_window: "window_ok key n \<Longrightarrow> window_ok key (snd (process_sorted key cs n))"
  by (induction cs arbitrary: n) (simp_all only: process_sorted_Cons process_sorted.simps(1) snd_conv window_candle)

lemma process_sorted_later:
  assumes "sorted (map oc_timestamp cs)" "window_ok key n" "t \<in> set (seen_of n key)" "\<forall>c\<in>set cs. t \<le> oc_timestamp c"
  shows "\<forall>c\<in>set (fst (process_sorted key cs n)). t < oc_timestamp c"
  using assms
proof (induction cs arbitrary: n)
  case (Cons c cs)
  show ?case
  proof (cases "oc_timestamp c \<in> set (seen_of n key)")
    case True
    then have "\<forall>c\<in>set (fst (process_sorted key cs (snd (process_candle key c n)))). t < oc_timestamp c"
      by (intro Cons.IH) (use Cons.prems in \<open>simp_all add: window_candle process_candle_seen\<close>)
    then show ?thesis using True by (simp only: process_sorted_Cons fst_conv process_candle_out if_True append_Nil)
  next
    case False
    then have "t < oc_timestamp c" using Cons.prems(3,4) by (metis list.set_intros(1) order_le_less)
    moreover from this have "t < oc_timestamp d" if "d \<in> set cs" for d
      using Cons.prems(1) that by fastforce
    ultimately show ?thesis
      using process_sorted_subset [of key cs "snd (process_candle key c n)"]
      unfolding process_sorted_Cons fst_conv process_candle_out by (auto simp: False)
  qed
qed simp

lemma process_sorted_ascending:
  "sorted (map oc_timestamp cs) \<Longrightarrow> window_ok key n \<Longrightarrow>
    sorted_wrt (<) (map oc_timestamp (fst (process_sorted key cs n)))"
proof (induction cs arbitrary: n)
  case (Cons c cs)
  define m where "m = snd (process_candle key c n)"
  have m: "window_ok key m" "oc_timestamp c \<in> set (seen_of m key)"
    using Cons.prems by (simp_all add: m_def window_candle seen_after)
  have "sorted (map oc_timestamp cs)" "\<forall>d\<in>set cs. oc_timestamp c \<le> oc_timestamp d" using Cons.prems(1) by simp_all
  then show ?case
    using Cons.IH [OF _ m(1)] process_sorted_later [OF _ m]
    unfolding process_sorted_Cons m_def [symmetric] by (simp add: process_candle_out)
qed simp

text \<open>The counters.\<close>

definition accounted :: "feed_stats \<Rightarrow> bool" where
  "accounted s \<longleftrightarrow> fs_received s = fs_duplicates s + fs_published s"

definition excess :: "feed_stats \<Rightarrow> int" where
  "excess s = fs_received s - fs_duplicates s - fs_published s"

lemma stats_of_update [simp]:
  "stats_of (update_stats key f n) k = (if k = key then f (stats_of n key) else stats_of n k)"
  by (simp add: stats_of_def update_stats_def)

lemma stats_of_other_fields [simp]: "stats_of (n\<lparr>nm_seen := x, nm_last := y\<rparr>) k = stats_of n k"
  by (simp add: stats_of_def)

lemma excess_candle: "excess (stats_of (snd (process_candle key c n)) key) = excess (stats_of n key) - 1"
  by (simp add: process_candle_def Let_def check_gap_def excess_def split: option.split)

lemma published_candle:
  "fs_published (stats_of (snd (process_candle key c n)) key) =
    fs_published (stats_of n key) + int (length (fst (process_candle key c n)))"
  by (simp add: process_candle_def Let_def check_gap_def split: option.split)

lemma excess_sorted:
  "excess (stats_of (snd (process_sorted key cs n)) key) = excess (stats_of n key) - int (length cs) \<and>
   fs_published (stats_of (snd (process_sorted key cs n)) key) =
     fs_published (stats_of n key) + int (length (fst (process_sorted key cs n)))"
  by (induction cs arbitrary: n)
    (simp_all only: process_sorted_Cons process_sorted.simps(1) fst_conv snd_conv length_append excess_candle published_candle, simp_all)

lemma process_batch_Cons:
  "process_batch (c # cs) n = process_sorted (oc_symbol c, oc_timeframe c) (sort_key oc_timestamp (c # cs))
     (update_stats (oc_symbol c, oc_timeframe c) (\<lambda>s. s\<lparr>fs_received := fs_received s + int (length (c # cs))\<rparr>) n)"
  by (simp only: process_batch_def Let_def list.case length_sort)

lemma batch_subset: "set (fst (process_batch cs n)) \<subseteq> set cs"
proof (cases cs)
  case (Cons c ds)
  show ?thesis unfolding Cons process_batch_Cons
    by (rule order_trans [OF process_sorted_subset]) (simp only: set_sort subset_refl)
qed (simp add: process_batch_def)

text \<open>C27: a batch comes out strictly ascending in time, as a part of what came in, and every candle is
  counted as a duplicate or as published.\<close>

theorem batch_output_ascending:
  assumes "process_batch (c # cs) n = (out, n')" "window_ok (oc_symbol c, oc_timeframe c) n"
    and "accounted (stats_of n (oc_symbol c, oc_timeframe c))"
  shows "sorted_wrt (<) (map oc_timestamp out) \<and> set out \<subseteq> set (c # cs) \<and>
    window_ok (oc_symbol c, oc_timeframe c) n' \<and> accounted (stats_of n' (oc_symbol c, oc_timeframe c)) \<and>
    fs_published (stats_of n' (oc_symbol c, oc_timeframe c)) =
      fs_published (stats_of n (oc_symbol c, oc_timeframe c)) + int (length out)"
proof -
  define key where "key = (oc_symbol c, oc_timeframe c)"
  define n0 where "n0 = update_stats key (\<lambda>s. s\<lparr>fs_received := fs_received s + int (length (c # cs))\<rparr>) n"
  have p: "process_sorted key (sort_key oc_timestamp (c # cs)) n0 = (out, n')"
    using assms(1) unfolding process_batch_Cons key_def [symmetric] n0_def [symmetric] .
  have w: "window_ok key n0" using assms(2) by (simp add: n0_def key_def window_ok_def)
  have e: "excess (stats_of n0 key) = int (length (c # cs))"
    "fs_published (stats_of n0 key) = fs_published (stats_of n key)"
    using assms(3) by (simp_all add: n0_def key_def excess_def accounted_def)
  have s: "sorted (map oc_timestamp (sort_key oc_timestamp (c # cs)))" by (rule sorted_sort_key)
  show ?thesis
    using process_sorted_ascending [OF s w] process_sorted_subset [of key "sort_key oc_timestamp (c # cs)" n0, unfolded set_sort]
      process_sorted_window [OF w, of "sort_key oc_timestamp (c # cs)"]
      excess_sorted [of key "sort_key oc_timestamp (c # cs)" n0] e
    unfolding key_def [symmetric] p by (simp add: accounted_def excess_def)
qed

subsection \<open>Redelivery\<close>

text \<open>Batches of any feeds in turn, and everything they publish.\<close>

fun run_batches :: "candle list list \<Rightarrow> normaliser \<Rightarrow> candle list \<times> normaliser" where
  "run_batches [] n = ([], n)"
| "run_batches (b # bs) n = (case process_batch b n of (out, n1) \<Rightarrow>
     case run_batches bs n1 of (out2, n2) \<Rightarrow> (out @ out2, n2))"

definition feed_of :: "candle \<Rightarrow> feed" where
  "feed_of c = (oc_symbol c, oc_timeframe c)"

text \<open>A batch is of one feed.\<close>

definition one_feed :: "candle list \<Rightarrow> bool" where
  "one_feed b \<longleftrightarrow> (\<forall>c\<in>set b. \<forall>d\<in>set b. feed_of c = feed_of d)"

text \<open>What the gate amounts to, abstractly: candles come one by one, and each feed has a window of time
  stamps that decides. The refinement lemma says that the batches do this.\<close>

fun gate :: "candle list \<Rightarrow> (feed \<Rightarrow> time list) \<Rightarrow> candle list \<times> (feed \<Rightarrow> time list)" where
  "gate [] w = ([], w)"
| "gate (c # cs) w = (if oc_timestamp c \<in> set (w (feed_of c)) then gate cs w
     else case gate cs (w(feed_of c := push_capped DEDUP_BUFFER_SIZE (oc_timestamp c) (w (feed_of c)))) of
       (out, w') \<Rightarrow> (c # out, w'))"

lemma gate_append:
  "gate (cs @ ds) w = (fst (gate cs w) @ fst (gate ds (snd (gate cs w))), snd (gate ds (snd (gate cs w))))"
  by (induction cs arbitrary: w) (simp_all split: prod.split)

lemma process_candle_window:
  "seen_of (snd (process_candle key c n)) = (if oc_timestamp c \<in> set (seen_of n key) then seen_of n
     else (seen_of n)(key := push_capped DEDUP_BUFFER_SIZE (oc_timestamp c) (seen_of n key)))"
  by (simp add: fun_eq_iff process_candle_seen)

lemma process_sorted_refines:
  "\<forall>c\<in>set cs. feed_of c = key \<Longrightarrow>
    fst (process_sorted key cs n) = fst (gate cs (seen_of n)) \<and>
    seen_of (snd (process_sorted key cs n)) = snd (gate cs (seen_of n))"
proof (induction cs arbitrary: n)
  case (Cons c cs)
  then have k: "feed_of c = key" and
    ih: "fst (process_sorted key cs m) = fst (gate cs (seen_of m)) \<and>
      seen_of (snd (process_sorted key cs m)) = snd (gate cs (seen_of m))" for m by simp_all
  show ?case
    unfolding process_sorted_Cons fst_conv snd_conv process_candle_out gate.simps k
    using ih [of "snd (process_candle key c n)"] unfolding process_candle_window
    by (simp split: prod.split)
qed simp

lemma process_batch_refines:
  assumes "one_feed b"
  shows "fst (process_batch b n) = fst (gate (sort_key oc_timestamp b) (seen_of n)) \<and>
    seen_of (snd (process_batch b n)) = snd (gate (sort_key oc_timestamp b) (seen_of n))"
proof (cases b)
  case (Cons c cs)
  define m where "m = update_stats (feed_of c) (\<lambda>s. s\<lparr>fs_received := fs_received s + int (length (c # cs))\<rparr>) n"
  have "\<forall>d\<in>set (sort_key oc_timestamp (c # cs)). feed_of d = feed_of c"
    using assms unfolding one_feed_def Cons set_sort by (metis list.set_intros(1))
  moreover have "seen_of m = seen_of n" by (simp add: m_def fun_eq_iff)
  ultimately show ?thesis
    using process_sorted_refines [of "sort_key oc_timestamp (c # cs)" "feed_of c" m]
    unfolding Cons process_batch_Cons feed_of_def [symmetric] m_def [symmetric] by metis
qed (simp add: process_batch_def)

lemma run_batches_refines:
  assumes "list_all one_feed bs"
  shows "fst (run_batches bs n) = fst (gate (concat (map (sort_key oc_timestamp) bs)) (seen_of n))"
  using assms
proof (induction bs arbitrary: n)
  case (Cons b bs)
  then have "one_feed b" by simp
  from process_batch_refines [OF this, of n] Cons.IH [of "snd (process_batch b n)"] Cons.prems
  show ?case by (simp add: gate_append case_prod_beta)
qed simp

text \<open>A time stamp stays in its window for 200 further publications of the feed.\<close>

lemma push_behind:
  assumes "xs = us @ t # vs" "length vs + 2 \<le> cap"
  shows "\<exists>us'. push_capped cap x xs = us' @ t # vs @ [x]"
proof -
  have "length us + (length vs + 2) - cap \<le> length us" using assms(2) by simp
  then show ?thesis
    by (intro exI [of _ "drop (length us + (length vs + 2) - cap) us"])
      (simp add: push_capped_def Let_def assms(1))
qed

lemma gate_later:
  assumes "fst (gate cs w) = ys @ d # zs" "w (feed_of d) = us @ oc_timestamp d # vs"
    and "length vs \<le> k" "k < DEDUP_BUFFER_SIZE"
  shows "DEDUP_BUFFER_SIZE \<le> k + length (filter (\<lambda>e. feed_of e = feed_of d) ys)"
  using assms
proof (induction cs arbitrary: w ys us vs k)
  case (Cons c cs)
  show ?case
  proof (cases "oc_timestamp c \<in> set (w (feed_of c))")
    case True
    then show ?thesis using Cons by simp
  next
    case False
    define w' where "w' = w(feed_of c := push_capped DEDUP_BUFFER_SIZE (oc_timestamp c) (w (feed_of c)))"
    have out: "c # fst (gate cs w') = ys @ d # zs"
      using Cons.prems(1) False by (simp add: w'_def split: prod.splits)
    have "ys \<noteq> []" using out False Cons.prems(2) by auto
    then obtain ys' where ys: "ys = c # ys'" "fst (gate cs w') = ys' @ d # zs"
      using out by (cases ys) auto
    show ?thesis
    proof (cases "feed_of c = feed_of d")
      case same: True
      show ?thesis
      proof (cases "Suc k = DEDUP_BUFFER_SIZE")
        case True
        then show ?thesis using ys(1) same by simp
      next
        case False
        then have "length vs + 2 \<le> DEDUP_BUFFER_SIZE" using Cons.prems(3,4) by simp
        then obtain us' where "push_capped DEDUP_BUFFER_SIZE (oc_timestamp c) (w (feed_of d)) =
            us' @ oc_timestamp d # vs @ [oc_timestamp c]"
          using push_behind [OF Cons.prems(2)] by blast
        then have "w' (feed_of d) = us' @ oc_timestamp d # vs @ [oc_timestamp c]"
          using same by (simp add: w'_def)
        from Cons.IH [OF ys(2) this, of "Suc k"] Cons.prems(3,4) False
        show ?thesis using ys(1) same by simp
      qed
    next
      case other: False
      then have "w' (feed_of d) = us @ oc_timestamp d # vs" using Cons.prems(2) by (simp add: w'_def)
      from Cons.IH [OF ys(2) this Cons.prems(3,4)] show ?thesis using ys(1) other by simp
    qed
  qed
qed simp

lemma gate_once:
  assumes "fst (gate cs w) = xs @ c # ys @ d # zs" "feed_of d = feed_of c"
    and "oc_timestamp d = oc_timestamp c"
  shows "DEDUP_BUFFER_SIZE \<le> length (filter (\<lambda>e. feed_of e = feed_of c) ys)"
  using assms
proof (induction cs arbitrary: w xs)
  case (Cons e cs)
  define w' where "w' = w(feed_of e := push_capped DEDUP_BUFFER_SIZE (oc_timestamp e) (w (feed_of e)))"
  show ?case
  proof (cases "oc_timestamp e \<in> set (w (feed_of e))")
    case True
    then show ?thesis using Cons by simp
  next
    case False
    then have out: "e # fst (gate cs w') = xs @ c # ys @ d # zs"
      using Cons.prems(1) by (simp add: w'_def split: prod.splits)
    show ?thesis
    proof (cases xs)
      case Nil
      then have c: "e = c" "fst (gate cs w') = ys @ d # zs" using out by simp_all
      define n where "n = Suc (length (w (feed_of c))) - DEDUP_BUFFER_SIZE"
      have "w' (feed_of d) = drop n (w (feed_of c)) @ oc_timestamp d # []"
        using Cons.prems(2,3) c(1) by (simp add: w'_def push_capped_def Let_def n_def DEDUP_BUFFER_SIZE_def)
      from gate_later [OF c(2) this, of 0] show ?thesis using Cons.prems(2) by (simp add: DEDUP_BUFFER_SIZE_def)
    next
      case (Cons x xs')
      then have "fst (gate cs w') = xs' @ c # ys @ d # zs" using out by simp
      from Cons.IH [OF this Cons.prems(2,3)] show ?thesis .
    qed
  qed
qed simp

text \<open>C25: over any sequence of batches, each of one feed and the batches of all feeds in any order, a
  candle that was published is not published again (its feed not being reset in between), in whatever
  batch the exchange repeats it, while fewer than 200 other candles of its own feed have been published since, however many of other
  feeds.\<close>

theorem published_once:
  assumes "list_all one_feed bs" "fst (run_batches bs n) = xs @ c # ys @ d # zs"
    and "oc_symbol d = oc_symbol c" "oc_timeframe d = oc_timeframe c"
    and "length (filter (\<lambda>e. oc_symbol e = oc_symbol c \<and> oc_timeframe e = oc_timeframe c) ys) < 200"
  shows "oc_timestamp d \<noteq> oc_timestamp c"
proof
  assume same: "oc_timestamp d = oc_timestamp c"
  have "DEDUP_BUFFER_SIZE \<le> length (filter (\<lambda>e. feed_of e = feed_of c) ys)"
    by (rule gate_once [OF assms(2) [unfolded run_batches_refines [OF assms(1)]] _ same])
      (use assms(3,4) in \<open>simp add: feed_of_def\<close>)
  then show False using assms(5) by (simp add: feed_of_def DEDUP_BUFFER_SIZE_def)
qed

definition mk_candle :: "symbol \<Rightarrow> time \<Rightarrow> rat \<Rightarrow> candle" where
  "mk_candle s t price = \<lparr>oc_symbol = s, oc_timeframe = ''1m'', oc_timestamp = t, oc_open = price,
     oc_high = price, oc_low = price, oc_close = price, oc_volume = 1, oc_quote_volume = None,
     oc_is_closed = True, oc_received_at = t\<rparr>"

lemma new_normaliser_ok: "window_ok key new_normaliser"
  "accounted (stats_of new_normaliser key)"
  by (simp_all add: window_ok_def seen_of_def new_normaliser_def accounted_def stats_of_def no_stats_def)

theorem batch_output_ascending_witness:
  "let c = mk_candle ''X'' 120 1; d = mk_candle ''X'' 60 1; (out, n') = process_batch [c, d, c] new_normaliser
   in map oc_timestamp out = [60, 120] \<and> sorted_wrt (<) (map oc_timestamp out) \<and>
      fs_published (stats_of n' (''X'', ''1m'')) = 2"
proof -
  define c where "c = mk_candle ''X'' 120 1"
  define d where "d = mk_candle ''X'' 60 1"
  obtain out n' where p: "process_batch [c, d, c] new_normaliser = (out, n')"
    by (cases "process_batch [c, d, c] new_normaliser")
  have k: "(oc_symbol c, oc_timeframe c) = (''X'', ''1m'')" by (simp add: c_def mk_candle_def)
  have "map oc_timestamp (fst (process_batch [c, d, c] new_normaliser)) = [60, 120]"
    unfolding c_def d_def by code_simp
  then have o: "map oc_timestamp out = [60, 120]" by (simp add: p)
  have len: "length out = 2" using arg_cong [OF o, of length] by simp
  have "fs_published (stats_of new_normaliser (''X'', ''1m'')) = 0"
    by (simp add: stats_of_def new_normaliser_def no_stats_def)
  then show ?thesis
    using batch_output_ascending [OF p] new_normaliser_ok o len
    unfolding c_def [symmetric] d_def [symmetric] Let_def p k by simp
qed

theorem published_once_witness:
  "let c = mk_candle ''X'' 60 1; d = mk_candle ''X'' 120 1; e = mk_candle ''Y'' 60 1
   in fst (run_batches [[c], [e], [c, d]] new_normaliser) = [c, e, d] \<and> oc_timestamp d \<noteq> oc_timestamp c"
proof -
  define c where "c = mk_candle ''X'' 60 1"
  define d where "d = mk_candle ''X'' 120 1"
  define e where "e = mk_candle ''Y'' 60 1"
  have r: "fst (run_batches [[c], [e], [c, d]] new_normaliser) = [] @ c # [e] @ d # []"
    unfolding c_def d_def e_def by code_simp
  have f: "list_all one_feed [[c], [e], [c, d]]"
    by (simp add: one_feed_def feed_of_def c_def d_def mk_candle_def)
  have k: "oc_symbol d = oc_symbol c" "oc_timeframe d = oc_timeframe c"
    by (simp_all add: c_def d_def mk_candle_def)
  show ?thesis
    using published_once [OF f r k] r by (simp add: c_def [symmetric] d_def [symmetric] e_def [symmetric])
qed

end
