(* ===== verification/Market_Data_Agent.thy ===== *)
theory Market_Data_Agent
  imports Base_Agent Normaliser Text_Format
begin

text \<open>
  The market data agent (\<open>agents/market_data/agent.py\<close>): polling, warm-up, publication and storage of
  candles. The data source (an exchange library or MetaTrader) is outside the program: what a fetch
  returns, the clock and which publications and writes succeed is the argument of a step. The
  candle table is a dictionary under its primary key; an upsert replaces the row. A step of a polling
  loop returns what it published and how long it sleeps.
\<close>

type_synonym candle_key = "symbol \<times> string \<times> time"

record market_agent =
  ma_base :: base_agent
  ma_settings :: settings
  ma_normaliser :: normaliser
  ma_table :: "(candle_key, candle) dict"

definition new_market_agent :: "settings \<Rightarrow> market_agent" where
  "new_market_agent s = \<lparr>ma_base = new_base_agent s ''market_data_agent'', ma_settings = s,
     ma_normaliser = new_normaliser, ma_table = []\<rparr>"

definition stored_row :: "candle \<Rightarrow> candle" where
  "stored_row c = c\<lparr>oc_open := fl (oc_open c), oc_high := fl (oc_high c), oc_low := fl (oc_low c),
     oc_close := fl (oc_close c), oc_volume := fl (oc_volume c),
     oc_quote_volume := (if truthy (oc_quote_volume c) then map_option fl (oc_quote_volume c) else None)\<rparr>"

definition persist_candle :: "bool \<Rightarrow> candle \<Rightarrow> market_agent \<Rightarrow> market_agent" where
  "persist_candle ok c ag = (if ok
     then ag\<lparr>ma_table := AList.update (oc_symbol c, oc_timeframe c, oc_timestamp c) (stored_row c) (ma_table ag)\<rparr>
     else ag)"

definition publish_candle :: "bool \<Rightarrow> candle \<Rightarrow> candle list" where
  "publish_candle ok c = (if ok then [c] else [])"

record fetch_env =
  fe_fetched :: "error + candle list"
  fe_now :: time
  fe_publish_ok :: "candle \<Rightarrow> bool"
  fe_persist_ok :: "candle \<Rightarrow> bool"

text \<open>The candles of one fetch: keep the closed ones, normalise, store and publish each.\<close>

definition ingest :: "fetch_env \<Rightarrow> candle list \<Rightarrow> market_agent \<Rightarrow> candle list \<times> market_agent" where
  "ingest env cs ag = (case process_batch (closed_candles (fe_now env) cs) (ma_normaliser ag) of
     (clean, n) \<Rightarrow> (concat (map (\<lambda>c. publish_candle (fe_publish_ok env c) c) clean),
        fold (\<lambda>c. persist_candle (fe_persist_ok env c) c) clean (ag\<lparr>ma_normaliser := n\<rparr>)))"

definition effective_interval :: "settings \<Rightarrow> string \<Rightarrow> rat" where
  "effective_interval s tf = min (md_poll_interval_seconds (st_market_data s)) (of_int (timeframe_seconds tf))"

text \<open>One turn of \<open>_poll_ohlcv\<close>.\<close>

definition poll_ohlcv :: "fetch_env \<Rightarrow> string \<Rightarrow> market_agent \<Rightarrow> candle list \<times> rat \<times> market_agent" where
  "poll_ohlcv env tf ag = (let interval = effective_interval (ma_settings ag) tf in
     if \<not> should_continue (ma_base ag) then ([], 0, ag)
     else case fe_fetched env of
       Inl e \<Rightarrow> ([], (case e of Exchange_connection_error _ \<Rightarrow> fmul interval 2 | _ \<Rightarrow> interval),
                 ag\<lparr>ma_base := handle_error e (ma_base ag)\<rparr>)
     | Inr cs \<Rightarrow> (case ingest env cs ag of (out, ag1) \<Rightarrow>
         (out, interval, ag1\<lparr>ma_base := record_success (ma_base ag1)\<rparr>)))"

text \<open>The warm-up: every symbol and timeframe in turn; a failing pair is skipped.\<close>

fun warmup_pairs :: "(feed \<Rightarrow> fetch_env) \<Rightarrow> feed list \<Rightarrow> market_agent \<Rightarrow> candle list \<times> market_agent" where
  "warmup_pairs env [] ag = ([], ag)"
| "warmup_pairs env (p # ps) ag = (case fe_fetched (env p) of
     Inl e \<Rightarrow> warmup_pairs env ps ag
   | Inr cs \<Rightarrow> (case ingest (env p) cs ag of (out, ag1) \<Rightarrow>
       (case warmup_pairs env ps ag1 of (out2, ag2) \<Rightarrow> (out @ out2, ag2))))"

definition warmup_history :: "(feed \<Rightarrow> fetch_env) \<Rightarrow> market_agent \<Rightarrow> candle list \<times> market_agent" where
  "warmup_history env ag = (let cfg = st_market_data (ma_settings ag) in
     warmup_pairs env (concat (map (\<lambda>s. map (\<lambda>tf. (s, tf)) (md_ohlcv_timeframes cfg)) (md_symbols cfg))) ag)"

text \<open>One round of the ticker poll; \<open>go_on\<close> is what \<open>_should_continue\<close> returns after each symbol.\<close>

fun poll_tickers :: "(symbol \<Rightarrow> error + ticker) \<Rightarrow> (symbol \<Rightarrow> bool) \<Rightarrow> (symbol \<Rightarrow> bool) \<Rightarrow> symbol list \<Rightarrow> ticker list" where
  "poll_tickers fetch publish_ok go_on [] = []"
| "poll_tickers fetch publish_ok go_on (s # ss) =
     (case fetch s of Inr t \<Rightarrow> if publish_ok s then [t] else [] | Inl e \<Rightarrow> []) @
     (if go_on s then poll_tickers fetch publish_ok go_on ss else [])"

subsection \<open>Freshness\<close>

definition candle_age_seconds :: "time \<Rightarrow> symbol \<Rightarrow> string \<Rightarrow> market_agent \<Rightarrow> rat option" where
  "candle_age_seconds now s tf ag = (case get_last_candle s tf (ma_normaliser ag) of None \<Rightarrow> None
     | Some c \<Rightarrow> (let closed_at = fadd (seconds (oc_timestamp c)) (of_int (timeframe_seconds tf))
         in Some (max 0 (fsub (seconds now) closed_at))))"

text \<open>The gauge is set for the primary timeframe only.\<close>

definition update_data_age :: "time \<Rightarrow> symbol \<Rightarrow> string \<Rightarrow> market_agent \<Rightarrow> rat option" where
  "update_data_age now s tf ag = (case md_ohlcv_timeframes (st_market_data (ma_settings ag)) of
     [] \<Rightarrow> candle_age_seconds now s tf ag
   | primary # _ \<Rightarrow> if tf \<noteq> primary then None else candle_age_seconds now s tf ag)"

definition feed_freshness :: "time \<Rightarrow> market_agent \<Rightarrow> (symbol \<times> rat option \<times> bool) list" where
  "feed_freshness now ag = (let cfg = st_market_data (ma_settings ag);
       primary = (case md_ohlcv_timeframes cfg of [] \<Rightarrow> ''1m'' | tf # _ \<Rightarrow> tf);
       stale_after = fadd (of_int (timeframe_seconds primary)) (md_poll_interval_seconds cfg)
     in map (\<lambda>s. let age = candle_age_seconds now s primary ag in
          (s, map_option (fround 1) age, (case age of None \<Rightarrow> False | Some a \<Rightarrow> a > stale_after)))
        (md_symbols cfg))"

subsection \<open>Facts\<close>

lemma persist_candle_fields [simp]:
  "ma_base (fold (\<lambda>c. persist_candle (f c) c) cs ag) = ma_base ag"
  "ma_normaliser (fold (\<lambda>c. persist_candle (f c) c) cs ag) = ma_normaliser ag"
  "ma_settings (fold (\<lambda>c. persist_candle (f c) c) cs ag) = ma_settings ag"
  by (induction cs arbitrary: ag) (simp_all add: persist_candle_def)

lemma published_subset:
  "set (concat (map (\<lambda>c. publish_candle (ok c) c) cs)) \<subseteq> set cs"
  by (auto simp: publish_candle_def split: if_splits)

text \<open>Only closed candles of the fetch are published.\<close>

lemma ingest_closed:
  assumes "ingest env cs ag = (out, ag')" "c \<in> set out"
  shows "c \<in> set (closed_candles (fe_now env) cs)"
proof -
  obtain clean n where p: "process_batch (closed_candles (fe_now env) cs) (ma_normaliser ag) = (clean, n)"
    by (cases "process_batch (closed_candles (fe_now env) cs) (ma_normaliser ag)")
  have "set clean \<subseteq> set (closed_candles (fe_now env) cs)" using batch_subset p by (metis fst_conv)
  then show ?thesis using assms p published_subset [of "fe_publish_ok env" clean] by (auto simp: ingest_def)
qed

end
