(* ===== verification/Candle_Buffer.thy ===== *)
theory Candle_Buffer
  imports Normaliser
begin

text \<open>
  The rolling candle buffers of the technical agent (\<open>agents/technical_analysis/candle_buffer.py\<close>):
  a deque of at most 500 candles that accepts only candles newer than its newest, and the registry
  of the buffers by symbol and timeframe. The numpy arrays are lists of floats.

  Proved here: the buffer invariant, what a buffer holds after any sequence of candles (an abstract
  specification: the last candles of the running records), and that the buffer accepts everything
  the normaliser lets through in one batch.
\<close>

definition MAX_BUFFER_SIZE :: nat where "MAX_BUFFER_SIZE = 500"
definition MIN_WARMUP_CANDLES :: int where "MIN_WARMUP_CANDLES = 50"

record candle_buffer =
  cb_symbol :: symbol
  cb_timeframe :: string
  cb_capacity :: nat
  cb_candles :: "candle list"

definition new_candle_buffer :: "symbol \<Rightarrow> string \<Rightarrow> candle_buffer" where
  "new_candle_buffer s tf = \<lparr>cb_symbol = s, cb_timeframe = tf, cb_capacity = MAX_BUFFER_SIZE, cb_candles = []\<rparr>"

definition buffer_add :: "candle \<Rightarrow> candle_buffer \<Rightarrow> candle_buffer" where
  "buffer_add c b =
    (if cb_candles b \<noteq> [] \<and> oc_timestamp c \<le> oc_timestamp (last (cb_candles b)) then b
     else b\<lparr>cb_candles := push_capped (cb_capacity b) c (cb_candles b)\<rparr>)"

definition buffer_add_many :: "candle list \<Rightarrow> candle_buffer \<Rightarrow> candle_buffer" where
  "buffer_add_many cs b = fold buffer_add (sort_key oc_timestamp cs) b"

definition buffer_size :: "candle_buffer \<Rightarrow> int" where
  "buffer_size b = int (length (cb_candles b))"

definition is_warm :: "candle_buffer \<Rightarrow> bool" where
  "is_warm b \<longleftrightarrow> buffer_size b \<ge> MIN_WARMUP_CANDLES"

definition warmup_progress :: "candle_buffer \<Rightarrow> rat" where
  "warmup_progress b = min (fl (of_int (buffer_size b) / of_int MIN_WARMUP_CANDLES)) 1"

definition latest_candle :: "candle_buffer \<Rightarrow> candle option" where
  "latest_candle b = (if cb_candles b = [] then None else Some (last (cb_candles b)))"

definition oldest_candle :: "candle_buffer \<Rightarrow> candle option" where
  "oldest_candle b = (case cb_candles b of [] \<Rightarrow> None | c # _ \<Rightarrow> Some c)"

definition latest_close :: "candle_buffer \<Rightarrow> rat option" where
  "latest_close b = map_option (\<lambda>c. fl (oc_close c)) (latest_candle b)"

definition latest_timestamp :: "candle_buffer \<Rightarrow> time option" where
  "latest_timestamp b = map_option oc_timestamp (latest_candle b)"

definition buffer_data_age :: "time \<Rightarrow> candle_buffer \<Rightarrow> rat option" where
  "buffer_data_age now b = map_option (\<lambda>c. seconds (now - oc_received_at c)) (latest_candle b)"

definition closes :: "candle_buffer \<Rightarrow> rat list" where
  "closes b = map (\<lambda>c. fl (oc_close c)) (cb_candles b)"

definition opens :: "candle_buffer \<Rightarrow> rat list" where
  "opens b = map (\<lambda>c. fl (oc_open c)) (cb_candles b)"

definition highs :: "candle_buffer \<Rightarrow> rat list" where
  "highs b = map (\<lambda>c. fl (oc_high c)) (cb_candles b)"

definition lows :: "candle_buffer \<Rightarrow> rat list" where
  "lows b = map (\<lambda>c. fl (oc_low c)) (cb_candles b)"

definition volumes :: "candle_buffer \<Rightarrow> rat list" where
  "volumes b = map (\<lambda>c. fl (oc_volume c)) (cb_candles b)"

text \<open>\<open>list(d)[-n:]\<close> for an integer \<open>n\<close>: the whole list for zero, the rest after \<open>-n\<close> for a negative one.\<close>

definition last_n_closes :: "int \<Rightarrow> candle_buffer \<Rightarrow> rat list" where
  "last_n_closes n b = (let xs = cb_candles b in
     map (\<lambda>c. fl (oc_close c)) (if n \<le> 0 then drop (nat (- n)) xs else drop (length xs - nat n) xs))"

subsection \<open>The registry\<close>

type_synonym buffer_registry = "(feed, candle_buffer) dict"

definition get_or_create :: "symbol \<Rightarrow> string \<Rightarrow> buffer_registry \<Rightarrow> candle_buffer \<times> buffer_registry" where
  "get_or_create s tf r = (case map_of r (s, tf) of Some b \<Rightarrow> (b, r)
     | None \<Rightarrow> (let b = new_candle_buffer s tf in (b, AList.update (s, tf) b r)))"

definition registry_add :: "candle \<Rightarrow> buffer_registry \<Rightarrow> candle_buffer \<times> buffer_registry" where
  "registry_add c r = (let key = (oc_symbol c, oc_timeframe c);
       b = buffer_add c (case map_of r key of Some b \<Rightarrow> b | None \<Rightarrow> new_candle_buffer (oc_symbol c) (oc_timeframe c))
     in (b, AList.update key b r))"

definition registry_get :: "symbol \<Rightarrow> string \<Rightarrow> buffer_registry \<Rightarrow> candle_buffer option" where
  "registry_get s tf r = map_of r (s, tf)"

definition all_warm :: "buffer_registry \<Rightarrow> bool" where
  "all_warm r \<longleftrightarrow> r \<noteq> [] \<and> list_all is_warm (dvals r)"

definition warm_buffers :: "buffer_registry \<Rightarrow> candle_buffer list" where
  "warm_buffers r = filter is_warm (dvals r)"

definition registry_symbols :: "buffer_registry \<Rightarrow> symbol list" where
  "registry_symbols r = remdups (map (fst \<circ> fst) r)"

subsection \<open>The invariant\<close>

definition buffer_ok :: "candle_buffer \<Rightarrow> bool" where
  "buffer_ok b \<longleftrightarrow> sorted_wrt (<) (map oc_timestamp (cb_candles b)) \<and>
     length (cb_candles b) \<le> cb_capacity b \<and> 1 \<le> cb_capacity b"

lemma map_push_capped: "map f (push_capped n x xs) = push_capped n (f x) (map f xs)"
  by (simp only: push_capped_def Let_def drop_map [symmetric] map_append list.map length_append length_map list.size)

lemma buffer_last_max:
  "buffer_ok b \<Longrightarrow> c \<in> set (cb_candles b) \<Longrightarrow> oc_timestamp c \<le> oc_timestamp (last (cb_candles b))"
proof (cases "cb_candles b" rule: rev_cases)
  case (snoc ys y)
  assume "buffer_ok b" "c \<in> set (cb_candles b)"
  then show ?thesis using snoc by (auto simp: buffer_ok_def sorted_wrt_append)
qed simp

lemma buffer_add_ok [inv_intros]:
  assumes "buffer_ok b"
  shows "buffer_ok (buffer_add c b)"
proof (cases "cb_candles b \<noteq> [] \<and> oc_timestamp c \<le> oc_timestamp (last (cb_candles b))")
  case False
  then have "\<forall>d\<in>set (cb_candles b). oc_timestamp d < oc_timestamp c"
    using buffer_last_max [OF assms] by fastforce
  then have "sorted_wrt (<) (push_capped (cb_capacity b) (oc_timestamp c) (map oc_timestamp (cb_candles b)))"
    using assms by (intro sorted_push_capped) (auto simp: buffer_ok_def)
  then show ?thesis
    using False assms by (simp add: buffer_add_def buffer_ok_def map_push_capped length_push_capped)
qed (use assms in \<open>simp add: buffer_add_def\<close>)

lemma new_buffer_ok [inv_intros]: "buffer_ok (new_candle_buffer s tf)"
  by (simp add: buffer_ok_def new_candle_buffer_def MAX_BUFFER_SIZE_def)

subsection \<open>What a buffer holds\<close>

text \<open>The running records of a sequence: every candle newer than all before it.\<close>

fun records :: "candle list \<Rightarrow> candle list \<Rightarrow> candle list" where
  "records kept [] = kept"
| "records kept (c # cs) =
     (if kept \<noteq> [] \<and> oc_timestamp c \<le> oc_timestamp (last kept) then records kept cs
      else records (kept @ [c]) cs)"

definition suffix_of :: "nat \<Rightarrow> 'a list \<Rightarrow> 'a list" where
  "suffix_of n xs = drop (length xs - n) xs"

lemma suffix_of_push: "1 \<le> n \<Longrightarrow> push_capped n x (suffix_of n xs) = suffix_of n (xs @ [x])"
  by (cases "length xs < n") (auto simp: push_capped_def suffix_of_def Let_def Suc_diff_le not_less drop_Suc
      tl_drop simp flip: drop_drop)

lemma suffix_of_last: "1 \<le> n \<Longrightarrow> xs \<noteq> [] \<Longrightarrow> last (suffix_of n xs) = last xs \<and> suffix_of n xs \<noteq> []"
proof -
  assume "1 \<le> n" "xs \<noteq> []"
  then have "length xs - n < length xs" by (cases xs) auto
  then show "last (suffix_of n xs) = last xs \<and> suffix_of n xs \<noteq> []" by (simp add: suffix_of_def last_drop)
qed

lemma buffer_fold_records:
  assumes "1 \<le> cb_capacity b" "cb_candles b = suffix_of (cb_capacity b) kept"
  shows "cb_candles (fold buffer_add cs b) = suffix_of (cb_capacity b) (records kept cs) \<and>
    cb_capacity (fold buffer_add cs b) = cb_capacity b"
  using assms
proof (induction cs arbitrary: b kept)
  case (Cons c cs)
  have e: "cb_candles b \<noteq> [] \<longleftrightarrow> kept \<noteq> []"
    using Cons.prems suffix_of_last [OF Cons.prems(1), of kept] by (auto simp: suffix_of_def)
  have l: "kept \<noteq> [] \<Longrightarrow> last (cb_candles b) = last kept"
    using suffix_of_last [OF Cons.prems(1)] unfolding Cons.prems(2) by blast
  show ?case
  proof (cases "kept \<noteq> [] \<and> oc_timestamp c \<le> oc_timestamp (last kept)")
    case True
    then have "buffer_add c b = b" using e l by (simp add: buffer_add_def)
    then show ?thesis using Cons.IH [OF Cons.prems] True by simp
  next
    case False
    then have a: "buffer_add c b = b\<lparr>cb_candles := suffix_of (cb_capacity b) (kept @ [c])\<rparr>"
      using e l suffix_of_push [OF Cons.prems(1), of c kept, folded Cons.prems(2)] False
      by (cases "kept = []") (simp_all add: buffer_add_def)
    then show ?thesis
      using Cons.IH [of "buffer_add c b" "kept @ [c]"] Cons.prems False by (auto simp: a)
  qed
qed simp

lemma records_ascending:
  "sorted_wrt (<) (map oc_timestamp (kept @ cs)) \<Longrightarrow> records kept cs = kept @ cs"
proof (induction cs arbitrary: kept)
  case (Cons c cs)
  then have "kept = [] \<or> oc_timestamp (last kept) < oc_timestamp c"
    by (cases kept rule: rev_cases) (auto simp: sorted_wrt_append)
  then show ?case using Cons by auto
qed simp

text \<open>C26: a buffer implements its specification: after any candles in any order it holds the last 500
  of the running records, oldest first, strictly ascending and never more than its capacity.\<close>

theorem buffer_holds_records:
  "cb_candles (fold buffer_add cs (new_candle_buffer s tf)) = suffix_of MAX_BUFFER_SIZE (records [] cs) \<and>
    buffer_ok (fold buffer_add cs (new_candle_buffer s tf)) \<and>
    length (closes (fold buffer_add cs (new_candle_buffer s tf))) \<le> MAX_BUFFER_SIZE"
proof -
  have "buffer_ok (fold buffer_add cs b)" if "buffer_ok b" for b
    using that by (induction cs arbitrary: b) (simp_all add: buffer_add_ok)
  then show ?thesis
    using buffer_fold_records [of "new_candle_buffer s tf" "[]" cs] new_buffer_ok [of s tf]
    by (simp add: new_candle_buffer_def MAX_BUFFER_SIZE_def suffix_of_def closes_def)
qed

text \<open>The two stages fit: what the normaliser passes from a batch enters a buffer completely, in
  order, when it is newer than the buffer's newest candle, as long as it fits the capacity.\<close>

theorem normalised_batch_enters_buffer:
  assumes "process_batch (c # cs) n = (out, n')" "window_ok (oc_symbol c, oc_timeframe c) n"
    and "buffer_ok b" "\<forall>d\<in>set out. \<forall>e\<in>set (cb_candles b). oc_timestamp e < oc_timestamp d"
    and "length (cb_candles b) + length out \<le> cb_capacity b"
  shows "cb_candles (fold buffer_add out b) = cb_candles b @ out"
proof -
  define key where "key = (oc_symbol c, oc_timeframe c)"
  define n0 where "n0 = update_stats key (\<lambda>s. s\<lparr>fs_received := fs_received s + int (length (c # cs))\<rparr>) n"
  have "process_sorted key (sort_key oc_timestamp (c # cs)) n0 = (out, n')"
    using assms(1) unfolding process_batch_Cons key_def [symmetric] n0_def [symmetric] .
  moreover have "window_ok key n0" using assms(2) by (simp add: n0_def key_def window_ok_def)
  ultimately have "sorted_wrt (<) (map oc_timestamp out)"
    using process_sorted_ascending [OF sorted_sort_key, of key n0 "c # cs"] by simp
  then have "sorted_wrt (<) (map oc_timestamp (cb_candles b @ out))"
    using assms(3,4) by (auto simp: buffer_ok_def sorted_wrt_append)
  then have "records (cb_candles b) out = cb_candles b @ out" by (rule records_ascending)
  then show ?thesis
    using buffer_fold_records [of b "cb_candles b" out] assms(3,5)
    by (simp add: buffer_ok_def suffix_of_def)
qed

theorem normalised_batch_enters_buffer_witness:
  "let c = mk_candle ''X'' 120 1; d = mk_candle ''X'' 60 1; (out, n') = process_batch [c, d] new_normaliser
   in cb_candles (fold buffer_add out (new_candle_buffer ''X'' ''1m'')) = [d, c]"
proof -
  define c where "c = mk_candle ''X'' 120 1"
  define d where "d = mk_candle ''X'' 60 1"
  obtain out n' where p: "process_batch [c, d] new_normaliser = (out, n')"
    by (cases "process_batch [c, d] new_normaliser")
  have "fst (process_batch [c, d] new_normaliser) = [d, c]" unfolding c_def d_def by code_simp
  then have o: "out = [d, c]" by (simp add: p)
  show ?thesis
    using normalised_batch_enters_buffer [OF p new_normaliser_ok(1) new_buffer_ok [of "''X''" "''1m''"]] o
    unfolding c_def [symmetric] d_def [symmetric] Let_def p
    by (simp add: new_candle_buffer_def MAX_BUFFER_SIZE_def)
qed

end
