(* ===== verification/Indicators.thy ===== *)
theory Indicators
  imports Signal_Models Text_Format
begin

text \<open>
  The indicator functions (\<open>agents/technical_analysis/indicators.py\<close>). A float that may be NaN is a
  \<open>rat option\<close>, with \<^term>\<open>None\<close> for NaN: arithmetic passes it on and every comparison with it is false.
  The series a computation starts from come from TA-Lib when it is installed, from the fallbacks of
  this module otherwise; both are an \<open>indicator_lib\<close>. TA-Lib is not part of the program, so it is any
  such record; \<open>fallback_lib\<close> is the one of the module, over numpy's \<open>mean\<close>, \<open>nanmean\<close> and \<open>std\<close>, which are
  parameters too. Names inside error values are shortened.

  Proved here: the range of the fallback RSI, how many bars it really needs, and what it says of a
  market that does not move.
\<close>

type_synonym series = "rat option list"

record indicator_lib =
  il_rsi :: "rat list \<Rightarrow> nat \<Rightarrow> series"
  il_macd :: "rat list \<Rightarrow> nat \<Rightarrow> nat \<Rightarrow> nat \<Rightarrow> series \<times> series \<times> series"
  il_bbands :: "rat list \<Rightarrow> nat \<Rightarrow> rat \<Rightarrow> series \<times> series \<times> series"
  il_ema :: "rat list \<Rightarrow> nat \<Rightarrow> series"
  il_atr :: "rat list \<Rightarrow> rat list \<Rightarrow> rat list \<Rightarrow> nat \<Rightarrow> series"

record numpy =
  np_mean :: "rat list \<Rightarrow> rat"
  np_nanmean :: "rat list \<Rightarrow> rat"  \<comment> \<open>of the values that are not NaN\<close>
  np_std :: "rat list \<Rightarrow> rat"

subsection \<open>Floats with NaN\<close>

definition lift2 :: "(rat \<Rightarrow> rat \<Rightarrow> rat) \<Rightarrow> rat option \<Rightarrow> rat option \<Rightarrow> rat option" where
  "lift2 f a b = (case a of None \<Rightarrow> None | Some x \<Rightarrow> (case b of None \<Rightarrow> None | Some y \<Rightarrow> Some (f x y)))"

definition gt :: "rat option \<Rightarrow> rat option \<Rightarrow> bool" where
  "gt a b = (case a of None \<Rightarrow> False | Some x \<Rightarrow> (case b of None \<Rightarrow> False | Some y \<Rightarrow> x > y))"

definition meta_series :: "rat option \<Rightarrow> meta_value" where
  "meta_series x = (case x of None \<Rightarrow> Meta_null | Some v \<Rightarrow> Meta_num v)"

subsection \<open>Results\<close>

record rsi_result =
  rr_value :: rat
  rr_signal :: signal_direction
  rr_period :: nat
  rr_is_overbought :: bool
  rr_is_oversold :: bool
  rr_metadata :: "(string, meta_value) dict"

record macd_result =
  mr_macd_line :: rat
  mr_signal_line :: rat
  mr_histogram :: rat
  mr_signal :: signal_direction
  mr_metadata :: "(string, meta_value) dict"

record bollinger_result =
  br_upper :: rat
  br_middle :: "rat option"
  br_lower :: "rat option"
  br_bandwidth :: "rat option"
  br_percent_b :: rat
  br_signal :: signal_direction
  br_current_price :: rat
  br_metadata :: "(string, meta_value) dict"

record ema_cross_result =
  ec_ema_short :: rat
  ec_ema_long :: rat
  ec_spread :: rat
  ec_spread_pct :: rat
  ec_signal :: signal_direction
  ec_crossover_detected :: bool
  ec_metadata :: "(string, meta_value) dict"

record volume_result =
  vr_current_volume :: rat
  vr_avg_volume :: rat
  vr_volume_ratio :: rat
  vr_signal :: signal_direction
  vr_metadata :: "(string, meta_value) dict"

datatype volatility_regime = Low_volatility | Normal_volatility | High_volatility

fun regime_value :: "volatility_regime \<Rightarrow> string" where
  "regime_value Low_volatility = ''low''"
| "regime_value Normal_volatility = ''normal''"
| "regime_value High_volatility = ''high''"

record atr_result =
  tr_value :: rat
  tr_as_pct_of_price :: rat
  tr_period :: nat
  tr_volatility_regime :: volatility_regime
  tr_metadata :: "(string, meta_value) dict"

subsection \<open>Validation\<close>

definition validate_length :: "'a list \<Rightarrow> nat \<Rightarrow> string \<Rightarrow> error + unit" where
  "validate_length xs required name = (if length xs < required
     then Inl (Insufficient_data_error (int required) (int (length xs)) name) else Inr ())"

definition check_nan :: "rat option \<Rightarrow> string \<Rightarrow> error + rat" where
  "check_nan x name = (case x of
     None \<Rightarrow> Inl (Insufficient_data_error (- 1) 0 (name @ '' (NaN)'')) | Some v \<Rightarrow> Inr v)"

text \<open>\<open>period or cfg.period\<close>.\<close>

definition period_or :: "nat option \<Rightarrow> nat \<Rightarrow> nat" where
  "period_or p d = (case p of None \<Rightarrow> d | Some n \<Rightarrow> if n = 0 then d else n)"

definition series_last :: "series \<Rightarrow> rat option" where
  "series_last xs = last xs"

definition series_prev :: "series \<Rightarrow> rat option" where
  "series_prev xs = xs ! (length xs - 2)"

subsection \<open>RSI\<close>

definition rsi_signal :: "ta_settings \<Rightarrow> rat \<Rightarrow> rat \<Rightarrow> signal_direction" where
  "rsi_signal cfg current prev =
    (if current \<le> ta_rsi_oversold cfg then (if current \<le> 20 then STRONG_BUY else BUY_DIR)
     else if current \<ge> ta_rsi_overbought cfg then
       (if current > prev then (if current < 90 then BUY_DIR else NEUTRAL)
        else (if current \<ge> 80 then STRONG_SELL else SELL_DIR))
     else NEUTRAL)"

definition compute_rsi ::
  "indicator_lib \<Rightarrow> ta_settings \<Rightarrow> rat list \<Rightarrow> nat option \<Rightarrow> error + rsi_result" where
  "compute_rsi lib cfg cs p =
    (let period = period_or p (nat (ta_rsi_period cfg)); name = ''RSI('' @ digits (int period) @ '')'' in
     case validate_length cs (period + 1) name of Inl e \<Rightarrow> Inl e | Inr _ \<Rightarrow>
     let arr = il_rsi lib cs period in
     case check_nan (series_last arr) name of Inl e \<Rightarrow> Inl e | Inr current \<Rightarrow>
     let prev = (if length arr \<ge> 2 then (case series_prev arr of None \<Rightarrow> current | Some v \<Rightarrow> v) else current)
     in Inr \<lparr>rr_value = current, rr_signal = rsi_signal cfg current prev, rr_period = period,
          rr_is_overbought = (current \<ge> ta_rsi_overbought cfg), rr_is_oversold = (current \<le> ta_rsi_oversold cfg),
          rr_metadata = [(''overbought_threshold'', Meta_num (ta_rsi_overbought cfg)),
            (''oversold_threshold'', Meta_num (ta_rsi_oversold cfg)), (''prev_value'', Meta_num prev),
            (''rsi_rising'', Meta_bool (current > prev))]\<rparr>)"

subsection \<open>MACD\<close>

definition HIST_ZERO_BAND :: rat where "HIST_ZERO_BAND = fl (1 / 10 ^ 8)"

definition macd_signal :: "rat \<Rightarrow> rat \<Rightarrow> rat \<Rightarrow> rat option \<Rightarrow> signal_direction" where
  "macd_signal line sig hist prev =
    (if \<bar>hist\<bar> < HIST_ZERO_BAND
     then (if line > sig then BUY_DIR else if line < sig then SELL_DIR else NEUTRAL)
     else let rising = gt (Some hist) prev; positive = hist > 0;
              strong = gt (Some \<bar>hist\<bar>) (map_option (\<lambda>p. fmul \<bar>p\<bar> (3 / 2)) prev)
     in if positive \<and> rising then (if strong then STRONG_BUY else BUY_DIR)
        else if positive then NEUTRAL
        else if \<not> rising then (if strong then STRONG_SELL else SELL_DIR)
        else NEUTRAL)"

definition compute_macd ::
  "indicator_lib \<Rightarrow> ta_settings \<Rightarrow> rat list \<Rightarrow> nat option \<Rightarrow> nat option \<Rightarrow> nat option \<Rightarrow> error + macd_result" where
  "compute_macd lib cfg cs f s g =
    (let fast = period_or f (nat (ta_macd_fast cfg)); slow = period_or s (nat (ta_macd_slow cfg));
         signal_period = period_or g (nat (ta_macd_signal cfg)); name = ''MACD'' in
     case validate_length cs (slow + signal_period + 1) name of Inl e \<Rightarrow> Inl e | Inr _ \<Rightarrow>
     (case il_macd lib cs fast slow signal_period of (macd_arr, signal_arr, hist_arr) \<Rightarrow>
      let prev = (if length hist_arr \<ge> 2 then series_prev hist_arr else Some 0) in
      case check_nan (series_last macd_arr) name of Inl e \<Rightarrow> Inl e | Inr line \<Rightarrow>
      case check_nan (series_last signal_arr) ''MACD signal line'' of Inl e \<Rightarrow> Inl e | Inr sig \<Rightarrow>
      case check_nan (series_last hist_arr) ''MACD histogram'' of Inl e \<Rightarrow> Inl e | Inr hist \<Rightarrow>
      Inr \<lparr>mr_macd_line = line, mr_signal_line = sig, mr_histogram = hist,
        mr_signal = macd_signal line sig hist prev,
        mr_metadata = [(''fast'', Meta_num (of_nat fast)), (''slow'', Meta_num (of_nat slow)),
          (''signal_period'', Meta_num (of_nat signal_period)), (''prev_histogram'', meta_series prev),
          (''histogram_near_zero'', Meta_bool (\<bar>hist\<bar> < HIST_ZERO_BAND))]\<rparr>))"

subsection \<open>Bollinger bands\<close>

definition bollinger_signal :: "rat \<Rightarrow> signal_direction" where
  "bollinger_signal percent_b =
    (if percent_b \<le> 0 then STRONG_BUY
     else if percent_b \<le> fl (1 / 10) then BUY_DIR
     else if percent_b \<ge> 1 then STRONG_SELL
     else if percent_b \<ge> fl (9 / 10) then SELL_DIR
     else NEUTRAL)"

definition compute_bollinger_bands ::
  "indicator_lib \<Rightarrow> ta_settings \<Rightarrow> rat list \<Rightarrow> nat option \<Rightarrow> rat option \<Rightarrow> error + bollinger_result" where
  "compute_bollinger_bands lib cfg cs p d =
    (let period = period_or p (nat (ta_bb_period cfg));
         std_dev = (case d of None \<Rightarrow> ta_bb_std_dev cfg | Some x \<Rightarrow> if x = 0 then ta_bb_std_dev cfg else x) in
     case validate_length cs period ''BB'' of Inl e \<Rightarrow> Inl e | Inr _ \<Rightarrow>
     let price = last cs in
     (case il_bbands lib cs period std_dev of (upper_arr, middle_arr, lower_arr) \<Rightarrow>
      case check_nan (series_last upper_arr) ''BB upper'' of Inl e \<Rightarrow> Inl e | Inr upper \<Rightarrow>
      let middle = series_last middle_arr; lower = series_last lower_arr;
          band_range = lift2 fsub (Some upper) lower;
          percent_b = (if gt band_range (Some 0)
            then the (lift2 fdiv (lift2 fsub (Some price) lower) band_range) else 1 / 2);
          bandwidth = (if gt middle (Some 0) then lift2 fdiv band_range middle else Some 0)
      in Inr \<lparr>br_upper = upper, br_middle = middle, br_lower = lower, br_bandwidth = bandwidth,
           br_percent_b = percent_b, br_signal = bollinger_signal percent_b, br_current_price = price,
           br_metadata = [(''period'', Meta_num (of_nat period)), (''std_dev'', Meta_num std_dev),
             (''band_range'', meta_series band_range)]\<rparr>))"

subsection \<open>EMA crossover\<close>

definition ema_cross_signal :: "bool \<Rightarrow> bool \<Rightarrow> rat \<Rightarrow> signal_direction" where
  "ema_cross_signal was_above is_above pct =
    (if was_above \<noteq> is_above then (if is_above then STRONG_BUY else STRONG_SELL)
     else if is_above then (if pct > fl (3 / 10) then BUY_DIR else NEUTRAL)
     else (if \<bar>pct\<bar> > fl (3 / 10) then SELL_DIR else NEUTRAL))"

definition compute_ema_cross ::
  "indicator_lib \<Rightarrow> ta_settings \<Rightarrow> rat list \<Rightarrow> nat option \<Rightarrow> nat option \<Rightarrow> error + ema_cross_result" where
  "compute_ema_cross lib cfg cs s l =
    (let short = period_or s (nat (ta_ema_short cfg)); long = period_or l (nat (ta_ema_long cfg)) in
     case validate_length cs (long + 1) ''EMA'' of Inl e \<Rightarrow> Inl e | Inr _ \<Rightarrow>
     let short_arr = il_ema lib cs short; long_arr = il_ema lib cs long;
         prev_short = series_prev short_arr; prev_long = series_prev long_arr in
     case check_nan (series_last short_arr) ''EMA short'' of Inl e \<Rightarrow> Inl e | Inr current_short \<Rightarrow>
     case check_nan (series_last long_arr) ''EMA long'' of Inl e \<Rightarrow> Inl e | Inr current_long \<Rightarrow>
     let gap = fsub current_short current_long;
         gap_pct = (if current_long > 0 then fmul (fdiv gap current_long) 100 else 0);
         was_above = gt prev_short prev_long; is_above = (current_short > current_long)
     in Inr \<lparr>ec_ema_short = current_short, ec_ema_long = current_long, ec_spread = gap,
          ec_spread_pct = gap_pct, ec_signal = ema_cross_signal was_above is_above gap_pct,
          ec_crossover_detected = (was_above \<noteq> is_above),
          ec_metadata = [(''short_period'', Meta_num (of_nat short)), (''long_period'', Meta_num (of_nat long)),
            (''prev_spread'', meta_series (lift2 fsub prev_short prev_long))]\<rparr>)"

subsection \<open>Volume\<close>

definition volume_signal :: "rat \<Rightarrow> signal_direction" where
  "volume_signal ratio = (if ratio \<ge> 2 then STRONG_BUY else if ratio \<ge> 3 / 2 then BUY_DIR
     else if ratio \<le> 1 / 2 then SELL_DIR else NEUTRAL)"

definition compute_volume_signal :: "numpy \<Rightarrow> rat list \<Rightarrow> nat \<Rightarrow> error + volume_result" where
  "compute_volume_signal np vs lookback =
    (case validate_length vs lookback ''Volume'' of Inl e \<Rightarrow> Inl e | Inr _ \<Rightarrow>
     let current = last vs; avg = np_mean np (butlast (drop (length vs - lookback) vs));
         ratio = (if avg > 0 then fdiv current avg else 1)
     in Inr \<lparr>vr_current_volume = current, vr_avg_volume = avg, vr_volume_ratio = ratio,
          vr_signal = volume_signal ratio, vr_metadata = [(''lookback'', Meta_num (of_nat lookback))]\<rparr>)"

subsection \<open>ATR\<close>

definition compute_atr ::
  "indicator_lib \<Rightarrow> rat list \<Rightarrow> rat list \<Rightarrow> rat list \<Rightarrow> nat \<Rightarrow> error + atr_result" where
  "compute_atr lib hs ls cs period =
    (case validate_length cs (period + 1) ''ATR'' of Inl e \<Rightarrow> Inl e | Inr _ \<Rightarrow>
     case check_nan (series_last (il_atr lib hs ls cs period)) ''ATR'' of Inl e \<Rightarrow> Inl e | Inr atr \<Rightarrow>
     let price = last cs; as_pct = (if price > 0 then fmul (fdiv atr price) 100 else 0)
     in Inr \<lparr>tr_value = atr, tr_as_pct_of_price = as_pct, tr_period = period,
          tr_volatility_regime = (if as_pct < 1 / 2 then Low_volatility
            else if as_pct > 2 then High_volatility else Normal_volatility),
          tr_metadata = [(''current_price'', Meta_num price)]\<rparr>)"

subsection \<open>The fallbacks without TA-Lib\<close>

text \<open>The propagation of an average: a NaN input leaves NaN, and so does a NaN predecessor.\<close>

fun ema_from :: "rat \<Rightarrow> rat option \<Rightarrow> series \<Rightarrow> series" where
  "ema_from alpha prev [] = []"
| "ema_from alpha prev (None # xs) = None # ema_from alpha None xs"
| "ema_from alpha prev (Some x # xs) =
     (let r = map_option (\<lambda>p. fadd (fmul x alpha) (fmul p (fsub 1 alpha))) prev in r # ema_from alpha r xs)"

definition ema_numpy :: "numpy \<Rightarrow> series \<Rightarrow> nat \<Rightarrow> series" where
  "ema_numpy np xs period =
    (let valid = filter (\<lambda>i. xs ! i \<noteq> None) [0..<length xs] in
     if length valid < period then replicate (length xs) None
     else let start = valid ! (period - 1);
              seed_values = drop (valid ! 0) (take (start + 1) xs);
              seed = np_nanmean np (map the (filter (\<lambda>x. x \<noteq> None) (drop (length seed_values - period) seed_values)))
          in replicate start None @ [Some seed] @
             ema_from (fdiv 2 (of_nat period + 1)) (Some seed) (drop (start + 1) xs))"

fun deltas :: "rat list \<Rightarrow> rat list" where
  "deltas (a # b # xs) = fsub b a # deltas (b # xs)"
| "deltas xs = []"

definition rsi_value :: "rat \<Rightarrow> rat \<Rightarrow> rat" where
  "rsi_value avg_gain avg_loss = (let rs = (if avg_loss > 0 then fdiv avg_gain avg_loss else 100)
     in fsub 100 (fdiv 100 (fadd 1 rs)))"

definition wilder :: "nat \<Rightarrow> rat \<Rightarrow> rat \<Rightarrow> rat" where
  "wilder period avg x = fdiv (fadd (fmul avg (of_nat period - 1)) x) (of_nat period)"

fun rsi_loop :: "nat \<Rightarrow> rat \<Rightarrow> rat \<Rightarrow> rat list \<Rightarrow> series" where
  "rsi_loop period avg_gain avg_loss [] = []"
| "rsi_loop period avg_gain avg_loss (d # ds) =
     (let g = wilder period avg_gain (max d 0); l = wilder period avg_loss (max (- d) 0)
      in Some (rsi_value g l) # rsi_loop period g l ds)"

definition rsi_numpy :: "numpy \<Rightarrow> rat list \<Rightarrow> nat \<Rightarrow> series" where
  "rsi_numpy np cs period =
    (let ds = deltas cs; gains = map (\<lambda>d. max d 0) ds; losses = map (\<lambda>d. max (- d) 0) ds in
     if length gains < period then replicate (length cs) None
     else replicate (period + 1) None @
       rsi_loop period (np_mean np (take period gains)) (np_mean np (take period losses)) (drop period ds))"

definition macd_numpy :: "numpy \<Rightarrow> rat list \<Rightarrow> nat \<Rightarrow> nat \<Rightarrow> nat \<Rightarrow> series \<times> series \<times> series" where
  "macd_numpy np cs fast slow signal_period =
    (let line = map2 (lift2 fsub) (ema_numpy np (map Some cs) fast) (ema_numpy np (map Some cs) slow);
         sig = ema_numpy np line signal_period
     in (line, sig, map2 (lift2 fsub) line sig))"

definition bbands_numpy :: "numpy \<Rightarrow> rat list \<Rightarrow> nat \<Rightarrow> rat \<Rightarrow> series \<times> series \<times> series" where
  "bbands_numpy np cs period std_dev =
    (let bands = map (\<lambda>i. let window = drop (i + 1 - period) (take (i + 1) cs); mid = np_mean np window;
             std = np_std np window
           in (fadd mid (fmul std_dev std), mid, fsub mid (fmul std_dev std))) [period - 1..<length cs];
         pad = replicate (min (period - 1) (length cs)) None
     in (pad @ map (\<lambda>(u, m, l). Some u) bands, pad @ map (\<lambda>(u, m, l). Some m) bands,
         pad @ map (\<lambda>(u, m, l). Some l) bands))"

fun true_ranges :: "rat list \<Rightarrow> rat list \<Rightarrow> rat list \<Rightarrow> rat list" where
  "true_ranges (h # hs) (l # ls) (c # cs) =
     max (fsub h l) (max \<bar>fsub h c\<bar> \<bar>fsub l c\<bar>) # true_ranges hs ls cs"
| "true_ranges _ _ _ = []"

fun atr_loop :: "nat \<Rightarrow> rat \<Rightarrow> rat list \<Rightarrow> series" where
  "atr_loop period prev [] = []"
| "atr_loop period prev (t # ts) = (let a = wilder period prev t in Some a # atr_loop period a ts)"

definition atr_numpy :: "numpy \<Rightarrow> rat list \<Rightarrow> rat list \<Rightarrow> rat list \<Rightarrow> nat \<Rightarrow> series" where
  "atr_numpy np hs ls cs period =
    (let tr = true_ranges (tl hs) (tl ls) (butlast cs) in
     if length tr < period then replicate (length cs) None
     else let seed = np_mean np (take period tr)
          in replicate period None @ [Some seed] @ atr_loop period seed (drop period tr))"

definition fallback_lib :: "numpy \<Rightarrow> indicator_lib" where
  "fallback_lib np = \<lparr>il_rsi = rsi_numpy np, il_macd = macd_numpy np, il_bbands = bbands_numpy np,
     il_ema = (\<lambda>cs. ema_numpy np (map Some cs)), il_atr = atr_numpy np\<rparr>"

subsection \<open>The fallback RSI\<close>

lemma length_deltas [simp]: "length (deltas cs) = length cs - 1"
  by (induction cs rule: deltas.induct) simp_all

lemma length_rsi_loop [simp]: "length (rsi_loop p g l ds) = length ds"
  by (induction ds arbitrary: g l) (simp_all add: Let_def)

lemma length_rsi_numpy: "period < length cs \<Longrightarrow> length (rsi_numpy np cs period) = length cs"
  by (cases cs) (simp_all add: rsi_numpy_def Let_def)

lemma wilder_nonneg: "0 \<le> avg \<Longrightarrow> 0 \<le> x \<Longrightarrow> 1 \<le> period \<Longrightarrow> 0 \<le> wilder period avg x"
  by (simp add: wilder_def float_ops binary64.rnd_nonneg)

lemma rsi_value_range:
  assumes "0 \<le> g" "0 \<le> l"
  shows "0 \<le> rsi_value g l \<and> rsi_value g l \<le> 100"
proof -
  define rs where "rs = (if l > 0 then fdiv g l else 100)"
  have h: "fl 100 = 100" by code_simp
  have "0 \<le> rs" using assms by (simp add: rs_def fdiv_def binary64.rnd_nonneg)
  then have "1 \<le> fadd 1 rs" unfolding fadd_def by (intro binary64.rnd_ge_exact [OF binary64.rnd_one]) simp
  then have "0 \<le> fdiv 100 (fadd 1 rs)" "fdiv 100 (fadd 1 rs) \<le> 100"
    unfolding fdiv_def by (auto intro: binary64.rnd_nonneg binary64.rnd_le_exact [OF h] simp: divide_le_eq)
  then show ?thesis
    unfolding rsi_value_def Let_def rs_def [symmetric] fsub_def
    by (auto intro: binary64.rnd_nonneg binary64.rnd_le_exact [OF h])
qed

lemma rsi_loop_range:
  "0 \<le> g \<Longrightarrow> 0 \<le> l \<Longrightarrow> 1 \<le> period \<Longrightarrow>
    \<forall>x\<in>set (rsi_loop period g l ds). \<exists>v. x = Some v \<and> 0 \<le> v \<and> v \<le> 100"
proof (induction ds arbitrary: g l)
  case (Cons d ds)
  then show ?case
    using Cons.IH [of "wilder period g (max d 0)" "wilder period l (max (- d) 0)"]
      rsi_value_range [of "wilder period g (max d 0)" "wilder period l (max (- d) 0)"]
    by (auto simp: Let_def wilder_nonneg)
qed simp

text \<open>C40: the fallback RSI is a value between 0 and 100 wherever it is not NaN, and it is NaN for exactly the
  first \<open>period + 1\<close> bars: on the \<open>period + 1\<close> bars that the length check accepts the indicator has no
  value, and the computation raises although the check passed.\<close>

theorem rsi_fallback_range:
  assumes "\<forall>xs. (\<forall>x\<in>set xs. 0 \<le> x) \<longrightarrow> 0 \<le> np_mean np xs" "1 \<le> period" "period < length cs"
  shows "(\<forall>i < length cs. case rsi_numpy np cs period ! i of
      None \<Rightarrow> i \<le> period | Some v \<Rightarrow> period < i \<and> 0 \<le> v \<and> v \<le> 100) \<and>
    (length cs = period + 1 \<longrightarrow> validate_length cs (period + 1) [] = Inr () \<and>
      isl (compute_rsi (fallback_lib np) cfg cs (Some period)))"
proof -
  define ds where "ds = deltas cs"
  define g where "g = np_mean np (take period (map (\<lambda>d. max d 0) ds))"
  define l where "l = np_mean np (take period (map (\<lambda>d. max (- d) 0) ds))"
  have gl: "0 \<le> g" "0 \<le> l" unfolding g_def l_def
    by (rule assms(1) [rule_format], force dest: in_set_takeD)+
  have enough: "\<not> length ds < period" using assms(3) by (simp add: ds_def)
  have r: "rsi_numpy np cs period = replicate (period + 1) None @ rsi_loop period g l (drop period ds)"
    using enough by (simp add: rsi_numpy_def Let_def g_def l_def ds_def [symmetric] del: replicate.simps)
  have "case rsi_numpy np cs period ! i of None \<Rightarrow> i \<le> period | Some v \<Rightarrow> period < i \<and> 0 \<le> v \<and> v \<le> 100"
    if "i < length cs" for i
  proof (cases "i \<le> period")
    case True
    then have "rsi_numpy np cs period ! i = None" unfolding r by (simp add: nth_append del: replicate.simps)
    then show ?thesis using True by simp
  next
    case False
    then have "rsi_numpy np cs period ! i \<in> set (rsi_loop period g l (drop period ds))"
      using that assms(3) unfolding r by (auto simp: nth_append ds_def simp del: replicate.simps intro!: nth_mem)
    then show ?thesis using rsi_loop_range [OF gl assms(2)] False by force
  qed
  moreover have "isl (compute_rsi (fallback_lib np) cfg cs (Some period))" if "length cs = period + 1"
  proof -
    have "rsi_numpy np cs period = replicate (period + 1) None" unfolding r using that by (simp add: ds_def)
    then have "series_last (rsi_numpy np cs period) = None" by (simp add: series_last_def)
    then show ?thesis using assms(2) that
      by (simp add: compute_rsi_def period_or_def fallback_lib_def validate_length_def check_nan_def Let_def)
  qed
  ultimately show ?thesis by (simp add: validate_length_def)
qed

subsection \<open>A market that does not move\<close>

lemma deltas_flat: "deltas (replicate n x) = replicate (n - 1) 0"
proof (induction n)
  case (Suc n)
  then show ?case by (cases n) (simp_all add: fsub_def binary64.rnd_zero)
qed simp

lemma rsi_loop_flat: "rsi_loop period 0 0 (replicate n 0) = replicate n (Some (rsi_value 0 0))"
proof (induction n)
  case (Suc n)
  have "wilder period 0 0 = 0" by (simp add: wilder_def float_ops binary64.rnd_zero)
  then show ?case using Suc by (simp add: Let_def)
qed simp

lemma rsi_value_flat: "99 \<le> rsi_value 0 0" "rsi_value 0 0 \<le> 100"
  by (code_simp, code_simp)

lemma compute_rsi_steady:
  assumes "period < length cs" "1 \<le> period" "series_last (il_rsi lib cs period) = Some v"
    and "series_prev (il_rsi lib cs period) = None \<or> series_prev (il_rsi lib cs period) = Some v"
  shows "\<exists>r. compute_rsi lib cfg cs (Some period) = Inr r \<and> rr_value r = v \<and>
    rr_signal r = rsi_signal cfg v v \<and> rr_is_overbought r = (ta_rsi_overbought cfg \<le> v)"
  using assms by (auto simp: compute_rsi_def period_or_def validate_length_def check_nan_def Let_def)

text \<open>on a market that does not move at all the fallback RSI is above 99, since a zero average
  loss counts as the ratio 100; with the default thresholds the indicator reports a strong sell.\<close>

theorem flat_market_reads_strong_sell:
  assumes "\<forall>n. np_mean np (replicate n 0) = 0" "1 \<le> period"
    and "ta_rsi_overbought cfg \<le> 99" "ta_rsi_oversold cfg < 99"
  shows "\<exists>r. compute_rsi (fallback_lib np) cfg (replicate (period + 2 + n) price) (Some period) = Inr r \<and>
    99 \<le> rr_value r \<and> rr_is_overbought r \<and> rr_signal r = STRONG_SELL"
proof -
  have ds: "deltas (replicate (period + 2 + n) price) = replicate (period + 1 + n) 0" by (simp only: deltas_flat) simp
  have "rsi_numpy np (replicate (period + 2 + n) price) period =
      replicate (period + 1) None @ replicate (1 + n) (Some (rsi_value 0 0))"
    unfolding rsi_numpy_def Let_def ds using assms(1) by (simp add: rsi_loop_flat min_def del: replicate.simps)
  then have s: "il_rsi (fallback_lib np) (replicate (period + 2 + n) price) period =
      replicate (period + 1) None @ replicate (1 + n) (Some (rsi_value 0 0))" by (simp add: fallback_lib_def)
  have "series_last (il_rsi (fallback_lib np) (replicate (period + 2 + n) price) period) = Some (rsi_value 0 0)"
    unfolding s by (simp add: series_last_def)
  moreover have "series_prev (il_rsi (fallback_lib np) (replicate (period + 2 + n) price) period) = None \<or>
      series_prev (il_rsi (fallback_lib np) (replicate (period + 2 + n) price) period) = Some (rsi_value 0 0)"
    unfolding s by (auto simp: series_prev_def nth_append simp del: replicate.simps)
  moreover have "rsi_signal cfg (rsi_value 0 0) (rsi_value 0 0) = STRONG_SELL"
    using rsi_value_flat assms(3,4) by (auto simp: rsi_signal_def)
  ultimately show ?thesis
    using compute_rsi_steady [of period "replicate (period + 2 + n) price" "fallback_lib np" "rsi_value 0 0" cfg]
      rsi_value_flat(1) assms(2,3) by auto
qed

text \<open>A \<open>mean\<close> that satisfies what the theorems ask of numpy's, for concrete instances.\<close>

definition demo_numpy :: numpy where
  "demo_numpy = \<lparr>np_mean = (\<lambda>xs. fdiv (foldl fadd 0 xs) (of_nat (length xs))),
     np_nanmean = (\<lambda>xs. fdiv (foldl fadd 0 xs) (of_nat (length xs))), np_std = (\<lambda>xs. 0)\<rparr>"

lemma foldl_fadd_nonneg: "\<forall>x\<in>set xs. 0 \<le> x \<Longrightarrow> 0 \<le> a \<Longrightarrow> 0 \<le> foldl fadd a xs"
  by (induction xs arbitrary: a) (simp_all add: fadd_def binary64.rnd_nonneg)

lemma demo_numpy_mean:
  "\<forall>xs. (\<forall>x\<in>set xs. 0 \<le> x) \<longrightarrow> 0 \<le> np_mean demo_numpy xs"
  "\<forall>n. np_mean demo_numpy (replicate n 0) = 0"
proof -
  have "foldl fadd 0 (replicate n 0) = 0" for n by (induction n) (simp_all add: fadd_def binary64.rnd_zero)
  then show "\<forall>n. np_mean demo_numpy (replicate n 0) = 0"
    by (simp add: demo_numpy_def fdiv_def binary64.rnd_zero)
  show "\<forall>xs. (\<forall>x\<in>set xs. 0 \<le> x) \<longrightarrow> 0 \<le> np_mean demo_numpy xs"
    using foldl_fadd_nonneg [of _ 0] by (simp add: demo_numpy_def fdiv_def binary64.rnd_nonneg)
qed

theorem rsi_fallback_range_witness:
  "isl (compute_rsi (fallback_lib demo_numpy) default_ta_settings [1, 2, 3] (Some 2))"
  using rsi_fallback_range [OF demo_numpy_mean(1), of 2 "[1, 2, 3]" default_ta_settings] by simp

theorem flat_market_reads_strong_sell_witness:
  "\<exists>r. compute_rsi (fallback_lib demo_numpy) default_ta_settings (replicate 50 64000) (Some 14) = Inr r \<and>
    99 \<le> rr_value r \<and> rr_signal r = STRONG_SELL"
  using flat_market_reads_strong_sell [OF demo_numpy_mean(2), of 14 default_ta_settings 34 64000]
  by (auto simp: default_ta_settings_def)

end
