(* ===== verification/Signal_Generator.thy ===== *)
theory Signal_Generator
  imports Trade_Models Candle_Buffer Indicators Float_Functions
begin

text \<open>
  The rule-based signal generator (\<open>agents/technical_analysis/signal_generator.py\<close>): it computes the
  indicators of a warm buffer, weighs their directions, derives a confidence from their agreement and
  the strength of the score, and builds a technical signal. \<open>sum\<close> adds floats from the left (CPython
  3.11, the target version); the square of a float is its rounded product. The two clock readings
  and the fresh id are the argument \<open>gen_env\<close>. The indicators' series come from any \<open>indicator_lib\<close>.

  Proved here: the constructor's range checks always pass, and what an emitted signal guarantees.
\<close>

definition INDICATOR_WEIGHTS :: "indicator_name \<Rightarrow> rat" where
  "INDICATOR_WEIGHTS n = (case n of MACD \<Rightarrow> fl (30 / 100) | RSI \<Rightarrow> fl (25 / 100)
     | EMA_CROSS \<Rightarrow> fl (25 / 100) | BOLLINGER_BANDS \<Rightarrow> fl (20 / 100) | VOLUME \<Rightarrow> 0)"

definition VOLUME_HIGH_THRESHOLD :: rat where "VOLUME_HIGH_THRESHOLD = 3 / 2"
definition VOLUME_LOW_THRESHOLD :: rat where "VOLUME_LOW_THRESHOLD = fl (6 / 10)"
definition VOLUME_BOOST :: rat where "VOLUME_BOOST = fl (10 / 100)"
definition VOLUME_PENALTY :: rat where "VOLUME_PENALTY = fl (10 / 100)"

definition score_direction :: "rat \<Rightarrow> signal_direction" where
  "score_direction score =
    (if score \<ge> fl (65 / 100) then STRONG_BUY
     else if score \<ge> fl (25 / 100) then BUY_DIR
     else if score \<le> - fl (65 / 100) then STRONG_SELL
     else if score \<le> - fl (25 / 100) then SELL_DIR
     else NEUTRAL)"

definition fsum :: "rat list \<Rightarrow> rat" where
  "fsum xs = foldl fadd 0 xs"

definition compute_agreement :: "rat list \<Rightarrow> rat" where
  "compute_agreement xs =
    (if xs = [] then 0
     else if length xs = 1 then fl (8 / 10)
     else let n = of_nat (length xs); mean = fdiv (fsum xs) n;
              variance = fdiv (fsum (map (\<lambda>s. let d = fsub s mean in fmul d d) xs)) n
          in max 0 (fsub 1 (fsqrt variance)))"

text \<open>The four primary indicators, as far as they could be computed, with the value shown for each.\<close>

definition try_compute :: "error + 'a \<Rightarrow> 'a option" where
  "try_compute r = (case r of Inl e \<Rightarrow> None | Inr x \<Rightarrow> Some x)"

type_synonym outcome = "indicator_name \<times> rat \<times> signal_direction \<times> (string, meta_value) dict"

definition primary_outcomes :: "indicator_lib \<Rightarrow> ta_settings \<Rightarrow> candle_buffer \<Rightarrow> outcome list" where
  "primary_outcomes lib cfg b =
    (let cs = closes b in List.map_filter id
      [map_option (\<lambda>r. (RSI, rr_value r, rr_signal r, rr_metadata r)) (try_compute (compute_rsi lib cfg cs None)),
       map_option (\<lambda>r. (MACD, mr_histogram r, mr_signal r, mr_metadata r)) (try_compute (compute_macd lib cfg cs None None None)),
       map_option (\<lambda>r. (BOLLINGER_BANDS, br_percent_b r, br_signal r, br_metadata r)) (try_compute (compute_bollinger_bands lib cfg cs None None)),
       map_option (\<lambda>r. (EMA_CROSS, ec_spread_pct r, ec_signal r, ec_metadata r)) (try_compute (compute_ema_cross lib cfg cs None None))])"

definition reading_of :: "outcome \<Rightarrow> indicator_reading" where
  "reading_of x = (case x of (name, v, sig, meta) \<Rightarrow> \<lparr>ir_name = name, ir_value = v, ir_signal = sig,
     ir_weight = INDICATOR_WEIGHTS name, ir_metadata = meta\<rparr>)"

definition outcome_scalar :: "outcome \<Rightarrow> rat" where
  "outcome_scalar x = (case x of (name, v, sig, meta) \<Rightarrow> scalar_direction sig)"

definition outcome_weight :: "outcome \<Rightarrow> rat" where
  "outcome_weight x = INDICATOR_WEIGHTS (fst x)"

definition composite :: "outcome list \<Rightarrow> rat" where
  "composite xs = (let total = fsum (map outcome_weight xs) in
     if 0 < total then fdiv (fsum (map (\<lambda>x. fmul (outcome_scalar x) (outcome_weight x)) xs)) total else 0)"

definition base_confidence :: "rat \<Rightarrow> rat \<Rightarrow> rat" where
  "base_confidence agreement score = fadd (fmul agreement (fl (6 / 10))) (fmul \<bar>score\<bar> (fl (4 / 10)))"

definition volume_adjusted :: "volume_result option \<Rightarrow> rat \<Rightarrow> rat" where
  "volume_adjusted v confidence = (case v of None \<Rightarrow> confidence
     | Some r \<Rightarrow> if vr_volume_ratio r \<ge> VOLUME_HIGH_THRESHOLD then min 1 (fadd confidence VOLUME_BOOST)
         else if vr_volume_ratio r \<le> VOLUME_LOW_THRESHOLD then max 0 (fsub confidence VOLUME_PENALTY)
         else confidence)"

record gen_env =
  ge_expiry_now :: time
  ge_stamp :: time
  ge_signal_id :: uuid

definition generate ::
  "gen_env \<Rightarrow> indicator_lib \<Rightarrow> numpy \<Rightarrow> ta_settings \<Rightarrow> candle_buffer \<Rightarrow> error + technical_signal option" where
  "generate env lib np cfg b =
    (if \<not> is_warm b then Inr None
     else
     let price = last (closes b);
         outcomes = primary_outcomes lib cfg b;
         volume = try_compute (compute_volume_signal np (volumes b) 20);
         atr = try_compute (compute_atr lib (highs b) (lows b) (closes b) 14)
     in if length outcomes < 2 then Inr None
     else
     let score = composite outcomes;
         agreement = compute_agreement (map outcome_scalar outcomes);
         confidence = volume_adjusted volume (base_confidence agreement score);
         readings = map reading_of outcomes @ (case volume of None \<Rightarrow> []
           | Some r \<Rightarrow> [\<lparr>ir_name = VOLUME, ir_value = vr_volume_ratio r, ir_signal = vr_signal r,
               ir_weight = 0, ir_metadata = vr_metadata r\<rparr>])
     in if confidence < ta_min_signal_confidence cfg then Inr None
     else case new_technical_signal \<lparr>ts_signal_id = ge_signal_id env, ts_source = TECHNICAL,
         ts_symbol = cb_symbol b, ts_timeframe = cb_timeframe b, ts_timestamp = ge_stamp env,
         ts_expires_at = ge_expiry_now env + ta_signal_ttl_seconds cfg * 10 ^ 6,
         ts_direction = score_direction score, ts_confidence = fround 4 confidence,
         ts_indicators = readings, ts_price = price, ts_price_change_1h_pct = None,
         ts_metadata = [(''composite_score'', Meta_num (fround 4 score)),
           (''indicator_count'', Meta_num (of_nat (length (filter (\<lambda>r. ir_weight r > 0) readings)))),
           (''total_weight'', Meta_num (fround 3 (fsum (map outcome_weight outcomes)))),
           (''agreement'', Meta_num (fround 3 agreement))] @
           (case atr of None \<Rightarrow> [] | Some r \<Rightarrow> [(''atr_value'', Meta_num (tr_value r)),
             (''atr_pct_of_price'', Meta_num (tr_as_pct_of_price r)),
             (''volatility_regime'', Meta_text (regime_value (tr_volatility_regime r)))])\<rparr> of
       Inl e \<Rightarrow> Inl e | Inr s \<Rightarrow> Inr (Some s))"

subsection \<open>Facts\<close>

lemma weights_float: "fl (INDICATOR_WEIGHTS n) = INDICATOR_WEIGHTS n" "0 \<le> INDICATOR_WEIGHTS n" "INDICATOR_WEIGHTS n \<le> 1"
proof -
  have "fl (INDICATOR_WEIGHTS n) = INDICATOR_WEIGHTS n \<and> 0 \<le> INDICATOR_WEIGHTS n \<and> INDICATOR_WEIGHTS n \<le> 1"
    by (induct n; code_simp)
  then show "fl (INDICATOR_WEIGHTS n) = INDICATOR_WEIGHTS n" "0 \<le> INDICATOR_WEIGHTS n" "INDICATOR_WEIGHTS n \<le> 1"
    by simp_all
qed

lemma fsum_abs:
  "\<forall>x\<in>set xs. \<bar>f x\<bar> \<le> g x \<Longrightarrow> \<bar>a\<bar> \<le> b \<Longrightarrow> \<bar>foldl fadd a (map f xs)\<bar> \<le> foldl fadd b (map g xs)"
proof (induction xs arbitrary: a b)
  case (Cons x xs)
  have "\<bar>fadd a (f x)\<bar> = fl \<bar>a + f x\<bar>" by (simp add: fadd_def binary64.rnd_abs)
  also have "\<dots> \<le> fadd b (g x)" unfolding fadd_def
    by (rule binary64.rnd_mono) (use Cons.prems abs_triangle_ineq [of a "f x"] in fastforce)
  finally show ?case using Cons by simp
qed simp

lemma composite_range: "\<bar>composite xs\<bar> \<le> 1"
proof -
  have "\<bar>fmul (outcome_scalar x) (outcome_weight x)\<bar> \<le> outcome_weight x" for x
  proof -
    have s: "\<bar>outcome_scalar x\<bar> \<le> 1"
      using scalar_direction_bounds by (cases x) (auto simp: outcome_scalar_def abs_le_iff minus_le_iff)
    have w: "0 \<le> outcome_weight x" "fl (outcome_weight x) = outcome_weight x"
      using weights_float by (simp_all add: outcome_weight_def)
    have "\<bar>fmul (outcome_scalar x) (outcome_weight x)\<bar> = fl (\<bar>outcome_scalar x\<bar> * outcome_weight x)"
      using w(1) by (simp add: fmul_def binary64.rnd_abs abs_mult)
    then show ?thesis using binary64.rnd_scale_le [OF w(2,1) s] by simp
  qed
  then have "\<bar>fsum (map (\<lambda>x. fmul (outcome_scalar x) (outcome_weight x)) xs)\<bar> \<le> fsum (map outcome_weight xs)"
    unfolding fsum_def by (intro fsum_abs) simp_all
  then show ?thesis
    by (auto simp: composite_def Let_def fdiv_def binary64.rnd_abs abs_divide intro: binary64.rnd_ratio_le_one)
qed

lemma agreement_range: "0 \<le> compute_agreement xs \<and> compute_agreement xs \<le> 1"
proof -
  have "0 \<le> fl (8 / 10) \<and> fl (8 / 10) \<le> 1" by code_simp
  moreover have "fsub 1 (fsqrt v) \<le> 1" for v
    using binary64.rnd_diff_le [OF binary64.rnd_one fsqrt_nonneg] by (simp add: fsub_def)
  ultimately show ?thesis by (simp add: compute_agreement_def Let_def)
qed

lemma base_confidence_range:
  assumes "0 \<le> a" "a \<le> 1" "\<bar>c\<bar> \<le> 1"
  shows "0 \<le> base_confidence a c \<and> base_confidence a c \<le> 1"
proof -
  have w: "0 \<le> fl (6 / 10)" "0 \<le> fl (4 / 10)" "fl (6 / 10) + fl (4 / 10) = 1 \<or> fadd (fl (6 / 10)) (fl (4 / 10)) \<le> 1"
    by (code_simp, code_simp, rule disjI2, code_simp)
  have x: "fmul a (fl (6 / 10)) \<le> fl (6 / 10)" "fmul \<bar>c\<bar> (fl (4 / 10)) \<le> fl (4 / 10)"
    using binary64.rnd_scale_le assms w(1,2) unfolding fmul_def by (blast intro: binary64.rnd_idem)+
  have "fadd (fmul a (fl (6 / 10))) (fmul \<bar>c\<bar> (fl (4 / 10))) \<le> fadd (fl (6 / 10)) (fl (4 / 10))"
    unfolding fadd_def using x by (intro binary64.rnd_mono add_mono)
  moreover have "fadd (fl (6 / 10)) (fl (4 / 10)) \<le> 1" by code_simp
  moreover have "0 \<le> fmul a (fl (6 / 10))" "0 \<le> fmul \<bar>c\<bar> (fl (4 / 10))"
    using assms(1) w by (simp_all add: fmul_def binary64.rnd_nonneg)
  ultimately show ?thesis by (simp add: base_confidence_def fadd_def binary64.rnd_nonneg)
qed

lemma volume_adjusted_range:
  "0 \<le> c \<Longrightarrow> c \<le> 1 \<Longrightarrow> 0 \<le> volume_adjusted v c \<and> volume_adjusted v c \<le> 1"
proof -
  assume c: "0 \<le> c" "c \<le> 1"
  have b: "0 \<le> VOLUME_BOOST" "0 \<le> VOLUME_PENALTY" by code_simp+
  have "0 \<le> fadd c VOLUME_BOOST" using b c by (simp add: fadd_def binary64.rnd_nonneg)
  moreover have "fsub c VOLUME_PENALTY \<le> 1"
    unfolding fsub_def using b c by (intro binary64.rnd_le_exact [OF binary64.rnd_one]) simp
  ultimately show ?thesis using c by (simp add: volume_adjusted_def split: option.split)
qed

lemma score_direction_sign:
  "bullish (score_direction x) \<longleftrightarrow> 1 / 4 \<le> x" "bearish (score_direction x) \<longleftrightarrow> x \<le> - 1 / 4"
proof -
  have "fl (25 / 100) = 1 / 4" "1 / 4 < fl (65 / 100)" by code_simp+
  then show "bullish (score_direction x) \<longleftrightarrow> 1 / 4 \<le> x" "bearish (score_direction x) \<longleftrightarrow> x \<le> - 1 / 4"
    unfolding score_direction_def by (auto simp: bullish_def bearish_def)
qed

text \<open>The two outcomes of the generator.\<close>

lemma generate_cases:
  obtains (silent) "generate env lib np cfg b = Inr None"
  | (emitted) s score conf where "generate env lib np cfg b = Inr (Some s)" "is_warm b"
      "2 \<le> length (primary_outcomes lib cfg b)" "score = composite (primary_outcomes lib cfg b)"
      "ts_direction s = score_direction score" "- 1 \<le> score" "score \<le> 1"
      "ts_confidence s = fround 4 conf" "0 \<le> conf" "conf \<le> 1" "ta_min_signal_confidence cfg \<le> conf"
      "ts_symbol s = cb_symbol b" "ts_timeframe s = cb_timeframe b" "ts_price s = last (closes b)"
      "map_of (ts_metadata s) ''composite_score'' = Some (Meta_num (fround 4 score))"
      "map_of (ts_metadata s) ''ema_50_dist'' = None"
      "ts_expires_at s = ge_expiry_now env + ta_signal_ttl_seconds cfg * 10 ^ 6"
proof -
  define outcomes where "outcomes = primary_outcomes lib cfg b"
  define volume where "volume = try_compute (compute_volume_signal np (volumes b) 20)"
  define atr where "atr = try_compute (compute_atr lib (highs b) (lows b) (closes b) 14)"
  define score where "score = composite outcomes"
  define agreement where "agreement = compute_agreement (map outcome_scalar outcomes)"
  define conf where "conf = volume_adjusted volume (base_confidence agreement score)"
  define readings where "readings = map reading_of outcomes @ (case volume of None \<Rightarrow> []
     | Some r \<Rightarrow> [\<lparr>ir_name = VOLUME, ir_value = vr_volume_ratio r, ir_signal = vr_signal r,
         ir_weight = 0, ir_metadata = vr_metadata r\<rparr>])"
  define s where "s = \<lparr>ts_signal_id = ge_signal_id env, ts_source = TECHNICAL,
         ts_symbol = cb_symbol b, ts_timeframe = cb_timeframe b, ts_timestamp = ge_stamp env,
         ts_expires_at = ge_expiry_now env + ta_signal_ttl_seconds cfg * 10 ^ 6,
         ts_direction = score_direction score, ts_confidence = fround 4 conf,
         ts_indicators = readings, ts_price = last (closes b), ts_price_change_1h_pct = None,
         ts_metadata = [(''composite_score'', Meta_num (fround 4 score)),
           (''indicator_count'', Meta_num (of_nat (length (filter (\<lambda>r. ir_weight r > 0) readings)))),
           (''total_weight'', Meta_num (fround 3 (fsum (map outcome_weight outcomes)))),
           (''agreement'', Meta_num (fround 3 agreement))] @
           (case atr of None \<Rightarrow> [] | Some r \<Rightarrow> [(''atr_value'', Meta_num (tr_value r)),
             (''atr_pct_of_price'', Meta_num (tr_as_pct_of_price r)),
             (''volatility_regime'', Meta_text (regime_value (tr_volatility_regime r)))])\<rparr>"
  have r: "\<bar>score\<bar> \<le> 1" "0 \<le> conf" "conf \<le> 1"
    using composite_range agreement_range base_confidence_range volume_adjusted_range
    unfolding score_def conf_def agreement_def by blast+
  have "0 \<le> fround 4 conf" "fround 4 conf \<le> 1"
    using r(2,3) fround_ge [of 4 0] fround_le [of 4 1] fround4_values by auto
  then have n: "new_technical_signal s = Inr s" by (simp add: new_technical_signal_def s_def)
  have g: "generate env lib np cfg b = (if \<not> is_warm b then Inr None
     else if length outcomes < 2 then Inr None
     else if conf < ta_min_signal_confidence cfg then Inr None
     else case new_technical_signal s of Inl e \<Rightarrow> Inl e | Inr s \<Rightarrow> Inr (Some s))"
    unfolding generate_def Let_def s_def readings_def conf_def agreement_def score_def volume_def atr_def
      outcomes_def by (rule refl)
  show thesis
  proof (cases "\<not> is_warm b \<or> length outcomes < 2 \<or> conf < ta_min_signal_confidence cfg")
    case True
    then show thesis using g by (intro silent) auto
  next
    case False
    then have "generate env lib np cfg b = Inr (Some s)" using g n by simp
    then show thesis
      by (rule emitted [of s score conf])
        (use False r in \<open>simp_all add: s_def outcomes_def score_def abs_le_iff split: option.split\<close>)
  qed
qed

text \<open>C29: the generator never raises, and a signal it emits is sound: the buffer was warm and two primary
  indicators could be computed, the confidence is a fraction that reached the threshold, and the
  direction agrees in sign with the published score. It never writes the distance to the 50-period
  average, so the decision agent's trend filter has nothing to test on a rule-based signal.\<close>

theorem generator_sound:
  "(\<exists>out. generate env lib np cfg b = Inr out) \<and>
   (generate env lib np cfg b = Inr (Some s) \<longrightarrow>
     is_warm b \<and> 2 \<le> length (primary_outcomes lib cfg b) \<and>
     0 \<le> ts_confidence s \<and> ts_confidence s \<le> 1 \<and> fround 4 (ta_min_signal_confidence cfg) \<le> ts_confidence s \<and>
     ts_symbol s = cb_symbol b \<and> ts_price s = last (closes b) \<and>
     (\<exists>score. map_of (ts_metadata s) ''composite_score'' = Some (Meta_num score) \<and> - 1 \<le> score \<and> score \<le> 1 \<and>
        (bullish (ts_direction s) \<longrightarrow> 1 / 4 \<le> score) \<and> (bearish (ts_direction s) \<longrightarrow> score \<le> - 1 / 4)) \<and>
     map_of (ts_metadata s) ''ema_50_dist'' = None)"
proof (cases rule: generate_cases [of env lib np cfg b])
  case e: (emitted x score conf)
  have "0 \<le> fround 4 conf" "fround 4 conf \<le> 1" "- 1 \<le> fround 4 score" "fround 4 score \<le> 1"
    using e(6,7,9,10) fround_le fround_ge fround4_values by blast+
  moreover have "fround 4 (ta_min_signal_confidence cfg) \<le> fround 4 conf" by (rule fround_mono [OF e(11)])
  moreover have "bullish (ts_direction x) \<longrightarrow> 1 / 4 \<le> fround 4 score" "bearish (ts_direction x) \<longrightarrow> fround 4 score \<le> - 1 / 4"
    using fround_ge [OF fround4_values(4), of score] fround_le [OF fround4_values(5), of score]
    by (simp_all only: e(5) score_direction_sign) blast+
  ultimately show ?thesis using e(1-3,8,12,14-16) by auto
qed simp

text \<open>A concrete run: a buffer of 50 equal candles under a library whose series read as an uptrend.\<close>

definition demo_lib :: indicator_lib where
  "demo_lib = \<lparr>il_rsi = (\<lambda>cs p. [Some 10, Some 15]),
     il_macd = (\<lambda>cs f s g. ([Some 2], [Some 1], [Some (1 / 2), Some 1])),
     il_bbands = (\<lambda>cs p d. ([None], [None], [None])), il_ema = (\<lambda>cs p. []),
     il_atr = (\<lambda>hs ls cs p. [Some 1280])\<rparr>"

definition demo_buffer :: candle_buffer where
  "demo_buffer = (new_candle_buffer ''BTC/USDT'' ''1m'')\<lparr>cb_candles := map (\<lambda>t. mk_candle ''BTC/USDT'' t 64000) [1..50]\<rparr>"

definition demo_gen_env :: gen_env where
  "demo_gen_env = \<lparr>ge_expiry_now = 0, ge_stamp = 0, ge_signal_id = 1\<rparr>"

theorem generator_sound_witness:
  "\<exists>s. generate demo_gen_env demo_lib demo_numpy (default_ta_settings\<lparr>ta_ema_long := 60\<rparr>) demo_buffer = Inr (Some s) \<and>
     ts_symbol s = ''BTC/USDT'' \<and> ts_confidence s \<le> 1 \<and> map_of (ts_metadata s) ''ema_50_dist'' = None"
proof -
  have "case generate demo_gen_env demo_lib demo_numpy (default_ta_settings\<lparr>ta_ema_long := 60\<rparr>) demo_buffer of
      Inr (Some s) \<Rightarrow> True | _ \<Rightarrow> False"
    by code_simp
  then obtain s where g: "generate demo_gen_env demo_lib demo_numpy (default_ta_settings\<lparr>ta_ema_long := 60\<rparr>) demo_buffer = Inr (Some s)"
    by (auto split: sum.splits option.splits)
  have "cb_symbol demo_buffer = ''BTC/USDT''" by (simp add: demo_buffer_def new_candle_buffer_def)
  then show ?thesis
    using generator_sound [of demo_gen_env demo_lib demo_numpy "default_ta_settings\<lparr>ta_ema_long := 60\<rparr>" demo_buffer s] g
    by auto
qed

end
