(* ===== verification/TA_Agent.thy ===== *)
theory TA_Agent
  imports Base_Agent Signal_Generator
begin

text \<open>
  The technical analysis agent (\<open>agents/technical_analysis/agent.py\<close>): it routes candles to their
  buffers and, on primary-timeframe candles of warm buffers, generates a signal unless one was
  emitted for the symbol within a third of the signal lifetime. The generator in use (the rules, or
  the machine-learned one when it is loaded) is an argument of a step, as are the clock readings and
  the success of the publication.

  Proved here: signals of a symbol keep their distance in time, also when the publication fails.
\<close>

definition TA_TIMEFRAME_SECONDS :: "(string, int) dict" where
  "TA_TIMEFRAME_SECONDS = [(''1m'', 60), (''3m'', 180), (''5m'', 300), (''15m'', 900), (''30m'', 1800),
     (''1h'', 3600), (''4h'', 14400), (''1d'', 86400)]"

record ta_agent =
  ta_base :: base_agent
  ta_cfg :: settings
  ta_registry :: buffer_registry
  ta_ml_loaded :: bool
  ta_last_signal_at :: "(symbol, time) dict"
  ta_primary_timeframe :: string

definition new_ta_agent :: "settings \<Rightarrow> ta_agent" where
  "new_ta_agent s = \<lparr>ta_base = new_base_agent s ''technical_analysis_agent'', ta_cfg = s,
     ta_registry = [], ta_ml_loaded = False, ta_last_signal_at = [], ta_primary_timeframe = []\<rparr>"

text \<open>What trying to load a model answers: the override path of the configuration, else the latest
  registered model; the loading itself is outside.\<close>

definition maybe_load_ml_model :: "(symbol \<Rightarrow> string \<Rightarrow> string option) \<Rightarrow> (string \<Rightarrow> bool) \<Rightarrow> ta_agent \<Rightarrow> ta_agent" where
  "maybe_load_ml_model latest_path loads ag =
    (let cfg = st_technical_analysis (ta_cfg ag); symbols = md_symbols (st_market_data (ta_cfg ag)) in
     if \<not> ta_use_ml_signals cfg \<or> symbols = [] then ag
     else let override = (case ta_ml_model_path cfg of None \<Rightarrow> None | Some p \<Rightarrow> if p = [] then None else Some p) in
       (case (case override of Some p \<Rightarrow> Some p | None \<Rightarrow> latest_path (hd symbols) (ta_primary_timeframe ag)) of
          None \<Rightarrow> ag
        | Some path \<Rightarrow> if loads path then ag\<lparr>ta_ml_loaded := True\<rparr> else ag))"

text \<open>The warm-up from the database: the rows of each pair, or a failure that is skipped. The query
  asks for the last 200 bars.\<close>

definition warmup_since :: "time \<Rightarrow> string \<Rightarrow> time" where
  "warmup_since now tf = now - (case map_of TA_TIMEFRAME_SECONDS tf of None \<Rightarrow> 60 | Some s \<Rightarrow> s) * 200 * 10 ^ 6"

definition registry_add_all :: "candle list \<Rightarrow> buffer_registry \<Rightarrow> buffer_registry" where
  "registry_add_all cs r = fold (\<lambda>c r. snd (registry_add c r)) cs r"

definition warmup_from_db :: "(symbol \<Rightarrow> string \<Rightarrow> error + candle list) \<Rightarrow> ta_agent \<Rightarrow> ta_agent" where
  "warmup_from_db get_candles ag = (let cfg = st_market_data (ta_cfg ag) in
     ag\<lparr>ta_registry := fold (\<lambda>(s, tf) r. case get_candles s tf of Inl e \<Rightarrow> r | Inr cs \<Rightarrow> registry_add_all cs r)
        (concat (map (\<lambda>s. map (\<lambda>tf. (s, tf)) (md_ohlcv_timeframes cfg)) (md_symbols cfg))) (ta_registry ag)\<rparr>)"

definition ta_setup ::
  "(symbol \<Rightarrow> string \<Rightarrow> string option) \<Rightarrow> (string \<Rightarrow> bool) \<Rightarrow> (symbol \<Rightarrow> string \<Rightarrow> error + candle list) \<Rightarrow>
     ta_agent \<Rightarrow> ta_agent" where
  "ta_setup latest_path loads get_candles ag =
    (let tfs = md_ohlcv_timeframes (st_market_data (ta_cfg ag));
         ag1 = ag\<lparr>ta_primary_timeframe := (case tfs of [] \<Rightarrow> ''1m'' | tf # _ \<Rightarrow> tf)\<rparr>
     in warmup_from_db get_candles (maybe_load_ml_model latest_path loads ag1))"

subsection \<open>Signal deduplication\<close>

text \<open>\<open>timedelta(seconds=ttl / 3)\<close>, rounded to microseconds.\<close>

definition suppress_window :: "settings \<Rightarrow> time" where
  "suppress_window s = rne (fdiv (of_int (ta_signal_ttl_seconds (st_technical_analysis s))) 3 * 10 ^ 6)"

definition is_signal_suppressed :: "time \<Rightarrow> symbol \<Rightarrow> ta_agent \<Rightarrow> bool" where
  "is_signal_suppressed now symbol ag = (case map_of (ta_last_signal_at ag) symbol of
     None \<Rightarrow> False | Some t \<Rightarrow> now - t < suppress_window (ta_cfg ag))"

subsection \<open>Processing\<close>

record ta_env =
  te_suppress_now :: time
  te_emitted_now :: time
  te_publish_ok :: bool

text \<open>\<open>_publish_signal\<close> swallows its failures.\<close>

definition publish_signal :: "bool \<Rightarrow> technical_signal \<Rightarrow> technical_signal list" where
  "publish_signal ok s = (if ok then [s] else [])"

definition ta_process_candle ::
  "ta_env \<Rightarrow> (candle_buffer \<Rightarrow> error + technical_signal option) \<Rightarrow> candle \<Rightarrow> ta_agent \<Rightarrow>
     (error + unit) \<times> technical_signal list \<times> ta_agent" where
  "ta_process_candle env gen c ag = (case registry_add c (ta_registry ag) of (buffer, r) \<Rightarrow>
    (let ag1 = ag\<lparr>ta_registry := r\<rparr> in
     if oc_timeframe c \<noteq> ta_primary_timeframe ag then (Inr (), [], ag1)
     else if \<not> is_warm buffer then (Inr (), [], ag1)
     else if is_signal_suppressed (te_suppress_now env) (oc_symbol c) ag1 then (Inr (), [], ag1)
     else case gen buffer of
       Inl e \<Rightarrow> (Inl e, [], ag1)
     | Inr None \<Rightarrow> (Inr (), [], ag1)
     | Inr (Some s) \<Rightarrow> (Inr (), publish_signal (te_publish_ok env) s,
         ag1\<lparr>ta_last_signal_at := AList.update (oc_symbol c) (te_emitted_now env) (ta_last_signal_at ag1)\<rparr>)))"

definition ta_consume ::
  "ta_env \<Rightarrow> (candle_buffer \<Rightarrow> error + technical_signal option) \<Rightarrow> candle \<Rightarrow> ta_agent \<Rightarrow>
     technical_signal list \<times> ta_agent" where
  "ta_consume env gen c ag =
    (if \<not> should_continue (ta_base ag) then ([], ag)
     else case ta_process_candle env gen c ag of
       (Inl e, out, ag1) \<Rightarrow> (out, ag1\<lparr>ta_base := handle_error e (ta_base ag1)\<rparr>)
     | (Inr _, out, ag1) \<Rightarrow> (out, ag1\<lparr>ta_base := record_success (ta_base ag1)\<rparr>))"

subsection \<open>Facts\<close>

definition registry_ok :: "buffer_registry \<Rightarrow> bool" where
  "registry_ok r \<longleftrightarrow> dict_ok r \<and>
     list_all (\<lambda>((s, tf), b). cb_symbol b = s \<and> cb_timeframe b = tf \<and> buffer_ok b) r"

lemma buffer_add_names [simp]:
  "cb_symbol (buffer_add c b) = cb_symbol b" "cb_timeframe (buffer_add c b) = cb_timeframe b"
  by (simp_all add: buffer_add_def)

lemma registry_add_ok [inv_intros]:
  assumes "registry_ok r"
  shows "registry_ok (snd (registry_add c r))"
    "cb_symbol (fst (registry_add c r)) = oc_symbol c" "buffer_ok (fst (registry_add c r))"
proof -
  define b where "b = (case map_of r (oc_symbol c, oc_timeframe c) of
    Some b \<Rightarrow> b | None \<Rightarrow> new_candle_buffer (oc_symbol c) (oc_timeframe c))"
  have b: "cb_symbol b = oc_symbol c" "cb_timeframe b = oc_timeframe c" "buffer_ok b"
  proof -
    have "cb_symbol b = oc_symbol c \<and> cb_timeframe b = oc_timeframe c \<and> buffer_ok b"
    proof (cases "map_of r (oc_symbol c, oc_timeframe c)")
      case None
      then show ?thesis using new_buffer_ok by (simp add: b_def new_candle_buffer_def)
    next
      case (Some x)
      then show ?thesis using assms map_of_SomeD [OF Some] by (force simp: b_def registry_ok_def list_all_iff)
    qed
    then show "cb_symbol b = oc_symbol c" "cb_timeframe b = oc_timeframe c" "buffer_ok b" by simp_all
  qed
  have e: "registry_add c r = (buffer_add c b, AList.update (oc_symbol c, oc_timeframe c) (buffer_add c b) r)"
    by (simp add: registry_add_def b_def Let_def)
  show "cb_symbol (fst (registry_add c r)) = oc_symbol c" "buffer_ok (fst (registry_add c r))"
    using b by (simp_all add: e buffer_add_ok)
  have "set (AList.update (oc_symbol c, oc_timeframe c) (buffer_add c b) r) \<subseteq>
      insert ((oc_symbol c, oc_timeframe c), buffer_add c b) (set r)"
    by (rule set_update_subset)
  then show "registry_ok (snd (registry_add c r))"
    using assms b by (auto simp: registry_ok_def list_all_iff e buffer_add_ok)
qed

lemma ta_process_emitted:
  assumes "ta_process_candle env gen c ag = (r, out, ag')"
  obtains (kept) "ta_last_signal_at ag' = ta_last_signal_at ag" "out = []"
  | (emitted) s where "ta_last_signal_at ag' = AList.update (oc_symbol c) (te_emitted_now env) (ta_last_signal_at ag)"
      "\<not> is_signal_suppressed (te_suppress_now env) (oc_symbol c) ag" "out = publish_signal (te_publish_ok env) s"
      "r = Inr ()" "gen (fst (registry_add c (ta_registry ag))) = Inr (Some s)" "is_warm (fst (registry_add c (ta_registry ag)))"
      "oc_timeframe c = ta_primary_timeframe ag"
  using assms
  by (cases "registry_add c (ta_registry ag)")
    (auto simp: ta_process_candle_def Let_def is_signal_suppressed_def split: if_splits sum.splits option.splits)

lemma ta_consume_cases:
  assumes "ta_consume env gen c ag = (out, ag')"
  obtains (kept) "ta_last_signal_at ag' = ta_last_signal_at ag" "out = []"
  | (emitted) s where "ta_last_signal_at ag' = AList.update (oc_symbol c) (te_emitted_now env) (ta_last_signal_at ag)"
      "\<not> is_signal_suppressed (te_suppress_now env) (oc_symbol c) ag" "out = publish_signal (te_publish_ok env) s"
      "gen (fst (registry_add c (ta_registry ag))) = Inr (Some s)"
proof (cases "should_continue (ta_base ag)")
  case False
  then show thesis using assms kept by (simp add: ta_consume_def)
next
  case True
  obtain r o1 ag1 where p: "ta_process_candle env gen c ag = (r, o1, ag1)" by (cases "ta_process_candle env gen c ag")
  have q: "out = o1" "ta_last_signal_at ag' = ta_last_signal_at ag1"
    using assms True p by (auto simp: ta_consume_def split: sum.splits)
  from p show thesis
    by (cases rule: ta_process_emitted) (use q in \<open>auto intro: kept emitted\<close>)
qed

subsection \<open>Runs\<close>

type_synonym ta_input = "ta_env \<times> (candle_buffer \<Rightarrow> error + technical_signal option) \<times> candle"

text \<open>Candles of any symbols in turn: for each, its circumstances, its symbol and what was published.\<close>

fun ta_run :: "ta_input list \<Rightarrow> ta_agent \<Rightarrow> (ta_env \<times> symbol \<times> technical_signal list) list" where
  "ta_run [] ag = []"
| "ta_run ((env, gen, c) # ins) ag = (case ta_consume env gen c ag of (out, ag1) \<Rightarrow>
     (env, oc_symbol c, out) # ta_run ins ag1)"

definition clock_readings :: "ta_input list \<Rightarrow> time list" where
  "clock_readings ins = concat (map (\<lambda>(env, gen, c). [te_suppress_now env, te_emitted_now env]) ins)"

lemma ta_consume_cfg: "ta_cfg (snd (ta_consume env gen c ag)) = ta_cfg ag"
  by (cases "registry_add c (ta_registry ag)")
    (auto simp: ta_consume_def ta_process_candle_def Let_def split: sum.splits option.splits)

lemma ta_run_length: "length (ta_run ins ag) = length ins"
  by (induction ins ag rule: ta_run.induct) (simp_all split: prod.split)

lemma ta_run_later:
  assumes "map_of (ta_last_signal_at ag) s = Some t" "t0 \<le> t" "\<forall>x\<in>set (clock_readings ins). t0 \<le> x"
    and "j < length ins" "ta_run ins ag ! j = (env, s, out)" "out \<noteq> []"
  shows "suppress_window (ta_cfg ag) \<le> te_suppress_now env - t0"
  using assms
proof (induction ins arbitrary: ag t j)
  case (Cons i ins)
  obtain env' gen c where i: "i = (env', gen, c)" by (cases i)
  obtain o1 ag1 where c: "ta_consume env' gen c ag = (o1, ag1)" by (cases "ta_consume env' gen c ag")
  have cfg: "ta_cfg ag1 = ta_cfg ag" using ta_consume_cfg [of env' gen c ag] c by simp
  have clk: "t0 \<le> te_emitted_now env'" "\<forall>x\<in>set (clock_readings ins). t0 \<le> x"
    using Cons.prems(3) i by (simp_all add: clock_readings_def)
  show ?case
  proof (cases j)
    case 0
    then have e: "env' = env" "oc_symbol c = s" "o1 = out" using Cons.prems(5) i c by simp_all
    from c show ?thesis
    proof (cases rule: ta_consume_cases)
      case kept
      then show ?thesis using e(3) Cons.prems(6) by simp
    next
      case (emitted x)
      then show ?thesis using e Cons.prems(1,2) by (simp add: is_signal_suppressed_def not_less)
    qed
  next
    case (Suc k)
    have "\<exists>t'. map_of (ta_last_signal_at ag1) s = Some t' \<and> t0 \<le> t'"
      using c by (cases rule: ta_consume_cases) (use Cons.prems(1,2) clk(1) in \<open>simp_all add: update_conv'\<close>)
    then obtain t' where t': "map_of (ta_last_signal_at ag1) s = Some t'" "t0 \<le> t'" by blast
    have "k < length ins" "ta_run ins ag1 ! k = (env, s, out)" using Cons.prems(4,5) Suc i c by simp_all
    from Cons.IH [OF t' clk(2) this Cons.prems(6)] show ?thesis unfolding cfg .
  qed
qed simp

text \<open>C30: two signals published for the same symbol, at any two points of a run with whatever candles
  of this and other symbols in between, are at least a third of the signal lifetime apart, measured
  from the end of the first emission to the check before the second; the clock is assumed not to go
  back during the run.\<close>

theorem ta_signals_spaced:
  assumes "i < j" "j < length ins" "sorted (clock_readings ins)"
    and "ta_run ins ag ! i = (env1, s, out1)" "ta_run ins ag ! j = (env2, s, out2)"
    and "out1 \<noteq> []" "out2 \<noteq> []"
  shows "suppress_window (ta_cfg ag) \<le> te_suppress_now env2 - te_emitted_now env1"
  using assms
proof (induction ins arbitrary: ag i j)
  case (Cons x ins)
  obtain env' gen c where x: "x = (env', gen, c)" by (cases x)
  obtain o1 ag1 where c: "ta_consume env' gen c ag = (o1, ag1)" by (cases "ta_consume env' gen c ag")
  have cfg: "ta_cfg ag1 = ta_cfg ag" using ta_consume_cfg [of env' gen c ag] c by simp
  obtain l where j: "j = Suc l" using Cons.prems(1) by (cases j) simp_all
  have l: "l < length ins" "ta_run ins ag1 ! l = (env2, s, out2)" using Cons.prems(2,5) x c j by simp_all
  have clk: "\<forall>t\<in>set (clock_readings ins). te_emitted_now env' \<le> t" "sorted (clock_readings ins)"
    using Cons.prems(3) x by (simp_all add: clock_readings_def)
  show ?case
  proof (cases i)
    case 0
    then have e: "env' = env1" "oc_symbol c = s" "o1 = out1" using Cons.prems(4) x c by simp_all
    have "map_of (ta_last_signal_at ag1) s = Some (te_emitted_now env1)"
      using c by (cases rule: ta_consume_cases) (use e Cons.prems(6) in simp_all)
    from ta_run_later [OF this order_refl _ l Cons.prems(7)] clk(1) e(1) show ?thesis unfolding cfg by simp
  next
    case (Suc k)
    have "ta_run ins ag1 ! k = (env1, s, out1)" "k < l" using Cons.prems(1,4) Suc x c j by simp_all
    from Cons.IH [OF this(2) l(1) clk(2) this(1) l(2) Cons.prems(6,7)] show ?thesis unfolding cfg .
  qed
qed simp

text \<open>A signal whose publication fails is lost and silences its symbol all the same: the emission
  time is recorded, and until the window ends no candle of the symbol publishes anything.\<close>

theorem ta_failed_publish_silences:
  assumes "ta_consume env gen c ag = ([], ag1)" "should_continue (ta_base ag)" "\<not> te_publish_ok env"
    and "oc_timeframe c = ta_primary_timeframe ag" "is_warm (fst (registry_add c (ta_registry ag)))"
    and "\<not> is_signal_suppressed (te_suppress_now env) (oc_symbol c) ag"
    and "gen (fst (registry_add c (ta_registry ag))) = Inr (Some s)"
    and "oc_symbol c' = oc_symbol c" "te_suppress_now env' - te_emitted_now env < suppress_window (ta_cfg ag)"
  shows "ba_consecutive_errors (ta_base ag1) = 0 \<and> fst (ta_consume env' gen' c' ag1) = []"
proof -
  have p: "ta_process_candle env gen c ag = (Inr (), [],
      ag\<lparr>ta_registry := snd (registry_add c (ta_registry ag)),
         ta_last_signal_at := AList.update (oc_symbol c) (te_emitted_now env) (ta_last_signal_at ag)\<rparr>)"
    using assms(3-7) by (cases "registry_add c (ta_registry ag)")
      (simp add: ta_process_candle_def Let_def is_signal_suppressed_def publish_signal_def split: option.splits)
  have a: "ta_last_signal_at ag1 = AList.update (oc_symbol c) (te_emitted_now env) (ta_last_signal_at ag)"
    "ta_cfg ag1 = ta_cfg ag" "ba_consecutive_errors (ta_base ag1) = 0"
    using assms(1,2) p by (auto simp: ta_consume_def record_success_def)
  have s: "is_signal_suppressed (te_suppress_now env') (oc_symbol c') ag1"
    using a assms(8,9) by (simp add: is_signal_suppressed_def)
  obtain out ag2 where c: "ta_consume env' gen' c' ag1 = (out, ag2)" by (cases "ta_consume env' gen' c' ag1")
  then have "out = []" by (cases rule: ta_consume_cases) (use s in simp_all)
  then show ?thesis using a(3) c by simp
qed

text \<open>A concrete step: the fifty-first candle of a warm buffer, under a generator that always signals.\<close>

definition demo_gen :: "candle_buffer \<Rightarrow> error + technical_signal option" where
  "demo_gen b = Inr (Some (mk_technical ''BTC/USDT'' BUY_DIR 1 64000 0))"

definition demo_ta :: ta_agent where
  "demo_ta = (new_ta_agent default_settings)\<lparr>ta_primary_timeframe := ''1m'',
     ta_registry := [((''BTC/USDT'', ''1m''), demo_buffer)]\<rparr>"

definition demo_ta_env :: "time \<Rightarrow> bool \<Rightarrow> ta_env" where
  "demo_ta_env t ok = \<lparr>te_suppress_now = t, te_emitted_now = t, te_publish_ok = ok\<rparr>"

definition demo_candle :: candle where "demo_candle = mk_candle ''BTC/USDT'' 60 64000"

lemma demo_ta_warm: "is_warm (fst (registry_add demo_candle (ta_registry demo_ta)))"
  by code_simp

lemma demo_ta_facts:
  "should_continue (ta_base demo_ta)" "oc_timeframe demo_candle = ta_primary_timeframe demo_ta"
  "\<not> is_signal_suppressed t (oc_symbol demo_candle) demo_ta" "ta_cfg demo_ta = default_settings"
  by (simp_all add: demo_ta_def new_ta_agent_def new_base_agent_def should_continue_def demo_candle_def
      mk_candle_def is_signal_suppressed_def)

lemma demo_window: "suppress_window default_settings = 100 * 10 ^ 6"
  by code_simp

theorem ta_failed_publish_silences_witness:
  "fst (ta_consume (demo_ta_env 50 True) demo_gen demo_candle
     (snd (ta_consume (demo_ta_env 0 False) demo_gen demo_candle demo_ta))) = []"
proof -
  obtain out ag1 where c: "ta_consume (demo_ta_env 0 False) demo_gen demo_candle demo_ta = (out, ag1)"
    by (cases "ta_consume (demo_ta_env 0 False) demo_gen demo_candle demo_ta")
  then have "out = []" by (cases rule: ta_consume_cases) (simp_all add: publish_signal_def demo_ta_env_def)
  with c have e: "ta_consume (demo_ta_env 0 False) demo_gen demo_candle demo_ta = ([], ag1)" by simp
  have w: "te_suppress_now (demo_ta_env 50 True) - te_emitted_now (demo_ta_env 0 False) < suppress_window (ta_cfg demo_ta)"
    unfolding demo_ta_facts(4) demo_window by (simp add: demo_ta_env_def)
  have "\<not> te_publish_ok (demo_ta_env 0 False)" by (simp add: demo_ta_env_def)
  then show ?thesis
    using ta_failed_publish_silences [OF e demo_ta_facts(1) _ demo_ta_facts(2) demo_ta_warm demo_ta_facts(3) _ refl w]
    by (simp add: c e demo_gen_def)
qed

definition demo_inputs :: "ta_input list" where
  "demo_inputs = [(demo_ta_env 0 True, demo_gen, demo_candle),
     (demo_ta_env (50 * 10 ^ 6) True, demo_gen, mk_candle ''ETH/USDT'' 60 3000),
     (demo_ta_env (100 * 10 ^ 6) True, demo_gen, demo_candle)]"

theorem ta_signals_spaced_witness:
  "map (\<lambda>(env, s, out). (s, length out)) (ta_run demo_inputs demo_ta) =
     [(''BTC/USDT'', 1), (''ETH/USDT'', 0), (''BTC/USDT'', 1)] \<and>
   100 * 10 ^ 6 \<le> te_suppress_now (fst (ta_run demo_inputs demo_ta ! 2)) - te_emitted_now (fst (ta_run demo_inputs demo_ta ! 0))"
proof -
  have m: "map (\<lambda>(env, s, out). (s, length out)) (ta_run demo_inputs demo_ta) =
      [(''BTC/USDT'', 1), (''ETH/USDT'', 0), (''BTC/USDT'', 1)]"
    by code_simp
  have n: "length demo_inputs = 3" "sorted (clock_readings demo_inputs)"
    by (simp_all add: demo_inputs_def clock_readings_def demo_ta_env_def)
  obtain env1 s1 out1 where a: "ta_run demo_inputs demo_ta ! 0 = (env1, s1, out1)" by (cases "ta_run demo_inputs demo_ta ! 0")
  obtain env2 s2 out2 where b: "ta_run demo_inputs demo_ta ! 2 = (env2, s2, out2)" by (cases "ta_run demo_inputs demo_ta ! 2")
  have "length (ta_run demo_inputs demo_ta) = 3" by (simp add: ta_run_length n)
  then have "s1 = ''BTC/USDT''" "length out1 = 1" "s2 = ''BTC/USDT''" "length out2 = 1"
    using arg_cong [OF m, of "\<lambda>xs. xs ! 0"] arg_cong [OF m, of "\<lambda>xs. xs ! 2"] a b by simp_all
  moreover from this have "out1 \<noteq> []" "out2 \<noteq> []" by auto
  ultimately have "suppress_window (ta_cfg demo_ta) \<le> te_suppress_now env2 - te_emitted_now env1"
    using ta_signals_spaced [of 0 2 demo_inputs demo_ta env1 s1 out1 env2 out2] a b n by simp
  then show ?thesis using m a b unfolding demo_ta_facts(4) demo_window by simp
qed

end
