(* ===== verification/Broker_Interface.thy ===== *)
theory Broker_Interface
  imports Trade_Models
begin

text \<open>
  The broker interface (\<open>agents/execution/broker_interface.py\<close>): the capability, balance and position
  records every adapter returns, the two optional operations that raise unless an adapter overrides
  them, and the contract of \<open>place_order\<close> as the locale \<open>execution_broker\<close>: an invariant that orders
  keep, and idempotency for a proposal id (what the class comment demands of every adapter). Its
  client, the execution agent, may therefore retry a submission at will (\<open>submit_again\<close>).
\<close>

record broker_capabilities =
  bc_broker_name :: string
  bc_supports_market_orders :: bool
  bc_supports_limit_orders :: bool
  bc_supports_native_stops :: bool
  bc_supports_native_take_profit :: bool
  bc_supports_partial_fills :: bool
  bc_supports_position_query :: bool
  bc_supports_balance_query :: bool
  bc_is_paper :: bool
  bc_requires_symbol_mapping :: bool

definition default_capabilities :: "string \<Rightarrow> broker_capabilities" where
  "default_capabilities name = \<lparr>bc_broker_name = name, bc_supports_market_orders = True,
     bc_supports_limit_orders = True, bc_supports_native_stops = True,
     bc_supports_native_take_profit = True, bc_supports_partial_fills = True,
     bc_supports_position_query = True, bc_supports_balance_query = True,
     bc_is_paper = False, bc_requires_symbol_mapping = False\<rparr>"

record broker_balance =
  bb_total_equity_usd :: money
  bb_free_margin_usd :: money
  bb_used_margin_usd :: money

record broker_position =
  bp_symbol :: symbol
  bp_side :: order_side
  bp_quantity :: money
  bp_entry_price :: money
  bp_current_price :: money
  bp_unrealised_pnl_usd :: money
  bp_stop_loss :: "money option"
  bp_take_profit :: "money option"
  bp_position_id :: "string option"

definition default_close_position :: "symbol \<Rightarrow> money option \<Rightarrow> error + execution_result option" where
  "default_close_position symbol price = Inl (Not_implemented_error ''close_position'')"

definition default_modify_stops :: "string \<Rightarrow> symbol \<Rightarrow> money option \<Rightarrow> money option \<Rightarrow> error + bool" where
  "default_modify_stops order_id symbol sl tp = Inl (Not_implemented_error ''modify_stops'')"

locale execution_broker =
  fixes place :: "'env \<Rightarrow> risk_assessment \<Rightarrow> 'b \<Rightarrow> (error + execution_result) \<times> 'b"
    and inv :: "'b \<Rightarrow> bool"
    and ok_env :: "'env \<Rightarrow> bool"
  assumes place_inv: "ok_env env \<Longrightarrow> inv b \<Longrightarrow> place env a b = (outcome, b') \<Longrightarrow> inv b'"
    and place_idem: "ok_env env \<Longrightarrow> inv b \<Longrightarrow> place env a b = (Inr r, b') \<Longrightarrow>
      ra_proposal_id a' = ra_proposal_id a \<Longrightarrow> place env' a' b' = (Inr r, b')"
begin

text \<open>Submitting one assessment repeatedly, under whatever circumstances each attempt meets.\<close>

fun submit :: "'env list \<Rightarrow> risk_assessment \<Rightarrow> 'b \<Rightarrow> (error + execution_result) list \<times> 'b" where
  "submit [] a b = ([], b)"
| "submit (env # envs) a b = (case place env a b of (r, b1) \<Rightarrow>
     case submit envs a b1 of (rs, b2) \<Rightarrow> (r # rs, b2))"

lemma submit_inv: "list_all ok_env envs \<Longrightarrow> inv b \<Longrightarrow> submit envs a b = (rs, b') \<Longrightarrow> inv b'"
  by (induction envs arbitrary: b rs) (auto split: prod.splits dest: place_inv)

lemma submit_again:
  assumes "ok_env env" "inv b" "place env a b = (Inr r, b')"
  shows "submit envs a b' = (replicate (length envs) (Inr r), b')"
proof -
  have "place e a b' = (Inr r, b')" for e using place_idem [OF assms refl] .
  then show ?thesis by (induction envs) simp_all
qed

lemma submit_results_agree:
  assumes "list_all ok_env envs" "inv b" "submit envs a b = (rs, b')" "Inr r \<in> set rs" "Inr r' \<in> set rs"
  shows "r = r'"
  using assms
proof (induction envs arbitrary: b rs)
  case (Cons env envs)
  obtain x b1 ys where p: "place env a b = (x, b1)" "submit envs a b1 = (ys, b')" "rs = x # ys"
    using Cons.prems(3) by (auto split: prod.splits)
  have env: "ok_env env" "list_all ok_env envs" using Cons.prems(1) by simp_all
  show ?case
  proof (cases x)
    case (Inl e)
    then show ?thesis
      using Cons.IH [OF env(2) place_inv [OF env(1) Cons.prems(2) p(1)] p(2)] Cons.prems p(3) by auto
  next
    case (Inr s)
    then show ?thesis using submit_again [OF env(1) Cons.prems(2), of a s b1 envs] p Cons.prems by auto
  qed
qed simp

end

end
