(* ===== verification/Paper_Broker.thy ===== *)
theory Paper_Broker
  imports Broker_Interface
begin

text \<open>
  The simulated broker (\<open>agents/execution/paper_broker.py\<close>). The state is the cash balance, the open
  positions by symbol, the results remembered for idempotency and what Redis holds under the two
  portfolio keys. What the code takes from its environment - the random draws, fresh ids, the clock
  and whether the two writes to Redis succeed - is the argument \<open>paper_env\<close>. An exception is a
  left value, with the state as the code leaves it. \<open>str\<close> of a Decimal reads back as the same
  Decimal, so the stored strings are represented by the numbers themselves.

  Proved here: the representation invariant, the interface contract, the frame of each operation,
  and the bookkeeping of cash against positions.
\<close>

subsection \<open>Constants\<close>

definition DEFAULT_SLIPPAGE_PCT :: rat where "DEFAULT_SLIPPAGE_PCT = fl (5 / 10 ^ 4)"
definition slippage_decimal :: rat where "slippage_decimal = dec_of_float DEFAULT_SLIPPAGE_PCT"
definition TAKER_FEE_PCT :: rat where "TAKER_FEE_PCT = 1 / 10 ^ 3"
definition QTY_PLACES :: nat where "QTY_PLACES = 8"
definition PARTIAL_FILL_PROBABILITY :: rat where "PARTIAL_FILL_PROBABILITY = fl (20 / 100)"
lemma PARTIAL_FILL_PROBABILITY_code [code]: "PARTIAL_FILL_PROBABILITY = 3602879701896397 / 18014398509481984" unfolding PARTIAL_FILL_PROBABILITY_def by code_simp
definition PARTIAL_FILL_LOW :: rat where "PARTIAL_FILL_LOW = fl (60 / 100)"
lemma PARTIAL_FILL_LOW_code [code]: "PARTIAL_FILL_LOW = 5404319552844595 / 9007199254740992" unfolding PARTIAL_FILL_LOW_def by code_simp
definition PARTIAL_FILL_HIGH :: rat where "PARTIAL_FILL_HIGH = fl (99 / 100)"
lemma PARTIAL_FILL_HIGH_code [code]: "PARTIAL_FILL_HIGH = 4458563631096791 / 4503599627370496" unfolding PARTIAL_FILL_HIGH_def by code_simp
definition IDEMPOTENCY_CACHE_SIZE :: nat where "IDEMPOTENCY_CACHE_SIZE = 1000"

subsection \<open>State\<close>

record paper_position =
  pp_symbol :: symbol
  pp_side :: order_side
  pp_quantity :: money
  pp_entry_price :: money
  pp_cost_usd :: money

record portfolio_store =
  ps_cash :: "money option"
  ps_positions :: "(symbol, paper_position) dict option"

record paper_broker =
  pb_settings :: settings
  pb_cash :: money
  pb_positions :: "(symbol, paper_position) dict"
  pb_filled :: "(uuid, execution_result) dict"
  pb_bus :: bool  \<comment> \<open>a connected bus has been injected\<close>
  pb_store :: portfolio_store

datatype save_outcome = Save_ok | Save_cash_fails | Save_positions_fails
datatype restore_outcome = Restore_ok | Restore_cash_fails | Restore_positions_fails

record paper_env =
  pe_partial_draw :: rat  \<comment> \<open>\<open>random.random()\<close>\<close>
  pe_ratio_draw :: rat    \<comment> \<open>the draw inside \<open>random.uniform\<close>\<close>
  pe_result_id :: uuid
  pe_proposal_uuid :: uuid
  pe_assessment_uuid :: uuid
  pe_now :: time
  pe_save :: save_outcome

definition new_paper_broker :: "settings \<Rightarrow> portfolio_store \<Rightarrow> paper_broker" where
  "new_paper_broker s store = \<lparr>pb_settings = s,
     pb_cash = dec_of_float (st_paper_initial_balance_usd s), pb_positions = [], pb_filled = [],
     pb_bus = False, pb_store = store\<rparr>"

definition capabilities :: broker_capabilities where
  "capabilities = (default_capabilities ''paper'')\<lparr>bc_is_paper := True,
     bc_supports_native_stops := False, bc_supports_native_take_profit := False,
     bc_supports_partial_fills := True\<rparr>"

definition set_bus :: "bool \<Rightarrow> paper_broker \<Rightarrow> paper_broker" where
  "set_bus up b = b\<lparr>pb_bus := up\<rparr>"

subsection \<open>Persistence\<close>

definition save_portfolio_state :: "save_outcome \<Rightarrow> paper_broker \<Rightarrow> paper_broker" where
  "save_portfolio_state outcome b =
     (if \<not> pb_bus b then b
      else case outcome of
        Save_cash_fails \<Rightarrow> b
      | Save_positions_fails \<Rightarrow> b\<lparr>pb_store := (pb_store b)\<lparr>ps_cash := Some (pb_cash b)\<rparr>\<rparr>
      | Save_ok \<Rightarrow> b\<lparr>pb_store := \<lparr>ps_cash = Some (pb_cash b), ps_positions = Some (pb_positions b)\<rparr>\<rparr>)"

definition restore_portfolio_state :: "restore_outcome \<Rightarrow> paper_broker \<Rightarrow> paper_broker" where
  "restore_portfolio_state outcome b =
     (if \<not> pb_bus b \<or> outcome = Restore_cash_fails then b
      else case ps_cash (pb_store b) of None \<Rightarrow> b
      | Some cash \<Rightarrow>
          (let b1 = b\<lparr>pb_cash := cash\<rparr> in
           if outcome = Restore_positions_fails then b1
           else case ps_positions (pb_store b) of None \<Rightarrow> b1
             | Some ps \<Rightarrow> b1\<lparr>pb_positions := ps\<rparr>))"

definition connect ::
  "restore_outcome \<Rightarrow> save_outcome \<Rightarrow> paper_broker \<Rightarrow> (error + unit) \<times> paper_broker" where
  "connect restore save b = (case assert_paper_mode (pb_settings b) of
     Inl e \<Rightarrow> (Inl e, b)
   | Inr _ \<Rightarrow> (Inr (), save_portfolio_state save (restore_portfolio_state restore b)))"

definition disconnect :: "save_outcome \<Rightarrow> paper_broker \<Rightarrow> paper_broker" where
  "disconnect save b = save_portfolio_state save b"

definition remember_order :: "uuid \<Rightarrow> execution_result \<Rightarrow> paper_broker \<Rightarrow> paper_broker" where
  "remember_order pid r b = b\<lparr>pb_filled := remember IDEMPOTENCY_CACHE_SIZE pid r (pb_filled b)\<rparr>"

subsection \<open>Fills\<close>

text \<open>The reference price moved by the slippage against the trader, and the taker fee.\<close>

definition slipped_price :: "order_side \<Rightarrow> money \<Rightarrow> money option" where
  "slipped_price side ref = (let slippage = slippage_decimal in
     quantize toward_zero QTY_PLACES
       (case side of BUY \<Rightarrow> dmul ref (dadd 1 slippage) | SELL \<Rightarrow> dmul ref (dsub 1 slippage)))"

definition taker_fee :: "money \<Rightarrow> money option" where
  "taker_fee notional = quantize toward_zero 2 (dmul notional TAKER_FEE_PCT)"

text \<open>\<open>random.uniform(a, b)\<close> is \<open>a + (b - a) * random()\<close>.\<close>

definition uniform :: "rat \<Rightarrow> rat \<Rightarrow> rat \<Rightarrow> rat" where
  "uniform a b draw = fadd a (fmul (fsub b a) draw)"

definition partial_fill :: "paper_env \<Rightarrow> money \<Rightarrow> (money \<times> order_status) option" where
  "partial_fill env requested =
     (case (if pe_partial_draw env < PARTIAL_FILL_PROBABILITY
            then (let ratio = dec_of_float (uniform PARTIAL_FILL_LOW PARTIAL_FILL_HIGH (pe_ratio_draw env))
                  in case quantize toward_zero QTY_PLACES (dmul requested ratio) of
                       None \<Rightarrow> None | Some q \<Rightarrow> Some (q, PARTIALLY_FILLED))
            else Some (requested, FILLED)) of
       None \<Rightarrow> None
     | Some (q, st) \<Rightarrow> Some (if q \<le> 0 then (requested, FILLED) else (q, st)))"

subsection \<open>Closing\<close>

definition close_at ::
  "paper_env \<Rightarrow> symbol \<Rightarrow> money \<Rightarrow> uuid \<Rightarrow> uuid \<Rightarrow> paper_broker \<Rightarrow>
     (error + execution_result option) \<times> paper_broker" where
  "close_at env symbol ref_price proposal_id assessment_id b =
    (case map_of (pb_positions b) symbol of
       None \<Rightarrow> (Inr None, b)
     | Some pos \<Rightarrow>
         let b1 = b\<lparr>pb_positions := AList.delete symbol (pb_positions b)\<rparr>;
             close_side = opposite (pp_side pos)
         in case slipped_price close_side ref_price of
              None \<Rightarrow> (Inl Decimal_invalid, b1)
            | Some exit_price \<Rightarrow>
         let notional = dmul (pp_quantity pos) exit_price
         in case taker_fee notional of
              None \<Rightarrow> (Inl Decimal_invalid, b1)
            | Some fee \<Rightarrow>
         let cash_returned = (case pp_side pos of
               BUY \<Rightarrow> dsub notional fee
             | SELL \<Rightarrow> dsub (dadd (pp_cost_usd pos)
                         (dmul (dsub (pp_entry_price pos) exit_price) (pp_quantity pos))) fee)
         in case quantize rne 2 (dsub cash_returned (pp_cost_usd pos)) of
              None \<Rightarrow> (Inl Decimal_invalid, b1)
            | Some realized \<Rightarrow>
         (Inr (Some \<lparr>er_result_id = pe_result_id env, er_proposal_id = proposal_id,
            er_assessment_id = assessment_id, er_exchange_order_id = None,
            er_timestamp = pe_now env, er_symbol = symbol, er_side = close_side,
            er_order_type = MARKET, er_status = FILLED,
            er_requested_quantity = pp_quantity pos, er_filled_quantity = pp_quantity pos,
            er_average_fill_price = Some exit_price, er_total_cost_usd = Some notional,
            er_fee_usd = Some fee, er_fee_currency = Some ''USDT'',
            er_realized_pnl_usd = Some realized, er_stop_loss_order_id = None,
            er_take_profit_order_id = None, er_is_paper = True, er_error_message = None,
            er_retry_count = 0\<rparr>),
          save_portfolio_state (pe_save env) (b1\<lparr>pb_cash := dadd (pb_cash b1) cash_returned\<rparr>)))"

definition close_position ::
  "paper_env \<Rightarrow> symbol \<Rightarrow> money option \<Rightarrow> paper_broker \<Rightarrow>
     (error + execution_result option) \<times> paper_broker" where
  "close_position env symbol price b =
    (case map_of (pb_positions b) symbol of
       None \<Rightarrow> (Inr None, b)
     | Some pos \<Rightarrow>
         (let ref_price = (case price of Some p \<Rightarrow> if 0 < p then p else pp_entry_price pos
                                       | None \<Rightarrow> pp_entry_price pos)
          in close_at env symbol ref_price (pe_proposal_uuid env) (pe_assessment_uuid env) b))"

subsection \<open>Opening\<close>

definition open_position ::
  "paper_env \<Rightarrow> risk_assessment \<Rightarrow> money \<Rightarrow> paper_broker \<Rightarrow> (error + execution_result) \<times> paper_broker" where
  "open_position env a ref_price b =
    (let p = ra_original_proposal a; symbol = tp_symbol p; side = tp_side p
     in case slipped_price side ref_price of
       None \<Rightarrow> (Inl Decimal_invalid, b)
     | Some fill_price \<Rightarrow>
     let effective_size = effective_size_usd a in
     if effective_size \<le> 0 then (Inl (Order_rejected_error ''no effective_size_usd''), b)
     else if fill_price = 0 then (Inl Zero_division, b)
     else case quantize toward_zero QTY_PLACES (ddiv effective_size fill_price) of
       None \<Rightarrow> (Inl Decimal_invalid, b)
     | Some requested_qty \<Rightarrow>
     if requested_qty \<le> 0 then (Inl (Order_rejected_error ''computed quantity is zero''), b)
     else case partial_fill env requested_qty of
       None \<Rightarrow> (Inl Decimal_invalid, b)
     | Some (fill_qty, status) \<Rightarrow>
     let notional = dmul fill_qty fill_price
     in case taker_fee notional of
       None \<Rightarrow> (Inl Decimal_invalid, b)
     | Some fee \<Rightarrow>
     let total_cost = dadd notional fee
     in if total_cost > pb_cash b
        then (Inl (Insufficient_balance_error (fl total_cost) (fl (pb_cash b))), b)
     else
     let b1 = b\<lparr>pb_cash := dsub (pb_cash b) total_cost,
                pb_positions := AList.update symbol
                  \<lparr>pp_symbol = symbol, pp_side = side, pp_quantity = fill_qty,
                   pp_entry_price = fill_price, pp_cost_usd = total_cost\<rparr> (pb_positions b)\<rparr>;
         result = \<lparr>er_result_id = pe_result_id env, er_proposal_id = ra_proposal_id a,
            er_assessment_id = ra_assessment_id a, er_exchange_order_id = None,
            er_timestamp = pe_now env, er_symbol = symbol, er_side = side,
            er_order_type = tp_order_type p, er_status = status,
            er_requested_quantity = requested_qty, er_filled_quantity = fill_qty,
            er_average_fill_price = Some fill_price, er_total_cost_usd = Some notional,
            er_fee_usd = Some fee, er_fee_currency = Some ''USDT'',
            er_realized_pnl_usd = None, er_stop_loss_order_id = None,
            er_take_profit_order_id = None, er_is_paper = True, er_error_message = None,
            er_retry_count = 0\<rparr>
     in (Inr result, save_portfolio_state (pe_save env) (remember_order (ra_proposal_id a) result b1)))"

subsection \<open>The order operation\<close>

definition place_order ::
  "paper_env \<Rightarrow> risk_assessment \<Rightarrow> paper_broker \<Rightarrow> (error + execution_result) \<times> paper_broker" where
  "place_order env a b =
    (case assert_paper_mode (pb_settings b) of
       Inl e \<Rightarrow> (Inl e, b)
     | Inr _ \<Rightarrow>
    (case map_of (pb_filled b) (ra_proposal_id a) of
       Some cached \<Rightarrow> (Inr cached, b)
     | None \<Rightarrow>
    (case as_technical_signal (tp_signal (ra_original_proposal a)) of
       None \<Rightarrow> (Inl (Order_rejected_error ''no reference price''), b)
     | Some tech \<Rightarrow>
    (let ref_price = dec_of_float (ts_price tech) in
     if ref_price \<le> 0 then (Inl (Order_rejected_error ''reference price must be positive''), b)
     else
     (let symbol = tp_symbol (ra_original_proposal a); side = tp_side (ra_original_proposal a) in
      case map_of (pb_positions b) symbol of
        Some existing \<Rightarrow>
          if pp_side existing = side
          then (Inl (Order_rejected_error ''stacking is not supported''), b)
          else (case close_at env symbol ref_price (ra_proposal_id a) (ra_assessment_id a) b of
                  (Inl e, b1) \<Rightarrow> (Inl e, b1)
                | (Inr None, b1) \<Rightarrow> (Inl (Order_rejected_error ''no open position to close''), b1)
                | (Inr (Some r), b1) \<Rightarrow> (Inr r, remember_order (ra_proposal_id a) r b1))
      | None \<Rightarrow> open_position env a ref_price b)))))"

definition cancel_order :: "string \<Rightarrow> symbol \<Rightarrow> paper_broker \<Rightarrow> bool \<times> paper_broker" where
  "cancel_order order_id symbol b = (True, b)"

subsection \<open>Queries\<close>

definition get_positions :: "paper_broker \<Rightarrow> broker_position list" where
  "get_positions b = map (\<lambda>pos. \<lparr>bp_symbol = pp_symbol pos, bp_side = pp_side pos,
     bp_quantity = pp_quantity pos, bp_entry_price = pp_entry_price pos,
     bp_current_price = pp_entry_price pos, bp_unrealised_pnl_usd = 0, bp_stop_loss = None,
     bp_take_profit = None, bp_position_id = None\<rparr>) (dvals (pb_positions b))"

definition get_balance :: "paper_broker \<Rightarrow> broker_balance" where
  "get_balance b = (let used = dsum (map pp_cost_usd (dvals (pb_positions b))) in
     \<lparr>bb_total_equity_usd = dadd (pb_cash b) used, bb_free_margin_usd = pb_cash b,
      bb_used_margin_usd = used\<rparr>)"

definition ping :: "paper_broker \<Rightarrow> bool" where
  "ping b = True"

subsection \<open>Case rules\<close>

text \<open>What a successful open and a successful close computed, and how an order was answered.\<close>

lemma open_position_InrE:
  assumes "open_position env a ref b = (Inr r, b')"
  obtains fp rq fq st fee pos where
    "slipped_price (tp_side (ra_original_proposal a)) ref = Some fp" "fp \<noteq> 0"
    "quantize toward_zero QTY_PLACES (ddiv (effective_size_usd a) fp) = Some rq" "0 < rq"
    "0 < effective_size_usd a" "partial_fill env rq = Some (fq, st)"
    "taker_fee (dmul fq fp) = Some fee" "dadd (dmul fq fp) fee \<le> pb_cash b"
    "pos = \<lparr>pp_symbol = tp_symbol (ra_original_proposal a), pp_side = tp_side (ra_original_proposal a),
       pp_quantity = fq, pp_entry_price = fp, pp_cost_usd = dadd (dmul fq fp) fee\<rparr>"
    "b' = save_portfolio_state (pe_save env) (remember_order (ra_proposal_id a) r
       (b\<lparr>pb_cash := dsub (pb_cash b) (pp_cost_usd pos),
          pb_positions := AList.update (tp_symbol (ra_original_proposal a)) pos (pb_positions b)\<rparr>))"
    "er_requested_quantity r = rq" "er_filled_quantity r = fq" "er_average_fill_price r = Some fp"
    "er_total_cost_usd r = Some (dmul fq fp)" "er_fee_usd r = Some fee" "er_status r = st"
    "er_side r = tp_side (ra_original_proposal a)" "er_symbol r = tp_symbol (ra_original_proposal a)"
    "er_proposal_id r = ra_proposal_id a" "er_realized_pnl_usd r = None"
  using assms unfolding open_position_def Let_def
  by (auto simp del: not_le split: option.splits if_splits prod.splits)

lemma open_position_Inl: "open_position env a ref b = (Inl e, b') \<Longrightarrow> b' = b"
  unfolding open_position_def Let_def by (auto split: option.splits if_splits prod.splits)

lemma close_at_SomeE:
  assumes "close_at env symbol ref pid aid b = (Inr (Some r), b')"
  obtains pos xp fee ret realized where
    "map_of (pb_positions b) symbol = Some pos"
    "slipped_price (opposite (pp_side pos)) ref = Some xp"
    "taker_fee (dmul (pp_quantity pos) xp) = Some fee"
    "ret = (case pp_side pos of BUY \<Rightarrow> dsub (dmul (pp_quantity pos) xp) fee
       | SELL \<Rightarrow> dsub (dadd (pp_cost_usd pos)
                   (dmul (dsub (pp_entry_price pos) xp) (pp_quantity pos))) fee)"
    "quantize rne 2 (dsub ret (pp_cost_usd pos)) = Some realized"
    "b' = save_portfolio_state (pe_save env) (b\<lparr>pb_positions := AList.delete symbol (pb_positions b),
       pb_cash := dadd (pb_cash b) ret\<rparr>)"
    "er_realized_pnl_usd r = Some realized" "er_side r = opposite (pp_side pos)"
    "er_filled_quantity r = pp_quantity pos" "er_average_fill_price r = Some xp"
    "er_total_cost_usd r = Some (dmul (pp_quantity pos) xp)" "er_fee_usd r = Some fee"
    "er_symbol r = symbol" "er_proposal_id r = pid" "er_status r = FILLED"
  using assms unfolding close_at_def Let_def
  by (auto split: option.splits)

lemma close_at_None: "close_at env symbol ref pid aid b = (Inr None, b') \<Longrightarrow>
    b' = b \<and> map_of (pb_positions b) symbol = None"
  unfolding close_at_def Let_def by (auto split: option.splits)

lemma close_at_Inl: "close_at env symbol ref pid aid b = (Inl e, b') \<Longrightarrow>
    b' = b\<lparr>pb_positions := AList.delete symbol (pb_positions b)\<rparr> \<and>
    map_of (pb_positions b) symbol \<noteq> None \<and> e = Decimal_invalid"
  unfolding close_at_def Let_def by (auto split: option.splits)

lemma place_order_cases:
  assumes "place_order env a b = (x, b')"
  obtains
    (refused) e where "x = Inl e" "b' = b"
  | (cached) r where "x = Inr r" "b' = b" "is_paper_trading (pb_settings b)"
      "map_of (pb_filled b) (ra_proposal_id a) = Some r"
  | (closed) r ref pos b1 where "x = Inr r" "is_paper_trading (pb_settings b)" "0 < ref"
      "map_of (pb_filled b) (ra_proposal_id a) = None"
      "map_of (pb_positions b) (tp_symbol (ra_original_proposal a)) = Some pos"
      "pp_side pos = opposite (tp_side (ra_original_proposal a))"
      "close_at env (tp_symbol (ra_original_proposal a)) ref (ra_proposal_id a)
         (ra_assessment_id a) b = (Inr (Some r), b1)"
      "b' = remember_order (ra_proposal_id a) r b1"
  | (close_failed) e ref pos where "x = Inl e" "is_paper_trading (pb_settings b)"
      "map_of (pb_positions b) (tp_symbol (ra_original_proposal a)) = Some pos"
      "pp_side pos = opposite (tp_side (ra_original_proposal a))"
      "close_at env (tp_symbol (ra_original_proposal a)) ref (ra_proposal_id a)
         (ra_assessment_id a) b = (Inl e, b')"
  | (opened) r ref tech where "x = Inr r" "is_paper_trading (pb_settings b)" "0 < ref"
      "as_technical_signal (tp_signal (ra_original_proposal a)) = Some tech"
      "ref = dec_of_float (ts_price tech)"
      "map_of (pb_filled b) (ra_proposal_id a) = None"
      "map_of (pb_positions b) (tp_symbol (ra_original_proposal a)) = None"
      "open_position env a ref b = (Inr r, b')"
proof -
  have opp: "s \<noteq> t \<Longrightarrow> s = opposite t" for s t using side_cases [of s t] by auto
  have open_case: thesis if "is_paper_trading (pb_settings b)" "0 < dec_of_float (ts_price tech)"
    "as_technical_signal (tp_signal (ra_original_proposal a)) = Some tech"
    "map_of (pb_filled b) (ra_proposal_id a) = None"
    "map_of (pb_positions b) (tp_symbol (ra_original_proposal a)) = None"
    "open_position env a (dec_of_float (ts_price tech)) b = (x, b')" for tech
    using that by (cases x) (auto intro: opened refused dest: open_position_Inl)
  show thesis
    using assms unfolding place_order_def Let_def
    by (auto simp: not_le split: sum.splits option.splits if_splits prod.splits
        intro: refused cached closed close_failed open_case opp dest: close_at_None)
qed

subsection \<open>Prices, fees and quantities\<close>

lemma slippage_value [simp, code, float_consts]: "slippage_decimal = 1 / 2000"
  unfolding slippage_decimal_def by code_simp

lemma slip_factors [simp, float_consts]: "dadd 1 (1 / 2000) = 2001 / 2000" "dsub 1 (1 / 2000) = 1999 / 2000"
  by code_simp+

lemma slipped_price_eq:
  "slipped_price BUY ref = quantize toward_zero 8 (dmul ref (2001 / 2000))"
  "slipped_price SELL ref = quantize toward_zero 8 (dmul ref (1999 / 2000))"
  by (simp_all add: slipped_price_def QTY_PLACES_def)

lemma slipped_price_grid: "slipped_price side ref = Some p \<Longrightarrow> grid 8 p"
  by (cases side) (auto simp: slipped_price_eq dest: quantize_grid)

lemma slipped_price_exact: "slipped_price side ref = Some p \<Longrightarrow> dr p = p"
  by (cases side) (auto simp: slipped_price_eq dest: quantize_exact)

lemma slipped_price_nonneg: "slipped_price side ref = Some p \<Longrightarrow> 0 \<le> ref \<Longrightarrow> 0 \<le> p"
  by (cases side)
    (auto simp: slipped_price_eq dmul_def dest!: quantize_down_nonneg [rotated] intro: decimal28.rnd_nonneg)

lemma slipped_price_spread:
  assumes "slipped_price SELL ref = Some lo" "slipped_price BUY ref = Some hi" "0 \<le> ref"
  shows "lo \<le> hi"
proof -
  have "dmul ref (1999 / 2000) \<le> dmul ref (2001 / 2000)"
    unfolding dmul_def by (rule decimal28.rnd_mono) (simp add: assms(3) mult_left_mono)
  then show ?thesis
    using assms(1,2) mono_toward_zero unfolding slipped_price_eq by (blast intro: quantize_mono)
qed

lemma taker_fee_nonneg: "taker_fee n = Some fee \<Longrightarrow> 0 \<le> n \<Longrightarrow> 0 \<le> fee"
  by (auto simp: taker_fee_def dmul_def TAKER_FEE_PCT_def dest!: quantize_down_nonneg [rotated]
      intro: decimal28.rnd_nonneg)

lemma taker_fee_grid: "taker_fee n = Some fee \<Longrightarrow> grid 2 fee"
  by (auto simp: taker_fee_def dest: quantize_grid)

lemma partial_fill_ratio:
  assumes "0 \<le> draw" "draw \<le> 1"
  shows "0 \<le> dec_of_float (uniform PARTIAL_FILL_LOW PARTIAL_FILL_HIGH draw)"
    "dec_of_float (uniform PARTIAL_FILL_LOW PARTIAL_FILL_HIGH draw) \<le> 1"
proof -
  define w where "w = fsub PARTIAL_FILL_HIGH PARTIAL_FILL_LOW"
  have w: "fl w = w" "0 \<le> w" "0 \<le> PARTIAL_FILL_LOW" "fl (PARTIAL_FILL_LOW + w) \<le> 1"
    unfolding w_def by (simp, code_simp, code_simp, code_simp)
  have "0 \<le> fmul w draw" "fmul w draw \<le> w"
    using binary64.rnd_scale_le [OF w(1,2) assms(2)] w(2) assms(1)
    by (simp_all add: fmul_def mult.commute binary64.rnd_nonneg)
  then have "0 \<le> fl (PARTIAL_FILL_LOW + fmul w draw)" "fl (PARTIAL_FILL_LOW + fmul w draw) \<le> 1"
    using w(3) order_trans [OF binary64.rnd_mono w(4), of "PARTIAL_FILL_LOW + fmul w draw"]
    by (auto intro: binary64.rnd_nonneg)
  then show "0 \<le> dec_of_float (uniform PARTIAL_FILL_LOW PARTIAL_FILL_HIGH draw)"
    "dec_of_float (uniform PARTIAL_FILL_LOW PARTIAL_FILL_HIGH draw) \<le> 1"
    by (auto simp: uniform_def fadd_def w_def intro: dec_of_float_nonneg dec_of_float_le_one)
qed

text \<open>\<open>random.random()\<close> is documented to lie in \<open>[0, 1)\<close>.\<close>

definition env_ok :: "paper_env \<Rightarrow> bool" where
  "env_ok env \<longleftrightarrow> 0 \<le> pe_partial_draw env \<and> pe_partial_draw env < 1 \<and>
     0 \<le> pe_ratio_draw env \<and> pe_ratio_draw env < 1"

lemma partial_fill_bounds:
  assumes "partial_fill env rq = Some (fq, st)" "0 < rq" "dr rq = rq" "grid 8 rq" "env_ok env"
  shows "0 < fq" "fq \<le> rq" "grid 8 fq" "st \<in> {FILLED, PARTIALLY_FILLED}"
proof -
  define ratio where "ratio = dec_of_float (uniform PARTIAL_FILL_LOW PARTIAL_FILL_HIGH (pe_ratio_draw env))"
  have r: "0 \<le> ratio" "ratio \<le> 1"
    using assms(5) partial_fill_ratio [of "pe_ratio_draw env"] by (simp_all add: env_ok_def ratio_def)
  have le: "q \<le> rq \<and> grid 8 q" if "quantize toward_zero 8 (dmul rq ratio) = Some q" for q
  proof -
    have "0 \<le> dmul rq ratio" "dmul rq ratio \<le> rq"
      using r assms(2) decimal28.rnd_scale_le [OF assms(3) _ r(2)]
      by (simp_all add: dmul_def decimal28.rnd_nonneg mult.commute)
    then show ?thesis
      using quantize_down_nonneg [OF _ that] quantize_grid [OF that] by auto
  qed
  show "0 < fq" "fq \<le> rq" "grid 8 fq" "st \<in> {FILLED, PARTIALLY_FILLED}"
    using assms(1,2,4) le
    by (auto simp: partial_fill_def Let_def QTY_PLACES_def ratio_def [symmetric]
        split: if_splits option.splits)
qed

subsection \<open>The representation invariant\<close>

definition position_ok :: "paper_position \<Rightarrow> bool" where
  "position_ok pos \<longleftrightarrow> 0 < pp_quantity pos \<and> 0 < pp_entry_price pos \<and> 0 < pp_cost_usd pos"

definition positions_ok :: "(symbol, paper_position) dict \<Rightarrow> bool" where
  "positions_ok ps \<longleftrightarrow> dict_ok ps \<and> list_all (\<lambda>(s, pos). pp_symbol pos = s \<and> position_ok pos) ps"

definition store_ok :: "portfolio_store \<Rightarrow> bool" where
  "store_ok st \<longleftrightarrow> (case ps_positions st of None \<Rightarrow> True | Some ps \<Rightarrow> positions_ok ps)"

definition broker_ok :: "paper_broker \<Rightarrow> bool" where
  "broker_ok b \<longleftrightarrow> positions_ok (pb_positions b) \<and> dict_ok (pb_filled b) \<and>
     length (pb_filled b) \<le> IDEMPOTENCY_CACHE_SIZE \<and> store_ok (pb_store b)"

lemma positions_ok_delete [inv_intros]: "positions_ok ps \<Longrightarrow> positions_ok (AList.delete s ps)"
  using set_delete_subset [of s ps] by (auto simp: positions_ok_def list_all_iff)

lemma positions_ok_update [inv_intros]:
  "positions_ok ps \<Longrightarrow> pp_symbol pos = s \<Longrightarrow> position_ok pos \<Longrightarrow> positions_ok (AList.update s pos ps)"
  using set_update_subset [of s pos ps] by (auto simp: positions_ok_def list_all_iff)

lemma positions_okD:
  assumes "positions_ok ps" "map_of ps s = Some pos"
  shows "position_ok pos" "pp_symbol pos = s"
  using assms map_of_SomeD [OF assms(2)] by (auto simp: positions_ok_def list_all_iff)

lemma save_fields [simp]:
  "pb_settings (save_portfolio_state out b) = pb_settings b"
  "pb_cash (save_portfolio_state out b) = pb_cash b"
  "pb_positions (save_portfolio_state out b) = pb_positions b"
  "pb_filled (save_portfolio_state out b) = pb_filled b"
  "pb_bus (save_portfolio_state out b) = pb_bus b"
  by (simp_all add: save_portfolio_state_def split: save_outcome.split)

lemma remember_order_fields [simp]:
  "pb_settings (remember_order pid r b) = pb_settings b"
  "pb_cash (remember_order pid r b) = pb_cash b"
  "pb_positions (remember_order pid r b) = pb_positions b"
  "pb_store (remember_order pid r b) = pb_store b"
  "pb_bus (remember_order pid r b) = pb_bus b"
  by (simp_all add: remember_order_def)

lemma save_broker_ok [inv_intros]: "broker_ok b \<Longrightarrow> broker_ok (save_portfolio_state out b)"
  by (auto simp: broker_ok_def store_ok_def save_portfolio_state_def split: save_outcome.split)

lemma remember_broker_ok [inv_intros]: "broker_ok b \<Longrightarrow> broker_ok (remember_order pid r b)"
  by (auto simp: broker_ok_def remember_order_def length_remember)

lemma set_positions_broker_ok [inv_intros]:
  "broker_ok b \<Longrightarrow> positions_ok ps \<Longrightarrow> broker_ok (b\<lparr>pb_positions := ps\<rparr>)"
  by (simp add: broker_ok_def)

lemma set_cash_broker_ok [inv_intros, simp]: "broker_ok (b\<lparr>pb_cash := c\<rparr>) \<longleftrightarrow> broker_ok b"
  by (simp add: broker_ok_def)

lemma broker_ok_positions: "broker_ok b \<Longrightarrow> positions_ok (pb_positions b)"
  by (simp add: broker_ok_def)

lemma new_paper_broker_ok: "store_ok store \<Longrightarrow> broker_ok (new_paper_broker s store)"
  by (simp add: broker_ok_def new_paper_broker_def positions_ok_def)

lemma connect_broker_ok:
  assumes "broker_ok b"
  shows "broker_ok (snd (connect restore save b))"
proof -
  have "broker_ok (restore_portfolio_state restore b)"
    using assms by (auto simp: broker_ok_def restore_portfolio_state_def store_ok_def Let_def
        split: option.split)
  then show ?thesis
    using assms by (auto simp: connect_def split: sum.split intro: save_broker_ok)
qed

lemma opened_position_ok:
  assumes "slipped_price side ref = Some fp" "fp \<noteq> 0" "0 < ref"
    "quantize toward_zero QTY_PLACES (ddiv amount fp) = Some rq" "0 < rq"
    "partial_fill env rq = Some (fq, st)" "taker_fee (dmul fq fp) = Some fee" "env_ok env"
  shows "0 < fp" "0 < fq" "fq \<le> rq" "0 < dmul fq fp" "0 \<le> fee" "dmul fq fp \<le> dadd (dmul fq fp) fee"
proof -
  show fp: "0 < fp" using slipped_price_nonneg [OF assms(1)] assms(2,3) by simp
  have rq: "dr rq = rq" "grid 8 rq"
    using assms(4) by (auto simp: QTY_PLACES_def dest: quantize_exact quantize_grid)
  show fq: "0 < fq" "fq \<le> rq" using partial_fill_bounds [OF assms(6,5) rq assms(8)] by simp_all
  have "grid (8 + 8) (fq * fp)"
    by (rule grid_mult [OF partial_fill_bounds(3) [OF assms(6,5) rq assms(8)] slipped_price_grid [OF assms(1)]])
  then show n: "0 < dmul fq fp" unfolding dmul_def
    by (rule dr_grid_pos) (use fp fq in simp_all)
  show fee: "0 \<le> fee" using taker_fee_nonneg [OF assms(7)] n by simp
  show "dmul fq fp \<le> dadd (dmul fq fp) fee"
    using fee unfolding dadd_def by (intro decimal28.rnd_ge_exact) simp_all
qed

lemma open_position_broker_ok:
  assumes "open_position env a ref b = (Inr r, b')" "broker_ok b" "0 < ref" "env_ok env"
  shows "broker_ok b'"
  using assms(1)
proof (cases rule: open_position_InrE)
  case (1 fp rq fq st fee pos)
  note o = opened_position_ok [OF 1(1,2) assms(3) 1(3,4,6,7) assms(4)]
  then have "position_ok pos" by (simp add: position_ok_def 1(9))
  then show ?thesis
    unfolding 1(10) using assms(2)
    by (intro inv_intros) (auto simp: 1(9) broker_ok_def intro!: positions_ok_update)
qed

lemma close_at_broker_ok:
  assumes "close_at env symbol ref pid aid b = (x, b')" "broker_ok b"
  shows "broker_ok b'"
proof (cases x)
  case (Inl e)
  then show ?thesis using close_at_Inl [of env symbol ref pid aid b e b'] assms
    by (auto intro!: inv_intros broker_ok_positions)
next
  case (Inr o')
  then show ?thesis
  proof (cases o')
    case None
    then show ?thesis using close_at_None [of env symbol ref pid aid b b'] assms Inr by simp
  next
    case (Some r)
    with assms(1) Inr have "close_at env symbol ref pid aid b = (Inr (Some r), b')" by simp
    then show ?thesis
    proof (cases rule: close_at_SomeE)
      case 1
      then show ?thesis using assms(2) by (simp add: save_broker_ok set_positions_broker_ok
            positions_ok_delete broker_ok_positions)
    qed
  qed
qed

lemma place_order_broker_ok:
  assumes "place_order env a b = (x, b')" "broker_ok b" "env_ok env"
  shows "broker_ok b'"
  using assms(1)
proof (cases rule: place_order_cases)
  case (closed r ref pos b1)
  then show ?thesis using assms(2) by (auto intro: remember_broker_ok close_at_broker_ok)
next
  case (close_failed e ref pos)
  then show ?thesis using assms(2) by (auto intro: close_at_broker_ok)
next
  case (opened r ref tech)
  then show ?thesis using assms(2,3) by (auto intro: open_position_broker_ok)
qed (use assms(2) in simp_all)

lemma close_position_broker_ok:
  "close_position env s price b = (x, b') \<Longrightarrow> broker_ok b \<Longrightarrow> broker_ok b'"
  by (auto simp: close_position_def Let_def split: option.splits if_splits dest: close_at_broker_ok)

subsection \<open>The interface contract\<close>

lemma close_at_other_fields:
  assumes "close_at env s ref pid aid b = (x, b')"
  shows "pb_settings b' = pb_settings b" "pb_filled b' = pb_filled b" "pb_bus b' = pb_bus b"
  using assms unfolding close_at_def Let_def by (auto split: option.splits)

lemma remember_order_lookup:
  "broker_ok b \<Longrightarrow> map_of (pb_filled (remember_order pid r b)) pid = Some r"
  by (simp add: remember_order_def broker_ok_def IDEMPOTENCY_CACHE_SIZE_def remember_lookup)

lemma place_order_remembers:
  assumes "place_order env a b = (Inr r, b')" "broker_ok b" "env_ok env"
  shows "map_of (pb_filled b') (ra_proposal_id a) = Some r" "is_paper_trading (pb_settings b')"
proof -
  have "map_of (pb_filled b') (ra_proposal_id a) = Some r \<and> is_paper_trading (pb_settings b')"
    using assms(1)
  proof (cases rule: place_order_cases)
    case (closed r' ref pos b1)
    then show ?thesis
      using assms(2) remember_order_lookup [OF close_at_broker_ok [OF closed(7) assms(2)]]
      by (auto dest: close_at_other_fields)
  next
    case (opened r' ref tech)
    from opened(8) show ?thesis
    proof (cases rule: open_position_InrE)
      case (1 fp rq fq st fee pos)
      have "map_of (pb_filled b') (ra_proposal_id a) = Some r'"
        unfolding 1(10) save_fields
        by (rule remember_order_lookup) (use assms(2) opened_position_ok [OF 1(1,2) opened(3) 1(3,4,6,7) assms(3)]
            in \<open>auto simp: 1(9) broker_ok_def position_ok_def intro!: positions_ok_update\<close>)
      then show ?thesis using opened(1,2) by (simp add: 1(10))
    qed
  qed simp_all
  then show "map_of (pb_filled b') (ra_proposal_id a) = Some r" "is_paper_trading (pb_settings b')"
    by simp_all
qed

interpretation paper: execution_broker place_order broker_ok env_ok
proof
  show "broker_ok b'" if "env_ok env" "broker_ok b" "place_order env a b = (x, b')" for env a b x b'
    using place_order_broker_ok that by blast
  show "place_order env' a' b' = (Inr r, b')"
    if "env_ok env" "broker_ok b" "place_order env a b = (Inr r, b')" "ra_proposal_id a' = ra_proposal_id a"
    for env a b r b' a' env'
    using place_order_remembers [OF that(3,2,1)] that(4) by (simp add: place_order_def assert_paper_mode_def)
qed

subsection \<open>What an order does to the book\<close>

text \<open>The abstract book: the side held in each symbol. An order for a symbol without position opens
  one on its side, an order against a position closes it, anything else changes nothing.\<close>

definition book :: "paper_broker \<Rightarrow> symbol \<Rightarrow> order_side option" where
  "book b s = map_option pp_side (map_of (pb_positions b) s)"

definition book_order :: "symbol \<Rightarrow> order_side \<Rightarrow> (symbol \<Rightarrow> order_side option) \<Rightarrow> symbol \<Rightarrow> order_side option" where
  "book_order s side bk = bk(s := (case bk s of None \<Rightarrow> Some side
     | Some held \<Rightarrow> if held = side then Some held else None))"

lemma place_order_book_aux:
  assumes "place_order env a b = (Inr r, b')" "map_of (pb_filled b) (ra_proposal_id a) = None"
  shows "book b' = book_order (tp_symbol (ra_original_proposal a)) (tp_side (ra_original_proposal a)) (book b)"
  using assms(1)
proof (cases rule: place_order_cases)
  case (closed r' ref pos b1)
  from closed(7) show ?thesis
    by (cases rule: close_at_SomeE) (use closed in \<open>auto simp: book_def book_order_def fun_eq_iff\<close>)
next
  case (opened r' ref tech)
  from opened(8) show ?thesis
    by (cases rule: open_position_InrE) (use opened in \<open>auto simp: book_def book_order_def fun_eq_iff\<close>)
qed (use assms in simp_all)

text \<open>A failing order changes nothing, unless it was closing a position and the arithmetic of the
  close overflowed 28 digits; then the position is gone and the cash is untouched.\<close>

lemma place_order_error_aux:
  assumes "place_order env a b = (Inl e, b')"
  shows "b' = b \<or> (e = Decimal_invalid \<and>
    book b (tp_symbol (ra_original_proposal a)) = Some (opposite (tp_side (ra_original_proposal a))) \<and>
    b' = b\<lparr>pb_positions := AList.delete (tp_symbol (ra_original_proposal a)) (pb_positions b)\<rparr>)"
  using assms
proof (cases rule: place_order_cases)
  case (close_failed e' ref pos)
  then show ?thesis using close_at_Inl [OF close_failed(5)] by (simp add: book_def)
qed simp_all

subsection \<open>Cash and equity\<close>

text \<open>The exact equity: cash plus the cost basis of the open positions.\<close>

definition equity :: "paper_broker \<Rightarrow> rat" where
  "equity b = pb_cash b + sum_list (map pp_cost_usd (dvals (pb_positions b)))"

text \<open>The portfolios on which the arithmetic is exact: amounts are multiples of \<open>10 ^ -16\<close>, quantities
  and prices of \<open>10 ^ -8\<close>, and the equity is below \<open>10 ^ 11\<close>.\<close>

definition on_grid :: "paper_broker \<Rightarrow> bool" where
  "on_grid b \<longleftrightarrow> grid 16 (pb_cash b) \<and> 0 \<le> pb_cash b \<and> equity b \<le> 10 ^ 11 \<and>
     list_all (\<lambda>pos. grid 16 (pp_cost_usd pos) \<and> grid 8 (pp_quantity pos) \<and> grid 8 (pp_entry_price pos))
       (dvals (pb_positions b))"

lemma dr_cent_grid: "grid 16 x \<Longrightarrow> \<bar>x\<bar> \<le> 10 ^ 12 \<Longrightarrow> dr x = x"
  by (rule dr_exact [of 16]) simp_all

lemma opening_costs:
  assumes "grid 8 q" "grid 8 p" "0 < q" "0 < p" "taker_fee (dmul q p) = Some fee" "0 \<le> fee"
    "dadd (dmul q p) fee \<le> c" "c \<le> 10 ^ 11"
  shows "dmul q p = q * p" "dadd (dmul q p) fee = q * p + fee" "grid 16 (q * p)" "grid 16 (q * p + fee)"
proof -
  show g: "grid 16 (q * p)" using grid_mult [OF assms(1,2)] by simp
  have big: "dr (10 ^ 12) = 10 ^ 12" by (rule dr_cent_grid) (auto simp: grid_def intro: exI [of _ "10 ^ 28"])
  have "dmul q p \<le> dadd (dmul q p) fee"
    using assms(6) unfolding dadd_def by (intro decimal28.rnd_ge_exact) simp_all
  then have le: "dmul q p \<le> 10 ^ 11" using assms(7,8) by linarith
  have "q * p < 10 ^ 12"
  proof (rule ccontr)
    assume "\<not> q * p < 10 ^ 12"
    then have "10 ^ 12 \<le> dmul q p" unfolding dmul_def by (intro decimal28.rnd_ge_exact big) simp
    then show False using le by simp
  qed
  then show n: "dmul q p = q * p" using assms(3,4) g by (simp add: dmul_def dr_cent_grid)
  show gt: "grid 16 (q * p + fee)"
    using grid_add [OF g grid_weaken [OF taker_fee_grid [OF assms(5)]]] by simp
  have "q * p + fee < 10 ^ 12"
  proof (rule ccontr)
    assume "\<not> q * p + fee < 10 ^ 12"
    then have "10 ^ 12 \<le> dadd (dmul q p) fee" unfolding dadd_def n by (intro decimal28.rnd_ge_exact big) simp
    then show False using assms(7,8) by simp
  qed
  then show "dadd (dmul q p) fee = q * p + fee"
    using assms(3,4,6) gt unfolding dadd_def n by (intro dr_cent_grid) simp_all
qed

subsection \<open>Traces\<close>

datatype broker_event =
    Ev_place paper_env risk_assessment
  | Ev_close paper_env symbol "money option"
  | Ev_connect restore_outcome save_outcome
  | Ev_disconnect save_outcome

fun broker_step :: "broker_event \<Rightarrow> paper_broker \<Rightarrow> paper_broker" where
  "broker_step (Ev_place env a) b = snd (place_order env a b)"
| "broker_step (Ev_close env s price) b = snd (close_position env s price b)"
| "broker_step (Ev_connect restore save) b = snd (connect restore save b)"
| "broker_step (Ev_disconnect save) b = disconnect save b"

fun event_ok :: "broker_event \<Rightarrow> bool" where
  "event_ok (Ev_place env _) = env_ok env"
| "event_ok _ = True"

definition broker_run :: "broker_event list \<Rightarrow> paper_broker \<Rightarrow> paper_broker" where
  "broker_run evs b = fold broker_step evs b"

lemma broker_step_ok: "event_ok ev \<Longrightarrow> broker_ok b \<Longrightarrow> broker_ok (broker_step ev b)"
  by (cases ev)
    (auto simp: disconnect_def save_broker_ok connect_broker_ok
      intro: place_order_broker_ok [OF surjective_pairing] close_position_broker_ok [OF surjective_pairing])

text \<open>How an event changes the remembered results: not at all, or by one new entry.\<close>

lemma place_order_filled:
  assumes "place_order env a b = (x, b')"
  shows "pb_filled b' = pb_filled b \<or> (map_of (pb_filled b) (ra_proposal_id a) = None \<and>
    (\<exists>r. pb_filled b' = remember IDEMPOTENCY_CACHE_SIZE (ra_proposal_id a) r (pb_filled b)))"
  using assms
proof (cases rule: place_order_cases)
  case (closed r ref pos b1)
  then show ?thesis using close_at_other_fields(2) [OF closed(7)]
    by (auto simp: remember_order_def)
next
  case (close_failed e ref pos)
  then show ?thesis using close_at_other_fields(2) [OF close_failed(5)] by simp
next
  case (opened r ref tech)
  from opened(8) show ?thesis
  proof (cases rule: open_position_InrE)
    case 1
    then show ?thesis using opened(6) by (auto simp: remember_order_def)
  qed
qed simp_all

lemma close_position_other_fields:
  assumes "close_position env s price b = (x, b')"
  shows "pb_settings b' = pb_settings b" "pb_filled b' = pb_filled b"
  using assms
  by (auto simp: close_position_def Let_def split: option.splits if_splits dest: close_at_other_fields)

lemma place_order_settings: "place_order env a b = (x, b') \<Longrightarrow> pb_settings b' = pb_settings b"
proof (induction rule: place_order_cases)
  case (closed r ref pos b1)
  then show ?case by (auto dest: close_at_other_fields)
next
  case (close_failed e ref pos)
  then show ?case by (auto dest: close_at_other_fields)
next
  case (opened r ref tech)
  from opened(8) show ?case by (cases rule: open_position_InrE) simp
qed simp_all

lemma restore_fields [simp]:
  "pb_settings (restore_portfolio_state out b) = pb_settings b"
  "pb_filled (restore_portfolio_state out b) = pb_filled b"
  by (auto simp: restore_portfolio_state_def Let_def split: option.split)

lemma broker_step_settings [simp]: "pb_settings (broker_step ev b) = pb_settings b"
  by (cases ev)
    (auto simp: disconnect_def connect_def place_order_settings [OF surjective_pairing]
      close_position_other_fields(1) [OF surjective_pairing] split: sum.split)

lemma broker_step_filled:
  "pb_filled (broker_step ev b) = pb_filled b \<or>
    (\<exists>pid r. map_of (pb_filled b) pid = None \<and>
      pb_filled (broker_step ev b) = remember IDEMPOTENCY_CACHE_SIZE pid r (pb_filled b))"
proof (cases ev)
  case (Ev_place env a)
  then show ?thesis using place_order_filled [OF surjective_pairing, of env a b] by auto
qed (auto simp: disconnect_def connect_def close_position_other_fields(2) [OF surjective_pairing]
    split: sum.split)

interpretation results: bounded_memory broker_step pb_filled IDEMPOTENCY_CACHE_SIZE broker_ok event_ok
  by unfold_locales (use broker_step_ok broker_step_filled in \<open>auto simp: broker_ok_def\<close>)

lemma broker_run_ok: "list_all event_ok evs \<Longrightarrow> broker_ok b \<Longrightarrow> broker_ok (broker_run evs b)"
  unfolding broker_run_def by (rule results.run_inv)

lemma broker_run_settings [simp]: "pb_settings (broker_run evs b) = pb_settings b"
  by (induction evs arbitrary: b) (simp_all add: broker_run_def)

lemma place_order_new_filled:
  assumes "place_order env a b = (Inr r, b')" "map_of (pb_filled b) (ra_proposal_id a) = None"
  shows "pb_filled b' = remember IDEMPOTENCY_CACHE_SIZE (ra_proposal_id a) r (pb_filled b)"
  using assms(1)
proof (cases rule: place_order_cases)
  case (closed r' ref pos b1)
  then show ?thesis using close_at_other_fields(2) [OF closed(7)] by (simp add: remember_order_def)
next
  case (opened r' ref tech)
  from opened(8) show ?thesis
    by (cases rule: open_position_InrE) (use opened(1) in \<open>simp add: remember_order_def\<close>)
qed (use assms(2) in simp_all)

text \<open>Opening on the grid is exact.\<close>

lemma sum_costs_nonneg: "positions_ok ps \<Longrightarrow> 0 \<le> sum_list (map pp_cost_usd (dvals ps))"
  by (rule sum_list_nonneg) (auto simp: positions_ok_def position_ok_def list_all_iff intro: less_imp_le)

lemma place_order_open_aux:
  assumes "place_order env a b = (Inr r, b')" "map_of (pb_filled b) (ra_proposal_id a) = None"
    "book b (tp_symbol (ra_original_proposal a)) = None" "env_ok env"
  obtains ref fp rq fq fee pos where
    "slipped_price (tp_side (ra_original_proposal a)) ref = Some fp" "0 < ref"
    "quantize toward_zero QTY_PLACES (ddiv (effective_size_usd a) fp) = Some rq"
    "0 < effective_size_usd a" "0 < fp" "0 < fq" "fq \<le> rq" "taker_fee (dmul fq fp) = Some fee" "0 \<le> fee"
    "dmul fq fp \<le> dadd (dmul fq fp) fee" "dadd (dmul fq fp) fee \<le> pb_cash b" "grid 8 fq" "grid 8 fp"
    "pos = \<lparr>pp_symbol = tp_symbol (ra_original_proposal a), pp_side = tp_side (ra_original_proposal a),
       pp_quantity = fq, pp_entry_price = fp, pp_cost_usd = dadd (dmul fq fp) fee\<rparr>"
    "pb_cash b' = dsub (pb_cash b) (pp_cost_usd pos)"
    "pb_positions b' = pb_positions b @ [(tp_symbol (ra_original_proposal a), pos)]"
    "er_filled_quantity r = fq" "er_average_fill_price r = Some fp" "er_total_cost_usd r = Some (dmul fq fp)"
    "\<exists>tech. as_technical_signal (tp_signal (ra_original_proposal a)) = Some tech \<and> ref = dec_of_float (ts_price tech)"
    "er_requested_quantity r = rq"
  using assms(1)
proof (cases rule: place_order_cases)
  case (opened r' ref tech)
  from opened(8) show ?thesis
  proof (cases rule: open_position_InrE)
    case (1 fp rq fq st fee pos)
    note o = opened_position_ok [OF 1(1,2) opened(3) 1(3,4,6,7) assms(4)]
    have rq: "dr rq = rq" "grid 8 rq"
      using 1(3) by (auto simp: QTY_PLACES_def dest: quantize_exact quantize_grid)
    show ?thesis
      by (rule that [of ref fp rq fq fee pos])
        (use opened 1 o partial_fill_bounds(3) [OF 1(6,4) rq assms(4)] slipped_price_grid [OF 1(1)]
          in \<open>auto simp: update_new\<close>)
  qed
qed (use assms(2,3) in \<open>auto simp: book_def\<close>)

lemma open_exact:
  assumes "place_order env a b = (Inr r, b')" "map_of (pb_filled b) (ra_proposal_id a) = None"
    "book b (tp_symbol (ra_original_proposal a)) = None" "env_ok env" "broker_ok b" "on_grid b"
  shows "0 \<le> pb_cash b' \<and> equity b' = equity b \<and> on_grid b'"
proof (cases rule: place_order_open_aux [OF assms(1-4)])
  case o: (1 ref fp rq fq fee pos)
  have costs: "0 \<le> sum_list (map pp_cost_usd (dvals (pb_positions b)))"
    by (rule sum_costs_nonneg [OF broker_ok_positions [OF assms(5)]])
  have c: "grid 16 (pb_cash b)" "0 \<le> pb_cash b" "pb_cash b \<le> 10 ^ 11"
    using assms(6) costs by (auto simp: on_grid_def equity_def)
  have pos: "pp_quantity pos = fq" "pp_entry_price pos = fp" "pp_cost_usd pos = dadd (dmul fq fp) fee"
    by (simp_all add: o(14))
  note t = opening_costs [OF o(12,13,6,5,8,9,11) c(3)]
  have g: "grid 16 (pb_cash b - pp_cost_usd pos)" unfolding pos t(2) by (rule grid_diff [OF c(1) t(4)])
  have "0 \<le> pp_cost_usd pos" using o(5,6,9) by (simp add: pos t(2))
  moreover have le: "pp_cost_usd pos \<le> pb_cash b" using o(11) pos by simp
  ultimately have cash: "pb_cash b' = pb_cash b - pp_cost_usd pos"
    using c g unfolding o(15) dsub_def by (intro dr_cent_grid) simp_all
  have eq: "equity b' = equity b" by (simp add: equity_def cash o(16))
  have "grid 16 (pp_cost_usd pos)" unfolding pos t(2) by (rule t(4))
  then have "on_grid b'"
    using assms(6) eq cash le g o(12,13) by (simp add: on_grid_def o(16) pos)
  then show ?thesis using eq cash le by simp
qed

text \<open>The balance report adds up the costs without rounding on the grid.\<close>

lemma get_balance_exact:
  assumes "broker_ok b" "on_grid b"
  shows "bb_total_equity_usd (get_balance b) = equity b"
proof -
  define cs where "cs = map pp_cost_usd (dvals (pb_positions b))"
  have pos: "\<forall>x\<in>set cs. 0 \<le> x"
    using broker_ok_positions [OF assms(1)]
    by (auto simp: cs_def positions_ok_def position_ok_def list_all_iff intro: less_imp_le)
  then have abs: "map abs cs = cs" by (auto intro: map_idI)
  have sum: "0 \<le> sum_list cs" using pos by (simp add: sum_list_nonneg)
  have g: "\<forall>x\<in>set cs. grid 16 x" using assms(2) by (auto simp: on_grid_def cs_def list_all_iff)
  have le: "sum_list cs \<le> 10 ^ 11" "0 \<le> pb_cash b" "equity b \<le> 10 ^ 11" "grid 16 (pb_cash b)"
    using assms(2) by (auto simp: on_grid_def equity_def cs_def)
  have d: "dsum cs = sum_list cs"
    by (rule dsum_exact [OF g]) (use le abs in simp_all)
  have "grid 16 (sum_list cs)" using g by (induction cs) (auto simp: grid_zero grid_add)
  then have "dadd (pb_cash b) (sum_list cs) = pb_cash b + sum_list cs"
    using le sum unfolding dadd_def
    by (intro dr_cent_grid grid_add) (simp_all add: equity_def cs_def)
  then show ?thesis using d by (simp add: get_balance_def equity_def cs_def Let_def)
qed

text \<open>A close at the price of the open returns no more than the position cost.\<close>

lemma close_realizes_loss:
  assumes "slipped_price side ref = Some fp" "slipped_price (opposite side) ref = Some xp" "0 < ref"
    "0 < q" "cost = dadd (dmul q fp) fee0" "0 \<le> fee0" "taker_fee (dmul q xp) = Some fee"
    "ret = (case side of BUY \<Rightarrow> dsub (dmul q xp) fee
       | SELL \<Rightarrow> dsub (dadd cost (dmul (dsub fp xp) q)) fee)"
  shows "ret \<le> cost"
proof -
  have xp: "0 \<le> xp" "0 \<le> fp" using slipped_price_nonneg assms(1-3) by (auto simp: less_imp_le)
  then have nx: "0 \<le> dmul q xp" using assms(4) by (simp add: dmul_def decimal28.rnd_nonneg)
  have fee: "0 \<le> fee" by (rule taker_fee_nonneg [OF assms(7) nx])
  show ?thesis
  proof (cases side)
    case BUY
    then have "xp \<le> fp" using slipped_price_spread [of ref xp fp] assms(1-3) by simp
    then have "dmul q xp \<le> dmul q fp"
      unfolding dmul_def using assms(4) by (intro decimal28.rnd_mono mult_left_mono) simp_all
    moreover have "dmul q fp \<le> cost"
      using assms(6) unfolding assms(5) dadd_def by (intro decimal28.rnd_ge_exact) simp_all
    moreover have "ret \<le> dmul q xp"
      using fee BUY unfolding assms(8) dsub_def by (simp add: decimal28.rnd_diff_le)
    ultimately show ?thesis by linarith
  next
    case SELL
    then have "fp \<le> xp" using slipped_price_spread [of ref fp xp] assms(1-3) by simp
    then have "dsub fp xp \<le> 0" by (simp add: dsub_def decimal28.rnd_nonpos)
    then have "dmul (dsub fp xp) q \<le> 0"
      using assms(4) by (simp add: dmul_def decimal28.rnd_nonpos mult_nonpos_nonneg)
    then have "dadd cost (dmul (dsub fp xp) q) \<le> cost"
      unfolding dadd_def by (intro decimal28.rnd_le_exact) (simp_all add: assms(5))
    moreover have "dsub (dadd cost (dmul (dsub fp xp) q)) fee \<le> dadd cost (dmul (dsub fp xp) q)"
      using fee unfolding dsub_def by (intro decimal28.rnd_diff_le) simp_all
    ultimately show ?thesis using SELL by (simp add: assms(8))
  qed
qed

subsection \<open>Properties\<close>

definition mk_env :: "rat \<Rightarrow> rat \<Rightarrow> paper_env" where
  "mk_env draw ratio = \<lparr>pe_partial_draw = draw, pe_ratio_draw = ratio, pe_result_id = 10,
     pe_proposal_uuid = 11, pe_assessment_uuid = 12, pe_now = 0, pe_save = Save_ok\<rparr>"

definition fresh_broker :: paper_broker where
  "fresh_broker = set_bus True
     (new_paper_broker default_settings \<lparr>ps_cash = None, ps_positions = None\<rparr>)"

text \<open>A concrete order: 64.032 USD of BTC/USDT at 64000, filled in full by a fresh broker, and the
  close of the resulting position at the same price.\<close>

definition demo_env :: paper_env where "demo_env = mk_env (1 / 2) 0"
definition demo_buy :: risk_assessment where
  "demo_buy = mk_assessment 7 ''BTC/USDT'' BUY (64032 / 1000) 64000"
definition demo_fill :: execution_result where "demo_fill = projr (fst (place_order demo_env demo_buy fresh_broker))"
definition demo_book :: paper_broker where "demo_book = snd (place_order demo_env demo_buy fresh_broker)"
definition demo_exit :: execution_result where
  "demo_exit = the (projr (fst (close_position demo_env ''BTC/USDT'' (Some 64000) demo_book)))"
definition demo_flat :: paper_broker where
  "demo_flat = snd (close_position demo_env ''BTC/USDT'' (Some 64000) demo_book)"

lemma demo_open: "place_order demo_env demo_buy fresh_broker = (Inr demo_fill, demo_book)"
proof -
  have "\<not> isl (fst (place_order demo_env demo_buy fresh_broker))" by code_simp
  then show ?thesis by (simp add: demo_fill_def demo_book_def prod_eq_iff)
qed

lemma demo_close: "close_position demo_env ''BTC/USDT'' (Some 64000) demo_book = (Inr (Some demo_exit), demo_flat)"
proof -
  have "case fst (close_position demo_env ''BTC/USDT'' (Some 64000) demo_book) of
      Inr (Some r) \<Rightarrow> True | _ \<Rightarrow> False"
    by code_simp
  then show ?thesis
    by (auto simp: demo_exit_def demo_flat_def prod_eq_iff split: sum.splits option.splits)
qed

lemma demo_ok: "broker_ok fresh_broker" "env_ok demo_env" "map_of (pb_filled fresh_broker) x = None"
proof -
  show "broker_ok fresh_broker"
    by (simp add: fresh_broker_def set_bus_def new_paper_broker_def broker_ok_def positions_ok_def store_ok_def)
  show "env_ok demo_env" by (simp add: demo_env_def mk_env_def env_ok_def)
  show "map_of (pb_filled fresh_broker) x = None"
    by (simp add: fresh_broker_def set_bus_def new_paper_broker_def)
qed

lemma demo_book_ok: "broker_ok demo_book"
  using place_order_broker_ok [OF demo_open] demo_ok by blast

text \<open>C6: an order that succeeded once is never executed again: while fewer than 1000 further broker
  events have happened (orders, closes, reconnects, in any order and with any failures), placing an
  order with the same proposal id returns the result of the first one and leaves the broker exactly
  as it is.\<close>

theorem paper_order_idempotent:
  assumes "broker_ok b" "env_ok env" "place_order env a b = (Inr r, b')"
    and "map_of (pb_filled b) (ra_proposal_id a) = None"
    and "list_all event_ok evs" "length evs < 1000"
    and "ra_proposal_id a' = ra_proposal_id a"
  shows "place_order env' a' (broker_run evs b') = (Inr r, broker_run evs b')"
proof -
  have "map_of (pb_filled (broker_run evs b')) (ra_proposal_id a) = Some r"
    unfolding broker_run_def
    by (rule results.remembered_stays [OF assms(5) place_order_broker_ok [OF assms(3,1,2)] _ assms(4) _
          place_order_new_filled [OF assms(3,4)]])
      (use assms(1,6) in \<open>simp_all add: broker_ok_def IDEMPOTENCY_CACHE_SIZE_def\<close>)
  moreover have "is_paper_trading (pb_settings b')"
    by (rule place_order_remembers(2) [OF assms(3,1,2)])
  ultimately show ?thesis
    using assms(7) by (simp add: place_order_def assert_paper_mode_def)
qed

theorem paper_order_idempotent_witness:
  "let evs = [Ev_close demo_env ''BTC/USDT'' (Some 65000), Ev_disconnect Save_ok]
   in place_order demo_env demo_buy fresh_broker = (Inr demo_fill, demo_book) \<and>
      place_order demo_env demo_buy (broker_run evs demo_book) = (Inr demo_fill, broker_run evs demo_book)"
proof -
  define evs where "evs = [Ev_close demo_env ''BTC/USDT'' (Some 65000), Ev_disconnect Save_ok]"
  have "place_order demo_env demo_buy (broker_run evs demo_book) = (Inr demo_fill, broker_run evs demo_book)"
    by (rule paper_order_idempotent [OF demo_ok(1,2) demo_open demo_ok(3)]) (simp_all add: evs_def)
  then show ?thesis using demo_open by (simp add: evs_def)
qed

text \<open>C3: on every branch an order does to the book what the abstract order does: with a result that
  is new, it opens a position on the order's side where the symbol had none and closes the position
  where the symbol had the opposite one; with an error, the book is unchanged (unless closing the
  opposite position overflowed the 28 digits of Decimal, which loses that position); and no other
  symbol is touched.\<close>

theorem paper_order_refines_book:
  assumes "place_order env a b = (x, b')" "map_of (pb_filled b) (ra_proposal_id a) = None"
  defines "s \<equiv> tp_symbol (ra_original_proposal a)" and "side \<equiv> tp_side (ra_original_proposal a)"
  shows "(returns x \<longrightarrow> book b' = book_order s side (book b) \<and> book b s \<noteq> Some side) \<and>
    (\<forall>e. x = Inl e \<longrightarrow> b' = b \<or> e = Decimal_invalid \<and> book b s = Some (opposite side) \<and>
       book b' = (book b)(s := None) \<and> pb_cash b' = pb_cash b)"
proof (intro conjI impI allI)
  assume "returns x"
  then obtain r where r: "x = Inr r" by blast
  show "book b' = book_order s side (book b)"
    unfolding s_def side_def by (rule place_order_book_aux) (use assms(1,2) r in simp_all)
  show "book b s \<noteq> Some side"
    using assms(1) by (cases rule: place_order_cases) (auto simp: assms r book_def)
next
  fix e assume "x = Inl e"
  then have "place_order env a b = (Inl e, b')" using assms(1) by simp
  from place_order_error_aux [OF this]
  show "b' = b \<or> e = Decimal_invalid \<and> book b s = Some (opposite side) \<and>
      book b' = (book b)(s := None) \<and> pb_cash b' = pb_cash b"
    by (auto simp: s_def side_def book_def fun_eq_iff)
qed

theorem paper_order_refines_book_witness:
  "book demo_book = book_order ''BTC/USDT'' BUY (book fresh_broker) \<and> book demo_book ''BTC/USDT'' = Some BUY"
proof -
  have d: "tp_symbol (ra_original_proposal demo_buy) = ''BTC/USDT''"
    "tp_side (ra_original_proposal demo_buy) = BUY"
    by (simp_all add: demo_buy_def mk_assessment_def mk_proposal_def)
  have "book demo_book = book_order ''BTC/USDT'' BUY (book fresh_broker)"
    using paper_order_refines_book [OF demo_open demo_ok(3)] by (simp add: d)
  moreover have "book fresh_broker = (\<lambda>_. None)"
    by (simp add: book_def fun_eq_iff fresh_broker_def set_bus_def new_paper_broker_def)
  ultimately show ?thesis by (simp add: book_order_def)
qed

text \<open>C14: an order that opens a position moves money, it does not create or destroy any: on every
  portfolio of the exact grid (amounts in \<open>10 ^ -16\<close>, equity up to 100 billion) the cash stays
  non-negative, cash plus cost basis is unchanged, the reported total equity is unchanged, and the
  portfolio is on the grid again.\<close>

theorem paper_open_conserves_equity:
  assumes "broker_ok b" "on_grid b" "env_ok env"
    and "place_order env a b = (Inr r, b')" "map_of (pb_filled b) (ra_proposal_id a) = None"
    and "book b (tp_symbol (ra_original_proposal a)) = None"
  shows "0 \<le> pb_cash b' \<and> equity b' = equity b \<and> on_grid b' \<and>
    bb_total_equity_usd (get_balance b') = bb_total_equity_usd (get_balance b)"
proof -
  note e = open_exact [OF assms(4-6,3,1,2)]
  moreover have "broker_ok b'" by (rule place_order_broker_ok [OF assms(4,1,3)])
  ultimately show ?thesis using get_balance_exact assms(1,2) by auto
qed

theorem paper_open_conserves_equity_witness:
  "on_grid fresh_broker \<and> equity demo_book = equity fresh_broker \<and> 0 \<le> pb_cash demo_book"
proof -
  have c: "pb_cash fresh_broker = 10000"
    by (simp add: fresh_broker_def set_bus_def new_paper_broker_def) code_simp
  have p: "pb_positions fresh_broker = []"
    by (simp add: fresh_broker_def set_bus_def new_paper_broker_def)
  have "grid 16 10000" unfolding grid_def by (rule exI [of _ "10 ^ 20"]) simp
  then have g: "on_grid fresh_broker" by (simp add: on_grid_def equity_def c p)
  have "book fresh_broker (tp_symbol (ra_original_proposal demo_buy)) = None" by (simp add: book_def p)
  then show ?thesis
    using paper_open_conserves_equity [OF demo_ok(1) g demo_ok(2) demo_open demo_ok(3)] g by blast
qed

text \<open>C15: there is no free round trip: a position, long or short, that is opened and then closed at
  the same reference price never realizes a profit, whatever the slippage rounding, the partial fill
  and the fees came to; and on the exact grid the cash afterwards is at most the cash before.\<close>

theorem paper_round_trip_loses:
  assumes "broker_ok b" "env_ok env"
    and "place_order env a b = (Inr r, b1)" "map_of (pb_filled b) (ra_proposal_id a) = None"
    and "book b (tp_symbol (ra_original_proposal a)) = None"
    and "as_technical_signal (tp_signal (ra_original_proposal a)) = Some tech"
    and "close_position env' (tp_symbol (ra_original_proposal a)) (Some (dec_of_float (ts_price tech))) b1
      = (Inr (Some r2), b2)"
  shows "the (er_realized_pnl_usd r2) \<le> 0 \<and> (on_grid b \<longrightarrow> pb_cash b2 \<le> pb_cash b)"
proof (cases rule: place_order_open_aux [OF assms(3-5,2)])
  case o: (1 ref fp rq fq fee0 pos)
  have l: "map_of (pb_positions b1) (tp_symbol (ra_original_proposal a)) = Some pos"
    using assms(5) by (simp add: o(16) book_def map_add_def)
  have "close_at env' (tp_symbol (ra_original_proposal a)) ref (pe_proposal_uuid env')
      (pe_assessment_uuid env') b1 = (Inr (Some r2), b2)"
    using assms(6,7) o(2,20) l by (simp add: close_position_def)
  then show ?thesis
  proof (cases rule: close_at_SomeE)
    case (1 pos' xp fee ret realized)
    have pos: "pos' = pos" using 1(1) l by simp
    have f: "pp_side pos = tp_side (ra_original_proposal a)" "pp_quantity pos = fq"
      "pp_entry_price pos = fp" "pp_cost_usd pos = dadd (dmul fq fp) fee0"
      by (simp_all add: o(14))
    have ret: "ret \<le> pp_cost_usd pos" unfolding f(4)
      by (rule close_realizes_loss [OF o(1) 1(2) [unfolded pos f] o(2,6) refl o(9)
            1(3) [unfolded pos f] 1(4) [unfolded pos f]])
    have cash: "pb_cash b2 = dadd (pb_cash b1) ret" by (simp add: 1(6))
    have "realized \<le> 0"
      by (rule quantize_rne_nonpos [OF _ 1(5)]) (use ret pos in \<open>simp add: dsub_def decimal28.rnd_nonpos\<close>)
    moreover have "pb_cash b2 \<le> pb_cash b" if g: "on_grid b"
    proof -
      have exact: "pb_cash b1 = pb_cash b - pp_cost_usd pos"
        using open_exact [OF assms(3-5,2,1) g] by (simp add: equity_def o(16))
      have "dr (pb_cash b) = pb_cash b"
        using g sum_costs_nonneg [OF broker_ok_positions [OF assms(1)]]
        by (intro dr_cent_grid) (auto simp: on_grid_def equity_def)
      then show ?thesis
        using ret exact unfolding cash dadd_def by (intro decimal28.rnd_le_exact) simp_all
    qed
    ultimately show ?thesis using 1(7) by simp
  qed
qed

theorem paper_round_trip_loses_witness:
  "the (er_realized_pnl_usd demo_exit) \<le> 0 \<and>
   close_position demo_env ''BTC/USDT'' (Some 64000) demo_book = (Inr (Some demo_exit), demo_flat)"
proof -
  define tech where "tech = mk_technical ''BTC/USDT'' BUY_DIR (3 / 4) 64000 0"
  have d: "tp_symbol (ra_original_proposal demo_buy) = ''BTC/USDT''"
    "as_technical_signal (tp_signal (ra_original_proposal demo_buy)) = Some tech"
    by (simp_all add: demo_buy_def mk_assessment_def mk_proposal_def mk_aggregated_def tech_def)
  have "dec_of_float 64000 = 64000" by code_simp
  then have p: "dec_of_float (ts_price tech) = 64000" by (simp add: tech_def mk_technical_def)
  have f: "book fresh_broker s = None" for s
    by (simp add: book_def fresh_broker_def set_bus_def new_paper_broker_def)
  have "the (er_realized_pnl_usd demo_exit) \<le> 0"
    using paper_round_trip_loses [OF demo_ok(1,2) demo_open demo_ok(3) f d(2), of demo_env demo_exit demo_flat]
      demo_close by (simp add: d p)
  then show ?thesis using demo_close by simp
qed

text \<open>C34: an opened position is never larger than the size risk approved: filled quantity times fill
  price exceeds the effective size by at most one part in \<open>10 ^ 27\<close> (the rounding of the 28-digit
  division), and the filled quantity is positive and at most the requested one.\<close>

theorem paper_fill_within_size:
  assumes "env_ok env" "place_order env a b = (Inr r, b')"
    and "map_of (pb_filled b) (ra_proposal_id a) = None"
    and "book b (tp_symbol (ra_original_proposal a)) = None"
  shows "0 < er_filled_quantity r \<and> er_filled_quantity r \<le> er_requested_quantity r \<and>
    er_filled_quantity r * the (er_average_fill_price r) \<le> effective_size_usd a * (1 + 1 / 10 ^ 27)"
proof (cases rule: place_order_open_aux [OF assms(2-4,1)])
  case o: (1 ref fp rq fq fee pos)
  define x where "x = effective_size_usd a / fp"
  have x0: "0 < x" using o(4,5) by (simp add: x_def)
  have q: "quantize toward_zero 8 (dr x) = Some rq" using o(3) by (simp add: x_def ddiv_def QTY_PLACES_def)
  then have rq: "rq \<le> dr x" using quantize_down_nonneg [of "dr x" 8 rq] x0 by (simp add: decimal28.rnd_nonneg)
  have "1 / 10 ^ 8 \<le> dr x"
    using grid_ge [OF quantize_grid [OF q]] rq o(6,7) by simp
  moreover have "dr (1 / 10 ^ 9) = 1 / 10 ^ 9" by code_simp
  ultimately have "\<not> x \<le> 1 / 10 ^ 9" using decimal28.rnd_le_exact [of "1 / 10 ^ 9" x] by auto
  then have "1 / 10 ^ 40 \<le> \<bar>x\<bar>" using x0 by simp
  then have near: "dr x - x \<le> x / (2 * 10 ^ 27)" using abs_le_D1 [OF dr_near [of x]] x0 by simp
  have half: "x / (2 * 10 ^ 27) \<le> x / 10 ^ 27" using x0 by simp
  have "fq \<le> x + x / 10 ^ 27" using near half rq o(7) by linarith
  then have "fq \<le> x * (1 + 1 / 10 ^ 27)" by (simp add: distrib_left)
  then have "fq * fp \<le> x * (1 + 1 / 10 ^ 27) * fp" using o(5) by (intro mult_right_mono) simp_all
  also have "x * (1 + 1 / 10 ^ 27) * fp = effective_size_usd a * (1 + 1 / 10 ^ 27)"
    using o(5) by (simp add: x_def)
  finally show ?thesis using o(6,7) unfolding o(17,18,21) option.sel by blast
qed

theorem paper_fill_within_size_witness:
  "er_filled_quantity demo_fill * the (er_average_fill_price demo_fill)
     \<le> effective_size_usd demo_buy * (1 + 1 / 10 ^ 27) \<and> 0 < er_filled_quantity demo_fill \<and>
   er_filled_quantity demo_fill \<le> er_requested_quantity demo_fill"
proof -
  have "book fresh_broker (tp_symbol (ra_original_proposal demo_buy)) = None"
    by (simp add: book_def fresh_broker_def set_bus_def new_paper_broker_def)
  then show ?thesis using paper_fill_within_size [OF demo_ok(2) demo_open demo_ok(3)] by simp
qed

text \<open>C16: whatever sequence of orders, closes, reconnects and disconnects a broker goes through, with
  whatever failures of Redis, its representation stays well formed: one position per symbol under its
  own name with positive quantity, price and cost, at most 1000 remembered results with distinct ids,
  and a well-formed stored portfolio.\<close>

theorem paper_broker_invariant:
  assumes "store_ok store" "list_all event_ok evs"
  shows "broker_ok (broker_run evs (set_bus up (new_paper_broker s store)))"
proof (rule broker_run_ok [OF assms(2)])
  show "broker_ok (set_bus up (new_paper_broker s store))"
    using new_paper_broker_ok [OF assms(1), of s] by (simp add: set_bus_def broker_ok_def)
qed

theorem paper_broker_invariant_witness:
  "broker_ok (broker_run [Ev_connect Restore_ok Save_ok, Ev_place demo_env demo_buy,
     Ev_close demo_env ''BTC/USDT'' None, Ev_disconnect Save_cash_fails] fresh_broker)"
  unfolding fresh_broker_def
  by (rule paper_broker_invariant) (use demo_ok in \<open>simp_all add: store_ok_def\<close>)

text \<open>In live mode the paper broker never trades: starting without positions, no sequence of
  calls changes its cash, opens a position or remembers a result.\<close>

theorem paper_broker_never_live:
  assumes "st_trading_mode (pb_settings b) = LIVE" "pb_positions b = []"
  shows "pb_cash (broker_run evs b) = pb_cash b \<and> pb_positions (broker_run evs b) = [] \<and>
    pb_filled (broker_run evs b) = pb_filled b"
  using assms
proof (induction evs arbitrary: b)
  case (Cons ev evs)
  have live: "\<not> is_paper_trading (pb_settings b)" using Cons.prems by (simp add: is_paper_trading_def)
  have "pb_cash (broker_step ev b) = pb_cash b \<and> pb_positions (broker_step ev b) = [] \<and>
      pb_filled (broker_step ev b) = pb_filled b"
    using live Cons.prems(2)
    by (cases ev) (simp_all add: place_order_def assert_paper_mode_def close_position_def connect_def
        disconnect_def)
  then show ?case using Cons.IH [of "broker_step ev b"] Cons.prems by (simp add: broker_run_def)
qed (simp add: broker_run_def)

theorem paper_broker_never_live_witness:
  "pb_positions (broker_run [Ev_connect Restore_ok Save_ok, Ev_place demo_env demo_buy]
     (fresh_broker\<lparr>pb_settings := default_settings\<lparr>st_trading_mode := LIVE\<rparr>\<rparr>)) = []"
  using paper_broker_never_live [of "fresh_broker\<lparr>pb_settings := default_settings\<lparr>st_trading_mode := LIVE\<rparr>\<rparr>"]
  by (simp add: fresh_broker_def set_bus_def new_paper_broker_def)

text \<open>C35: a restart resumes the portfolio: after an order with a new result, or a close, whose writes
  to Redis succeeded, a new broker that connects to the same store has exactly the cash and the
  positions the old one had (but none of its remembered results).\<close>

theorem paper_restart_resumes:
  assumes "pb_bus b" "pe_save env = Save_ok" "is_paper_trading s"
    and "(\<exists>a r. place_order env a b = (Inr r, b') \<and> map_of (pb_filled b) (ra_proposal_id a) = None) \<or>
      (\<exists>sym price r. close_position env sym price b = (Inr (Some r), b'))"
  defines "b2 \<equiv> snd (connect Restore_ok Save_ok (set_bus True (new_paper_broker s (pb_store b'))))"
  shows "pb_cash b2 = pb_cash b' \<and> pb_positions b2 = pb_positions b' \<and> pb_filled b2 = []"
proof -
  have stored: "pb_store b1 = \<lparr>ps_cash = Some (pb_cash b1), ps_positions = Some (pb_positions b1)\<rparr>"
    if "close_at env sm ref pid aid b = (Inr (Some r), b1)" for sm ref pid aid r b1
    using that by (cases rule: close_at_SomeE) (use assms(1,2) in \<open>simp add: save_portfolio_state_def\<close>)
  have "pb_store b' = \<lparr>ps_cash = Some (pb_cash b'), ps_positions = Some (pb_positions b')\<rparr>"
    using assms(4)
  proof (elim disjE exE conjE)
    fix a r assume p: "place_order env a b = (Inr r, b')" "map_of (pb_filled b) (ra_proposal_id a) = None"
    from p(1) show ?thesis
    proof (cases rule: place_order_cases)
      case (closed r' ref pos b1)
      then show ?thesis using stored by simp
    next
      case (opened r' ref tech)
      from opened(8) show ?thesis
        by (cases rule: open_position_InrE) (use assms(1,2) in \<open>simp add: save_portfolio_state_def remember_order_def\<close>)
    qed (use p(2) in simp_all)
  next
    fix sm price r assume "close_position env sm price b = (Inr (Some r), b')"
    then show ?thesis
      by (auto simp: close_position_def Let_def split: option.splits if_splits dest: stored)
  qed
  then show ?thesis
    using assms(3) unfolding b2_def
    by (simp add: connect_def assert_paper_mode_def set_bus_def restore_portfolio_state_def
        new_paper_broker_def Let_def)
qed

theorem paper_restart_resumes_witness:
  "pb_positions (snd (connect Restore_ok Save_ok (set_bus True (new_paper_broker default_settings (pb_store demo_book)))))
     = pb_positions demo_book"
proof -
  have "pb_bus fresh_broker" "pe_save demo_env = Save_ok" "is_paper_trading default_settings"
    by (simp_all add: fresh_broker_def set_bus_def demo_env_def mk_env_def is_paper_trading_def
        default_settings_def)
  then show ?thesis using paper_restart_resumes [of fresh_broker demo_env default_settings demo_book] demo_open demo_ok(3) by blast
qed

end
