(* ===== verification/Decimal_Bounds.thy ===== *)
theory Decimal_Bounds
  imports PyNum
begin

text \<open>
  Bounds of Decimal results by powers of ten, and where \<open>quantize\<close> cannot raise: amounts bounded by
  the magnitudes of real prices and quantities stay far from the 28 digits of the context.
\<close>

lemma dr_pow10: "k \<le> 28 \<Longrightarrow> dr (10 ^ k) = 10 ^ k"
proof -
  assume "k \<le> 28"
  then have "(10 :: rat) ^ k \<le> 10 ^ 28" by (intro power_increasing) simp_all
  moreover have "grid 0 (10 ^ k)" unfolding grid_def by (rule exI [of _ "10 ^ k"]) simp
  ultimately show ?thesis by (intro dr_exact [of 0]) simp_all
qed

lemma dr_bound: "\<bar>x\<bar> \<le> 10 ^ k \<Longrightarrow> k \<le> 28 \<Longrightarrow> \<bar>dr x\<bar> \<le> 10 ^ k"
  using decimal28.rnd_le_exact [OF dr_pow10, of k "\<bar>x\<bar>"] by (simp add: decimal28.rnd_abs)

lemma dmul_bound:
  assumes "\<bar>x\<bar> \<le> 10 ^ j" "\<bar>y\<bar> \<le> 10 ^ k" "j + k \<le> 28"
  shows "\<bar>dmul x y\<bar> \<le> 10 ^ (j + k)"
  unfolding dmul_def
  by (rule dr_bound) (use assms mult_mono [OF assms(1,2)] in \<open>simp_all add: abs_mult power_add\<close>)

lemma dadd_bound:
  assumes "\<bar>x\<bar> \<le> 10 ^ k" "\<bar>y\<bar> \<le> 10 ^ k" "k < 28"
  shows "\<bar>dadd x y\<bar> \<le> 10 ^ Suc k" "\<bar>dsub x y\<bar> \<le> 10 ^ Suc k"
proof -
  have "(0 :: rat) \<le> 10 ^ k" by simp
  then have "\<bar>x + y\<bar> \<le> 10 * 10 ^ k" "\<bar>x - y\<bar> \<le> 10 * 10 ^ k" using assms(1,2) by linarith+
  then show "\<bar>dadd x y\<bar> \<le> 10 ^ Suc k" "\<bar>dsub x y\<bar> \<le> 10 ^ Suc k"
    using assms(3) unfolding dadd_def dsub_def by (intro dr_bound; simp)+
qed

lemma quantize_bounded:
  assumes "\<bar>x\<bar> \<le> 10 ^ k" "k + n < 28" "r = toward_zero \<or> r = rne"
  obtains y where "quantize r n x = Some y"
proof -
  have m: "mono r" "r (of_int i) = i" for i using assms(3) mono_rne mono_toward_zero
    by (auto simp: toward_zero_def rne_of_int)
  have "\<bar>x * 10 ^ n\<bar> \<le> of_int (10 ^ (k + n))"
    using mult_right_mono [OF assms(1), of "10 ^ n"] by (simp add: abs_mult power_add)
  then have "x * 10 ^ n \<le> of_int (10 ^ (k + n))" "of_int (- (10 ^ (k + n))) \<le> x * 10 ^ n" by auto
  then have "\<bar>r (x * 10 ^ n)\<bar> \<le> 10 ^ (k + n)"
    using monoD [OF m(1)] m(2) by (metis abs_le_iff minus_le_iff)
  also have "\<dots> < 10 ^ 28" using assms(2) by (intro power_strict_increasing) simp_all
  finally show thesis using that by (simp add: quantize_def Let_def)
qed

end
