(* ===== verification/Execution_Agent.thy ===== *)
theory Execution_Agent
  imports Base_Agent Paper_Broker Decimal_Bounds
begin

text \<open>
  The execution agent (\<open>agents/execution/agent.py\<close>). It reaches its broker through the operations of
  the interface only, so the broker is a record of operations (\<open>broker_ops\<close>), instantiated with the
  simulated broker at the end of the model. The agent's state holds the broker's state and what Redis
  holds under the three keys the agent writes. The failures of publications and writes, the price in
  the cached signal and the id and time of a failure report are the argument \<open>exec_env\<close>; the published
  results are returned. Tasks are the events of a run. An expired \<open>wait_for\<close> is an operation that
  raises; the audit row is best effort and has no effect on the agent.

  Proved here: orders are gated, every gated assessment is answered by exactly one result, the
  stop-loss monitor closes what it must, and the broker's own invariant holds throughout.
\<close>

definition HISTORY_MAX :: nat where "HISTORY_MAX = 100"

record ('b, 'e, 'c) broker_ops =
  bo_capabilities :: broker_capabilities
  bo_connect :: "'c \<Rightarrow> 'b \<Rightarrow> (error + unit) \<times> 'b"
  bo_disconnect :: "'e \<Rightarrow> 'b \<Rightarrow> 'b"
  bo_place_order :: "'e \<Rightarrow> risk_assessment \<Rightarrow> 'b \<Rightarrow> (error + execution_result) \<times> 'b"
  bo_close_position :: "'e \<Rightarrow> symbol \<Rightarrow> money option \<Rightarrow> 'b \<Rightarrow> (error + execution_result option) \<times> 'b"
  bo_get_positions :: "'e \<Rightarrow> 'b \<Rightarrow> error + broker_position list"
  bo_get_balance :: "'e \<Rightarrow> 'b \<Rightarrow> error + broker_balance"

record cached_position =
  cp_symbol :: symbol
  cp_side :: order_side
  cp_quantity :: rat
  cp_entry_price :: rat
  cp_current_price :: rat
  cp_unrealised_pnl_usd :: rat
  cp_stop_loss :: "rat option"
  cp_take_profit :: "rat option"

record 'b execution_agent =
  xa_base :: base_agent
  xa_settings :: settings
  xa_broker :: 'b
  xa_bus :: bool
  xa_last_result :: "execution_result option"
  xa_last_price :: "(symbol, money) dict"
  xa_balance_key :: "broker_balance option"
  xa_positions_key :: "cached_position list option"
  xa_history_key :: "execution_result list"

record 'e exec_env =
  xe_broker :: 'e
  xe_publish_error :: "error option"
  xe_failure_publish_ok :: bool
  xe_balance_write_ok :: bool
  xe_positions_write_ok :: bool
  xe_history_write_ok :: bool
  xe_cached_signal_price :: "money option"  \<comment> \<open>the price in the cached signal, when it can be read\<close>
  xe_failure_id :: uuid
  xe_failure_now :: time
  xe_error_text :: string  \<comment> \<open>the exception's text, or its class name when empty\<close>

subsection \<open>Choice of the broker\<close>

definition lower_char :: "char \<Rightarrow> char" where
  "lower_char c = (let n = of_char c :: int in if 65 \<le> n \<and> n \<le> 90 then char_of (n + 32) else c)"

definition uses_mt5 :: "settings \<Rightarrow> bool" where
  "uses_mt5 s \<longleftrightarrow> map lower_char (st_execution_broker s) = ''mt5''"

subsection \<open>Portfolio caching\<close>

definition cached_position_of :: "broker_position \<Rightarrow> cached_position" where
  "cached_position_of p = \<lparr>cp_symbol = bp_symbol p, cp_side = bp_side p, cp_quantity = fl (bp_quantity p),
     cp_entry_price = fl (bp_entry_price p), cp_current_price = fl (bp_current_price p),
     cp_unrealised_pnl_usd = fl (bp_unrealised_pnl_usd p),
     cp_stop_loss = (if truthy (bp_stop_loss p) then map_option fl (bp_stop_loss p) else None),
     cp_take_profit = (if truthy (bp_take_profit p) then map_option fl (bp_take_profit p) else None)\<rparr>"

definition cached_balance_of :: "broker_balance \<Rightarrow> broker_balance" where
  "cached_balance_of b = \<lparr>bb_total_equity_usd = fl (bb_total_equity_usd b),
     bb_free_margin_usd = fl (bb_free_margin_usd b), bb_used_margin_usd = fl (bb_used_margin_usd b)\<rparr>"

definition cache_portfolio_state ::
  "('b, 'e, 'c) broker_ops \<Rightarrow> 'e exec_env \<Rightarrow> 'b execution_agent \<Rightarrow> 'b execution_agent" where
  "cache_portfolio_state ops env ag =
    (if \<not> xa_bus ag then ag
     else case bo_get_balance ops (xe_broker env) (xa_broker ag) of
       Inl e \<Rightarrow> ag
     | Inr balance \<Rightarrow> (case bo_get_positions ops (xe_broker env) (xa_broker ag) of
         Inl e \<Rightarrow> ag
       | Inr positions \<Rightarrow>
           if \<not> xe_balance_write_ok env then ag
           else (let ag1 = ag\<lparr>xa_balance_key := Some (cached_balance_of balance)\<rparr> in
             if \<not> xe_positions_write_ok env then ag1
             else ag1\<lparr>xa_positions_key := Some (map cached_position_of positions)\<rparr>)))"

definition append_history :: "'e exec_env \<Rightarrow> execution_result \<Rightarrow> 'b execution_agent \<Rightarrow> 'b execution_agent" where
  "append_history env r ag = (if xa_bus ag \<and> xe_history_write_ok env
     then ag\<lparr>xa_history_key := take HISTORY_MAX (r # xa_history_key ag)\<rparr> else ag)"

subsection \<open>Lifecycle\<close>

definition execution_setup ::
  "('b, 'e, 'c) broker_ops \<Rightarrow> 'c \<Rightarrow> 'e exec_env \<Rightarrow> 'b execution_agent \<Rightarrow> (error + unit) \<times> 'b execution_agent" where
  "execution_setup ops how env ag = (case bo_connect ops how (xa_broker ag) of
     (Inl e, b) \<Rightarrow> (Inl e, ag\<lparr>xa_broker := b\<rparr>)
   | (Inr _, b) \<Rightarrow> (Inr (), cache_portfolio_state ops env (ag\<lparr>xa_broker := b\<rparr>)))"

definition teardown :: "('b, 'e, 'c) broker_ops \<Rightarrow> 'e exec_env \<Rightarrow> 'b execution_agent \<Rightarrow> 'b execution_agent" where
  "teardown ops env ag = ag\<lparr>xa_broker := bo_disconnect ops (xe_broker env) (xa_broker ag)\<rparr>"

subsection \<open>Recording\<close>

definition record_fill ::
  "('b, 'e, 'c) broker_ops \<Rightarrow> 'e exec_env \<Rightarrow> execution_result \<Rightarrow> 'b execution_agent \<Rightarrow>
     (error + unit) \<times> execution_result list \<times> 'b execution_agent" where
  "record_fill ops env r ag = (case xe_publish_error env of
     Some e \<Rightarrow> (Inl e, [], ag)
   | None \<Rightarrow> (Inr (), [r],
       (append_history env r (cache_portfolio_state ops env ag))\<lparr>xa_last_result := Some r\<rparr>))"

definition failure_result ::
  "('b, 'e, 'c) broker_ops \<Rightarrow> 'e exec_env \<Rightarrow> risk_assessment \<Rightarrow> execution_result" where
  "failure_result ops env a = (let p = ra_original_proposal a in
     \<lparr>er_result_id = xe_failure_id env, er_proposal_id = ra_proposal_id a,
      er_assessment_id = ra_assessment_id a, er_exchange_order_id = None,
      er_timestamp = xe_failure_now env, er_symbol = tp_symbol p, er_side = tp_side p,
      er_order_type = tp_order_type p, er_status = REJECTED_STATUS, er_requested_quantity = 0,
      er_filled_quantity = 0, er_average_fill_price = None, er_total_cost_usd = None,
      er_fee_usd = None, er_fee_currency = None, er_realized_pnl_usd = None,
      er_stop_loss_order_id = None, er_take_profit_order_id = None,
      er_is_paper = bc_is_paper (bo_capabilities ops), er_error_message = Some (take 500 (xe_error_text env)),
      er_retry_count = 0\<rparr>)"

definition publish_failure ::
  "('b, 'e, 'c) broker_ops \<Rightarrow> 'e exec_env \<Rightarrow> risk_assessment \<Rightarrow> 'b execution_agent \<Rightarrow>
     execution_result list \<times> 'b execution_agent" where
  "publish_failure ops env a ag = (let r = failure_result ops env a in
     if xe_failure_publish_ok env then ([r], append_history env r ag) else ([], ag))"

subsection \<open>One assessment\<close>

definition process_assessment ::
  "('b, 'e, 'c) broker_ops \<Rightarrow> 'e exec_env \<Rightarrow> risk_assessment \<Rightarrow> 'b execution_agent \<Rightarrow>
     execution_result list \<times> 'b execution_agent" where
  "process_assessment ops env a ag =
    (if \<not> should_continue (xa_base ag) then ([], ag)
     else if ba_trading_halted (xa_base ag) then ([], ag)
     else if \<not> is_approved a then ([], ag\<lparr>xa_base := record_success (xa_base ag)\<rparr>)
     else case bo_place_order ops (xe_broker env) a (xa_broker ag) of
       (Inl e, b) \<Rightarrow> publish_failure ops env a
          (ag\<lparr>xa_broker := b, xa_base := handle_error e (xa_base ag)\<rparr>)
     | (Inr r, b) \<Rightarrow> (case record_fill ops env r (ag\<lparr>xa_broker := b\<rparr>) of
          (Inl e, out, ag1) \<Rightarrow> (out, ag1\<lparr>xa_base := handle_error e (xa_base ag1)\<rparr>)
        | (Inr _, out, ag1) \<Rightarrow> (out, ag1\<lparr>xa_base := record_success (xa_base ag1)\<rparr>)))"

subsection \<open>Prices\<close>

definition consume_ticker :: "ticker \<Rightarrow> 'b execution_agent \<Rightarrow> 'b execution_agent" where
  "consume_ticker t ag = (if should_continue (xa_base ag) \<and> tk_last t > 0
     then ag\<lparr>xa_last_price := AList.update (tk_symbol t) (tk_last t) (xa_last_price ag)\<rparr> else ag)"

definition current_price :: "'e exec_env \<Rightarrow> symbol \<Rightarrow> 'b execution_agent \<Rightarrow> money option" where
  "current_price env symbol ag = (case map_of (xa_last_price ag) symbol of
     Some price \<Rightarrow> Some price
   | None \<Rightarrow> (case xe_cached_signal_price env of
       None \<Rightarrow> None | Some v \<Rightarrow> if v > 0 then Some v else None))"

subsection \<open>Stop-loss and take-profit\<close>

definition pnl_pct :: "order_side \<Rightarrow> rat \<Rightarrow> rat \<Rightarrow> rat" where
  "pnl_pct side entry current = (case side of
     BUY \<Rightarrow> fdiv (fsub current entry) entry | SELL \<Rightarrow> fdiv (fsub entry current) entry)"

definition breached :: "rat \<Rightarrow> rat \<Rightarrow> order_side \<Rightarrow> money \<Rightarrow> money \<Rightarrow> bool" where
  "breached sl tp side entry_price price =
    (let entry = fl entry_price; current = fl price in
     if entry \<le> 0 \<or> current \<le> 0 then False
     else pnl_pct side entry current \<le> - sl \<or> pnl_pct side entry current \<ge> tp)"

definition check_and_maybe_close ::
  "('b, 'e, 'c) broker_ops \<Rightarrow> 'e exec_env \<Rightarrow> broker_position \<Rightarrow> rat \<Rightarrow> rat \<Rightarrow> money \<Rightarrow> 'b execution_agent \<Rightarrow>
     (error + unit) \<times> execution_result list \<times> 'b execution_agent" where
  "check_and_maybe_close ops env pos sl tp price ag =
    (if \<not> breached sl tp (bp_side pos) (bp_entry_price pos) price then (Inr (), [], ag)
     else case bo_close_position ops (xe_broker env) (bp_symbol pos) (Some price) (xa_broker ag) of
       (Inl e, b) \<Rightarrow> (Inl e, [], ag\<lparr>xa_broker := b\<rparr>)
     | (Inr None, b) \<Rightarrow> (Inr (), [], ag\<lparr>xa_broker := b\<rparr>)
     | (Inr (Some r), b) \<Rightarrow> record_fill ops env r (ag\<lparr>xa_broker := b\<rparr>))"

text \<open>One cycle over the positions that were open at its start; an exception ends the cycle. Each
  position meets its own circumstances, given by its symbol.\<close>

fun monitor_positions ::
  "('b, 'e, 'c) broker_ops \<Rightarrow> (symbol \<Rightarrow> 'e exec_env) \<Rightarrow> (broker_position \<Rightarrow> 'b execution_agent \<Rightarrow> money option) \<Rightarrow>
     broker_position list \<Rightarrow> 'b execution_agent \<Rightarrow> execution_result list \<times> 'b execution_agent" where
  "monitor_positions ops envs price [] ag = ([], ag)"
| "monitor_positions ops envs price (pos # ps) ag = (case price pos ag of
     None \<Rightarrow> monitor_positions ops envs price ps ag
   | Some x \<Rightarrow>
      (case check_and_maybe_close ops (envs (bp_symbol pos)) pos
              (mt_stop_loss_pct (st_mt5 (xa_settings ag))) (mt_take_profit_pct (st_mt5 (xa_settings ag))) x ag of
         (Inl e, out, ag1) \<Rightarrow> (out, ag1)
       | (Inr _, out, ag1) \<Rightarrow> (case monitor_positions ops envs price ps ag1 of
            (out2, ag2) \<Rightarrow> (out @ out2, ag2))))"

text \<open>The loop condition is read here at the start of a cycle; the code reads it before the 30 second
  sleep that precedes the cycle.\<close>

definition paper_monitor_cycle ::
  "('b, 'e, 'c) broker_ops \<Rightarrow> 'e \<Rightarrow> (symbol \<Rightarrow> 'e exec_env) \<Rightarrow> 'b execution_agent \<Rightarrow>
     execution_result list \<times> 'b execution_agent" where
  "paper_monitor_cycle ops env envs ag =
    (if \<not> should_continue (xa_base ag) then ([], ag)
     else case bo_get_positions ops env (xa_broker ag) of
       Inl e \<Rightarrow> ([], ag)
     | Inr ps \<Rightarrow> monitor_positions ops envs (\<lambda>pos ag. current_price (envs (bp_symbol pos)) (bp_symbol pos) ag) ps ag)"

text \<open>The MT5 monitor prefers the price of the terminal's heartbeat, and does nothing while halted.\<close>

definition mt5_monitor_cycle ::
  "('b, 'e, 'c) broker_ops \<Rightarrow> 'e \<Rightarrow> (symbol \<Rightarrow> 'e exec_env) \<Rightarrow> 'b execution_agent \<Rightarrow>
     execution_result list \<times> 'b execution_agent" where
  "mt5_monitor_cycle ops env envs ag =
    (if \<not> should_continue (xa_base ag) \<or> ba_trading_halted (xa_base ag) then ([], ag)
     else case bo_get_positions ops env (xa_broker ag) of
       Inl e \<Rightarrow> ([], ag)
     | Inr ps \<Rightarrow> monitor_positions ops envs (\<lambda>pos ag.
         if bp_current_price pos \<le> 0 then current_price (envs (bp_symbol pos)) (bp_symbol pos) ag
         else Some (bp_current_price pos)) ps ag)"

definition execution_health_extra :: "('b, 'e, 'c) broker_ops \<Rightarrow> 'b execution_agent \<Rightarrow> (string, meta_value) dict" where
  "execution_health_extra ops ag =
    [(''broker'', Meta_text (bc_broker_name (bo_capabilities ops))),
     (''is_paper'', Meta_bool (bc_is_paper (bo_capabilities ops))),
     (''trading_halted'', Meta_bool (ba_trading_halted (xa_base ag))),
     (''prices_tracked'', Meta_num (of_nat (length (xa_last_price ag))))] @
    (case xa_last_result ag of None \<Rightarrow> []
     | Some r \<Rightarrow> [(''last_fill'', Meta_dict [(''symbol'', Meta_text (er_symbol r)),
         (''side'', Meta_text (order_side_value (er_side r))),
         (''status'', Meta_text (order_status_value (er_status r))),
         (''fill_price'', Meta_num (fl (case er_average_fill_price r of None \<Rightarrow> 0 | Some x \<Rightarrow> x))),
         (''fill_qty'', Meta_num (fl (er_filled_quantity r)))])])"

subsection \<open>The simulated broker as a broker\<close>

definition paper_ops :: "(paper_broker, paper_env, restore_outcome \<times> save_outcome) broker_ops" where
  "paper_ops = \<lparr>bo_capabilities = capabilities,
     bo_connect = (\<lambda>(restore, save) b. connect restore save b),
     bo_disconnect = (\<lambda>env b. disconnect (pe_save env) b),
     bo_place_order = place_order, bo_close_position = close_position,
     bo_get_positions = (\<lambda>env b. Inr (get_positions b)),
     bo_get_balance = (\<lambda>env b. Inr (get_balance b))\<rparr>"

lemma paper_ops_simps [simp]:
  "bo_place_order paper_ops = place_order" "bo_close_position paper_ops = close_position"
  "bo_get_positions paper_ops env b = Inr (get_positions b)"
  "bo_get_balance paper_ops env b = Inr (get_balance b)"
  by (simp_all add: paper_ops_def)

definition new_execution_agent :: "settings \<Rightarrow> bool \<Rightarrow> portfolio_store \<Rightarrow> paper_broker execution_agent" where
  "new_execution_agent s up store = \<lparr>xa_base = new_base_agent s ''execution_agent'', xa_settings = s,
     xa_broker = set_bus up (new_paper_broker s store), xa_bus = up, xa_last_result = None,
     xa_last_price = [], xa_balance_key = None, xa_positions_key = None, xa_history_key = []\<rparr>"

subsection \<open>Gating and reporting\<close>

lemma caching_fields [simp]:
  "xa_broker (cache_portfolio_state ops env ag) = xa_broker ag"
  "xa_base (cache_portfolio_state ops env ag) = xa_base ag"
  "xa_settings (cache_portfolio_state ops env ag) = xa_settings ag"
  "xa_last_price (cache_portfolio_state ops env ag) = xa_last_price ag"
  "xa_broker (append_history env r ag) = xa_broker ag"
  "xa_base (append_history env r ag) = xa_base ag"
  "xa_settings (append_history env r ag) = xa_settings ag"
  "xa_last_price (append_history env r ag) = xa_last_price ag"
  by (simp_all add: cache_portfolio_state_def append_history_def Let_def split: sum.split)

text \<open>What one assessment did.\<close>

lemma process_assessment_cases:
  assumes "process_assessment ops env a ag = (out, ag')"
  obtains
    (skipped) "\<not> should_continue (xa_base ag) \<or> ba_trading_halted (xa_base ag) \<or> \<not> is_approved a"
      "out = []" "xa_broker ag' = xa_broker ag" "xa_history_key ag' = xa_history_key ag"
      "xa_last_result ag' = xa_last_result ag"
  | (failed) e where "should_continue (xa_base ag)" "\<not> ba_trading_halted (xa_base ag)" "is_approved a"
      "bo_place_order ops (xe_broker env) a (xa_broker ag) = (Inl e, xa_broker ag')"
      "out = (if xe_failure_publish_ok env then [failure_result ops env a] else [])"
      "xa_base ag' = handle_error e (xa_base ag)"
  | (filled) r where "should_continue (xa_base ag)" "\<not> ba_trading_halted (xa_base ag)" "is_approved a"
      "bo_place_order ops (xe_broker env) a (xa_broker ag) = (Inr r, xa_broker ag')"
      "out = (if xe_publish_error env = None then [r] else [])"
      "xa_base ag' = (case xe_publish_error env of None \<Rightarrow> record_success (xa_base ag) | Some e \<Rightarrow> handle_error e (xa_base ag))"
proof (cases "\<not> should_continue (xa_base ag) \<or> ba_trading_halted (xa_base ag) \<or> \<not> is_approved a")
  case True
  then show thesis using assms by (intro skipped) (auto simp: process_assessment_def split: if_splits)
next
  case go: False
  obtain x b where pl: "bo_place_order ops (xe_broker env) a (xa_broker ag) = (x, b)"
    by (cases "bo_place_order ops (xe_broker env) a (xa_broker ag)")
  show thesis
  proof (cases x)
    case (Inl e)
    then show thesis using assms go pl
      by (intro failed [of e]) (auto simp: process_assessment_def publish_failure_def Let_def split: if_splits)
  next
    case (Inr r)
    then show thesis using assms go pl
      by (intro filled [of r])
        (auto simp: process_assessment_def record_fill_def split: option.splits)
  qed
qed

definition demo_exec_env :: "paper_env exec_env" where
  "demo_exec_env = \<lparr>xe_broker = demo_env, xe_publish_error = None, xe_failure_publish_ok = True,
     xe_balance_write_ok = True, xe_positions_write_ok = True, xe_history_write_ok = True,
     xe_cached_signal_price = None, xe_failure_id = 20, xe_failure_now = 0, xe_error_text = []\<rparr>"

definition demo_exec :: "paper_broker execution_agent" where
  "demo_exec = new_execution_agent default_settings True \<lparr>ps_cash = None, ps_positions = None\<rparr>"

definition demo_holding :: "paper_broker execution_agent" where
  "demo_holding = demo_exec\<lparr>xa_broker := demo_book, xa_last_price := [(''BTC/USDT'', 60000)]\<rparr>"

lemma demo_exec_live: "should_continue (xa_base demo_exec)" "\<not> ba_trading_halted (xa_base demo_exec)"
  "xa_broker demo_exec = fresh_broker" "is_approved demo_buy"
  by (simp_all add: demo_exec_def new_execution_agent_def new_base_agent_def should_continue_def
      fresh_broker_def demo_buy_def mk_assessment_def is_approved_def)

text \<open>C8: an order reaches the broker only from a live agent that is not halted, for an assessment
  that approves; otherwise the broker, the history and the last fill stay as they are and nothing is
  published.\<close>

theorem execution_orders_gated:
  assumes "process_assessment ops env a ag = (out, ag')"
    and "\<not> should_continue (xa_base ag) \<or> ba_trading_halted (xa_base ag) \<or> \<not> is_approved a"
  shows "out = [] \<and> xa_broker ag' = xa_broker ag \<and> xa_history_key ag' = xa_history_key ag \<and>
    xa_last_result ag' = xa_last_result ag"
  using assms(1) by (cases rule: process_assessment_cases) (use assms(2) in auto)

theorem execution_orders_gated_witness:
  "case process_assessment paper_ops demo_exec_env demo_buy
      (demo_exec\<lparr>xa_base := (xa_base demo_exec)\<lparr>ba_trading_halted := True\<rparr>\<rparr>) of
     (out, ag') \<Rightarrow> out = [] \<and> xa_broker ag' = xa_broker demo_exec"
  by (cases "process_assessment paper_ops demo_exec_env demo_buy
      (demo_exec\<lparr>xa_base := (xa_base demo_exec)\<lparr>ba_trading_halted := True\<rparr>\<rparr>)")
    (use execution_orders_gated [of paper_ops demo_exec_env demo_buy
      "demo_exec\<lparr>xa_base := (xa_base demo_exec)\<lparr>ba_trading_halted := True\<rparr>\<rparr>"] in auto)

text \<open>C21: an assessment that passes the gate is answered by exactly one published result while the
  bus takes messages: the broker's own, or a rejected one that names the proposal, the symbol and
  the side and fills nothing, so that the risk agent can release what it reserved. A failure is
  counted, a fill resets the count.\<close>

theorem execution_answers_once:
  assumes "process_assessment ops env a ag = (out, ag')"
    and "should_continue (xa_base ag)" "\<not> ba_trading_halted (xa_base ag)" "is_approved a"
    and "xe_publish_error env = None" "xe_failure_publish_ok env"
  shows "\<exists>r. out = [r] \<and>
    (case bo_place_order ops (xe_broker env) a (xa_broker ag) of
       (Inr r', b) \<Rightarrow> r = r' \<and> xa_broker ag' = b \<and> ba_consecutive_errors (xa_base ag') = 0
     | (Inl e, b) \<Rightarrow> er_status r = REJECTED_STATUS \<and> er_filled_quantity r = 0 \<and>
         er_proposal_id r = ra_proposal_id a \<and> er_symbol r = tp_symbol (ra_original_proposal a) \<and>
         er_side r = tp_side (ra_original_proposal a) \<and> xa_broker ag' = b \<and>
         ba_consecutive_errors (xa_base ag') = ba_consecutive_errors (xa_base ag) + 1)"
  using assms(1)
proof (cases rule: process_assessment_cases)
  case (failed e)
  then show ?thesis using assms(6) by (simp add: failure_result_def Let_def handle_error_def)
next
  case (filled r)
  then show ?thesis using assms(5) by (simp add: record_success_def)
qed (use assms in simp)

theorem execution_answers_once_witness:
  "case process_assessment paper_ops demo_exec_env demo_buy demo_exec of
     (out, ag') \<Rightarrow> out = [demo_fill] \<and> xa_broker ag' = demo_book"
proof -
  obtain out ag' where p: "process_assessment paper_ops demo_exec_env demo_buy demo_exec = (out, ag')"
    by (cases "process_assessment paper_ops demo_exec_env demo_buy demo_exec")
  have e: "xe_publish_error demo_exec_env = None" "xe_failure_publish_ok demo_exec_env" "xe_broker demo_exec_env = demo_env"
    by (simp_all add: demo_exec_env_def)
  show ?thesis
    using execution_answers_once [OF p demo_exec_live(1,2,4) e(1,2)] by (simp add: p e(3) demo_exec_live(3) demo_open)
qed

subsection \<open>The stop-loss monitor of the simulated broker\<close>

text \<open>Positions of realistic size: no quantization of a close can exceed the 28 digits.\<close>

definition modest :: "paper_position \<Rightarrow> bool" where
  "modest pos \<longleftrightarrow> position_ok pos \<and> pp_quantity pos \<le> 10 ^ 9 \<and> pp_entry_price pos \<le> 10 ^ 9 \<and> pp_cost_usd pos \<le> 10 ^ 18"

lemma close_at_total:
  assumes "map_of (pb_positions b) s = Some pos" "modest pos" "0 < price" "price \<le> 10 ^ 9"
  obtains r b' where "close_at env s price pid aid b = (Inr (Some r), b')"
    "pb_positions b' = AList.delete s (pb_positions b)" "pb_settings b' = pb_settings b"
    "er_symbol r = s" "er_side r = opposite (pp_side pos)" "er_status r = FILLED"
    "er_filled_quantity r = pp_quantity pos" "er_result_id r = pe_result_id env"
proof -
  have q: "\<bar>pp_quantity pos\<bar> \<le> 10 ^ 9" "\<bar>pp_entry_price pos\<bar> \<le> 10 ^ 10" "\<bar>pp_cost_usd pos\<bar> \<le> 10 ^ 20" "\<bar>price\<bar> \<le> 10 ^ 9"
    using assms(2-4) by (simp_all add: modest_def position_ok_def)
  have f: "\<bar>2001 / 2000 :: rat\<bar> \<le> 10 ^ 1" "\<bar>1999 / 2000 :: rat\<bar> \<le> 10 ^ 1" by simp_all
  obtain xp where xp: "slipped_price (opposite (pp_side pos)) price = Some xp" "\<bar>xp\<bar> \<le> 10 ^ 10"
  proof -
    have s: "\<bar>dmul price c\<bar> \<le> 10 ^ 10 \<and> 0 \<le> dmul price c" if "\<bar>c\<bar> \<le> 10 ^ 1" "0 < c" for c
      using dmul_bound [OF q(4) that(1)] assms(3) that(2) by (simp add: dmul_def decimal28.rnd_nonneg)
    have ex: "\<exists>xp. quantize toward_zero 8 (dmul price c) = Some xp \<and> \<bar>xp\<bar> \<le> 10 ^ 10" if c: "\<bar>c\<bar> \<le> 10 ^ 1" "0 < c" for c
    proof -
      obtain y where y: "quantize toward_zero 8 (dmul price c) = Some y"
        by (rule quantize_bounded [of "dmul price c" 10 8 toward_zero]) (use s [OF c] in auto)
      then show ?thesis using quantize_down_nonneg [OF _ y] s [OF c] by fastforce
    qed
    show thesis using ex [OF f(1)] ex [OF f(2)] that
      by (cases "opposite (pp_side pos)") (auto simp: slipped_price_eq)
  qed
  have n: "\<bar>dmul (pp_quantity pos) xp\<bar> \<le> 10 ^ 19" using dmul_bound [OF q(1) xp(2)] by simp
  then have nf: "\<bar>dmul (dmul (pp_quantity pos) xp) TAKER_FEE_PCT\<bar> \<le> 10 ^ 19"
    using dmul_bound [of "dmul (pp_quantity pos) xp" 19 TAKER_FEE_PCT 0] by (simp add: TAKER_FEE_PCT_def)
  have nn: "0 \<le> dmul (pp_quantity pos) xp"
    using slipped_price_nonneg [OF xp(1)] assms(2,3)
    by (simp add: dmul_def decimal28.rnd_nonneg modest_def position_ok_def)
  obtain fee where fee: "taker_fee (dmul (pp_quantity pos) xp) = Some fee" "\<bar>fee\<bar> \<le> 10 ^ 21"
  proof -
    obtain y where y: "quantize toward_zero 2 (dmul (dmul (pp_quantity pos) xp) TAKER_FEE_PCT) = Some y"
      by (rule quantize_bounded [OF nf, of 2 toward_zero]) simp_all
    moreover have "0 \<le> dmul (dmul (pp_quantity pos) xp) TAKER_FEE_PCT"
      unfolding dmul_def [of _ TAKER_FEE_PCT]
      by (rule decimal28.rnd_nonneg) (use nn in \<open>simp add: TAKER_FEE_PCT_def\<close>)
    ultimately have "\<bar>y\<bar> \<le> 10 ^ 21" using quantize_down_nonneg [OF _ y] nf by simp
    then show thesis using that y by (simp add: taker_fee_def)
  qed
  define ret where "ret = (case pp_side pos of
      BUY \<Rightarrow> dsub (dmul (pp_quantity pos) xp) fee
    | SELL \<Rightarrow> dsub (dadd (pp_cost_usd pos) (dmul (dsub (pp_entry_price pos) xp) (pp_quantity pos))) fee)"
  have "\<bar>dmul (dsub (pp_entry_price pos) xp) (pp_quantity pos)\<bar> \<le> 10 ^ 20"
    using dmul_bound [OF dadd_bound(2) [OF q(2) xp(2)] q(1)] by simp
  then have "\<bar>dadd (pp_cost_usd pos) (dmul (dsub (pp_entry_price pos) xp) (pp_quantity pos))\<bar> \<le> 10 ^ 21"
    using dadd_bound(1) [OF q(3)] by simp
  then have "\<bar>dsub (dadd (pp_cost_usd pos) (dmul (dsub (pp_entry_price pos) xp) (pp_quantity pos))) fee\<bar> \<le> 10 ^ 22"
    using dadd_bound(2) [OF _ fee(2)] by simp
  moreover have "\<bar>dsub (dmul (pp_quantity pos) xp) fee\<bar> \<le> 10 ^ 22"
    using dadd_bound(2) [OF _ fee(2)] n by simp
  ultimately have "\<bar>ret\<bar> \<le> 10 ^ 22" by (simp add: ret_def split: order_side.split)
  then have "\<bar>dsub ret (pp_cost_usd pos)\<bar> \<le> 10 ^ 23" using dadd_bound(2) [of ret 22 "pp_cost_usd pos"] q(3) by simp
  then obtain rl where rl: "quantize rne 2 (dsub ret (pp_cost_usd pos)) = Some rl"
    by (rule quantize_bounded [of _ 23 2 rne]) simp_all
  note comp = assms(1) xp(1) fee(1) rl
  have "\<exists>r b'. close_at env s price pid aid b = (Inr (Some r), b')"
    by (simp add: close_at_def Let_def comp ret_def [symmetric])
  then obtain r b' where c: "close_at env s price pid aid b = (Inr (Some r), b')" by blast
  show thesis
    by (rule that [OF c]; insert c; auto simp: close_at_def Let_def comp ret_def [symmetric])
qed

lemma close_position_total:
  assumes "map_of (pb_positions b) s = Some pos" "modest pos" "0 < price" "price \<le> 10 ^ 9"
  obtains r b' where "close_position env s (Some price) b = (Inr (Some r), b')"
    "pb_positions b' = AList.delete s (pb_positions b)" "er_symbol r = s" "er_side r = opposite (pp_side pos)"
proof -
  obtain r b' where "close_at env s price (pe_proposal_uuid env) (pe_assessment_uuid env) b = (Inr (Some r), b')"
    "pb_positions b' = AList.delete s (pb_positions b)" "er_symbol r = s" "er_side r = opposite (pp_side pos)"
    by (rule close_at_total [OF assms, of env "pe_proposal_uuid env" "pe_assessment_uuid env"])
  then show thesis using assms(1,3) by (intro that [of r b']) (simp_all add: close_position_def Let_def)
qed

text \<open>What the thresholds mean, stated for a long and a short position separately: the gain is what
  the price has risen above the entry price of a long, or fallen below that of a short, and the
  position is due for closing when the gain as a fraction of the entry price (each step rounded to
  binary64) is a loss of at least the stop-loss or a profit of at least the take-profit fraction.\<close>

definition must_close :: "settings \<Rightarrow> (symbol \<Rightarrow> money) \<Rightarrow> paper_position \<Rightarrow> bool" where
  "must_close s price pos \<longleftrightarrow>
    (let entry = fl (pp_entry_price pos); current = fl (price (pp_symbol pos));
         gain = (if pp_side pos = BUY then current - entry else entry - current);
         rate = fl (fl gain / entry)
     in 0 < entry \<and> 0 < current \<and>
        (rate \<le> - mt_stop_loss_pct (st_mt5 s) \<or> mt_take_profit_pct (st_mt5 s) \<le> rate))"

lemma breached_must_close:
  "breached (mt_stop_loss_pct (st_mt5 s)) (mt_take_profit_pct (st_mt5 s)) (pp_side pos) (pp_entry_price pos)
     (price (pp_symbol pos)) \<longleftrightarrow> must_close s price pos"
  by (cases "pp_side pos") (auto simp: breached_def must_close_def pnl_pct_def fsub_def fdiv_def Let_def)

definition position_view :: "paper_position \<Rightarrow> broker_position" where
  "position_view pos = \<lparr>bp_symbol = pp_symbol pos, bp_side = pp_side pos,
     bp_quantity = pp_quantity pos, bp_entry_price = pp_entry_price pos,
     bp_current_price = pp_entry_price pos, bp_unrealised_pnl_usd = 0, bp_stop_loss = None,
     bp_take_profit = None, bp_position_id = None\<rparr>"

lemma get_positions_view: "get_positions b = map position_view (dvals (pb_positions b))"
  by (simp add: get_positions_def position_view_def)

lemma check_closes:
  assumes "map_of (pb_positions (xa_broker ag)) (pp_symbol pos) = Some pos" "modest pos"
    and "0 < price (pp_symbol pos)" "price (pp_symbol pos) \<le> 10 ^ 9"
    and "must_close (xa_settings ag) price pos"
  obtains x r ag' where "check_and_maybe_close paper_ops env (position_view pos)
      (mt_stop_loss_pct (st_mt5 (xa_settings ag))) (mt_take_profit_pct (st_mt5 (xa_settings ag)))
      (price (pp_symbol pos)) ag = (x, (if xe_publish_error env = None then [r] else []), ag')"
    "x = (case xe_publish_error env of None \<Rightarrow> Inr () | Some e \<Rightarrow> Inl e)"
    "pb_positions (xa_broker ag') = AList.delete (pp_symbol pos) (pb_positions (xa_broker ag))"
    "xa_settings ag' = xa_settings ag" "xa_last_price ag' = xa_last_price ag"
    "er_symbol r = pp_symbol pos" "er_side r = opposite (pp_side pos)"
proof -
  obtain r b' where c: "close_position (xe_broker env) (pp_symbol pos) (Some (price (pp_symbol pos))) (xa_broker ag) = (Inr (Some r), b')"
    "pb_positions b' = AList.delete (pp_symbol pos) (pb_positions (xa_broker ag))" "er_symbol r = pp_symbol pos"
    "er_side r = opposite (pp_side pos)"
    by (rule close_position_total [OF assms(1-4), of "xe_broker env"])
  have b: "breached (mt_stop_loss_pct (st_mt5 (xa_settings ag))) (mt_take_profit_pct (st_mt5 (xa_settings ag)))
      (pp_side pos) (pp_entry_price pos) (price (pp_symbol pos))"
    using assms(5) by (simp add: breached_must_close)
  obtain x out ag' where f: "record_fill paper_ops env r (ag\<lparr>xa_broker := b'\<rparr>) = (x, out, ag')"
    by (cases "record_fill paper_ops env r (ag\<lparr>xa_broker := b'\<rparr>)")
  have "x = (case xe_publish_error env of None \<Rightarrow> Inr () | Some e \<Rightarrow> Inl e)"
    "out = (if xe_publish_error env = None then [r] else [])"
    "xa_broker ag' = b'" "xa_settings ag' = xa_settings ag" "xa_last_price ag' = xa_last_price ag"
    using f by (auto simp: record_fill_def split: option.splits)
  then show thesis using c b f
    by (intro that [of x r ag']) (simp_all add: check_and_maybe_close_def position_view_def)
qed

text \<open>The positions one cycle closes, of those that are due: up to the first whose result cannot be
  published, which is closed too.\<close>

definition closed_in_cycle :: "(symbol \<Rightarrow> 'e exec_env) \<Rightarrow> paper_position list \<Rightarrow> paper_position list" where
  "closed_in_cycle envs due =
    (let published = (\<lambda>q. xe_publish_error (envs (pp_symbol q)) = None)
     in takeWhile published due @ take 1 (dropWhile published due))"

lemma closed_in_cycle_simps [simp]:
  "closed_in_cycle envs [] = []"
  "closed_in_cycle envs (q # due) =
    (if xe_publish_error (envs (pp_symbol q)) = None then q # closed_in_cycle envs due else [q])"
  by (simp_all add: closed_in_cycle_def Let_def)

lemma closed_in_cycle_subset: "q \<in> set (closed_in_cycle envs due) \<Longrightarrow> q \<in> set due"
  by (induction due) (auto split: if_splits)

lemma monitor_positions_closes:
  assumes "distinct (map pp_symbol qs)"
    and "\<forall>q\<in>set qs. map_of (pb_positions (xa_broker ag)) (pp_symbol q) = Some q \<and> modest q \<and>
      map_of (xa_last_price ag) (pp_symbol q) = Some (price (pp_symbol q)) \<and>
      0 < price (pp_symbol q) \<and> price (pp_symbol q) \<le> 10 ^ 9"
    and "monitor_positions paper_ops envs (\<lambda>pos ag. current_price (envs (bp_symbol pos)) (bp_symbol pos) ag)
      (map position_view qs) ag = (out, ag')"
  shows "(\<forall>s. map_of (pb_positions (xa_broker ag')) s =
      (if \<exists>q\<in>set (closed_in_cycle envs (filter (must_close (xa_settings ag) price) qs)). pp_symbol q = s then None
       else map_of (pb_positions (xa_broker ag)) s)) \<and>
    map er_symbol out = map pp_symbol (takeWhile (\<lambda>q. xe_publish_error (envs (pp_symbol q)) = None)
      (filter (must_close (xa_settings ag) price) qs))"
  using assms
proof (induction qs arbitrary: ag out)
  case (Cons q qs)
  have q: "map_of (pb_positions (xa_broker ag)) (pp_symbol q) = Some q" "modest q"
    "map_of (xa_last_price ag) (pp_symbol q) = Some (price (pp_symbol q))"
    "0 < price (pp_symbol q)" "price (pp_symbol q) \<le> 10 ^ 9"
    using Cons.prems(2) by simp_all
  have cur: "current_price (envs (pp_symbol q)) (pp_symbol q) ag = Some (price (pp_symbol q))"
    by (simp add: current_price_def q(3))
  have sym: "bp_symbol (position_view q) = pp_symbol q" by (simp add: position_view_def)
  show ?case
  proof (cases "must_close (xa_settings ag) price q")
    case True
    obtain x r ag1 where c: "check_and_maybe_close paper_ops (envs (pp_symbol q)) (position_view q)
        (mt_stop_loss_pct (st_mt5 (xa_settings ag))) (mt_take_profit_pct (st_mt5 (xa_settings ag)))
        (price (pp_symbol q)) ag = (x, (if xe_publish_error (envs (pp_symbol q)) = None then [r] else []), ag1)"
      "x = (case xe_publish_error (envs (pp_symbol q)) of None \<Rightarrow> Inr () | Some e \<Rightarrow> Inl e)"
      "pb_positions (xa_broker ag1) = AList.delete (pp_symbol q) (pb_positions (xa_broker ag))"
      "xa_settings ag1 = xa_settings ag" "xa_last_price ag1 = xa_last_price ag" "er_symbol r = pp_symbol q"
      by (rule check_closes [OF q(1,2,4,5) True])
    show ?thesis
    proof (cases "xe_publish_error (envs (pp_symbol q))")
      case None
      obtain out2 where o: "monitor_positions paper_ops envs (\<lambda>pos ag. current_price (envs (bp_symbol pos)) (bp_symbol pos) ag)
          (map position_view qs) ag1 = (out2, ag')" "out = r # out2"
        using Cons.prems(3) by (auto simp: cur sym c(1,2) None split: prod.splits)
      have "pp_symbol x \<noteq> pp_symbol q" if "x \<in> set qs" for x using Cons.prems(1) that by (auto simp: image_iff)
      then have "\<forall>x\<in>set qs. map_of (pb_positions (xa_broker ag1)) (pp_symbol x) = Some x \<and> modest x \<and>
        map_of (xa_last_price ag1) (pp_symbol x) = Some (price (pp_symbol x)) \<and>
        0 < price (pp_symbol x) \<and> price (pp_symbol x) \<le> 10 ^ 9"
        using Cons.prems(2) c(3,5) by simp
      from Cons.IH [OF _ this o(1)] Cons.prems(1)
      show ?thesis using True None c(3,4,6) o(2) by auto
    next
      case (Some e)
      then have "out = []" "ag' = ag1" using Cons.prems(3) by (simp_all add: cur sym c(1,2))
      then show ?thesis using True Some c(3) by auto
    qed
  next
    case False
    then have "check_and_maybe_close paper_ops (envs (pp_symbol q)) (position_view q)
        (mt_stop_loss_pct (st_mt5 (xa_settings ag))) (mt_take_profit_pct (st_mt5 (xa_settings ag)))
        (price (pp_symbol q)) ag = (Inr (), [], ag)"
      by (simp add: check_and_maybe_close_def breached_must_close position_view_def)
    then have "monitor_positions paper_ops envs (\<lambda>pos ag. current_price (envs (bp_symbol pos)) (bp_symbol pos) ag)
        (map position_view qs) ag = (out, ag')"
      using Cons.prems(3) by (simp add: cur sym split: prod.splits)
    from Cons.IH [OF _ _ this] Cons.prems(1,2)
    show ?thesis using False by simp
  qed
qed simp

text \<open>C22: one cycle of the simulated broker's monitor closes exactly the open positions that are due:
  those whose price has moved by the stop-loss fraction against them or by the take-profit fraction for
  them, a long by rising and a short by falling. One result is published for each, whatever happens to
  the caches. If a result cannot be published its position is still closed, but the cycle ends there, and
  the positions after it stay until a later cycle; all others stay as they are. Prices are known, and
  amounts are of realistic size, so that no quantization raises.\<close>

theorem monitor_closes_breached:
  assumes "should_continue (xa_base ag)" "broker_ok (xa_broker ag)"
    and "\<forall>q\<in>set (dvals (pb_positions (xa_broker ag))). modest q \<and>
      map_of (xa_last_price ag) (pp_symbol q) = Some (price (pp_symbol q)) \<and>
      0 < price (pp_symbol q) \<and> price (pp_symbol q) \<le> 10 ^ 9"
    and "paper_monitor_cycle paper_ops env envs ag = (out, ag')"
  defines "due \<equiv> filter (must_close (xa_settings ag) price) (dvals (pb_positions (xa_broker ag)))"
  shows "(\<forall>s. map_of (pb_positions (xa_broker ag')) s =
      (case map_of (pb_positions (xa_broker ag)) s of None \<Rightarrow> None
       | Some q \<Rightarrow> if q \<in> set (closed_in_cycle envs due) then None else Some q)) \<and>
    map er_symbol out =
      map pp_symbol (takeWhile (\<lambda>q. xe_publish_error (envs (pp_symbol q)) = None) due) \<and>
    ((\<forall>s. xe_publish_error (envs s) = None) \<longrightarrow> closed_in_cycle envs due = due)"
proof -
  define ps where "ps = pb_positions (xa_broker ag)"
  have ok: "dict_ok ps" "\<forall>(k, q)\<in>set ps. pp_symbol q = k"
    using assms(2) by (auto simp: ps_def broker_ok_def positions_ok_def list_all_iff)
  have keys: "map pp_symbol (dvals ps) = map fst ps" using ok(2) by (induction ps) auto
  have look: "q \<in> set (dvals ps) \<longleftrightarrow> map_of ps (pp_symbol q) = Some q" for q
    using ok by (force simp: map_of_eq_Some_iff)
  have m: "monitor_positions paper_ops envs (\<lambda>pos ag. current_price (envs (bp_symbol pos)) (bp_symbol pos) ag)
      (map position_view (dvals ps)) ag = (out, ag')"
    using assms(1,4) by (simp add: paper_monitor_cycle_def get_positions_view ps_def)
  have r: "(\<forall>s. map_of (pb_positions (xa_broker ag')) s =
      (if \<exists>q\<in>set (closed_in_cycle envs due). pp_symbol q = s then None
       else map_of (pb_positions (xa_broker ag)) s)) \<and>
    map er_symbol out = map pp_symbol (takeWhile (\<lambda>q. xe_publish_error (envs (pp_symbol q)) = None) due)"
    unfolding due_def ps_def [symmetric]
    by (rule monitor_positions_closes [OF _ _ m, unfolded ps_def [symmetric]])
      (use ok(1) assms(3) look in \<open>simp_all only: keys ps_def [symmetric], simp_all\<close>)
  have "(\<exists>q\<in>set (closed_in_cycle envs due). pp_symbol q = s) \<longleftrightarrow>
      (\<exists>q. map_of ps s = Some q \<and> q \<in> set (closed_in_cycle envs due))" for s
  proof
    assume "\<exists>q\<in>set (closed_in_cycle envs due). pp_symbol q = s"
    then obtain q where q: "q \<in> set (closed_in_cycle envs due)" "pp_symbol q = s" by blast
    then have "q \<in> set (dvals ps)" using closed_in_cycle_subset [of q envs due] by (simp add: due_def ps_def)
    then show "\<exists>q. map_of ps s = Some q \<and> q \<in> set (closed_in_cycle envs due)" using q look by blast
  next
    assume "\<exists>q. map_of ps s = Some q \<and> q \<in> set (closed_in_cycle envs due)"
    then obtain q where q: "map_of ps s = Some q" "q \<in> set (closed_in_cycle envs due)" by blast
    then have "pp_symbol q = s" using ok(2) map_of_SomeD [OF q(1)] by auto
    then show "\<exists>q\<in>set (closed_in_cycle envs due). pp_symbol q = s" using q(2) by blast
  qed
  moreover have "closed_in_cycle envs due = due" if "\<forall>s. xe_publish_error (envs s) = None"
    using that by (induction due) simp_all
  ultimately show ?thesis using r by (auto simp: ps_def [symmetric] split: option.split)
qed

theorem monitor_closes_breached_witness:
  "case paper_monitor_cycle paper_ops demo_env (\<lambda>s. demo_exec_env) demo_holding of
     (out, ag') \<Rightarrow> map_of (pb_positions (xa_broker ag')) ''BTC/USDT'' = None \<and> length out = 1"
proof -
  obtain out ag' where p: "paper_monitor_cycle paper_ops demo_env (\<lambda>s. demo_exec_env) demo_holding = (out, ag')"
    by (cases "paper_monitor_cycle paper_ops demo_env (\<lambda>s. demo_exec_env) demo_holding")
  define price :: "symbol \<Rightarrow> money" where "price = (\<lambda>s. 60000)"
  have "list_all (\<lambda>q. pp_symbol q = ''BTC/USDT'' \<and> modest q \<and> must_close default_settings (\<lambda>s. 60000) q)
      (dvals (pb_positions demo_book)) \<and> length (pb_positions demo_book) = 1"
    by code_simp
  then obtain q where q: "pb_positions demo_book = [(fst (hd (pb_positions demo_book)), q)]"
    "pp_symbol q = ''BTC/USDT''" "modest q" "must_close default_settings price q"
    by (cases "pb_positions demo_book") (auto simp: price_def)
  have h: "xa_broker demo_holding = demo_book" "xa_settings demo_holding = default_settings"
    "xa_last_price demo_holding = [(''BTC/USDT'', 60000)]" "should_continue (xa_base demo_holding)"
    using demo_exec_live(1) by (simp_all add: demo_holding_def demo_exec_def new_execution_agent_def)
  have d: "dvals (pb_positions demo_book) = [q]" by (subst q(1)) simp
  have r: "\<forall>q\<in>set (dvals (pb_positions (xa_broker demo_holding))). modest q \<and>
      map_of (xa_last_price demo_holding) (pp_symbol q) = Some (price (pp_symbol q)) \<and>
      0 < price (pp_symbol q) \<and> price (pp_symbol q) \<le> 10 ^ 9"
    unfolding h(1,3) d using q(2,3) by (simp add: price_def)
  have ok: "broker_ok (xa_broker demo_holding)" using demo_book_ok h(1) by simp
  have e: "\<forall>s. xe_publish_error ((\<lambda>s. demo_exec_env) (s :: symbol)) = None" by (simp add: demo_exec_env_def)
  note m = monitor_closes_breached [OF h(4) ok r p, unfolded h d]
  note due = m [THEN conjunct2, THEN conjunct2, THEN mp, OF e]
  have c: "\<forall>s. map_of (pb_positions (xa_broker ag')) s =
      (case map_of (pb_positions demo_book) s of None \<Rightarrow> None
       | Some x \<Rightarrow> if x \<in> set (filter (must_close default_settings price) [q]) then None else Some x)"
    "map er_symbol out = map pp_symbol (takeWhile (\<lambda>q. True) (filter (must_close default_settings price) [q]))"
    using m [THEN conjunct1] m [THEN conjunct2, THEN conjunct1] unfolding due by (simp_all add: demo_exec_env_def)
  from map_of_SomeD have "map_of (pb_positions demo_book) ''BTC/USDT'' = Some x \<Longrightarrow> x = q" for x
    using d by (metis map_of_mem empty_iff insert_iff list.set)
  then have "map_of (pb_positions (xa_broker ag')) ''BTC/USDT'' = None"
    using c(1) q(4) by (auto split: option.split)
  moreover have "length out = 1" using arg_cong [OF c(2), of length] q(4) by simp
  ultimately show ?thesis using p by simp
qed

end
