(* ===== verification/Symbol_Mapper.thy ===== *)
theory Symbol_Mapper
  imports Errors
begin

text \<open>
  The symbol mapping between the program and MetaTrader 5 (\<open>agents/execution/symbol_mapper.py\<close>):
  \<open>BTC/USDT\<close> on one side, \<open>BTCUSD\<close> on the other, an error for anything unknown. Proved here: the
  mapping translates there and back whenever no two symbols share an MT5 name, and the two
  directions never disagree on an order that was placed.
\<close>

definition DEFAULT_MAPPINGS :: "(string, string) dict" where
  "DEFAULT_MAPPINGS = [(''BTC/USDT'', ''BTCUSD''), (''ETH/USDT'', ''ETHUSD''), (''BNB/USDT'', ''BNBUSD''),
     (''SOL/USDT'', ''SOLUSD''), (''XRP/USDT'', ''XRPUSD'')]"

record symbol_mapper =
  sy_python_to_mt5 :: "(string, string) dict"
  sy_mt5_to_python :: "(string, string) dict"

text \<open>\<open>dict.update\<close>, and the comprehension that swaps keys and values: later entries win.\<close>

definition merged :: "(string, string) dict \<Rightarrow> (string, string) dict \<Rightarrow> (string, string) dict" where
  "merged d extra = fold (\<lambda>(k, v). AList.update k v) extra d"

definition reversed :: "(string, string) dict \<Rightarrow> (string, string) dict" where
  "reversed d = fold (\<lambda>(k, v). AList.update v k) d []"

definition new_symbol_mapper :: "(string, string) dict option \<Rightarrow> symbol_mapper" where
  "new_symbol_mapper extra =
    (let forward = merged DEFAULT_MAPPINGS (case extra of None \<Rightarrow> [] | Some e \<Rightarrow> e);
         back = reversed forward
     in \<lparr>sy_python_to_mt5 = forward,
         sy_mt5_to_python = (if map_of back ''ETHUSDT'' = None
           then AList.update ''ETHUSDT'' ''ETH/USDT'' back else back)\<rparr>)"

definition to_mt5 :: "symbol_mapper \<Rightarrow> symbol \<Rightarrow> error + string" where
  "to_mt5 m s = opt_to_sum (Validation_error ''Unknown symbol'') (map_of (sy_python_to_mt5 m) s)"

definition to_python :: "symbol_mapper \<Rightarrow> string \<Rightarrow> error + symbol" where
  "to_python m s = opt_to_sum (Validation_error ''Unknown MT5 symbol'') (map_of (sy_mt5_to_python m) s)"

subsection \<open>There and back\<close>

lemma dict_ok_merged [simp]: "dict_ok d \<Longrightarrow> dict_ok (merged d extra)"
  unfolding merged_def by (induction extra arbitrary: d) (auto split: prod.splits)

lemma map_of_reversed_fold:
  "map_of (fold (\<lambda>(k, v). AList.update v k) d r) v =
    (case map_of (rev (map prod.swap d)) v of None \<Rightarrow> map_of r v | Some k \<Rightarrow> Some k)"
  by (induction d arbitrary: r) (auto split: option.splits simp: map_add_def)

lemma map_of_reversed: "map_of (reversed d) v = map_of (rev (map prod.swap d)) v"
  by (simp add: reversed_def map_of_reversed_fold split: option.splits)

lemma reversed_sound: "map_of (reversed d) v = Some k \<Longrightarrow> (k, v) \<in> set d"
  by (auto simp: map_of_reversed dest!: map_of_SomeD)

lemma reversed_total: "(k, v) \<in> set d \<Longrightarrow> \<exists>j. map_of (reversed d) v = Some j"
proof -
  assume "(k, v) \<in> set d"
  then have "v \<in> fst ` set (rev (map prod.swap d))" by force
  then show ?thesis
    by (metis map_of_reversed map_of_eq_None_iff not_None_eq)
qed

text \<open>The fallback for \<open>ETHUSDT\<close> adds a name without changing any other.\<close>

lemma to_python_mapper:
  assumes "map_of (reversed (merged DEFAULT_MAPPINGS (case extra of None \<Rightarrow> [] | Some e \<Rightarrow> e))) v = Some k"
  shows "to_python (new_symbol_mapper extra) v = Inr k"
  using assms by (auto simp: to_python_def new_symbol_mapper_def Let_def)

theorem mapper_round_trip:
  assumes names: "\<And>s s' v. to_mt5 (new_symbol_mapper extra) s = Inr v \<Longrightarrow>
      to_mt5 (new_symbol_mapper extra) s' = Inr v \<Longrightarrow> s = s'"
    and s: "to_mt5 (new_symbol_mapper extra) s = Inr v"
  shows "to_python (new_symbol_mapper extra) v = Inr s"
proof -
  define d where "d = merged DEFAULT_MAPPINGS (case extra of None \<Rightarrow> [] | Some e \<Rightarrow> e)"
  have ok: "dict_ok d" by (simp add: d_def DEFAULT_MAPPINGS_def)
  have forward: "to_mt5 (new_symbol_mapper extra) t = Inr w \<longleftrightarrow> map_of d t = Some w" for t w
    by (simp add: to_mt5_def new_symbol_mapper_def d_def Let_def)
  have "(s, v) \<in> set d" using s forward by (auto dest: map_of_SomeD)
  then obtain j where j: "map_of (reversed d) v = Some j" using reversed_total by blast
  have "map_of d j = Some v" using reversed_sound [OF j] ok by simp
  then have "j = s" using names s forward by blast
  then show ?thesis using to_python_mapper j d_def by simp
qed

end
