(* ===== verification/MT5_Bridge.thy ===== *)
theory MT5_Bridge
  imports Execution_Agent Symbol_Mapper
begin

text \<open>
  The MetaTrader 5 adapter (\<open>agents/execution/mt5_bridge.py\<close>). The expert advisor (EA) polls an HTTP
  server: it fetches commands, posts their results and posts heartbeats. An operation queues a
  command and waits for the posted result of its id. What the EA and the other tasks do while an
  operation waits is the list of \<open>bridge_event\<close>s in its environment; when the list ends without an
  answer, the wait has timed out. The JSON bodies are records of their optional fields, at their
  documented types; the display-only \<open>comment\<close> of an order is left out.

  Proved here: commands reach the EA once and in order, an answer resolves at most one wait, the
  volume limits, and that a command outlives the wait that timed out on it.
\<close>

definition HEARTBEAT_STALE_SECONDS :: rat where "HEARTBEAT_STALE_SECONDS = 5"
definition MAGIC_NUMBER :: int where "MAGIC_NUMBER = 20250101"

record ea_position =
  ep_symbol :: "string option"
  ep_side :: "order_side option"
  ep_quantity :: "rat option"
  ep_entry_price :: "rat option"
  ep_current_price :: "rat option"
  ep_unrealised_pnl :: "rat option"
  ep_stop_loss :: "rat option"
  ep_take_profit :: "rat option"
  ep_ticket :: "string option"

record ea_balance =
  eb_total_equity :: "rat option"
  eb_free_margin :: "rat option"
  eb_used_margin :: "rat option"

record ea_state =
  es_balance :: "ea_balance option"
  es_positions :: "ea_position list option"

record ea_result =
  ea_command_id :: "uuid option"
  ea_status :: "string option"
  ea_order_id :: "string option"
  ea_error_message :: "string option"
  ea_fill_quantity :: "rat option"
  ea_fill_price :: "rat option"
  ea_side :: "string option"

datatype mt5_command =
    Place_order uuid string order_side rat rat rat  \<comment> \<open>proposal, symbol, side, volume, stop loss, take profit\<close>
  | Cancel_order string string
  | Close_position string
  | Modify_stops string string rat rat

record mt5_bridge =
  br_settings :: mt5_settings
  br_mapper :: symbol_mapper
  br_running :: bool
  br_queue :: "(uuid \<times> mt5_command) list"
  br_futures :: "(uuid, unit) dict"
  br_cached_state :: ea_state
  br_last_heartbeat :: "time option"
  br_bus :: bool
  br_balance_key :: "broker_balance option"
  br_positions_key :: "cached_position list option"

definition new_mt5_bridge :: "settings \<Rightarrow> mt5_bridge" where
  "new_mt5_bridge s = \<lparr>br_settings = st_mt5 s, br_mapper = new_symbol_mapper None, br_running = False,
     br_queue = [], br_futures = [], br_cached_state = \<lparr>es_balance = None, es_positions = None\<rparr>,
     br_last_heartbeat = None, br_bus = False, br_balance_key = None, br_positions_key = None\<rparr>"

definition mt5_capabilities :: broker_capabilities where
  "mt5_capabilities = (default_capabilities ''mt5'')\<lparr>bc_supports_native_stops := True,
     bc_supports_native_take_profit := True, bc_supports_partial_fills := False,
     bc_requires_symbol_mapping := True, bc_is_paper := False\<rparr>"

text \<open>\<open>connect\<close> keeps the runner before the server is up, so a failed start leaves it set.\<close>

definition mt5_connect :: "error option \<Rightarrow> mt5_bridge \<Rightarrow> (error + unit) \<times> mt5_bridge" where
  "mt5_connect failure b = (case failure of Some e \<Rightarrow> (Inl e, b\<lparr>br_running := True\<rparr>)
     | None \<Rightarrow> (Inr (), b\<lparr>br_running := True\<rparr>))"

definition mt5_disconnect :: "mt5_bridge \<Rightarrow> mt5_bridge" where
  "mt5_disconnect b = b\<lparr>br_running := False\<rparr>"

definition mt5_set_bus :: "bool \<Rightarrow> mt5_bridge \<Rightarrow> mt5_bridge" where
  "mt5_set_bus up b = b\<lparr>br_bus := up\<rparr>"

subsection \<open>The HTTP handlers\<close>

text \<open>A heartbeat replaces the cached state; the task that copies it to Redis is run with it.\<close>

datatype http_reply = Reply_ok | Reply_invalid_json | Reply_empty | Reply_command uuid mt5_command

definition python_symbol :: "symbol_mapper \<Rightarrow> ea_position \<Rightarrow> symbol" where
  "python_symbol m p = (let s = (case ep_symbol p of None \<Rightarrow> [] | Some x \<Rightarrow> x) in
     case to_python m s of Inl e \<Rightarrow> s | Inr t \<Rightarrow> t)"

definition number_or :: "rat \<Rightarrow> rat option \<Rightarrow> rat" where
  "number_or d x = (case x of None \<Rightarrow> d | Some v \<Rightarrow> v)"

definition side_or :: "order_side option \<Rightarrow> order_side" where
  "side_or x = (case x of None \<Rightarrow> BUY | Some s \<Rightarrow> s)"

definition saved_position :: "symbol_mapper \<Rightarrow> ea_position \<Rightarrow> cached_position" where
  "saved_position m p = \<lparr>cp_symbol = python_symbol m p, cp_side = side_or (ep_side p),
     cp_quantity = number_or 0 (ep_quantity p), cp_entry_price = number_or 0 (ep_entry_price p),
     cp_current_price = number_or 0 (ep_current_price p),
     cp_unrealised_pnl_usd = number_or 0 (ep_unrealised_pnl p),
     cp_stop_loss = (if truthy (ep_stop_loss p) then ep_stop_loss p else None),
     cp_take_profit = (if truthy (ep_take_profit p) then ep_take_profit p else None)\<rparr>"

definition saved_balance :: "ea_state \<Rightarrow> broker_balance" where
  "saved_balance st = (let get = (\<lambda>f. number_or 0 (case es_balance st of None \<Rightarrow> None | Some b \<Rightarrow> f b)) in
     \<lparr>bb_total_equity_usd = get eb_total_equity, bb_free_margin_usd = get eb_free_margin,
      bb_used_margin_usd = get eb_used_margin\<rparr>)"

definition save_mt5_state :: "bool \<Rightarrow> bool \<Rightarrow> ea_state \<Rightarrow> mt5_bridge \<Rightarrow> mt5_bridge" where
  "save_mt5_state total_written list_written st b =
    (if \<not> br_bus b \<or> \<not> total_written then b
     else let b1 = b\<lparr>br_balance_key := Some (saved_balance st)\<rparr> in
       if \<not> list_written then b1
       else b1\<lparr>br_positions_key := Some (map (saved_position (br_mapper b))
         (case es_positions st of None \<Rightarrow> [] | Some ps \<Rightarrow> ps))\<rparr>)"

definition handle_state :: "ea_state option \<Rightarrow> time \<Rightarrow> bool \<Rightarrow> bool \<Rightarrow> mt5_bridge \<Rightarrow> http_reply \<times> mt5_bridge" where
  "handle_state body now total_written list_written b = (case body of
     None \<Rightarrow> (Reply_invalid_json, b)
   | Some st \<Rightarrow> (Reply_ok, save_mt5_state total_written list_written st
       (b\<lparr>br_cached_state := st, br_last_heartbeat := Some now\<rparr>)))"

definition handle_command :: "mt5_bridge \<Rightarrow> http_reply \<times> mt5_bridge" where
  "handle_command b = (case br_queue b of
     [] \<Rightarrow> (Reply_empty, b)
   | (cid, cmd) # rest \<Rightarrow> (Reply_command cid cmd, b\<lparr>br_queue := rest\<rparr>))"

text \<open>A posted result, with the wait it resolves, if any. A missing id is the empty string in the
  code, which is never the id of a command.\<close>

definition handle_result :: "ea_result option \<Rightarrow> mt5_bridge \<Rightarrow> (http_reply \<times> uuid option) \<times> mt5_bridge" where
  "handle_result body b = (case body of
     None \<Rightarrow> ((Reply_invalid_json, None), b)
   | Some r \<Rightarrow> (case ea_command_id r of
       None \<Rightarrow> ((Reply_ok, None), b)
     | Some cid \<Rightarrow> ((Reply_ok, if map_of (br_futures b) cid = None then None else Some cid),
         b\<lparr>br_futures := AList.delete cid (br_futures b)\<rparr>)))"

subsection \<open>The round trip of a command\<close>

datatype bridge_event =
    Post_state "ea_state option" time bool bool
  | Get_command
  | Post_result "ea_result option"
  | Enqueue uuid mt5_command  \<comment> \<open>another task starts an operation\<close>
  | Give_up uuid              \<comment> \<open>another task's wait times out\<close>

definition enqueue :: "uuid \<Rightarrow> mt5_command \<Rightarrow> mt5_bridge \<Rightarrow> mt5_bridge" where
  "enqueue cid cmd b = b\<lparr>br_futures := AList.update cid () (br_futures b),
     br_queue := br_queue b @ [(cid, cmd)]\<rparr>"

definition give_up :: "uuid \<Rightarrow> mt5_bridge \<Rightarrow> mt5_bridge" where
  "give_up cid b = b\<lparr>br_futures := AList.delete cid (br_futures b)\<rparr>"

fun bridge_step :: "bridge_event \<Rightarrow> mt5_bridge \<Rightarrow> mt5_bridge" where
  "bridge_step (Post_state st now x y) b = snd (handle_state st now x y b)"
| "bridge_step Get_command b = snd (handle_command b)"
| "bridge_step (Post_result r) b = snd (handle_result r b)"
| "bridge_step (Enqueue cid cmd) b = enqueue cid cmd b"
| "bridge_step (Give_up cid) b = give_up cid b"

text \<open>The answer an event brings to the wait for \<open>cid\<close>.\<close>

definition answer :: "uuid \<Rightarrow> bridge_event \<Rightarrow> mt5_bridge \<Rightarrow> ea_result option" where
  "answer cid e b = (case e of Post_result (Some r) \<Rightarrow>
       (if snd (fst (handle_result (Some r) b)) = Some cid then Some r else None)
     | _ \<Rightarrow> None)"

fun await_result :: "uuid \<Rightarrow> bridge_event list \<Rightarrow> mt5_bridge \<Rightarrow> (error + ea_result) \<times> mt5_bridge" where
  "await_result cid [] b = (Inl (Exchange_connection_error ''MT5 EA did not respond''), give_up cid b)"
| "await_result cid (e # es) b = (case answer cid e b of
     Some r \<Rightarrow> (Inr r, bridge_step e b)
   | None \<Rightarrow> await_result cid es (bridge_step e b))"

definition enqueue_and_wait ::
  "uuid \<Rightarrow> bridge_event list \<Rightarrow> mt5_command \<Rightarrow> mt5_bridge \<Rightarrow> (error + ea_result) \<times> mt5_bridge" where
  "enqueue_and_wait cid es cmd b = await_result cid es (enqueue cid cmd b)"

subsection \<open>Volumes\<close>

definition clamp_volume :: "mt5_settings \<Rightarrow> rat \<Rightarrow> rat" where
  "clamp_volume s v = min (max (fround 2 (fmul (of_int (rne (fdiv v (mt_volume_step s)))) (mt_volume_step s)))
     (mt_min_volume s)) (mt_max_volume s)"

definition get_ref_price :: "risk_assessment \<Rightarrow> money" where
  "get_ref_price a = (case as_technical_signal (tp_signal (ra_original_proposal a)) of
     None \<Rightarrow> 0 | Some tech \<Rightarrow> dec_of_float (ts_price tech))"

definition resolve_volume :: "mt5_settings \<Rightarrow> risk_assessment \<Rightarrow> error + money" where
  "resolve_volume s a =
    (case ra_approved_quantity a of
       Some q \<Rightarrow> Inr (dec_of_float (clamp_volume s (fl q)))
     | None \<Rightarrow>
       if effective_size_usd a \<le> 0 then Inl (Order_rejected_error ''assessment has no effective_size_usd'')
       else if get_ref_price a \<le> 0 then Inl (Order_rejected_error ''no reference price'')
       else case quantize rne 8 (ddiv (effective_size_usd a) (get_ref_price a)) of
         None \<Rightarrow> Inl Decimal_invalid
       | Some q \<Rightarrow> Inr (dec_of_float (clamp_volume s (fl q))))"

definition compute_stops :: "money \<Rightarrow> order_side \<Rightarrow> risk_assessment \<Rightarrow> rat \<times> rat" where
  "compute_stops ref_price side a =
    (if ref_price \<le> 0 then (0, 0)
     else let stop = dec_of_float (if truthy (ra_approved_stop_loss_pct a) then the (ra_approved_stop_loss_pct a) else fl (2 / 100));
              target = dec_of_float (if truthy (ra_approved_take_profit_pct a) then the (ra_approved_take_profit_pct a) else fl (4 / 100))
     in case side of
          BUY \<Rightarrow> (fl (dmul ref_price (dsub 1 stop)), fl (dmul ref_price (dadd 1 target)))
        | SELL \<Rightarrow> (fl (dmul ref_price (dadd 1 stop)), fl (dmul ref_price (dsub 1 target))))"

subsection \<open>Operations\<close>

record mt5_env =
  me_command_id :: uuid
  me_events :: "bridge_event list"
  me_result_id :: uuid
  me_now :: time
  me_proposal_uuid :: uuid
  me_assessment_uuid :: uuid

text \<open>The command of an order: its symbol and volume must be known before anything is queued.\<close>

definition order_command :: "mt5_bridge \<Rightarrow> risk_assessment \<Rightarrow> error + (money \<times> mt5_command)" where
  "order_command b a =
    (case to_mt5 (br_mapper b) (tp_symbol (ra_original_proposal a)) of Inl e \<Rightarrow> Inl e | Inr mt5_symbol \<Rightarrow>
     case resolve_volume (br_settings b) a of Inl e \<Rightarrow> Inl e | Inr volume \<Rightarrow>
     Inr (volume, Place_order (ra_proposal_id a) mt5_symbol (tp_side (ra_original_proposal a)) (fl volume)
       (if truthy (ra_approved_stop_loss_pct a) then the (ra_approved_stop_loss_pct a) else fl (1 / 100))
       (if truthy (ra_approved_take_profit_pct a) then the (ra_approved_take_profit_pct a) else fl (15 / 1000))))"

text \<open>What an order makes of the EA's answer.\<close>

definition order_outcome :: "mt5_env \<Rightarrow> risk_assessment \<Rightarrow> money \<Rightarrow> ea_result \<Rightarrow> error + execution_result" where
  "order_outcome env a volume r =
    (if ea_status r = Some ''error'' then Inl (Order_rejected_error
       (case ea_error_message r of None \<Rightarrow> ''MT5 rejected the order'' | Some m \<Rightarrow> m))
     else let qty = (case ea_fill_quantity r of None \<Rightarrow> volume | Some q \<Rightarrow> dec_of_float q);
              price = dec_of_float (number_or 0 (ea_fill_price r))
     in Inr \<lparr>er_result_id = me_result_id env, er_proposal_id = ra_proposal_id a,
          er_assessment_id = ra_assessment_id a,
          er_exchange_order_id = Some (case ea_order_id r of None \<Rightarrow> [] | Some s \<Rightarrow> s),
          er_timestamp = me_now env, er_symbol = tp_symbol (ra_original_proposal a),
          er_side = tp_side (ra_original_proposal a), er_order_type = tp_order_type (ra_original_proposal a),
          er_status = (if qty \<ge> volume then FILLED else PARTIALLY_FILLED), er_requested_quantity = volume,
          er_filled_quantity = qty, er_average_fill_price = Some price,
          er_total_cost_usd = (if price = 0 then None else Some (dmul qty price)), er_fee_usd = None,
          er_fee_currency = None, er_realized_pnl_usd = None, er_stop_loss_order_id = None,
          er_take_profit_order_id = None, er_is_paper = False, er_error_message = None, er_retry_count = 0\<rparr>)"

definition mt5_place_order ::
  "mt5_env \<Rightarrow> risk_assessment \<Rightarrow> mt5_bridge \<Rightarrow> (error + execution_result) \<times> mt5_bridge" where
  "mt5_place_order env a b =
    (case order_command b a of
       Inl e \<Rightarrow> (Inl e, b)
     | Inr (volume, cmd) \<Rightarrow>
       (case enqueue_and_wait (me_command_id env) (me_events env) cmd b of
          (Inl e, b1) \<Rightarrow> (Inl e, b1)
        | (Inr r, b1) \<Rightarrow> (order_outcome env a volume r, b1)))"

definition mt5_cancel_order :: "mt5_env \<Rightarrow> string \<Rightarrow> symbol \<Rightarrow> mt5_bridge \<Rightarrow> (error + bool) \<times> mt5_bridge" where
  "mt5_cancel_order env order_id s b =
    (case to_mt5 (br_mapper b) s of Inl e \<Rightarrow> (Inl e, b) | Inr m \<Rightarrow>
     case enqueue_and_wait (me_command_id env) (me_events env) (Cancel_order order_id m) b of
       (Inl e, b1) \<Rightarrow> (Inl e, b1) | (Inr r, b1) \<Rightarrow> (Inr (ea_status r = Some ''ok''), b1))"

definition mt5_close_position ::
  "mt5_env \<Rightarrow> symbol \<Rightarrow> money option \<Rightarrow> mt5_bridge \<Rightarrow> (error + execution_result option) \<times> mt5_bridge" where
  "mt5_close_position env s price b =
    (case to_mt5 (br_mapper b) s of Inl e \<Rightarrow> (Inl e, b) | Inr m \<Rightarrow>
     case enqueue_and_wait (me_command_id env) (me_events env) (Close_position m) b of
       (Inl e, b1) \<Rightarrow> (Inr None, b1)
     | (Inr r, b1) \<Rightarrow>
       if ea_status r = Some ''error'' then (Inr None, b1)
       else let qty = dec_of_float (number_or 0 (ea_fill_quantity r));
                fill = dec_of_float (number_or 0 (ea_fill_price r))
       in (Inr (Some \<lparr>er_result_id = me_result_id env, er_proposal_id = me_proposal_uuid env,
          er_assessment_id = me_assessment_uuid env,
          er_exchange_order_id = Some (case ea_order_id r of None \<Rightarrow> [] | Some t \<Rightarrow> t),
          er_timestamp = me_now env, er_symbol = s,
          er_side = (if ea_side r = Some ''buy'' then BUY else SELL), er_order_type = MARKET,
          er_status = (if qty > 0 then FILLED else REJECTED_STATUS), er_requested_quantity = qty,
          er_filled_quantity = qty, er_average_fill_price = (if fill > 0 then Some fill else None),
          er_total_cost_usd = (if fill > 0 then Some (dmul qty fill) else None), er_fee_usd = None,
          er_fee_currency = None, er_realized_pnl_usd = None, er_stop_loss_order_id = None,
          er_take_profit_order_id = None, er_is_paper = False, er_error_message = None,
          er_retry_count = 0\<rparr>), b1))"

definition mt5_modify_stops ::
  "mt5_env \<Rightarrow> string \<Rightarrow> symbol \<Rightarrow> money option \<Rightarrow> money option \<Rightarrow> mt5_bridge \<Rightarrow> (error + bool) \<times> mt5_bridge" where
  "mt5_modify_stops env order_id s sl tp b =
    (case to_mt5 (br_mapper b) s of Inl e \<Rightarrow> (Inl e, b) | Inr m \<Rightarrow>
     case enqueue_and_wait (me_command_id env) (me_events env)
         (Modify_stops order_id m (fl (number_or 0 sl)) (fl (number_or 0 tp))) b of
       (Inl e, b1) \<Rightarrow> (Inl e, b1) | (Inr r, b1) \<Rightarrow> (Inr (ea_status r = Some ''ok''), b1))"

definition mt5_get_positions :: "mt5_bridge \<Rightarrow> broker_position list" where
  "mt5_get_positions b = map (\<lambda>p. \<lparr>bp_symbol = python_symbol (br_mapper b) p, bp_side = side_or (ep_side p),
       bp_quantity = dec_of_float (number_or 0 (ep_quantity p)),
       bp_entry_price = dec_of_float (number_or 0 (ep_entry_price p)),
       bp_current_price = dec_of_float (number_or 0 (ep_current_price p)),
       bp_unrealised_pnl_usd = dec_of_float (number_or 0 (ep_unrealised_pnl p)),
       bp_stop_loss = (if truthy (ep_stop_loss p) then map_option dec_of_float (ep_stop_loss p) else None),
       bp_take_profit = (if truthy (ep_take_profit p) then map_option dec_of_float (ep_take_profit p) else None),
       bp_position_id = Some (case ep_ticket p of None \<Rightarrow> [] | Some t \<Rightarrow> t)\<rparr>)
     (case es_positions (br_cached_state b) of None \<Rightarrow> [] | Some ps \<Rightarrow> ps)"

definition mt5_get_balance :: "mt5_bridge \<Rightarrow> error + broker_balance" where
  "mt5_get_balance b = (case es_balance (br_cached_state b) of
     None \<Rightarrow> Inl (Exchange_connection_error ''No balance data available'')
   | Some x \<Rightarrow> Inr \<lparr>bb_total_equity_usd = dec_of_float (number_or 0 (eb_total_equity x)),
       bb_free_margin_usd = dec_of_float (number_or 0 (eb_free_margin x)),
       bb_used_margin_usd = dec_of_float (number_or 0 (eb_used_margin x))\<rparr>)"

definition mt5_ping :: "time \<Rightarrow> mt5_bridge \<Rightarrow> bool" where
  "mt5_ping now b = (case br_last_heartbeat b of None \<Rightarrow> False
     | Some t \<Rightarrow> seconds (now - t) < HEARTBEAT_STALE_SECONDS)"

text \<open>The adapter as the execution agent sees it.\<close>

definition mt5_ops :: "(mt5_bridge, mt5_env, error option) broker_ops" where
  "mt5_ops = \<lparr>bo_capabilities = mt5_capabilities, bo_connect = mt5_connect,
     bo_disconnect = (\<lambda>env. mt5_disconnect), bo_place_order = mt5_place_order,
     bo_close_position = mt5_close_position, bo_get_positions = (\<lambda>env b. Inr (mt5_get_positions b)),
     bo_get_balance = (\<lambda>env. mt5_get_balance)\<rparr>"

subsection \<open>Commands are handed over once, in order\<close>

fun dispatched :: "bridge_event list \<Rightarrow> mt5_bridge \<Rightarrow> (uuid \<times> mt5_command) list" where
  "dispatched [] b = []"
| "dispatched (e # es) b = (case (e, fst (handle_command b)) of
       (Get_command, Reply_command cid cmd) \<Rightarrow> [(cid, cmd)] | _ \<Rightarrow> []) @ dispatched es (bridge_step e b)"

fun enqueued :: "bridge_event list \<Rightarrow> (uuid \<times> mt5_command) list" where
  "enqueued [] = []"
| "enqueued (Enqueue cid cmd # es) = (cid, cmd) # enqueued es"
| "enqueued (_ # es) = enqueued es"

fun resolved :: "bridge_event list \<Rightarrow> mt5_bridge \<Rightarrow> uuid list" where
  "resolved [] b = []"
| "resolved (e # es) b = (case e of
       Post_result r \<Rightarrow> (case snd (fst (handle_result r b)) of None \<Rightarrow> [] | Some cid \<Rightarrow> [cid])
     | _ \<Rightarrow> []) @ resolved es (bridge_step e b)"

lemma save_state_fields [simp]:
  "br_queue (save_mt5_state x y st b) = br_queue b" "br_futures (save_mt5_state x y st b) = br_futures b"
  "br_settings (save_mt5_state x y st b) = br_settings b" "br_mapper (save_mt5_state x y st b) = br_mapper b"
  by (simp_all add: save_mt5_state_def Let_def)

lemma step_queue:
  "br_queue (bridge_step e b) = (case e of Get_command \<Rightarrow> tl (br_queue b)
     | Enqueue cid cmd \<Rightarrow> br_queue b @ [(cid, cmd)] | _ \<Rightarrow> br_queue b)"
  by (cases e) (auto simp: handle_state_def handle_command_def handle_result_def enqueue_def give_up_def
    split: option.splits list.splits prod.splits)

lemma step_futures:
  "br_futures (bridge_step e b) = (case e of
       Post_result (Some r) \<Rightarrow> (case ea_command_id r of None \<Rightarrow> br_futures b | Some cid \<Rightarrow> AList.delete cid (br_futures b))
     | Enqueue cid cmd \<Rightarrow> AList.update cid () (br_futures b)
     | Give_up cid \<Rightarrow> AList.delete cid (br_futures b) | _ \<Rightarrow> br_futures b)"
  by (cases e) (auto simp: handle_state_def handle_command_def handle_result_def enqueue_def give_up_def
    split: option.splits list.splits prod.splits)

declare bridge_step.simps [simp del]

lemma fifo: "br_queue b @ enqueued es = dispatched es b @ br_queue (fold bridge_step es b)"
proof (induction es arbitrary: b)
  case (Cons e es)
  then show ?case
    using Cons.IH [of "bridge_step e b"]
    by (cases e; cases "br_queue b") (auto simp: step_queue handle_command_def)
qed simp

lemma resolved_sources:
  "cid \<in> set (resolved es b) \<Longrightarrow> cid \<in> fst ` set (br_futures b) \<union> fst ` set (enqueued es)"
proof (induction es arbitrary: b)
  case (Cons e es)
  show ?case
  proof (cases "cid \<in> set (resolved es (bridge_step e b))")
    case True
    show ?thesis
      using Cons.IH [OF True]
      by (cases e) (auto simp: step_futures keys_delete keys_update split: option.splits if_splits)
  next
    case False
    then obtain body where "e = Post_result body" "snd (fst (handle_result body b)) = Some cid"
      using Cons.prems by (cases e) (auto split: option.splits)
    then have "map_of (br_futures b) cid \<noteq> None" by (auto simp: handle_result_def split: option.splits if_splits)
    then show ?thesis by (auto dest: map_of_keys)
  qed
qed simp

lemma resolved_once:
  "distinct (map fst (enqueued es)) \<Longrightarrow> fst ` set (br_futures b) \<inter> fst ` set (enqueued es) = {} \<Longrightarrow>
    distinct (resolved es b)"
proof (induction es arbitrary: b)
  case (Cons e es)
  have ih: "distinct (resolved es (bridge_step e b))"
    by (rule Cons.IH; cases e; use Cons.prems in
      \<open>auto simp: step_futures keys_delete keys_update split: option.splits\<close>)
  have "cid \<notin> set (resolved es (bridge_step e b))"
    if r: "e = Post_result (Some r)" "ea_command_id r = Some cid" "map_of (br_futures b) cid = Some ()" for r cid
  proof
    assume "cid \<in> set (resolved es (bridge_step e b))"
    then have "cid \<in> fst ` set (AList.delete cid (br_futures b)) \<union> fst ` set (enqueued es)"
      using resolved_sources r by (fastforce simp: step_futures)
    then have "cid \<in> fst ` set (enqueued es)" by (auto simp: keys_delete)
    then show False using Cons.prems(2) map_of_keys [OF r(3)] r(1) by auto
  qed
  then show ?case using ih by (cases e) (auto simp: handle_result_def split: option.splits if_splits)
qed simp

text \<open>C13: The bridge as a queue: whatever the EA posts and however often it polls, the commands handed
  to it are exactly the queued ones, each once and in the order they were queued, with the rest still
  waiting; and when command ids are fresh, no wait is answered twice and only waits of queued commands
  are answered.\<close>

theorem mt5_commands_fifo_once:
  assumes "distinct (map fst (enqueued es))"
  shows "enqueued es = dispatched es (new_mt5_bridge s) @ br_queue (fold bridge_step es (new_mt5_bridge s)) \<and>
    distinct (resolved es (new_mt5_bridge s)) \<and>
    set (resolved es (new_mt5_bridge s)) \<subseteq> fst ` set (enqueued es)"
proof (intro conjI)
  have fresh: "br_queue (new_mt5_bridge s) = []" "br_futures (new_mt5_bridge s) = []"
    by (simp_all add: new_mt5_bridge_def)
  show "enqueued es = dispatched es (new_mt5_bridge s) @ br_queue (fold bridge_step es (new_mt5_bridge s))"
    using fifo [of "new_mt5_bridge s" es] fresh by simp
  show "distinct (resolved es (new_mt5_bridge s))" using resolved_once assms fresh by simp
  show "set (resolved es (new_mt5_bridge s)) \<subseteq> fst ` set (enqueued es)"
    using resolved_sources [of _ es "new_mt5_bridge s"] fresh by auto
qed

subsection \<open>A timed-out command\<close>

lemma await_fold:
  "await_result cid es b = (Inl e, b') \<Longrightarrow> b' = give_up cid (fold bridge_step es b)"
  by (induction es arbitrary: b) (auto split: option.splits)

lemma queue_survives:
  "length (filter (\<lambda>e. e = Get_command) es) \<le> n \<Longrightarrow> n \<le> length (br_queue b) \<Longrightarrow>
    set (drop n (br_queue b)) \<subseteq> set (br_queue (fold bridge_step es b))"
proof (induction es arbitrary: b n)
  case Nil
  then show ?case by (auto dest: in_set_dropD)
next
  case (Cons e es)
  show ?case
  proof (cases "e = Get_command")
    case True
    then obtain k where k: "n = Suc k" using Cons.prems(1) by (cases n) auto
    have "set (drop k (br_queue (bridge_step e b))) \<subseteq> set (br_queue (fold bridge_step es (bridge_step e b)))"
      using Cons.IH [of k "bridge_step e b"] Cons.prems k True by (simp add: step_queue)
    then show ?thesis using True k by (simp add: step_queue drop_Suc)
  next
    case False
    have "n \<le> length (br_queue (bridge_step e b))"
      using Cons.prems(2) False by (cases e) (simp_all add: step_queue)
    then have "set (drop n (br_queue (bridge_step e b))) \<subseteq> set (br_queue (fold bridge_step es (bridge_step e b)))"
      using Cons.IH [of n "bridge_step e b"] Cons.prems False by simp
    moreover have "set (drop n (br_queue b)) \<subseteq> set (drop n (br_queue (bridge_step e b)))"
      using False by (cases e) (auto simp: step_queue)
    ultimately show ?thesis by auto
  qed
qed

text \<open>C38: a timeout does not withdraw an order: if the EA has not polled far enough to fetch the command
  when \<open>place_order\<close> raises, the order has failed for its caller and its wait is gone, but the command
  is still queued, and the EA will execute it at a later poll.\<close>

theorem mt5_timeout_keeps_order_queued:
  assumes cmd: "order_command b a = Inr (volume, cmd)"
    and timeout: "mt5_place_order env a b = (Inl (Exchange_connection_error m), b')"
    and polls: "length (filter (\<lambda>e. e = Get_command) (me_events env)) \<le> length (br_queue b)"
  shows "(me_command_id env, cmd) \<in> set (br_queue b') \<and> me_command_id env \<notin> fst ` set (br_futures b')"
proof -
  define b0 where "b0 = enqueue (me_command_id env) cmd b"
  obtain e where "await_result (me_command_id env) (me_events env) b0 = (Inl e, b')"
    using cmd timeout unfolding mt5_place_order_def enqueue_and_wait_def b0_def
    by (auto simp: order_outcome_def Let_def split: prod.splits sum.splits if_splits)
  then have b': "b' = give_up (me_command_id env) (fold bridge_step (me_events env) b0)" by (rule await_fold)
  have "set (drop (length (br_queue b)) (br_queue b0)) \<subseteq> set (br_queue (fold bridge_step (me_events env) b0))"
    by (rule queue_survives [OF polls]) (simp add: b0_def enqueue_def)
  then show ?thesis by (simp add: b' b0_def enqueue_def give_up_def keys_delete)
qed

subsection \<open>Volume limits\<close>

lemma clamp_volume_range:
  "mt_min_volume s \<le> mt_max_volume s \<Longrightarrow> mt_min_volume s \<le> clamp_volume s v \<and> clamp_volume s v \<le> mt_max_volume s"
  by (auto simp: clamp_volume_def)

text \<open>The broker's minimum wins over the approved size: 100 USD approved, 640 USD ordered.\<close>

lemma mt5_minimum_overrides_size:
  "resolve_volume default_mt5_settings (mk_assessment 1 ''BTC/USDT'' BUY 100 64000) = Inr (1 / 100)"
  "effective_size_usd (mk_assessment 1 ''BTC/USDT'' BUY 100 64000) < (1 / 100) * 64000"
  by code_simp+

subsection \<open>Witnesses\<close>

definition demo_mt5 :: mt5_bridge where
  "demo_mt5 = new_mt5_bridge default_settings"

definition demo_mt5_env :: mt5_env where
  "demo_mt5_env = \<lparr>me_command_id = 5, me_events = [Post_result None], me_result_id = 0, me_now = 0,
     me_proposal_uuid = 0, me_assessment_uuid = 0\<rparr>"

definition demo_order :: risk_assessment where
  "demo_order = mk_assessment 1 ''BTC/USDT'' BUY 1000 50000"

definition demo_ea_result :: "uuid \<Rightarrow> ea_result" where
  "demo_ea_result cid = \<lparr>ea_command_id = Some cid, ea_status = Some ''ok'', ea_order_id = None,
     ea_error_message = None, ea_fill_quantity = None, ea_fill_price = None, ea_side = None\<rparr>"

theorem mt5_timeout_keeps_order_queued_witness:
  "\<exists>volume cmd (b' :: mt5_bridge). order_command demo_mt5 demo_order = Inr (volume, cmd) \<and>
     (5, cmd) \<in> set (br_queue b') \<and> 5 \<notin> fst ` set (br_futures b')"
proof -
  have cmd: "order_command demo_mt5 demo_order =
      Inr (2 / 100, Place_order 1 ''BTCUSD'' BUY (fl (2 / 100)) (fl (1 / 100)) (fl (15 / 1000)))"
    by code_simp
  have out: "fst (mt5_place_order demo_mt5_env demo_order demo_mt5) =
      Inl (Exchange_connection_error ''MT5 EA did not respond'')"
    by code_simp
  obtain b' where b': "mt5_place_order demo_mt5_env demo_order demo_mt5 =
      (Inl (Exchange_connection_error ''MT5 EA did not respond''), b')"
    using out by (metis prod.collapse)
  have polls: "length (filter (\<lambda>e. e = Get_command) (me_events demo_mt5_env)) \<le> length (br_queue demo_mt5)"
    by (simp add: demo_mt5_env_def)
  have cid: "me_command_id demo_mt5_env = 5" by (simp add: demo_mt5_env_def)
  show ?thesis using cmd mt5_timeout_keeps_order_queued [OF cmd b' polls] unfolding cid by blast
qed

definition demo_bridge_events :: "bridge_event list" where
  "demo_bridge_events = [Enqueue 1 (Close_position ''BTCUSD''), Enqueue 2 (Close_position ''ETHUSD''), Get_command,
     Post_result (Some (demo_ea_result 1)), Post_result (Some (demo_ea_result 1))]"

theorem mt5_commands_fifo_once_witness:
  "enqueued demo_bridge_events = dispatched demo_bridge_events (new_mt5_bridge default_settings) @
       br_queue (fold bridge_step demo_bridge_events (new_mt5_bridge default_settings)) \<and>
   resolved demo_bridge_events (new_mt5_bridge default_settings) = [1]"
proof -
  have "distinct (map fst (enqueued demo_bridge_events))" by code_simp
  moreover have "resolved demo_bridge_events (new_mt5_bridge default_settings) = [1]" by code_simp
  ultimately show ?thesis using mt5_commands_fifo_once [of demo_bridge_events] by blast
qed

end
