(* ===== verification/Messaging.thy ===== *)
theory Messaging
  imports Signal_Models System_Models
begin

text \<open>
  The message bus (\<open>core/messaging.py\<close>): channel names, publishing, typed subscriptions, and the
  cache, key-value and list helpers. Redis is not part of the program: its commands are the functions
  of a record \<open>redis\<close> over a state of any type, and what the code relies on is \<open>redis_laws\<close>. JSON
  (de)serialisation is pydantic's and a parameter too. What a subscription hears is a list of
  \<open>listen_event\<close>s.

  Proved here: the publishers' channel keys are the subscribers' channel names and no two feeds share
  one, a subscription yields exactly the well-formed messages in order, and the capped history list.
\<close>

definition HALT_KEY :: string where "HALT_KEY = ''system:trading_halted''"

subsection \<open>Channels\<close>

definition ohlcv_channel :: "symbol \<Rightarrow> string \<Rightarrow> string" where
  "ohlcv_channel s tf = ''market.ohlcv.'' @ safe_symbol s @ ''.'' @ tf"

definition orderbook_channel :: "symbol \<Rightarrow> string" where
  "orderbook_channel s = ''market.orderbook.'' @ safe_symbol s"

definition ticker_channel :: "symbol \<Rightarrow> string" where
  "ticker_channel s = ''market.ticker.'' @ safe_symbol s"

definition technical_signal_channel :: "symbol \<Rightarrow> string" where
  "technical_signal_channel s = ''signal.technical.'' @ safe_symbol s"

definition sentiment_signal_channel :: "symbol \<Rightarrow> string" where
  "sentiment_signal_channel s = ''signal.sentiment.'' @ safe_symbol s"

definition DECISION_PROPOSAL :: string where "DECISION_PROPOSAL = ''decision.proposal''"
definition RISK_ASSESSMENT :: string where "RISK_ASSESSMENT = ''risk.assessment''"
definition EXECUTION_RESULT :: string where "EXECUTION_RESULT = ''execution.result''"
definition SYSTEM_HEARTBEAT :: string where "SYSTEM_HEARTBEAT = ''system.heartbeat''"
definition SYSTEM_COMMAND :: string where "SYSTEM_COMMAND = ''system.command''"
definition SYSTEM_RISK_OVERRIDE :: string where "SYSTEM_RISK_OVERRIDE = ''system.risk_override''"
definition SYSTEM_ALERT :: string where "SYSTEM_ALERT = ''system.alert''"

subsection \<open>The bus\<close>

datatype redis_command = Lpush string string | Ltrim string int int

record 's redis =
  rd_publish :: "string \<Rightarrow> string \<Rightarrow> 's \<Rightarrow> (error + int) \<times> 's"
  rd_get :: "string \<Rightarrow> 's \<Rightarrow> (error + string option) \<times> 's"
  rd_set :: "string \<Rightarrow> string \<Rightarrow> 's \<Rightarrow> (error + unit) \<times> 's"
  rd_setex :: "string \<Rightarrow> int \<Rightarrow> string \<Rightarrow> 's \<Rightarrow> (error + unit) \<times> 's"
  rd_delete :: "string \<Rightarrow> 's \<Rightarrow> (error + unit) \<times> 's"
  rd_exec :: "redis_command list \<Rightarrow> 's \<Rightarrow> (error + unit) \<times> 's"  \<comment> \<open>one transaction\<close>
  rd_ping :: "'s \<Rightarrow> (error + unit) \<times> 's"

record 's message_bus =
  mb_owner :: string
  mb_pool :: bool
  mb_connected :: bool
  mb_redis :: 's

definition new_message_bus :: "string \<Rightarrow> 's \<Rightarrow> 's message_bus" where
  "new_message_bus owner s = \<lparr>mb_owner = owner, mb_pool = False, mb_connected = False, mb_redis = s\<rparr>"

definition bus_connect :: "error option \<Rightarrow> 's message_bus \<Rightarrow> (error + unit) \<times> 's message_bus" where
  "bus_connect failure b = (case failure of Some e \<Rightarrow> (Inl e, b)
     | None \<Rightarrow> (Inr (), b\<lparr>mb_pool := True, mb_connected := True\<rparr>))"

text \<open>\<open>disconnect\<close> closes the pool but keeps the reference, so the guards below still pass.\<close>

definition bus_disconnect :: "'s message_bus \<Rightarrow> 's message_bus" where
  "bus_disconnect b = b\<lparr>mb_connected := False\<rparr>"

definition bus_is_connected :: "'s message_bus \<Rightarrow> bool" where
  "bus_is_connected b \<longleftrightarrow> mb_connected b \<and> mb_pool b"

text \<open>Every operation first demands a pool.\<close>

definition with_pool :: "('s \<Rightarrow> (error + 'a) \<times> 's) \<Rightarrow> 's message_bus \<Rightarrow> (error + 'a) \<times> 's message_bus" where
  "with_pool f b = (if \<not> mb_pool b then (Inl (Runtime_error ''MessageBus not connected.''), b)
     else case f (mb_redis b) of (r, s) \<Rightarrow> (r, b\<lparr>mb_redis := s\<rparr>))"

definition publish_to :: "'s redis \<Rightarrow> ('m \<Rightarrow> string) \<Rightarrow> string \<Rightarrow> 'm \<Rightarrow> 's message_bus \<Rightarrow> (error + int) \<times> 's message_bus" where
  "publish_to ops to_json channel m = with_pool (rd_publish ops channel (to_json m))"

definition publish :: "'s redis \<Rightarrow> ('m \<Rightarrow> string) \<Rightarrow> ('m \<Rightarrow> string) \<Rightarrow> 'm \<Rightarrow> 's message_bus \<Rightarrow> (error + int) \<times> 's message_bus" where
  "publish ops to_json channel_key m = publish_to ops to_json (channel_key m) m"

subsection \<open>Subscriptions\<close>

text \<open>\<open>_deserialise\<close>: a message that does not validate is logged and dropped.\<close>

definition deserialise :: "(string \<Rightarrow> error + 'm) \<Rightarrow> string \<Rightarrow> 'm option" where
  "deserialise validate d = (case validate d of Inl e \<Rightarrow> None | Inr m \<Rightarrow> Some m)"

record raw_message =
  rw_type :: "string option"
  rw_channel :: "string option"
  rw_data :: "string option"

datatype listen_event = Heard raw_message | Cancelled | Connection_lost error

datatype subscription_end = Listening | Finished | Broken error

text \<open>A raw message without its keys raises inside the loop, which logs it and goes on.\<close>

definition heard :: "(string \<Rightarrow> error + 'm) \<Rightarrow> raw_message \<Rightarrow> 'm option" where
  "heard validate r = (if rw_type r \<noteq> Some ''message'' then None
     else case rw_data r of None \<Rightarrow> None | Some d \<Rightarrow> deserialise validate d)"

fun subscribe :: "(string \<Rightarrow> error + 'm) \<Rightarrow> listen_event list \<Rightarrow> 'm list \<times> subscription_end" where
  "subscribe validate [] = ([], Listening)"
| "subscribe validate (Cancelled # es) = ([], Finished)"
| "subscribe validate (Connection_lost e # es) = ([], Broken e)"
| "subscribe validate (Heard r # es) = (case subscribe validate es of (ms, out) \<Rightarrow>
     ((case heard validate r of None \<Rightarrow> ms | Some m \<Rightarrow> m # ms), out))"

definition heard_on :: "(string \<Rightarrow> error + 'm) \<Rightarrow> raw_message \<Rightarrow> (string \<times> 'm) option" where
  "heard_on validate r = (if rw_type r \<noteq> Some ''message'' then None
     else case rw_channel r of None \<Rightarrow> None | Some ch \<Rightarrow>
       (case rw_data r of None \<Rightarrow> None | Some d \<Rightarrow> map_option (Pair ch) (deserialise validate d)))"

fun subscribe_many :: "(string \<Rightarrow> error + 'm) \<Rightarrow> listen_event list \<Rightarrow> (string \<times> 'm) list \<times> subscription_end" where
  "subscribe_many validate [] = ([], Listening)"
| "subscribe_many validate (Cancelled # es) = ([], Finished)"
| "subscribe_many validate (Connection_lost e # es) = ([], Broken e)"
| "subscribe_many validate (Heard r # es) = (case subscribe_many validate es of (ms, out) \<Rightarrow>
     ((case heard_on validate r of None \<Rightarrow> ms | Some m \<Rightarrow> m # ms), out))"

text \<open>Opening a subscription needs the pool, and Redis may refuse it.\<close>

definition open_subscription :: "error option \<Rightarrow> 's message_bus \<Rightarrow> error + unit" where
  "open_subscription failure b = (if \<not> mb_pool b then Inl (Runtime_error ''MessageBus not connected.'')
     else case failure of Some e \<Rightarrow> Inl e | None \<Rightarrow> Inr ())"

subsection \<open>Cache and state\<close>

definition cache_set :: "'s redis \<Rightarrow> ('m \<Rightarrow> string) \<Rightarrow> string \<Rightarrow> 'm \<Rightarrow> int \<Rightarrow> 's message_bus \<Rightarrow> (error + unit) \<times> 's message_bus" where
  "cache_set ops to_json key m ttl = with_pool (rd_setex ops key ttl (to_json m))"

definition cache_get :: "'s redis \<Rightarrow> (string \<Rightarrow> error + 'm) \<Rightarrow> string \<Rightarrow> 's message_bus \<Rightarrow> (error + 'm option) \<times> 's message_bus" where
  "cache_get ops validate key b = (case with_pool (rd_get ops key) b of
     (Inl e, b1) \<Rightarrow> (Inl e, b1)
   | (Inr None, b1) \<Rightarrow> (Inr None, b1)
   | (Inr (Some raw), b1) \<Rightarrow> (Inr (deserialise validate raw), b1))"

definition cache_delete :: "'s redis \<Rightarrow> string \<Rightarrow> 's message_bus \<Rightarrow> (error + unit) \<times> 's message_bus" where
  "cache_delete ops key = with_pool (rd_delete ops key)"

definition kv_get :: "'s redis \<Rightarrow> string \<Rightarrow> 's message_bus \<Rightarrow> (error + string option) \<times> 's message_bus" where
  "kv_get ops key = with_pool (rd_get ops key)"

definition kv_set :: "'s redis \<Rightarrow> string \<Rightarrow> string \<Rightarrow> int option \<Rightarrow> 's message_bus \<Rightarrow> (error + unit) \<times> 's message_bus" where
  "kv_set ops key v ttl = with_pool (case ttl of None \<Rightarrow> rd_set ops key v | Some t \<Rightarrow> rd_setex ops key t v)"

definition list_push_capped :: "'s redis \<Rightarrow> string \<Rightarrow> string \<Rightarrow> int \<Rightarrow> 's message_bus \<Rightarrow> (error + unit) \<times> 's message_bus" where
  "list_push_capped ops key v max_len = with_pool (rd_exec ops [Lpush key v, Ltrim key 0 (max_len - 1)])"

definition bus_ping :: "'s redis \<Rightarrow> 's message_bus \<Rightarrow> bool" where
  "bus_ping ops b \<longleftrightarrow> mb_pool b \<and> returns (fst (rd_ping ops (mb_redis b)))"

text \<open>The shared bus is stored before it is connected.\<close>

definition get_message_bus ::
  "error option \<Rightarrow> 's \<Rightarrow> 's message_bus option \<Rightarrow> (error + 's message_bus) \<times> 's message_bus option" where
  "get_message_bus failure s shared = (case shared of
     Some b \<Rightarrow> if mb_connected b then (Inr b, shared) else
       (case bus_connect failure (new_message_bus ''unknown'' s) of
          (Inl e, b1) \<Rightarrow> (Inl e, Some b1) | (Inr _, b1) \<Rightarrow> (Inr b1, Some b1))
   | None \<Rightarrow> (case bus_connect failure (new_message_bus ''unknown'' s) of
          (Inl e, b1) \<Rightarrow> (Inl e, Some b1) | (Inr _, b1) \<Rightarrow> (Inr b1, Some b1)))"

subsection \<open>Publishers and subscribers agree on the channels\<close>

lemma channel_keys:
  "candle_channel_key c = ohlcv_channel (oc_symbol c) (oc_timeframe c)"
  "technical_channel_key s = technical_signal_channel (ts_symbol s)"
  "sentiment_channel_key n = sentiment_signal_channel (ss_symbol n)"
  by (simp_all add: candle_channel_key_def ohlcv_channel_def technical_channel_key_def
    technical_signal_channel_def sentiment_channel_key_def sentiment_signal_channel_def)

lemma channel_topics_disjoint:
  "ohlcv_channel s tf \<noteq> ticker_channel t" "ohlcv_channel s tf \<noteq> orderbook_channel t"
  "ticker_channel s \<noteq> orderbook_channel t" "technical_signal_channel s \<noteq> sentiment_signal_channel t"
  "ohlcv_channel s tf \<noteq> technical_signal_channel t" "ohlcv_channel s tf \<noteq> sentiment_signal_channel t"
  by (simp_all add: ohlcv_channel_def ticker_channel_def orderbook_channel_def
    technical_signal_channel_def sentiment_signal_channel_def)

subsection \<open>A subscription yields what was published\<close>

datatype 'm sent = Published 'm | Malformed string | Control "string option"

fun wire :: "('m \<Rightarrow> string) \<Rightarrow> string \<Rightarrow> 'm sent \<Rightarrow> raw_message" where
  "wire to_json ch (Published m) = \<lparr>rw_type = Some ''message'', rw_channel = Some ch, rw_data = Some (to_json m)\<rparr>"
| "wire to_json ch (Malformed s) = \<lparr>rw_type = Some ''message'', rw_channel = Some ch, rw_data = Some s\<rparr>"
| "wire to_json ch (Control t) = \<lparr>rw_type = t, rw_channel = Some ch, rw_data = None\<rparr>"

fun payloads :: "'m sent list \<Rightarrow> 'm list" where
  "payloads [] = []"
| "payloads (Published m # xs) = m # payloads xs"
| "payloads (x # xs) = payloads xs"

text \<open>The bus as a typed channel: if every published model reads back from its JSON, then a
  subscription yields exactly the published models, in order and without loss; text that does not
  validate and control messages are skipped, never raised; and the subscription then goes on with
  what follows on the connection.\<close>

theorem bus_delivers_published:
  assumes codec: "\<And>m. Published m \<in> set xs \<Longrightarrow> validate (to_json m) = Inr m"
    and junk: "\<And>s. Malformed s \<in> set xs \<Longrightarrow> \<exists>e. validate s = Inl e"
  shows "subscribe validate (map (\<lambda>x. Heard (wire to_json ch x)) xs @ rest) =
      (payloads xs @ fst (subscribe validate rest), snd (subscribe validate rest)) \<and>
    subscribe_many validate (map (\<lambda>x. Heard (wire to_json ch x)) xs @ rest) =
      (map (Pair ch) (payloads xs) @ fst (subscribe_many validate rest), snd (subscribe_many validate rest))"
proof (rule conjI)
  have heard: "heard validate (wire to_json ch x) = (case x of Published m \<Rightarrow> Some m | _ \<Rightarrow> None) \<and>
      heard_on validate (wire to_json ch x) = (case x of Published m \<Rightarrow> Some (ch, m) | _ \<Rightarrow> None)"
    if x: "x \<in> set xs" for x
  proof (cases x)
    case (Published m)
    then show ?thesis using codec x by (simp add: heard_def heard_on_def deserialise_def)
  next
    case (Malformed s)
    then obtain e where "validate s = Inl e" using junk x by blast
    then show ?thesis using Malformed by (simp add: heard_def heard_on_def deserialise_def)
  qed (simp add: heard_def heard_on_def)
  show "subscribe validate (map (\<lambda>x. Heard (wire to_json ch x)) xs @ rest) =
      (payloads xs @ fst (subscribe validate rest), snd (subscribe validate rest))"
    using heard by (induction xs) (auto split: sent.splits prod.splits)
  show "subscribe_many validate (map (\<lambda>x. Heard (wire to_json ch x)) xs @ rest) =
      (map (Pair ch) (payloads xs) @ fst (subscribe_many validate rest), snd (subscribe_many validate rest))"
    using heard by (induction xs) (auto split: sent.splits prod.splits)
qed

subsection \<open>Redis as the helpers rely on it\<close>

text \<open>What the code relies on of Redis, as documented: a command that succeeds has its effect, and no
  command touches another key. \<open>look\<close> reads the string keys and \<open>items\<close> the list keys of the server's
  state; a key set with an expiry may vanish later, which is not a command.\<close>

definition redis_laws ::
  "'s redis \<Rightarrow> ('s \<Rightarrow> string \<Rightarrow> string option) \<Rightarrow> ('s \<Rightarrow> string \<Rightarrow> string list) \<Rightarrow> bool" where
  "redis_laws ops look items \<longleftrightarrow>
    (\<forall>k s r s'. rd_get ops k s = (Inr r, s') \<longrightarrow> r = look s k) \<and>
    (\<forall>k v s s'. rd_set ops k v s = (Inr (), s') \<longrightarrow> look s' k = Some v) \<and>
    (\<forall>k t v s s'. rd_setex ops k t v s = (Inr (), s') \<longrightarrow> look s' k = Some v) \<and>
    (\<forall>k s s'. rd_delete ops k s = (Inr (), s') \<longrightarrow> look s' k = None) \<and>
    (\<forall>k v n s s'. 0 \<le> n \<longrightarrow> rd_exec ops [Lpush k v, Ltrim k 0 n] s = (Inr (), s') \<longrightarrow>
       items s' k = take (nat n + 1) (v # items s k)) \<and>
    (\<forall>k j s. look (snd (rd_get ops k s)) j = look s j) \<and>
    (\<forall>k v j s. j \<noteq> k \<longrightarrow> look (snd (rd_set ops k v s)) j = look s j) \<and>
    (\<forall>k t v j s. j \<noteq> k \<longrightarrow> look (snd (rd_setex ops k t v s)) j = look s j) \<and>
    (\<forall>k j s. j \<noteq> k \<longrightarrow> look (snd (rd_delete ops k s)) j = look s j) \<and>
    (\<forall>cs j s. look (snd (rd_exec ops cs s)) j = look s j) \<and>
    (\<forall>ch m j s. look (snd (rd_publish ops ch m s)) j = look s j)"

lemma redis_lawsD:
  assumes "redis_laws ops look items"
  shows "rd_get ops k s = (Inr x, s') \<Longrightarrow> x = look s k"
    and "rd_set ops k v s = (Inr (), s') \<Longrightarrow> look s' k = Some v"
    and "rd_setex ops k t v s = (Inr (), s') \<Longrightarrow> look s' k = Some v"
    and "rd_delete ops k s = (Inr (), s') \<Longrightarrow> look s' k = None"
    and "rd_get ops k s = (r, s') \<Longrightarrow> look s' j = look s j"
    and "rd_set ops k v s = (u, s') \<Longrightarrow> j \<noteq> k \<Longrightarrow> look s' j = look s j"
    and "rd_setex ops k t v s = (u, s') \<Longrightarrow> j \<noteq> k \<Longrightarrow> look s' j = look s j"
    and "rd_delete ops k s = (u, s') \<Longrightarrow> j \<noteq> k \<Longrightarrow> look s' j = look s j"
    and "rd_exec ops cs s = (u, s') \<Longrightarrow> look s' j = look s j"
    and "rd_publish ops ch m s = (n, s') \<Longrightarrow> look s' j = look s j"
  using assms unfolding redis_laws_def by (metis snd_conv)+

lemma push_capped_items:
  assumes laws: "redis_laws ops look items" and n: "1 \<le> n"
    and push: "list_push_capped ops key v n b = (Inr (), b')"
  shows "items (mb_redis b') key = take (nat n) (v # items (mb_redis b) key)"
proof -
  obtain s where s: "rd_exec ops [Lpush key v, Ltrim key 0 (n - 1)] (mb_redis b) = (Inr (), s)" "b' = b\<lparr>mb_redis := s\<rparr>"
    using push by (auto simp: list_push_capped_def with_pool_def split: if_splits prod.splits)
  have "nat (n - 1) + 1 = nat n" using n by simp
  moreover have "items s key = take (nat (n - 1) + 1) (v # items (mb_redis b) key)"
    using laws s(1) n unfolding redis_laws_def by fastforce
  ultimately show ?thesis using s(2) by simp
qed

text \<open>The string keys after each helper, whether it succeeded or not.\<close>

abbreviation bus_look :: "('s \<Rightarrow> string \<Rightarrow> string option) \<Rightarrow> 's message_bus \<Rightarrow> string \<Rightarrow> string option" where
  "bus_look look b \<equiv> look (mb_redis b)"

lemma kv_set_look:
  assumes "redis_laws ops look items" "kv_set ops key v ttl b = (r, b')"
  shows "r = Inr () \<Longrightarrow> bus_look look b' key = Some v" "j \<noteq> key \<Longrightarrow> bus_look look b' j = bus_look look b j"
  using assms(2) redis_lawsD(2,3,6,7) [OF assms(1)] unfolding kv_set_def with_pool_def
  by (auto split: if_splits option.splits prod.splits)

lemma kv_get_look:
  assumes "redis_laws ops look items" "kv_get ops key b = (r, b')"
  shows "r = Inr x \<Longrightarrow> x = bus_look look b key" "bus_look look b' j = bus_look look b j"
  using assms(2) redis_lawsD(1,5) [OF assms(1)] unfolding kv_get_def with_pool_def
  by (auto split: if_splits prod.splits)

lemma cache_delete_look:
  assumes "redis_laws ops look items" "cache_delete ops key b = (r, b')"
  shows "r = Inr () \<Longrightarrow> bus_look look b' key = None" "j \<noteq> key \<Longrightarrow> bus_look look b' j = bus_look look b j"
  using assms(2) redis_lawsD(4,8) [OF assms(1)] unfolding cache_delete_def with_pool_def
  by (auto split: if_splits prod.splits)

lemma publish_look:
  assumes "redis_laws ops look items" "publish_to ops to_json ch m b = (r, b')"
  shows "bus_look look b' j = bus_look look b j"
  using assms(2) redis_lawsD(10) [OF assms(1)] unfolding publish_to_def with_pool_def
  by (auto split: if_splits prod.splits)

lemma push_look:
  assumes "redis_laws ops look items" "list_push_capped ops key v n b = (r, b')"
  shows "bus_look look b' j = bus_look look b j"
  using assms(2) redis_lawsD(9) [OF assms(1)] unfolding list_push_capped_def with_pool_def
  by (auto split: if_splits prod.splits)

lemma kv_round_trip:
  assumes "redis_laws ops look items" "kv_set ops key v ttl b = (Inr (), b1)" "kv_get ops key b1 = (Inr r, b2)"
  shows "r = Some v"
  using kv_set_look(1) [OF assms(1,2) refl] kv_get_look(1) [OF assms(1,3) refl] by simp

subsection \<open>Witnesses\<close>

definition demo_validate :: "string \<Rightarrow> error + string" where
  "demo_validate s = (case s of [] \<Rightarrow> Inl (Validation_error ''empty'') | c # cs \<Rightarrow>
     if c = CHR ''m'' then Inr cs else Inl (Validation_error ''not a message''))"

theorem bus_delivers_published_witness:
  "subscribe demo_validate (map (\<lambda>x. Heard (wire ((#) CHR ''m'') ''system.alert'' x))
     [Published ''up'', Malformed ''junk'', Control None, Published ''down''] @ [Connection_lost Zero_division]) =
   ([''up'', ''down''], Broken Zero_division)"
  by (subst bus_delivers_published [THEN conjunct1]) (auto simp: demo_validate_def)

end
