(* ===== verification/Monitoring_Agent.thy ===== *)
theory Monitoring_Agent
  imports Base_Agent Text_Format
begin

text \<open>
  The monitoring agent (\<open>agents/monitoring/agent.py\<close>): its registry of agents, the heartbeat handler,
  the staleness scan, the alerts both raise, and the health endpoints. An alert is returned with
  whether its publication succeeded; the clock of one handler is read once. The scan iterates over
  a dictionary and waits while it publishes an alert; the heartbeats that arrive in that wait are part
  of its environment, and Python's iterator raises when they change the dictionary's size. Slack's
  payload, the database rows and the HTTP server itself are not modelled.

  Proved here: silence is noticed, alerts keep their distance, and how the scan can die.
\<close>

definition ALERT_COOLDOWN_SECONDS :: rat where "ALERT_COOLDOWN_SECONDS = 300"
definition STALE_THRESHOLD_MULTIPLIER :: int where "STALE_THRESHOLD_MULTIPLIER = 3"

subsection \<open>Agent records\<close>

record agent_record =
  ar_name :: string
  ar_last_heartbeat :: "agent_heartbeat option"
  ar_last_seen_at :: "time option"
  ar_status :: agent_status
  ar_consecutive_missed :: int
  ar_total_heartbeats :: int
  ar_last_alert_at :: "time option"

definition new_agent_record :: "string \<Rightarrow> agent_record" where
  "new_agent_record name = \<lparr>ar_name = name, ar_last_heartbeat = None, ar_last_seen_at = None,
     ar_status = STARTING, ar_consecutive_missed = 0, ar_total_heartbeats = 0, ar_last_alert_at = None\<rparr>"

definition update_record :: "time \<Rightarrow> agent_heartbeat \<Rightarrow> agent_record \<Rightarrow> agent_record" where
  "update_record now hb r = r\<lparr>ar_last_heartbeat := Some hb, ar_last_seen_at := Some now,
     ar_status := hb_status hb, ar_consecutive_missed := 0, ar_total_heartbeats := ar_total_heartbeats r + 1\<rparr>"

definition age_seconds :: "time \<Rightarrow> agent_record \<Rightarrow> rat option" where
  "age_seconds now r = map_option (\<lambda>t. seconds (now - t)) (ar_last_seen_at r)"

definition is_stale :: "time \<Rightarrow> int \<Rightarrow> agent_record \<Rightarrow> bool" where
  "is_stale now timeout r = (case age_seconds now r of None \<Rightarrow> False | Some a \<Rightarrow> a > of_int timeout)"

definition is_alert_on_cooldown :: "time \<Rightarrow> agent_record \<Rightarrow> bool" where
  "is_alert_on_cooldown now r = (case ar_last_alert_at r of None \<Rightarrow> False
     | Some t \<Rightarrow> seconds (now - t) < ALERT_COOLDOWN_SECONDS)"

record agent_row =
  aw_name :: string
  aw_status :: agent_status
  aw_last_seen_seconds_ago :: "rat option"
  aw_consecutive_missed :: int
  aw_total_heartbeats :: int
  aw_is_stale :: bool

definition record_row :: "time \<Rightarrow> agent_record \<Rightarrow> agent_row" where
  "record_row now r = \<lparr>aw_name = ar_name r, aw_status = ar_status r,
     aw_last_seen_seconds_ago = (case age_seconds now r of None \<Rightarrow> None
       | Some a \<Rightarrow> if a = 0 then None else Some (fround 1 a)),
     aw_consecutive_missed = ar_consecutive_missed r, aw_total_heartbeats = ar_total_heartbeats r,
     aw_is_stale = is_stale now (30 * STALE_THRESHOLD_MULTIPLIER) r\<rparr>"

subsection \<open>The agent\<close>

record monitor =
  mo_base :: base_agent
  mo_settings :: monitoring_settings
  mo_agents :: "(string, agent_record) dict"
  mo_server :: bool

definition monitoring_name :: string where "monitoring_name = ''monitoring_agent''"

definition new_monitor :: "settings \<Rightarrow> monitor" where
  "new_monitor s = \<lparr>mo_base = new_base_agent s monitoring_name, mo_settings = st_monitoring s,
     mo_agents = [], mo_server = False\<rparr>"

definition monitor_setup :: "error option \<Rightarrow> monitor \<Rightarrow> (error + unit) \<times> monitor" where
  "monitor_setup failure m = (case failure of Some e \<Rightarrow> (Inl e, m\<lparr>mo_server := True\<rparr>)
     | None \<Rightarrow> (Inr (), m\<lparr>mo_server := True\<rparr>))"

definition monitor_teardown :: "monitor \<Rightarrow> monitor" where
  "monitor_teardown m = m\<lparr>mo_server := False\<rparr>"

subsection \<open>Alerts\<close>

record monitor_env =
  mv_now :: time
  mv_alert_id :: uuid
  mv_published :: bool

text \<open>The alert, and whether the bus took it; the record's cooldown starts in either case.\<close>

definition raise_alert ::
  "monitor_env \<Rightarrow> alert_type \<Rightarrow> alert_severity \<Rightarrow> string \<Rightarrow> string \<Rightarrow> monitor \<Rightarrow> (system_alert \<times> bool) \<times> monitor" where
  "raise_alert env kind severity message name m =
    ((\<lparr>al_alert_id = mv_alert_id env, al_alert_type = kind, al_severity = severity,
       al_timestamp = mv_now env, al_message = message, al_agent_name = Some name, al_resolved = False\<rparr>,
      mv_published env),
     m\<lparr>mo_agents := (case map_of (mo_agents m) name of None \<Rightarrow> mo_agents m
        | Some r \<Rightarrow> AList.update name (r\<lparr>ar_last_alert_at := Some (mv_now env)\<rparr>) (mo_agents m))\<rparr>)"

definition quote_char :: string where "quote_char = [char_of (39 :: nat)]"

definition crash_message :: "string \<Rightarrow> string" where
  "crash_message name = ''Agent '' @ quote_char @ name @ quote_char @ '' has been quarantined after repeated crashes.''"

definition stale_message :: "string \<Rightarrow> rat \<Rightarrow> int \<Rightarrow> int \<Rightarrow> string" where
  "stale_message name age timeout missed = ''Agent '' @ quote_char @ name @ quote_char @
     '' has not sent a heartbeat for '' @ fixed 0 age @ ''s (timeout: '' @ int_text timeout @
     ''s). Consecutive missed: '' @ int_text missed @ ''.''"

definition process_heartbeat ::
  "monitor_env \<Rightarrow> agent_heartbeat \<Rightarrow> monitor \<Rightarrow> (system_alert \<times> bool) list \<times> monitor" where
  "process_heartbeat env hb m =
    (let name = hb_agent_name hb;
         r = (case map_of (mo_agents m) name of None \<Rightarrow> new_agent_record name | Some r \<Rightarrow> r);
         m1 = m\<lparr>mo_agents := AList.update name (update_record (mv_now env) hb r) (mo_agents m)\<rparr>
     in if hb_status hb = QUARANTINED
        then (case raise_alert env AGENT_CRASH CRITICAL (crash_message name) name m1 of (a, m2) \<Rightarrow> ([a], m2))
        else ([], m1))"

text \<open>The listener stops for good once the agent should not continue.\<close>

definition consume_heartbeat ::
  "monitor_env \<Rightarrow> agent_heartbeat \<Rightarrow> monitor \<Rightarrow> (system_alert \<times> bool) list \<times> monitor" where
  "consume_heartbeat env hb m = (if should_continue (mo_base m) then process_heartbeat env hb m else ([], m))"

fun consume_all :: "(monitor_env \<times> agent_heartbeat) list \<Rightarrow> monitor \<Rightarrow> (system_alert \<times> bool) list \<times> monitor" where
  "consume_all [] m = ([], m)"
| "consume_all ((env, hb) # xs) m = (case consume_heartbeat env hb m of (as, m1) \<Rightarrow>
     case consume_all xs m1 of (bs, m2) \<Rightarrow> (as @ bs, m2))"

subsection \<open>The staleness scan\<close>

record scan_env =
  se_alert :: "string \<Rightarrow> monitor_env"
  se_arrivals :: "string \<Rightarrow> (monitor_env \<times> agent_heartbeat) list"  \<comment> \<open>while the alert about that agent is sent\<close>

definition check_record :: "scan_env \<Rightarrow> time \<Rightarrow> string \<Rightarrow> monitor \<Rightarrow> (system_alert \<times> bool) list \<times> monitor" where
  "check_record env now name m =
    (let timeout = mon_heartbeat_timeout_seconds (mo_settings m) in
     case map_of (mo_agents m) name of
       None \<Rightarrow> ([], m)
     | Some r \<Rightarrow>
       if name = monitoring_name \<or> \<not> is_stale now timeout r then ([], m)
       else let r1 = r\<lparr>ar_consecutive_missed := ar_consecutive_missed r + 1\<rparr>;
                m1 = m\<lparr>mo_agents := AList.update name r1 (mo_agents m)\<rparr>
       in if is_alert_on_cooldown now r1 then ([], m1)
          else (case raise_alert (se_alert env name) AGENT_STALE CRITICAL
              (stale_message name (the (age_seconds now r1)) timeout (ar_consecutive_missed r1)) name m1 of
            (a, m2) \<Rightarrow> case consume_all (se_arrivals env name) m2 of (bs, m3) \<Rightarrow> (a # bs, m3)))"

fun scan_records :: "scan_env \<Rightarrow> time \<Rightarrow> nat \<Rightarrow> string list \<Rightarrow> monitor \<Rightarrow>
    (error + unit) \<times> (system_alert \<times> bool) list \<times> monitor" where
  "scan_records env now n [] m = (if length (mo_agents m) \<noteq> n
     then Inl (Runtime_error ''dictionary changed size during iteration'') else Inr (), [], m)"
| "scan_records env now n (name # names) m = (if length (mo_agents m) \<noteq> n
     then (Inl (Runtime_error ''dictionary changed size during iteration''), [], m)
     else case check_record env now name m of (as, m1) \<Rightarrow>
       (case scan_records env now n names m1 of (out, bs, m2) \<Rightarrow> (out, as @ bs, m2)))"

definition staleness_scan :: "scan_env \<Rightarrow> time \<Rightarrow> monitor \<Rightarrow> (error + unit) \<times> (system_alert \<times> bool) list \<times> monitor" where
  "staleness_scan env now m = scan_records env now (length (mo_agents m)) (map fst (mo_agents m)) m"

text \<open>The scanning task: one scan per wake-up, until the agent stops; an exception ends it.\<close>

fun staleness_loop :: "(scan_env \<times> time) list \<Rightarrow> monitor \<Rightarrow> (error + unit) \<times> (system_alert \<times> bool) list \<times> monitor" where
  "staleness_loop [] m = (Inr (), [], m)"
| "staleness_loop ((env, now) # ticks) m = (if \<not> should_continue (mo_base m) then (Inr (), [], m)
     else case staleness_scan env now m of
       (Inl e, as, m1) \<Rightarrow> (Inl e, as, m1)
     | (Inr _, as, m1) \<Rightarrow> (case staleness_loop ticks m1 of (out, bs, m2) \<Rightarrow> (out, as @ bs, m2)))"

subsection \<open>Routing and endpoints\<close>

text \<open>An alert is routed where it is raised, and again by the listener for every published alert the
  bus delivers, the agent's own included. \<open>slack\<close> is whether a webhook is configured.\<close>

definition route_alert :: "bool \<Rightarrow> system_alert \<Rightarrow> system_alert list" where
  "route_alert slack a = (if slack then [a] else [])"

definition alert_listener :: "bool \<Rightarrow> monitor \<Rightarrow> system_alert \<Rightarrow> system_alert list" where
  "alert_listener slack m a = (if should_continue (mo_base m) then route_alert slack a else [])"

definition slack_messages :: "bool \<Rightarrow> monitor \<Rightarrow> system_alert \<times> bool \<Rightarrow> system_alert list" where
  "slack_messages slack m x = route_alert slack (fst x) @ (if snd x then alert_listener slack m (fst x) else [])"

definition slack_color :: "alert_severity \<Rightarrow> string" where
  "slack_color s = (case s of INFO \<Rightarrow> ''#36a64f'' | WARNING \<Rightarrow> ''#ff9f00'' | CRITICAL \<Rightarrow> ''#cc0000'')"

definition stale_agents :: "time \<Rightarrow> monitor \<Rightarrow> string list" where
  "stale_agents now m = map fst (filter (\<lambda>(name, r). is_stale now (mon_heartbeat_timeout_seconds (mo_settings m)) r
     \<and> name \<noteq> monitoring_name) (mo_agents m))"

definition handle_health :: "time \<Rightarrow> monitor \<Rightarrow> int \<times> string list" where
  "handle_health now m = (let stale = stale_agents now m in (if stale = [] then 200 else 503, stale))"

definition handle_agents :: "time \<Rightarrow> monitor \<Rightarrow> (string \<times> agent_row) list" where
  "handle_agents now m = map (\<lambda>(name, r). (name, record_row now r)) (mo_agents m)"

definition monitor_health_extra :: "time \<Rightarrow> monitor \<Rightarrow> nat \<times> string list" where
  "monitor_health_extra now m = (length (mo_agents m), map fst (filter (\<lambda>(name, r).
     is_stale now (mon_heartbeat_timeout_seconds (mo_settings m)) r) (mo_agents m)))"

subsection \<open>What a scan reports\<close>

definition due :: "time \<Rightarrow> monitor \<Rightarrow> string \<Rightarrow> bool" where
  "due now m name \<longleftrightarrow> (case map_of (mo_agents m) name of None \<Rightarrow> False
     | Some r \<Rightarrow> name \<noteq> monitoring_name \<and> is_stale now (mon_heartbeat_timeout_seconds (mo_settings m)) r
         \<and> \<not> is_alert_on_cooldown now r)"

definition stale_alert_for :: "string \<Rightarrow> system_alert \<Rightarrow> bool" where
  "stale_alert_for name a \<longleftrightarrow> al_agent_name a = Some name \<and> al_alert_type a = AGENT_STALE \<and> al_severity a = CRITICAL"

abbreviation seen_at :: "monitor \<Rightarrow> string \<Rightarrow> time option" where
  "seen_at m name \<equiv> (case map_of (mo_agents m) name of None \<Rightarrow> None | Some r \<Rightarrow> ar_last_seen_at r)"

abbreviation alerted_at :: "monitor \<Rightarrow> string \<Rightarrow> time option" where
  "alerted_at m name \<equiv> (case map_of (mo_agents m) name of None \<Rightarrow> None | Some r \<Rightarrow> ar_last_alert_at r)"

lemma map_fst_update: "k \<in> fst ` set d \<Longrightarrow> map fst (AList.update k w d) = map fst d"
  by (induction d) auto

lemma map_fst_update_present: "map_of d k = Some v \<Longrightarrow> map fst (AList.update k w d) = map fst d"
  by (auto intro!: map_fst_update dest: map_of_keys)

lemma raise_alert_fields [simp]:
  "mo_base (snd (raise_alert env k sev msg name m)) = mo_base m"
  "mo_settings (snd (raise_alert env k sev msg name m)) = mo_settings m"
  "map fst (mo_agents (snd (raise_alert env k sev msg name m))) = map fst (mo_agents m)"
  "map_of (mo_agents (snd (raise_alert env k sev msg name m))) j = (if j = name
     then map_option (\<lambda>r. r\<lparr>ar_last_alert_at := Some (mv_now env)\<rparr>) (map_of (mo_agents m) name)
     else map_of (mo_agents m) j)"
  by (auto simp: raise_alert_def map_fst_update_present split: option.splits)

text \<open>A check without arrivals touches the one record, and alerts exactly when the agent is due.\<close>

lemma check_record_spec:
  assumes "se_arrivals env name = []" "check_record env now name m = (as, m')"
  shows "mo_base m' = mo_base m \<and> mo_settings m' = mo_settings m \<and> map fst (mo_agents m') = map fst (mo_agents m) \<and>
    (\<forall>j. seen_at m' j = seen_at m j) \<and> (\<forall>j. j \<noteq> name \<longrightarrow> map_of (mo_agents m') j = map_of (mo_agents m) j) \<and>
    (if due now m name then (\<exists>a. as = [a] \<and> stale_alert_for name (fst a)) else as = [] \<and> alerted_at m' name = alerted_at m name)"
proof (cases "map_of (mo_agents m) name")
  case None
  then show ?thesis using assms by (simp add: check_record_def due_def)
next
  case (Some r)
  then show ?thesis
    using assms unfolding check_record_def due_def Let_def
    by (auto simp: map_fst_update_present stale_alert_for_def raise_alert_def is_alert_on_cooldown_def
      split: if_splits option.splits prod.splits)
qed

text \<open>A scan without arrivals completes and alerts exactly the agents that were due, once each.\<close>

lemma scan_records_spec:
  assumes "\<forall>k\<in>set names. se_arrivals env k = []" "distinct names" "length (mo_agents m) = n"
    and "scan_records env now n names m = (out, as, m')"
  shows "out = Inr () \<and> mo_base m' = mo_base m \<and> mo_settings m' = mo_settings m \<and>
    map fst (mo_agents m') = map fst (mo_agents m) \<and> (\<forall>j. seen_at m' j = seen_at m j) \<and>
    (\<forall>j. j \<notin> set names \<longrightarrow> map_of (mo_agents m') j = map_of (mo_agents m) j) \<and>
    (\<forall>j. \<not> due now m j \<longrightarrow> alerted_at m' j = alerted_at m j) \<and>
    list_all2 stale_alert_for (filter (due now m) names) (map fst as)"
  using assms
proof (induction names arbitrary: m as)
  case Nil
  then show ?case by simp
next
  case (Cons name names)
  obtain as1 m1 where c: "check_record env now name m = (as1, m1)" by (cases "check_record env now name m")
  have spec: "mo_base m1 = mo_base m" "mo_settings m1 = mo_settings m" "map fst (mo_agents m1) = map fst (mo_agents m)"
    "\<forall>j. seen_at m1 j = seen_at m j" "\<forall>j. j \<noteq> name \<longrightarrow> map_of (mo_agents m1) j = map_of (mo_agents m) j"
    "if due now m name then (\<exists>a. as1 = [a] \<and> stale_alert_for name (fst a)) else as1 = [] \<and> alerted_at m1 name = alerted_at m name"
    using check_record_spec [OF _ c] Cons.prems(1) by auto
  have len: "length (mo_agents m1) = n" using spec(3) Cons.prems(3) by (metis length_map)
  obtain as2 where r: "scan_records env now n names m1 = (out, as2, m')" "as = as1 @ as2"
    using Cons.prems(3,4) c by (auto split: prod.splits)
  have other: "due now m1 j = due now m j" if "j \<noteq> name" for j
    using spec(2,5) that by (simp add: due_def split: option.split)
  have filt: "filter (due now m1) names = filter (due now m) names"
    using Cons.prems(2) by (intro filter_cong refl other) auto
  have ih: "out = Inr ()" "mo_base m' = mo_base m1" "mo_settings m' = mo_settings m1"
    "map fst (mo_agents m') = map fst (mo_agents m1)" "\<forall>j. seen_at m' j = seen_at m1 j"
    "\<forall>j. j \<notin> set names \<longrightarrow> map_of (mo_agents m') j = map_of (mo_agents m1) j"
    "\<forall>j. \<not> due now m1 j \<longrightarrow> alerted_at m' j = alerted_at m1 j"
    "list_all2 stale_alert_for (filter (due now m1) names) (map fst as2)"
    using Cons.IH [OF _ _ len r(1)] Cons.prems by auto
  have al: "alerted_at m' j = alerted_at m j" if n: "\<not> due now m j" for j
  proof (cases "j = name")
    case True
    then show ?thesis using ih(6) Cons.prems(2) spec(6) n by auto
  next
    case False
    then show ?thesis using ih(7) other [OF False] n spec(5) by auto
  qed
  show ?case
    using ih spec al r(2) filt Cons.prems(2)
    by (cases "due now m name") (auto simp: list_all2_append)
qed

subsection \<open>Runs of the agent\<close>

datatype monitor_event = Ev_heartbeat monitor_env agent_heartbeat | Ev_scan scan_env time

text \<open>The alerts of a run; \<open>scanning\<close> is whether the scanning task is still alive.\<close>

fun monitor_run :: "monitor_event list \<Rightarrow> bool \<Rightarrow> monitor \<Rightarrow> (system_alert \<times> bool) list" where
  "monitor_run [] scanning m = []"
| "monitor_run (Ev_heartbeat env hb # es) scanning m = (case consume_heartbeat env hb m of
     (as, m1) \<Rightarrow> as @ monitor_run es scanning m1)"
| "monitor_run (Ev_scan env now # es) scanning m = (if \<not> scanning \<or> \<not> should_continue (mo_base m)
     then monitor_run es False m
     else case staleness_scan env now m of
       (Inl e, as, m1) \<Rightarrow> as @ monitor_run es False m1
     | (Inr _, as, m1) \<Rightarrow> as @ monitor_run es True m1)"

lemma consume_heartbeat_other:
  assumes "consume_heartbeat env hb m = (as, m1)" "hb_agent_name hb \<noteq> name"
  shows "map_of (mo_agents m1) name = map_of (mo_agents m) name" "mo_base m1 = mo_base m"
    "mo_settings m1 = mo_settings m" "dict_ok (mo_agents m) \<Longrightarrow> dict_ok (mo_agents m1)"
  using assms unfolding consume_heartbeat_def process_heartbeat_def Let_def
  by (auto simp: raise_alert_def split: if_splits prod.splits)

lemma list_all2_witness: "list_all2 P xs ys \<Longrightarrow> x \<in> set xs \<Longrightarrow> \<exists>y\<in>set ys. P x y"
  by (induction rule: list_all2_induct) auto

lemma scan_spec:
  assumes "se_arrivals env = (\<lambda>_. [])" "dict_ok (mo_agents m)" "staleness_scan env now m = (out, as, m')"
  shows "out = Inr ()" "mo_base m' = mo_base m" "mo_settings m' = mo_settings m" "dict_ok (mo_agents m')"
    "seen_at m' j = seen_at m j" "\<not> due now m j \<Longrightarrow> alerted_at m' j = alerted_at m j"
    "due now m j \<Longrightarrow> \<exists>a\<in>set as. stale_alert_for j (fst a)"
proof -
  have spec: "out = Inr () \<and> mo_base m' = mo_base m \<and> mo_settings m' = mo_settings m \<and>
    map fst (mo_agents m') = map fst (mo_agents m) \<and> (\<forall>j. seen_at m' j = seen_at m j) \<and>
    (\<forall>j. j \<notin> set (map fst (mo_agents m)) \<longrightarrow> map_of (mo_agents m') j = map_of (mo_agents m) j) \<and>
    (\<forall>j. \<not> due now m j \<longrightarrow> alerted_at m' j = alerted_at m j) \<and>
    list_all2 stale_alert_for (filter (due now m) (map fst (mo_agents m))) (map fst as)"
    using assms by (intro scan_records_spec) (auto simp: staleness_scan_def)
  then show "out = Inr ()" "mo_base m' = mo_base m" "mo_settings m' = mo_settings m" "dict_ok (mo_agents m')"
    "seen_at m' j = seen_at m j" "\<not> due now m j \<Longrightarrow> alerted_at m' j = alerted_at m j"
    using assms(2) by simp_all
  show "\<exists>a\<in>set as. stale_alert_for j (fst a)" if d: "due now m j"
  proof -
    obtain r where "map_of (mo_agents m) j = Some r" using d by (auto simp: due_def split: option.splits)
    then have "j \<in> set (filter (due now m) (map fst (mo_agents m)))" using d by (auto dest: map_of_keys)
    moreover have "list_all2 stale_alert_for (filter (due now m) (map fst (mo_agents m))) (map fst as)" using spec by simp
    ultimately have "\<exists>y\<in>set (map fst as). stale_alert_for j y" by (rule list_all2_witness [rotated])
    then show ?thesis by simp
  qed
qed

text \<open>The agent \<open>name\<close> was last heard at \<open>seen\<close> and last alerted at \<open>al\<close>.\<close>

definition watched :: "string \<Rightarrow> time \<Rightarrow> time option \<Rightarrow> monitor \<Rightarrow> bool" where
  "watched name seen al m \<longleftrightarrow> seen_at m name = Some seen \<and> alerted_at m name = al \<and>
     dict_ok (mo_agents m) \<and> should_continue (mo_base m)"

lemma watched_heartbeat:
  assumes "watched name seen al m" "consume_heartbeat env hb m = (as, m1)" "hb_agent_name hb \<noteq> name"
  shows "watched name seen al m1" "mo_settings m1 = mo_settings m"
  using assms consume_heartbeat_other [OF assms(2,3)] by (simp_all add: watched_def)

lemma watched_scan:
  assumes "watched name seen al m" "se_arrivals env = (\<lambda>_. [])" "staleness_scan env now m = (out, as, m1)"
    and "\<not> due now m name"
  shows "watched name seen al m1" "mo_settings m1 = mo_settings m"
proof -
  have "dict_ok (mo_agents m)" using assms(1) by (simp add: watched_def)
  note spec = scan_spec [OF assms(2) this assms(3)]
  show "watched name seen al m1" using assms(1) spec(2,4) spec(5) [of name] spec(6) [OF assms(4)]
    unfolding watched_def by metis
  show "mo_settings m1 = mo_settings m" by (rule spec(3))
qed

lemma watched_due:
  assumes "watched name seen al m" "name \<noteq> monitoring_name"
    and "of_int (mon_heartbeat_timeout_seconds (mo_settings m)) < seconds (now - seen)"
    and "\<forall>t. al = Some t \<longrightarrow> \<not> seconds (now - t) < ALERT_COOLDOWN_SECONDS"
  shows "due now m name"
proof -
  obtain r where r: "map_of (mo_agents m) name = Some r" "ar_last_seen_at r = Some seen" "ar_last_alert_at r = al"
    using assms(1) by (auto simp: watched_def split: option.splits)
  then show ?thesis using assms(2-4)
    by (simp add: due_def is_stale_def age_seconds_def is_alert_on_cooldown_def split: option.split)
qed

lemma silence_aux:
  assumes "watched name seen al m" "name \<noteq> monitoring_name"
    and "\<forall>e hb. Ev_heartbeat e hb \<in> set es \<longrightarrow> hb_agent_name hb \<noteq> name"
    and "\<forall>e t. Ev_scan e t \<in> set es \<longrightarrow> se_arrivals e = (\<lambda>_. [])"
    and "Ev_scan env now \<in> set es" "of_int (mon_heartbeat_timeout_seconds (mo_settings m)) < seconds (now - seen)"
    and "\<forall>t. al = Some t \<longrightarrow> \<not> seconds (now - t) < ALERT_COOLDOWN_SECONDS"
  shows "\<exists>a\<in>set (monitor_run es True m). stale_alert_for name (fst a)"
  using assms
proof (induction es arbitrary: m)
  case (Cons e es)
  have rest: "\<forall>e hb. Ev_heartbeat e hb \<in> set es \<longrightarrow> hb_agent_name hb \<noteq> name"
    "\<forall>e t. Ev_scan e t \<in> set es \<longrightarrow> se_arrivals e = (\<lambda>_. [])"
    using Cons.prems(3,4) by simp_all
  note ih = Cons.IH [OF _ Cons.prems(2) rest _ _ Cons.prems(7)]
  show ?case
  proof (cases e)
    case (Ev_heartbeat env' hb)
    obtain as m1 where c: "consume_heartbeat env' hb m = (as, m1)" by (cases "consume_heartbeat env' hb m")
    have "hb_agent_name hb \<noteq> name" using Cons.prems(3) Ev_heartbeat by auto
    note w = watched_heartbeat [OF Cons.prems(1) c this]
    have "Ev_scan env now \<in> set es" using Cons.prems(5) Ev_heartbeat by auto
    from ih [OF w(1) this] Cons.prems(6) w(2)
    have "\<exists>a\<in>set (monitor_run es True m1). stale_alert_for name (fst a)" by simp
    then show ?thesis unfolding Ev_heartbeat monitor_run.simps c by auto
  next
    case (Ev_scan env' now')
    obtain out as m1 where s: "staleness_scan env' now' m = (out, as, m1)" by (cases "staleness_scan env' now' m")
    have arr: "se_arrivals env' = (\<lambda>_. [])"
      by (rule Cons.prems(4) [rule_format, of env' now']) (simp add: Ev_scan)
    have cont: "should_continue (mo_base m)" "dict_ok (mo_agents m)" using Cons.prems(1) by (simp_all add: watched_def)
    note spec = scan_spec [OF arr cont(2) s]
    show ?thesis
    proof (cases "due now' m name")
      case True
      then obtain a where "a \<in> set as" "stale_alert_for name (fst a)" using spec(7) by blast
      then show ?thesis using s spec(1) cont(1) unfolding Ev_scan monitor_run.simps by auto
    next
      case False
      note w = watched_scan [OF Cons.prems(1) arr s False]
      have "Ev_scan env now \<noteq> e"
        using False watched_due [OF Cons.prems(1,2,6,7)] Ev_scan by auto
      then have "Ev_scan env now \<in> set es" using Cons.prems(5) by auto
      from ih [OF w(1) this] Cons.prems(6) w(2)
      have "\<exists>a\<in>set (monitor_run es True m1). stale_alert_for name (fst a)" by simp
      then show ?thesis using s spec(1) cont(1) unfolding Ev_scan monitor_run.simps by auto
    qed
  qed
qed simp

text \<open>C17: Silence is noticed. If a known agent sends nothing more, then any later scan that finds its last
  heartbeat older than the timeout leaves a critical stale alert about it in the run, unless an alert
  about it was raised less than the cooldown before; other agents' heartbeats and earlier scans do not
  prevent it, provided no heartbeat arrives in the middle of a scan.\<close>

theorem monitor_detects_silence:
  assumes "map_of (mo_agents m) name = Some r" "ar_last_seen_at r = Some seen" "name \<noteq> monitoring_name"
    and "dict_ok (mo_agents m)" "should_continue (mo_base m)"
    and "\<forall>e hb. Ev_heartbeat e hb \<in> set es \<longrightarrow> hb_agent_name hb \<noteq> name"
    and "\<forall>e t. Ev_scan e t \<in> set es \<longrightarrow> se_arrivals e = (\<lambda>_. [])"
    and "Ev_scan env now \<in> set es" "of_int (mon_heartbeat_timeout_seconds (mo_settings m)) < seconds (now - seen)"
    and "\<forall>t. ar_last_alert_at r = Some t \<longrightarrow> \<not> seconds (now - t) < ALERT_COOLDOWN_SECONDS"
  shows "\<exists>a\<in>set (monitor_run es True m). stale_alert_for name (fst a)"
proof -
  have "watched name seen (ar_last_alert_at r) m" using assms(1,2,4,5) by (simp add: watched_def)
  from silence_aux [OF this assms(3,6-10)] show ?thesis .
qed

subsection \<open>How scanning ends\<close>

lemma consume_heartbeat_keys:
  assumes "should_continue (mo_base m)"
  shows "map fst (mo_agents (snd (consume_heartbeat env hb m))) = (if hb_agent_name hb \<in> fst ` set (mo_agents m)
      then map fst (mo_agents m) else map fst (mo_agents m) @ [hb_agent_name hb])"
    "mo_base (snd (consume_heartbeat env hb m)) = mo_base m"
proof -
  have "map fst (AList.update (hb_agent_name hb) x (mo_agents m)) = (if hb_agent_name hb \<in> fst ` set (mo_agents m)
      then map fst (mo_agents m) else map fst (mo_agents m) @ [hb_agent_name hb])" for x
  proof (cases "hb_agent_name hb \<in> fst ` set (mo_agents m)")
    case False
    then show ?thesis by (simp add: map_of_eq_None_iff [symmetric] update_new)
  qed (simp add: map_fst_update)
  then show "map fst (mo_agents (snd (consume_heartbeat env hb m))) = (if hb_agent_name hb \<in> fst ` set (mo_agents m)
      then map fst (mo_agents m) else map fst (mo_agents m) @ [hb_agent_name hb])"
    "mo_base (snd (consume_heartbeat env hb m)) = mo_base m"
    using assms unfolding consume_heartbeat_def process_heartbeat_def Let_def
    by (simp_all add: raise_alert_def map_fst_update_present)
qed

lemma consume_all_keys:
  assumes "should_continue (mo_base m)" "consume_all xs m = (as, m')"
  shows "\<exists>new. map fst (mo_agents m') = map fst (mo_agents m) @ new \<and>
    fst ` set (mo_agents m') = fst ` set (mo_agents m) \<union> (hb_agent_name \<circ> snd) ` set xs"
  using assms
proof (induction xs arbitrary: m as)
  case (Cons x xs)
  obtain env hb where x: "x = (env, hb)" by (cases x)
  obtain as1 m1 where c: "consume_heartbeat env hb m = (as1, m1)" by (cases "consume_heartbeat env hb m")
  obtain as2 where r: "consume_all xs m1 = (as2, m')" using Cons.prems x c by (auto split: prod.splits)
  have k: "map fst (mo_agents m1) = (if hb_agent_name hb \<in> fst ` set (mo_agents m)
      then map fst (mo_agents m) else map fst (mo_agents m) @ [hb_agent_name hb])" "mo_base m1 = mo_base m"
    using consume_heartbeat_keys [OF Cons.prems(1), of env hb] c by simp_all
  then have k': "fst ` set (mo_agents m1) = insert (hb_agent_name hb) (fst ` set (mo_agents m))"
    by (metis (no_types) insert_absorb list.set_map list.simps(15) rotate1.simps(2) set_rotate1)
  show ?case using Cons.IH [OF _ r] Cons.prems(1) k k' x by (auto split: if_splits)
qed auto

lemma check_due:
  assumes "due now m name"
  shows "\<exists>a m2. check_record env now name m = (case consume_all (se_arrivals env name) m2 of (bs, m3) \<Rightarrow> (a # bs, m3)) \<and>
    map fst (mo_agents m2) = map fst (mo_agents m) \<and> mo_base m2 = mo_base m"
proof -
  obtain r where r: "map_of (mo_agents m) name = Some r" "name \<noteq> monitoring_name"
    "is_stale now (mon_heartbeat_timeout_seconds (mo_settings m)) r" "\<not> is_alert_on_cooldown now r"
    using assms by (auto simp: due_def split: option.splits)
  define r1 where "r1 = r\<lparr>ar_consecutive_missed := ar_consecutive_missed r + 1\<rparr>"
  define m1 where "m1 = m\<lparr>mo_agents := AList.update name r1 (mo_agents m)\<rparr>"
  define p where "p = raise_alert (se_alert env name) AGENT_STALE CRITICAL
    (stale_message name (the (age_seconds now r1)) (mon_heartbeat_timeout_seconds (mo_settings m)) (ar_consecutive_missed r1)) name m1"
  have "\<not> is_alert_on_cooldown now r1" using r(4) by (simp add: r1_def is_alert_on_cooldown_def)
  then have "check_record env now name m =
      (case consume_all (se_arrivals env name) (snd p) of (bs, m3) \<Rightarrow> (fst p # bs, m3))"
    using r unfolding check_record_def Let_def p_def m1_def r1_def by (simp split: prod.split)
  moreover have "map fst (mo_agents (snd p)) = map fst (mo_agents m)" "mo_base (snd p) = mo_base m"
    using r(1) by (simp_all add: p_def m1_def map_fst_update_present)
  ultimately show ?thesis by blast
qed

lemma scan_append:
  "scan_records env now n (xs @ ys) m = (case scan_records env now n xs m of
     (Inl e, as, m1) \<Rightarrow> (Inl e, as, m1)
   | (Inr _, as, m1) \<Rightarrow> (case scan_records env now n ys m1 of (out, bs, m2) \<Rightarrow> (out, as @ bs, m2)))"
proof (induction xs arbitrary: m)
  case Nil
  then show ?case by (cases ys) (simp_all split: prod.split)
next
  case (Cons x xs)
  then show ?case by (simp split: prod.split sum.split)
qed

lemma scan_wrong_size:
  "length (mo_agents m) \<noteq> n \<Longrightarrow> scan_records env now n names m =
    (Inl (Runtime_error ''dictionary changed size during iteration''), [], m)"
  by (cases names) simp_all

text \<open>One new agent can end staleness checking for good. If the first heartbeat of an unknown agent
  arrives while the alert about a stale agent is being sent, the scan raises \<open>RuntimeError\<close> (the
  dictionary it iterates over has grown), and the scanning task ends with it: no later tick is served.\<close>

theorem monitor_new_agent_ends_scanning:
  assumes "should_continue (mo_base m)" "dict_ok (mo_agents m)" "due now m name"
    and "se_arrivals env = (\<lambda>k. if k = name then xs else [])"
    and "(e, hb) \<in> set xs" "hb_agent_name hb \<notin> fst ` set (mo_agents m)"
  shows "\<exists>as m'. \<forall>ticks. staleness_loop ((env, now) # ticks) m =
    (Inl (Runtime_error ''dictionary changed size during iteration''), as, m')"
proof -
  let ?n = "length (mo_agents m)"
  obtain r where r: "map_of (mo_agents m) name = Some r" using assms(3) by (auto simp: due_def split: option.splits)
  then have "name \<in> set (map fst (mo_agents m))" by (auto dest: map_of_keys)
  then obtain ns1 ns2 where ns: "map fst (mo_agents m) = ns1 @ name # ns2" by (meson split_list)
  have d: "distinct ns1" "name \<notin> set ns1" using assms(2) ns by auto
  obtain out as1 m1 where p: "scan_records env now ?n ns1 m = (out, as1, m1)" by (cases "scan_records env now ?n ns1 m") auto
  have spec: "out = Inr ()" "mo_base m1 = mo_base m" "mo_settings m1 = mo_settings m"
    "map fst (mo_agents m1) = map fst (mo_agents m)" "map_of (mo_agents m1) name = map_of (mo_agents m) name"
    using scan_records_spec [OF _ d(1) refl p] assms(4) d(2) by auto
  have "due now m1 name" using assms(3) spec(3,5) by (simp add: due_def split: option.splits)
  then obtain a m2 where c: "check_record env now name m1 = (case consume_all xs m2 of (bs, m3) \<Rightarrow> (a # bs, m3))"
    "map fst (mo_agents m2) = map fst (mo_agents m)" "mo_base m2 = mo_base m"
    using check_due [of now m1 name env] assms(4) spec(2,4) by auto
  obtain bs m3 where a: "consume_all xs m2 = (bs, m3)" by (cases "consume_all xs m2")
  have keys: "fst ` set (mo_agents m2) = fst ` set (mo_agents m)" using c(2) by (metis list.set_map)
  obtain new where new: "map fst (mo_agents m3) = map fst (mo_agents m2) @ new"
    "fst ` set (mo_agents m3) = fst ` set (mo_agents m2) \<union> (hb_agent_name \<circ> snd) ` set xs"
    using consume_all_keys [OF _ a] assms(1) c(3) by auto
  have "hb_agent_name hb \<in> fst ` set (mo_agents m3)" unfolding new(2) using assms(5) by force
  then have "new \<noteq> []" using new(1) keys assms(6) by (metis append_Nil2 list.set_map)
  moreover have "length (map fst (mo_agents m3)) = length (map fst (mo_agents m)) + length new"
    using new(1) c(2) by simp
  ultimately have "length (mo_agents m3) \<noteq> ?n" by simp
  moreover have "length (mo_agents m1) = ?n" using spec(4) by (metis length_map)
  ultimately have "scan_records env now ?n (name # ns2) m1 =
      (Inl (Runtime_error ''dictionary changed size during iteration''), a # bs, m3)"
    using c(1) a by (simp add: scan_wrong_size)
  then have "staleness_scan env now m = (Inl (Runtime_error ''dictionary changed size during iteration''), as1 @ a # bs, m3)"
    unfolding staleness_scan_def ns scan_append p using spec(1) by simp
  then show ?thesis using assms(1) by auto
qed

text \<open>An alert the bus accepts comes back through the agent's own subscription and is routed again.\<close>

lemma published_alert_routed_twice:
  "should_continue (mo_base m) \<Longrightarrow> slack_messages True m (a, True) = [a, a]"
  by (simp add: slack_messages_def route_alert_def alert_listener_def)

subsection \<open>Witnesses\<close>

definition demo_heartbeat :: "string \<Rightarrow> agent_heartbeat" where
  "demo_heartbeat name = \<lparr>hb_agent_name = name, hb_status = RUNNING, hb_timestamp = 0,
     hb_messages_processed = 0, hb_errors_since_start = 0, hb_uptime_seconds = 0, hb_extra = []\<rparr>"

definition demo_monitor_env :: "time \<Rightarrow> monitor_env" where
  "demo_monitor_env t = \<lparr>mv_now = t, mv_alert_id = 0, mv_published = True\<rparr>"

definition demo_monitor :: monitor where
  "demo_monitor = snd (consume_heartbeat (demo_monitor_env 0) (demo_heartbeat ''risk_agent'') (new_monitor default_settings))"

definition demo_scan_env :: "(monitor_env \<times> agent_heartbeat) list \<Rightarrow> scan_env" where
  "demo_scan_env xs = \<lparr>se_alert = (\<lambda>_. demo_monitor_env (60 * 10 ^ 6)),
     se_arrivals = (\<lambda>k. if k = ''risk_agent'' then xs else [])\<rparr>"

lemma demo_monitor_simps:
  "mo_agents demo_monitor = [(''risk_agent'', update_record 0 (demo_heartbeat ''risk_agent'') (new_agent_record ''risk_agent''))]"
  "should_continue (mo_base demo_monitor)" "mon_heartbeat_timeout_seconds (mo_settings demo_monitor) = 30"
  by (simp_all add: demo_monitor_def consume_heartbeat_def process_heartbeat_def new_monitor_def new_base_agent_def
    should_continue_def demo_heartbeat_def demo_monitor_env_def Let_def default_settings_def default_monitoring_settings_def)

lemma demo_silence: "30 < seconds (60 * 10 ^ 6)"
  by code_simp

theorem monitor_detects_silence_witness:
  "\<exists>a\<in>set (monitor_run [Ev_scan (demo_scan_env []) (60 * 10 ^ 6)] True demo_monitor). stale_alert_for ''risk_agent'' (fst a)"
proof (rule monitor_detects_silence [where seen = 0 and now = "60 * 10 ^ 6" and env = "demo_scan_env []"])
  show "map_of (mo_agents demo_monitor) ''risk_agent'' =
    Some (update_record 0 (demo_heartbeat ''risk_agent'') (new_agent_record ''risk_agent''))"
    by (simp add: demo_monitor_simps)
  show "of_int (mon_heartbeat_timeout_seconds (mo_settings demo_monitor)) < seconds (60 * 10 ^ 6 - 0)"
    unfolding demo_monitor_simps diff_zero using demo_silence by simp
qed (simp_all add: demo_monitor_simps update_record_def new_agent_record_def monitoring_name_def demo_scan_env_def)

theorem monitor_new_agent_ends_scanning_witness:
  "\<exists>as m'. \<forall>ticks. staleness_loop ((demo_scan_env [(demo_monitor_env 0, demo_heartbeat ''new_agent'')], 60 * 10 ^ 6) # ticks)
     demo_monitor = (Inl (Runtime_error ''dictionary changed size during iteration''), as, m')"
proof (rule monitor_new_agent_ends_scanning)
  show "due (60 * 10 ^ 6) demo_monitor ''risk_agent''"
    using demo_silence by (simp add: due_def demo_monitor_simps is_stale_def age_seconds_def update_record_def
      new_agent_record_def monitoring_name_def is_alert_on_cooldown_def)
qed (auto simp: demo_monitor_simps demo_scan_env_def demo_heartbeat_def)

end
