(* ===== verification/Trading_System.thy ===== *)
theory Trading_System
  imports Risk_Agent Execution_Agent
begin

text \<open>
  The risk agent, the execution agent and the simulated broker together. The risk agent books a
  position when it approves it, the broker when it fills it; the two books meet only through the
  messages between them. A step of the system is one proposal taken through all three, one stop-loss
  closing reported back, a price, or a halt, under ordinary circumstances: publications succeed,
  ids are fresh, the agents run, prices and sizes are realistic.

  Proved here: the two books agree in every reachable state, so the broker never holds more positions
  than the risk limit allows; and an approval is never lost between the agents.
\<close>

record trading_system =
  sys_risk :: risk_agent
  sys_exec :: "paper_broker execution_agent"

definition start_system :: "settings \<Rightarrow> time \<Rightarrow> bool \<Rightarrow> trading_system" where
  "start_system s now up = \<lparr>sys_risk = new_risk_agent s now up,
     sys_exec = new_execution_agent s up \<lparr>ps_cash = None, ps_positions = None\<rparr>\<rparr>"

abbreviation sys_broker :: "trading_system \<Rightarrow> paper_broker" where
  "sys_broker t \<equiv> xa_broker (sys_exec t)"

text \<open>The sides of the positions in the risk agent's ledger.\<close>

definition ledger_book :: "risk_agent \<Rightarrow> symbol \<Rightarrow> order_side option" where
  "ledger_book ag s = position_side s (rk_state ag)"

subsection \<open>Steps\<close>

definition attentive :: "trading_system \<Rightarrow> bool" where
  "attentive t \<longleftrightarrow> should_continue (rk_base (sys_risk t)) \<and> should_continue (xa_base (sys_exec t)) \<and>
     (ba_trading_halted (xa_base (sys_exec t)) \<longrightarrow> halted (sys_risk t))"

definition ordinary :: "risk_env \<Rightarrow> paper_env exec_env \<Rightarrow> trade_proposal \<Rightarrow> bool" where
  "ordinary renv xenv p \<longleftrightarrow> re_publish_error renv = None \<and> xe_publish_error xenv = None \<and>
     xe_failure_publish_ok xenv \<and> env_ok (xe_broker xenv) \<and> tp_requested_size_usd p \<le> 10 ^ 5 \<and>
     (case as_technical_signal (tp_signal p) of None \<Rightarrow> True
      | Some tech \<Rightarrow> dec_of_float (ts_price tech) \<le> 10 ^ 7 \<and>
          (0 < dec_of_float (ts_price tech) \<longrightarrow> 1 / 1000 \<le> dec_of_float (ts_price tech)))"

definition fresh_ids :: "trading_system \<Rightarrow> paper_env exec_env \<Rightarrow> trade_proposal \<Rightarrow> bool" where
  "fresh_ids t xenv p \<longleftrightarrow> map_of (pb_filled (sys_broker t)) (tp_proposal_id p) = None \<and>
     map_of (rk_seen_results (sys_risk t)) (pe_result_id (xe_broker xenv)) = None \<and>
     map_of (rk_seen_results (sys_risk t)) (xe_failure_id xenv) = None"

inductive system_step :: "trading_system \<Rightarrow> trading_system \<Rightarrow> bool" where
  trade: "system_step t \<lparr>sys_risk = fold (track_execution_result ok) out rk, sys_exec = ex\<rparr>"
    if "attentive t" "ordinary renv xenv p" "fresh_ids t xenv p"
      "handle_proposal renv p (sys_risk t) = (Some a, ros, rk)"
      "process_assessment paper_ops xenv a (sys_exec t) = (out, ex)"
| stop_loss: "system_step t \<lparr>sys_risk = fold (track_execution_result ok) out (sys_risk t), sys_exec = ex\<rparr>"
    if "attentive t" "map_of (pb_positions (sys_broker t)) s = Some pos" "0 < price" "price \<le> 10 ^ 7"
      "xe_publish_error xenv = None" "map_of (rk_seen_results (sys_risk t)) (pe_result_id (xe_broker xenv)) = None"
      "check_and_maybe_close paper_ops xenv (position_view pos) sl tp price (sys_exec t) = (outcome, out, ex)"
| price: "system_step t (t\<lparr>sys_exec := consume_ticker tick (sys_exec t)\<rparr>)"
| halt: "system_step t \<lparr>sys_risk = (sys_risk t)\<lparr>rk_base := on_risk_override ro (rk_base (sys_risk t))\<rparr>,
      sys_exec = (sys_exec t)\<lparr>xa_base := on_risk_override ro (xa_base (sys_exec t))\<rparr>\<rparr>"

inductive reachable :: "trading_system \<Rightarrow> trading_system \<Rightarrow> bool" for t0 where
  start: "reachable t0 t0"
| step: "reachable t0 t \<Longrightarrow> system_step t t' \<Longrightarrow> reachable t0 t'"

inductive_cases system_stepE: "system_step t t'"

subsection \<open>The ledger as a book\<close>

lemma position_side_ops [simp]:
  "position_side t (ledger_open s c (Some d) st) = (if t = s then Some d else position_side t st)"
  "position_side t (ledger_close s pnl st) = (if t = s then None else position_side t st)"
  "position_side t (adjust_position_cost s c st) = position_side t st"
  by (auto simp: position_side_def ledger_defs Let_def split: option.split)

text \<open>A fill moves the ledger as the order moved the broker's book; a failure undoes a reservation.\<close>

lemma apply_result_book:
  assumes "map_of (rk_seen_results ag) (er_result_id r) = None"
  shows "ledger_book (snd (apply_execution_result r ag)) =
    (if is_successful r \<and> 0 < er_filled_quantity r then book_order (er_symbol r) (er_side r) (ledger_book ag)
     else if ledger_book ag (er_symbol r) = Some (er_side r) then (ledger_book ag)(er_symbol r := None)
     else ledger_book ag)"
  using assms
  by (auto simp: apply_execution_result_def Let_def ledger_book_def book_order_def is_successful_def fun_eq_iff
    split: option.splits)

lemma track_book:
  "should_continue (rk_base ag) \<Longrightarrow> ledger_book (track_execution_result ok r ag) = ledger_book (snd (apply_execution_result r ag))"
  by (simp add: track_execution_result_def ledger_book_def fun_eq_iff)

lemma evaluate_about: "evaluate env p ag = (a, ros, ag') \<Longrightarrow> ra_original_proposal a = p \<and> ra_proposal_id a = tp_proposal_id p"
  unfolding evaluate_def Let_def position_checks_def size_and_reserve_def reject_def approve_def
  by (auto split: if_splits prod.splits option.splits)

text \<open>What an evaluation does to the ledger's book.\<close>

lemma evaluate_book:
  assumes "evaluate env p ag = (a, ros, ag')"
  obtains
    (no) "\<not> is_approved a" "ledger_book ag' = ledger_book ag" "pf_open_positions (rk_state ag') = pf_open_positions (rk_state ag)"
  | (offset) "is_approved a" "\<not> halted ag" "ledger_book ag (tp_symbol p) = Some (opposite (tp_side p))"
      "ledger_book ag' = ledger_book ag" "pf_open_positions (rk_state ag') = pf_open_positions (rk_state ag)"
  | (reserve) "is_approved a" "\<not> halted ag" "ledger_book ag (tp_symbol p) = None"
      "ledger_book ag' = (ledger_book ag)(tp_symbol p := Some (tp_side p))"
      "effective_size_usd a \<le> tp_requested_size_usd p"
      "open_positions_count (rk_state ag) < rs_max_open_positions (st_risk (rk_settings ag))"
  using assms
proof (cases rule: evaluate_cases)
  case halted
  then show thesis by (intro no) (simp_all add: is_approved_def)
next
  case limit
  then show thesis by (intro no) (simp_all add: is_approved_def ledger_book_def fun_eq_iff)
next
  case (checked ag1)
  have nh: "\<not> halted ag" using checked(1,2) by (simp add: halted_def)
  have b1: "ledger_book ag1 = ledger_book ag" "pf_open_positions (rk_state ag1) = pf_open_positions (rk_state ag)"
    "rk_settings ag1 = rk_settings ag"
    using checked(4) by (simp_all add: ledger_book_def fun_eq_iff)
  from checked(7) show thesis
  proof (cases rule: position_checks_cases)
    case (declined reason)
    then show thesis using b1 by (intro no) (simp_all add: is_approved_def)
  next
    case (offsetting held)
    have "ledger_book ag (tp_symbol p) = Some held" using offsetting(1) b1(1) by (metis ledger_book_def)
    moreover have "held = opposite (tp_side p)" using offsetting(2) side_cases [of held "tp_side p"] by auto
    ultimately show thesis using offsetting(3,4) b1 nh by (intro offset) (simp_all add: is_approved_def)
  next
    case (reserving sized)
    have "ledger_book ag (tp_symbol p) = None" using reserving(1) b1(1) by (metis ledger_book_def)
    moreover have "ledger_book ag' = (ledger_book ag)(tp_symbol p := Some (tp_side p))"
      using reserving(7) b1(1) by (auto simp: ledger_book_def fun_eq_iff)
    moreover have "effective_size_usd a \<le> tp_requested_size_usd p"
      using reserving(6) evaluate_about [OF assms] by (auto simp: effective_size_usd_def)
    ultimately show thesis using reserving(2,5) b1 nh by (intro reserve) (simp_all add: is_approved_def split: if_splits)
  qed
qed

subsection \<open>The broker's answers\<close>

lemma result_ids:
  "open_position env a ref b = (Inr r, b') \<Longrightarrow> er_result_id r = pe_result_id env"
  "close_at env s ref pid aid b = (Inr (Some r), b') \<Longrightarrow> er_result_id r = pe_result_id env"
  unfolding open_position_def close_at_def Let_def by (auto split: option.splits if_splits prod.splits)

lemma placed_result:
  assumes "place_order env a b = (Inr r, b')" "map_of (pb_filled b) (ra_proposal_id a) = None" "broker_ok b" "env_ok env"
  shows "er_symbol r = tp_symbol (ra_original_proposal a) \<and> er_side r = tp_side (ra_original_proposal a) \<and>
    is_successful r \<and> 0 < er_filled_quantity r \<and> er_result_id r = pe_result_id env"
  using assms(1)
proof (cases rule: place_order_cases)
  case (closed r' ref pos b1)
  have "position_ok pos" using assms(3) closed(5) positions_okD by (auto simp: broker_ok_def)
  with closed show ?thesis using result_ids(2) [OF closed(7)]
    by (elim close_at_SomeE) (auto simp: is_successful_def position_ok_def)
next
  case (opened r' ref tech)
  from opened(8) show ?thesis
  proof (cases rule: open_position_InrE)
    case (1 fp rq fq st fee pos)
    have "dr rq = rq" "grid 8 rq" using 1(3) by (auto simp: QTY_PLACES_def dest: quantize_exact quantize_grid)
    from partial_fill_bounds [OF 1(6,4) this assms(4)] show ?thesis
      using 1 opened(1) result_ids(1) [OF opened(8)] by (auto simp: is_successful_def)
  qed
qed (use assms(2) in simp_all)

text \<open>An order that fails leaves the broker as it was, as long as its positions are modest.\<close>

lemma failed_order_keeps:
  assumes "place_order env a b = (Inl e, b')"
    and "\<And>pos. map_of (pb_positions b) (tp_symbol (ra_original_proposal a)) = Some pos \<Longrightarrow> modest pos"
    and "\<And>tech. as_technical_signal (tp_signal (ra_original_proposal a)) = Some tech \<Longrightarrow> dec_of_float (ts_price tech) \<le> 10 ^ 9"
  shows "b' = b"
proof (rule ccontr)
  let ?p = "ra_original_proposal a"
  assume changed: "b' \<noteq> b"
  then have "book b (tp_symbol ?p) = Some (opposite (tp_side ?p))" using place_order_error_aux [OF assms(1)] by blast
  then obtain pos where pos: "map_of (pb_positions b) (tp_symbol ?p) = Some pos" "pp_side pos = opposite (tp_side ?p)"
    by (auto simp: book_def)
  show False
  proof (cases "as_technical_signal (tp_signal ?p)")
    case None
    then show False using assms(1) changed by (auto simp: place_order_def split: sum.splits option.splits)
  next
    case (Some tech)
    show False
    proof (cases "dec_of_float (ts_price tech) \<le> 0")
      case True
      then show False using assms(1) changed Some by (auto simp: place_order_def Let_def split: sum.splits option.splits)
    next
      case False
      then obtain r b1 where "close_at env (tp_symbol ?p) (dec_of_float (ts_price tech)) (ra_proposal_id a) (ra_assessment_id a) b =
          (Inr (Some r), b1)"
        using close_at_total [OF pos(1) assms(2) [OF pos(1)] _ assms(3) [OF Some], of env "ra_proposal_id a" "ra_assessment_id a"]
        by (metis not_le)
      then show False using assms(1) changed Some False pos
        by (auto simp: place_order_def Let_def split: sum.splits option.splits)
    qed
  qed
qed

lemma slipped_price_range:
  assumes "slipped_price side ref = Some fp" "1 / 1000 \<le> ref" "ref \<le> 10 ^ 7"
  shows "1 / 2000 \<le> fp \<and> fp \<le> 10 ^ 8"
proof -
  define c :: rat where "c = (case side of BUY \<Rightarrow> 2001 / 2000 | SELL \<Rightarrow> 1999 / 2000)"
  have q: "quantize toward_zero 8 (dmul ref c) = Some fp" and c: "1999 / 2000 \<le> c" "c \<le> 10 ^ 1"
    using assms(1) by (cases side; simp add: slipped_price_eq c_def)+
  have "\<bar>ref\<bar> \<le> 10 ^ 7" "\<bar>c\<bar> \<le> 10 ^ 1" using assms(2,3) c by simp_all
  from dmul_bound [OF this] have up: "\<bar>dmul ref c\<bar> \<le> 10 ^ 8" by simp
  have "(1 / 1000) * (1999 / 2000) \<le> ref * c" by (rule mult_mono) (use assms(2) c in simp_all)
  then have "1 / 2000 \<le> ref * c" by simp
  moreover have lit: "dr (1 / 2000) = 1 / 2000" "quantize toward_zero 8 (1 / 2000) = Some (1 / 2000)" by code_simp+
  ultimately have lo: "1 / 2000 \<le> dmul ref c" unfolding dmul_def by (intro decimal28.rnd_ge_exact) simp_all
  have "1 / 2000 \<le> fp" using quantize_mono [OF mono_toward_zero lo lit(2) q] .
  moreover have "fp \<le> dmul ref c" using quantize_down_nonneg [OF _ q] lo by simp
  ultimately show ?thesis using up by simp
qed

lemma placed_modest:
  assumes "place_order env a b = (Inr r, b')" "broker_ok b" "env_ok env"
    and "map_of (pb_positions b) (tp_symbol (ra_original_proposal a)) = None \<Longrightarrow> effective_size_usd a \<le> 10 ^ 5"
    and "\<And>tech. as_technical_signal (tp_signal (ra_original_proposal a)) = Some tech \<Longrightarrow> 0 < dec_of_float (ts_price tech) \<Longrightarrow>
      1 / 1000 \<le> dec_of_float (ts_price tech) \<and> dec_of_float (ts_price tech) \<le> 10 ^ 7"
    and "\<forall>pos\<in>set (dvals (pb_positions b)). modest pos"
  shows "\<forall>pos\<in>set (dvals (pb_positions b')). modest pos"
  using assms(1)
proof (cases rule: place_order_cases)
  case (closed r' ref pos b1)
  from closed(7) have "pb_positions b' = AList.delete (tp_symbol (ra_original_proposal a)) (pb_positions b)"
    by (elim close_at_SomeE) (simp add: closed(8))
  then show ?thesis using assms(6) values_delete_subset by force
next
  case (opened r' ref tech)
  have ref: "1 / 1000 \<le> ref" "ref \<le> 10 ^ 7" using assms(5) [OF opened(4)] opened(3,5) by simp_all
  have size: "effective_size_usd a \<le> 10 ^ 5" by (rule assms(4) [OF opened(7)])
  from opened(8) show ?thesis
  proof (cases rule: open_position_InrE)
    case (1 fp rq fq st fee pos)
    have fp: "1 / 2000 \<le> fp" "fp \<le> 10 ^ 8" using slipped_price_range [OF 1(1) ref] by simp_all
    note ok = opened_position_ok [OF 1(1,2) opened(3) 1(3,4,6,7) assms(3)]
    have "effective_size_usd a / fp \<le> 10 ^ 5 / (1 / 2000)" by (rule frac_le) (use size 1(5) fp in simp_all)
    then have "\<bar>effective_size_usd a / fp\<bar> \<le> 10 ^ 9" using 1(5) ok(1) by simp
    then have d: "\<bar>ddiv (effective_size_usd a) fp\<bar> \<le> 10 ^ 9" unfolding ddiv_def by (rule dr_bound) simp
    have "0 \<le> ddiv (effective_size_usd a) fp" using 1(5) ok(1) by (simp add: ddiv_def decimal28.rnd_nonneg)
    then have "rq \<le> ddiv (effective_size_usd a) fp"
      using quantize_down_nonneg [of "ddiv (effective_size_usd a) fp" 8 rq] 1(3) by (simp add: QTY_PLACES_def)
    then have fq: "fq \<le> 10 ^ 9" using d ok(3) by linarith
    have "\<bar>fq\<bar> \<le> 10 ^ 9" "\<bar>fp\<bar> \<le> 10 ^ 8" using fq ok(1,2) fp(2) by simp_all
    from dmul_bound [OF this] have n: "\<bar>dmul fq fp\<bar> \<le> 10 ^ 17" by simp
    moreover have "\<bar>TAKER_FEE_PCT\<bar> \<le> 10 ^ 0" by (simp add: TAKER_FEE_PCT_def)
    ultimately have "\<bar>dmul (dmul fq fp) TAKER_FEE_PCT\<bar> \<le> 10 ^ 17" using dmul_bound [of "dmul fq fp" 17 TAKER_FEE_PCT 0] by simp
    moreover have "0 \<le> dmul (dmul fq fp) TAKER_FEE_PCT"
      using ok(4) by (simp add: dmul_def TAKER_FEE_PCT_def decimal28.rnd_nonneg)
    ultimately have "\<bar>fee\<bar> \<le> 10 ^ 17"
      using quantize_down_nonneg [of "dmul (dmul fq fp) TAKER_FEE_PCT" 2 fee] 1(7) ok(5) by (simp add: taker_fee_def)
    from dadd_bound(1) [OF n this] have "dadd (dmul fq fp) fee \<le> 10 ^ 18" by simp
    then have "modest pos" using ok fq fp(2) 1(9) by (simp add: modest_def position_ok_def)
    moreover have "pb_positions b' = AList.update (tp_symbol (ra_original_proposal a)) pos (pb_positions b)" by (simp add: 1(10))
    ultimately show ?thesis using assms(6) values_update_subset by force
  qed
qed (use assms(6) in simp_all)

subsection \<open>The books agree\<close>

lemma ledger_count:
  assumes "risk_ok ag"
  shows "finite (dom (ledger_book ag))" "open_positions_count (rk_state ag) = int (card (dom (ledger_book ag)))"
proof -
  have d: "dom (ledger_book ag) = fst ` set (pf_open_positions (rk_state ag))"
    by (auto simp: ledger_book_def position_side_def dom_def map_of_eq_None_iff split: if_splits)
  then show "finite (dom (ledger_book ag))" by simp
  show "open_positions_count (rk_state ag) = int (card (dom (ledger_book ag)))"
    unfolding d using assms by (simp add: open_positions_count_def risk_ok_def positions_paired_def
      distinct_card [of "map fst (pf_open_positions (rk_state ag))", simplified, symmetric])
qed

lemma book_count: "broker_ok b \<Longrightarrow> length (pb_positions b) = card (dom (book b))"
proof -
  assume "broker_ok b"
  then have "distinct (map fst (pb_positions b))" by (simp add: broker_ok_def positions_ok_def)
  then have "card (set (map fst (pb_positions b))) = length (pb_positions b)" by (simp only: distinct_card length_map)
  moreover have "dom (book b) = set (map fst (pb_positions b))"
    by (auto simp: book_def map_of_eq_None_iff dom_def simp flip: not_None_eq)
  ultimately show ?thesis by (simp only:)
qed

definition coupled :: "settings \<Rightarrow> trading_system \<Rightarrow> bool" where
  "coupled s t \<longleftrightarrow> ledger_book (sys_risk t) = book (sys_broker t) \<and> risk_ok (sys_risk t) \<and> broker_ok (sys_broker t) \<and>
     (\<forall>pos\<in>set (dvals (pb_positions (sys_broker t))). modest pos) \<and> rk_settings (sys_risk t) = s \<and>
     int (card (dom (ledger_book (sys_risk t)))) \<le> rs_max_open_positions (st_risk s)"

lemma coupledD:
  assumes "coupled s t"
  shows "ledger_book (sys_risk t) = book (sys_broker t)" "risk_ok (sys_risk t)" "broker_ok (sys_broker t)"
    "map_of (pb_positions (sys_broker t)) k = Some pos \<Longrightarrow> modest pos \<and> pp_symbol pos = k" "rk_settings (sys_risk t) = s"
    "int (card (dom (ledger_book (sys_risk t)))) \<le> rs_max_open_positions (st_risk s)"
  using assms map_of_mem [of "pb_positions (sys_broker t)" k pos]
  by (auto simp: coupled_def broker_ok_def dest: positions_okD)

lemma evaluate_settings: "evaluate env p ag = (a, ros, ag') \<Longrightarrow> rk_settings ag' = rk_settings ag"
  unfolding evaluate_def position_checks_def size_and_reserve_def Let_def
  by (auto split: if_splits prod.splits option.splits dest: emergency_halt_fields(5))

lemma track_fields [simp]:
  "rk_settings (track_execution_result ok r ag) = rk_settings ag"
  "risk_ok ag \<Longrightarrow> risk_ok (track_execution_result ok r ag)"
  by (simp_all add: track_execution_result_def apply_result_ok)

text \<open>Putting the two sides of a step together.\<close>

lemma coupledI:
  assumes "ledger_book rk = book (xa_broker ex)" "risk_ok rk" "broker_ok (xa_broker ex)"
    "\<forall>pos\<in>set (dvals (pb_positions (xa_broker ex))). modest pos" "rk_settings rk = s"
    "dom (ledger_book rk) \<subseteq> insert k (dom bk)" "finite (dom bk)"
    "int (card (dom bk)) \<le> rs_max_open_positions (st_risk s)"
    "dom (ledger_book rk) \<subseteq> dom bk \<or> int (card (dom bk)) < rs_max_open_positions (st_risk s)"
  shows "coupled s \<lparr>sys_risk = rk, sys_exec = ex\<rparr>"
proof -
  have "int (card (dom (ledger_book rk))) \<le> rs_max_open_positions (st_risk s)"
    using assms(9)
  proof
    assume "dom (ledger_book rk) \<subseteq> dom bk"
    then show ?thesis using card_mono [OF assms(7), of "dom (ledger_book rk)"] assms(8) by linarith
  next
    assume lt: "int (card (dom bk)) < rs_max_open_positions (st_risk s)"
    have "card (dom (ledger_book rk)) \<le> card (insert k (dom bk))" by (rule card_mono) (use assms(6,7) in simp_all)
    also have "\<dots> \<le> Suc (card (dom bk))" by (simp add: card_insert_if assms(7))
    finally show ?thesis using lt by linarith
  qed
  then show ?thesis using assms(1-5) by (simp add: coupled_def)
qed

lemma trade_coupled:
  assumes c: "coupled s t" and "attentive t" and o: "ordinary renv xenv p" and f: "fresh_ids t xenv p"
    and h: "handle_proposal renv p (sys_risk t) = (Some a, ros, rk)"
    and x: "process_assessment paper_ops xenv a (sys_exec t) = (out, ex)"
  shows "coupled s \<lparr>sys_risk = fold (track_execution_result ok) out rk, sys_exec = ex\<rparr>"
proof -
  let ?bk = "ledger_book (sys_risk t)" and ?s = "tp_symbol p" and ?d = "tp_side p" and ?b = "sys_broker t"
  note c = coupledD [OF c]
  obtain ag1 where e: "evaluate renv p (sys_risk t) = (a, ros, ag1)" and rk: "rk = ag1\<lparr>rk_base := record_success (rk_base ag1)\<rparr>"
    using h o assms(2) by (auto simp: handle_proposal_def ordinary_def attentive_def split: prod.splits)
  have about: "ra_original_proposal a = p" "ra_proposal_id a = tp_proposal_id p" using evaluate_about [OF e] by simp_all
  have rkf: "ledger_book rk = ledger_book ag1" "risk_ok rk" "rk_settings rk = s" "rk_seen_results rk = rk_seen_results (sys_risk t)"
    "should_continue (rk_base rk)"
    using evaluate_ok [OF e c(2)] evaluate_settings [OF e] evaluate_seen [OF e] c(5) assms(2)
    by (simp_all add: rk ledger_book_def fun_eq_iff attentive_def should_continue_def record_success_def)
  have fin: "finite (dom ?bk)" using ledger_count(1) [OF c(2)] .
  have price: "1 / 1000 \<le> dec_of_float (ts_price tech) \<and> dec_of_float (ts_price tech) \<le> 10 ^ 7"
    if "as_technical_signal (tp_signal p) = Some tech" "0 < dec_of_float (ts_price tech)" for tech
    using o that by (simp add: ordinary_def)
  have price9: "dec_of_float (ts_price tech) \<le> 10 ^ 9" if "as_technical_signal (tp_signal p) = Some tech" for tech
    using o that by (auto simp: ordinary_def)
  have modest: "\<forall>pos\<in>set (dvals (pb_positions ?b)). modest pos" using assms(1) by (simp add: coupled_def)
  have skip: "coupled s \<lparr>sys_risk = rk, sys_exec = ex\<rparr>" if "ledger_book ag1 = ?bk" "xa_broker ex = ?b"
    using that c fin rkf modest by (intro coupledI [where k = ?s and bk = ?bk]) (simp_all add: subset_insertI)
  from x show ?thesis
  proof (cases rule: process_assessment_cases)
    case skipped
    from e have "ledger_book ag1 = ?bk"
      by (cases rule: evaluate_book) (use skipped(1) assms(2) in \<open>auto simp: attentive_def\<close>)
    with skip skipped show ?thesis by simp
  next
    case (failed err)
    have "xa_broker ex = ?b"
    proof (rule failed_order_keeps)
      show "place_order (xe_broker xenv) a ?b = (Inl err, xa_broker ex)" using failed(4) by simp
    qed (use about price9 c(4) in auto)
    define r where "r = failure_result paper_ops xenv a"
    have r: "er_symbol r = ?s" "er_side r = ?d" "\<not> is_successful r" "er_result_id r = xe_failure_id xenv"
      by (simp_all add: r_def failure_result_def Let_def is_successful_def about)
    have out: "out = [r]" using failed(5) o by (simp add: r_def ordinary_def)
    have "ledger_book (track_execution_result ok r rk) =
        (if ledger_book ag1 ?s = Some ?d then (ledger_book ag1)(?s := None) else ledger_book ag1)"
      using r f rkf(1,4,5) by (simp add: track_book apply_result_book fresh_ids_def)
    also from e have "\<dots> = ?bk"
      by (cases rule: evaluate_book) (use failed(3) in \<open>auto simp: fun_eq_iff\<close>)
    finally have "ledger_book (track_execution_result ok r rk) = ?bk" .
    then show ?thesis unfolding out using \<open>xa_broker ex = ?b\<close> c fin rkf modest
      by (intro coupledI [where k = ?s and bk = ?bk]) (simp_all add: subset_insertI)
  next
    case (filled r)
    have pl: "place_order (xe_broker xenv) a ?b = (Inr r, xa_broker ex)" using filled(4) by simp
    have env: "env_ok (xe_broker xenv)" "map_of (pb_filled ?b) (ra_proposal_id a) = None"
      using o f about by (simp_all add: ordinary_def fresh_ids_def)
    have r: "er_symbol r = ?s" "er_side r = ?d" "is_successful r" "0 < er_filled_quantity r" "er_result_id r = pe_result_id (xe_broker xenv)"
      using placed_result [OF pl env(2) c(3) env(1)] about by simp_all
    have out: "out = [r]" using filled(5) o by (simp add: ordinary_def)
    have bk': "book (xa_broker ex) = book_order ?s ?d ?bk" using place_order_book_aux [OF pl env(2)] about c(1) by simp
    have lb: "ledger_book (track_execution_result ok r rk) = book_order ?s ?d (ledger_book ag1)"
      using r f rkf(1,4,5) by (simp add: track_book apply_result_book fresh_ids_def)
    have res: "map_of (pb_positions ?b) ?s = None \<Longrightarrow> effective_size_usd a \<le> 10 ^ 5"
      "book_order ?s ?d (ledger_book ag1) = book_order ?s ?d ?bk"
      "dom (book_order ?s ?d ?bk) \<subseteq> dom ?bk \<or> int (card (dom ?bk)) < rs_max_open_positions (st_risk s)"
    proof -
      from e have "(map_of (pb_positions ?b) ?s = None \<longrightarrow> effective_size_usd a \<le> 10 ^ 5) \<and>
          book_order ?s ?d (ledger_book ag1) = book_order ?s ?d ?bk \<and>
          (dom (book_order ?s ?d ?bk) \<subseteq> dom ?bk \<or> int (card (dom ?bk)) < rs_max_open_positions (st_risk s))"
      proof (cases rule: evaluate_book)
        case no
        then show ?thesis using filled(3) by simp
      next
        case offset
        then have "book ?b ?s \<noteq> None" using c(1) by simp
        then show ?thesis using offset by (auto simp: book_def book_order_def)
      next
        case reserve
        then have "effective_size_usd a \<le> 10 ^ 5" using o by (simp add: ordinary_def)
        moreover have "int (card (dom ?bk)) < rs_max_open_positions (st_risk s)"
          using reserve(6) ledger_count(2) [OF c(2)] c(5) by simp
        ultimately show ?thesis using reserve by (simp add: book_order_def)
      qed
      then show "map_of (pb_positions ?b) ?s = None \<Longrightarrow> effective_size_usd a \<le> 10 ^ 5"
        "book_order ?s ?d (ledger_book ag1) = book_order ?s ?d ?bk"
        "dom (book_order ?s ?d ?bk) \<subseteq> dom ?bk \<or> int (card (dom ?bk)) < rs_max_open_positions (st_risk s)" by blast+
    qed
    have "\<forall>pos\<in>set (dvals (pb_positions (xa_broker ex))). modest pos"
      by (rule placed_modest [OF pl c(3) env(1)]) (use res(1) about price modest in auto)
    moreover have "dom (book_order ?s ?d ?bk) \<subseteq> insert ?s (dom ?bk)" by (auto simp: book_order_def split: if_splits)
    ultimately show ?thesis unfolding out
      using res bk' lb place_order_broker_ok [OF pl c(3) env(1)] c(6) fin rkf
      by (intro coupledI [where k = ?s and bk = ?bk]) simp_all
  qed
qed

lemma stop_loss_coupled:
  assumes c: "coupled s t" and "attentive t" and pos: "map_of (pb_positions (sys_broker t)) k = Some pos"
    and price: "0 < price" "price \<le> 10 ^ 7" and env: "xe_publish_error xenv = None"
    and fresh: "map_of (rk_seen_results (sys_risk t)) (pe_result_id (xe_broker xenv)) = None"
    and x: "check_and_maybe_close paper_ops xenv (position_view pos) sl tp price (sys_exec t) = (outcome, out, ex)"
  shows "coupled s \<lparr>sys_risk = fold (track_execution_result ok) out (sys_risk t), sys_exec = ex\<rparr>"
proof -
  let ?bk = "ledger_book (sys_risk t)" and ?b = "sys_broker t"
  note cD = coupledD [OF c]
  have fin: "finite (dom ?bk)" using ledger_count(1) [OF cD(2)] .
  have modest: "\<forall>q\<in>set (dvals (pb_positions ?b)). modest q" using c by (simp add: coupled_def)
  have p: "modest pos" "pp_symbol pos = k" using cD(4) [OF pos] by simp_all
  have view: "bp_symbol (position_view pos) = k" using p(2) by (simp add: position_view_def)
  show ?thesis
  proof (cases "breached sl tp (bp_side (position_view pos)) (bp_entry_price (position_view pos)) price")
    case False
    then have "out = []" "ex = sys_exec t" using x by (simp_all add: check_and_maybe_close_def)
    then show ?thesis using cD fin modest by (intro coupledI [where k = k and bk = ?bk]) (simp_all add: subset_insertI)
  next
    case True
    have "price \<le> 10 ^ 9" using price(2) by simp
    then obtain r b' where cl: "close_at (xe_broker xenv) k price (pe_proposal_uuid (xe_broker xenv)) (pe_assessment_uuid (xe_broker xenv)) ?b =
        (Inr (Some r), b')" "pb_positions b' = AList.delete k (pb_positions ?b)"
      and r: "er_symbol r = k" "er_side r = opposite (pp_side pos)" "er_status r = FILLED"
        "er_filled_quantity r = pp_quantity pos" "er_result_id r = pe_result_id (xe_broker xenv)"
      using close_at_total [OF pos p(1) price(1), of "xe_broker xenv" "pe_proposal_uuid (xe_broker xenv)" "pe_assessment_uuid (xe_broker xenv)"]
      by metis
    have "close_position (xe_broker xenv) k (Some price) ?b = (Inr (Some r), b')"
      using cl(1) pos price(1) by (simp add: close_position_def Let_def)
    then have out: "out = [r]" "xa_broker ex = b'"
      using x True env view by (auto simp: check_and_maybe_close_def record_fill_def)
    have held: "?bk k = Some (pp_side pos)" using cD(1) pos by (simp add: book_def)
    have "is_successful r" "0 < er_filled_quantity r" using r p(1) by (simp_all add: is_successful_def modest_def position_ok_def)
    then have lb: "ledger_book (track_execution_result ok r (sys_risk t)) = ?bk(k := None)"
      using r fresh assms(2) held by (simp add: track_book apply_result_book attentive_def book_order_def)
    have "book b' = (book ?b)(k := None)" using cl(2) by (auto simp: book_def fun_eq_iff)
    moreover have "\<forall>q\<in>set (dvals (pb_positions b')). modest q" using modest cl(2) values_delete_subset by force
    moreover have "broker_ok b'" using close_at_broker_ok [OF cl(1) cD(3)] .
    ultimately show ?thesis unfolding out(1) using lb cD fin out(2)
      by (intro coupledI [where k = k and bk = ?bk]) auto
  qed
qed

lemma step_coupled: "system_step t t' \<Longrightarrow> coupled s t \<Longrightarrow> coupled s t'"
proof (induction rule: system_step.induct)
  case (trade t renv xenv p a ros rk out ex ok)
  show ?case by (rule trade_coupled [OF trade(6) trade(1-5)])
next
  case (stop_loss t k pos price xenv sl tp outcome out ex ok)
  show ?case by (rule stop_loss_coupled [OF stop_loss(8) stop_loss(1-7)])
next
  case (price t tick)
  have "xa_broker (consume_ticker tick (sys_exec t)) = sys_broker t" by (simp add: consume_ticker_def)
  then show ?case using price by (auto simp: coupled_def)
next
  case (halt t ro)
  have "ledger_book ((sys_risk t)\<lparr>rk_base := on_risk_override ro (rk_base (sys_risk t))\<rparr>) = ledger_book (sys_risk t)"
    by (simp add: ledger_book_def fun_eq_iff)
  then show ?case using halt by (auto simp: coupled_def)
qed

lemma start_coupled: "0 \<le> rs_max_open_positions (st_risk s) \<Longrightarrow> coupled s (start_system s now up)"
  using new_risk_agent_ok [of s now up] new_paper_broker_ok
  by (simp add: coupled_def start_system_def new_execution_agent_def ledger_book_def position_side_def book_def fun_eq_iff
    new_risk_agent_def new_drawdown_monitor_def Let_def set_bus_def new_paper_broker_def dom_def broker_ok_def positions_ok_def
    store_ok_def)

lemma reachable_coupled: "reachable t0 t \<Longrightarrow> coupled s t0 \<Longrightarrow> coupled s t"
  by (induction rule: reachable.induct) (auto intro: step_coupled)

subsection \<open>Properties\<close>

text \<open>C2: the risk agent and the broker keep the same book. From a fresh start, after any sequence
  of proposals taken through risk check, execution and confirmation, stop-loss exits, prices and
  halts, in ordinary circumstances, the ledger holds exactly the symbols the broker holds, on the
  same sides, and the broker never holds more positions than the configured maximum.\<close>

theorem system_books_agree:
  assumes "reachable (start_system s now up) t" "0 \<le> rs_max_open_positions (st_risk s)"
  shows "ledger_book (sys_risk t) = book (sys_broker t) \<and>
    open_positions_count (rk_state (sys_risk t)) = int (length (pb_positions (sys_broker t))) \<and>
    int (length (pb_positions (sys_broker t))) \<le> rs_max_open_positions (st_risk s)"
proof -
  note c = coupledD [OF reachable_coupled [OF assms(1) start_coupled [OF assms(2)]]]
  show ?thesis using c(1,6) ledger_count(2) [OF c(2)] book_count [OF c(3)] by simp
qed

definition demo_after_trade :: trading_system where
  "demo_after_trade =
    (let t = start_system default_settings 0 True;
         h = handle_proposal (mk_risk_env 0) demo_proposal (sys_risk t);
         x = process_assessment paper_ops demo_exec_env (the (fst h)) (sys_exec t)
     in \<lparr>sys_risk = fold (track_execution_result True) (fst x) (snd (snd h)), sys_exec = snd x\<rparr>)"

lemma demo_trade_reachable: "reachable (start_system default_settings 0 True) demo_after_trade"
proof -
  let ?t = "start_system default_settings 0 True"
  have live: "should_continue (rk_base (sys_risk ?t))" by code_simp
  have att: "attentive ?t" by code_simp
  have "ordinary (mk_risk_env 0) demo_exec_env demo_proposal" "fresh_ids ?t demo_exec_env demo_proposal" by code_simp+
  moreover obtain a ros rk where h: "handle_proposal (mk_risk_env 0) demo_proposal (sys_risk ?t) = (Some a, ros, rk)"
    using live by (cases "evaluate (mk_risk_env 0) demo_proposal (sys_risk ?t)")
      (auto simp: handle_proposal_def mk_risk_env_def)
  moreover obtain out ex where x: "process_assessment paper_ops demo_exec_env a (sys_exec ?t) = (out, ex)"
    by (cases "process_assessment paper_ops demo_exec_env a (sys_exec ?t)")
  ultimately have "system_step ?t \<lparr>sys_risk = fold (track_execution_result True) out rk, sys_exec = ex\<rparr>"
    using att by (intro trade)
  then have "system_step ?t demo_after_trade" by (simp add: demo_after_trade_def h x)
  then show ?thesis by (intro step [OF start])
qed

theorem system_books_agree_witness:
  "ledger_book (sys_risk demo_after_trade) = book (sys_broker demo_after_trade) \<and>
    int (length (pb_positions (sys_broker demo_after_trade))) \<le> rs_max_open_positions (st_risk default_settings)"
proof -
  have "0 \<le> rs_max_open_positions (st_risk default_settings)" by code_simp
  with system_books_agree [OF demo_trade_reachable] show ?thesis by blast
qed

end
