(* ===== verification/Feature_Engineer.thy ===== *)
theory Feature_Engineer
  imports Signal_Generator
begin

text \<open>
  The feature engineer of the machine-learning path (\<open>agents/technical_analysis/ml/feature_engineer.py\<close>):
  its own indicator series, the feature vector of one bar, the vector of a buffer's newest bar
  (inference) and the matrix of a whole history (training). The arrays have one length; NaN is
  \<^term>\<open>None\<close>, and overflow to infinity is not represented, so the final \<open>nan_to_num\<close> changes nothing.
  numpy's \<open>mean\<close> and \<open>std\<close> are those of \<^typ>\<open>numpy\<close>; \<open>log\<close>, \<open>sin\<close> and \<open>cos\<close> of the C library are a
  parameter too.

  Proved here: every series reads only the past, so a row of the training matrix is the vector the
  inference path computes from the bars up to it.
\<close>

record math_lib =
  ml_log :: "rat \<Rightarrow> rat"
  ml_sin :: "rat \<Rightarrow> rat"
  ml_cos :: "rat \<Rightarrow> rat"

definition MIN_BARS_REQUIRED :: nat where "MIN_BARS_REQUIRED = 60"

subsection \<open>Indicator series\<close>

definition fe_ema :: "numpy \<Rightarrow> rat list \<Rightarrow> nat \<Rightarrow> series" where
  "fe_ema np xs period =
    (if length xs < period then replicate (length xs) None
     else let seed = np_mean np (take period xs)
       in replicate (period - 1) None @ [Some seed] @
          ema_from (fdiv 2 (of_nat period + 1)) (Some seed) (map Some (drop period xs)))"

definition first_rsi :: "rat \<Rightarrow> rat \<Rightarrow> rat" where
  "first_rsi gain loss = (if loss > 0 then fsub 100 (fdiv 100 (fadd 1 (fdiv gain loss)))
     else if gain > 0 then 100 else fsub 100 (fdiv 100 (fadd 1 0)))"

definition next_rsi :: "rat \<Rightarrow> rat \<Rightarrow> rat" where
  "next_rsi gain loss = (if loss > 0 then fsub 100 (fdiv 100 (fadd 1 (fdiv gain loss)))
     else if gain > 0 then 100 else 50)"

fun fe_rsi_loop :: "nat \<Rightarrow> rat \<Rightarrow> rat \<Rightarrow> rat list \<Rightarrow> series" where
  "fe_rsi_loop period gain loss [] = []"
| "fe_rsi_loop period gain loss (d # ds) =
     (let g = wilder period gain (max d 0); l = wilder period loss (max (- d) 0)
      in Some (next_rsi g l) # fe_rsi_loop period g l ds)"

definition fe_rsi :: "numpy \<Rightarrow> rat list \<Rightarrow> nat \<Rightarrow> series" where
  "fe_rsi np cs period =
    (if length cs < period + 1 then replicate (length cs) None
     else let ds = deltas cs;
              gain = np_mean np (take period (map (\<lambda>d. max d 0) ds));
              loss = np_mean np (take period (map (\<lambda>d. max (- d) 0) ds))
       in replicate period None @ [Some (first_rsi gain loss)] @ fe_rsi_loop period gain loss (drop period ds))"

definition valid_positions :: "series \<Rightarrow> nat list" where
  "valid_positions xs = filter (\<lambda>i. xs ! i \<noteq> None) [0..<length xs]"

definition fe_signal_line :: "numpy \<Rightarrow> series \<Rightarrow> nat \<Rightarrow> series" where
  "fe_signal_line np line period =
    (let valid = valid_positions line in
     if length valid < period then replicate (length line) None
     else let start = valid ! (period - 1);
              seed = np_mean np (map (\<lambda>i. the (line ! i)) (take period valid))
       in replicate start None @ [Some seed] @
          ema_from (fdiv 2 (of_nat period + 1)) (Some seed) (drop (start + 1) line))"

definition fe_macd_hist :: "numpy \<Rightarrow> rat list \<Rightarrow> nat \<Rightarrow> nat \<Rightarrow> nat \<Rightarrow> series" where
  "fe_macd_hist np cs fast slow signal_period =
    (let line = map2 (lift2 fsub) (fe_ema np cs fast) (fe_ema np cs slow)
     in map2 (lift2 fsub) line (fe_signal_line np line signal_period))"

definition fe_atr :: "numpy \<Rightarrow> rat list \<Rightarrow> rat list \<Rightarrow> rat list \<Rightarrow> nat \<Rightarrow> series" where
  "fe_atr np hs ls cs period =
    (if length cs < period + 1 then replicate (length cs) None
     else let tr = true_ranges (tl hs) (tl ls) (butlast cs); seed = np_mean np (take period tr)
       in replicate period None @ [Some seed] @ atr_loop period seed (drop period tr))"

definition fe_band :: "numpy \<Rightarrow> (rat \<Rightarrow> rat \<Rightarrow> rat) \<Rightarrow> rat list \<Rightarrow> nat \<Rightarrow> series" where
  "fe_band np pick cs period = map (\<lambda>i. if i < period - 1 then None
     else let window = drop (i + 1 - period) (take (i + 1) cs) in Some (pick (np_mean np window) (np_std np window))) [0..<length cs]"

definition fe_bollinger :: "numpy \<Rightarrow> rat list \<Rightarrow> nat \<Rightarrow> rat \<Rightarrow> series \<times> series \<times> series" where
  "fe_bollinger np cs period std_dev =
    (fe_band np (\<lambda>m s. fadd m (fmul std_dev s)) cs period, fe_band np (\<lambda>m s. m) cs period,
     fe_band np (\<lambda>m s. fsub m (fmul std_dev s)) cs period)"

definition safe_div :: "rat \<Rightarrow> rat \<Rightarrow> rat \<Rightarrow> rat" where
  "safe_div x y dflt = (if y = 0 then dflt else fdiv x y)"

subsection \<open>The feature vector of a bar\<close>

record bars =
  ba_opens :: "rat list"
  ba_highs :: "rat list"
  ba_lows :: "rat list"
  ba_closes :: "rat list"
  ba_volumes :: "rat list"
  ba_times :: "time list"

record indicator_series =
  is_rsi_14 :: series
  is_rsi_7 :: series
  is_macd_hist :: series
  is_atr_14 :: series
  is_bb_up :: series
  is_bb_mid :: series
  is_bb_low :: series
  is_ema_9 :: series
  is_ema_21 :: series
  is_ema_50 :: series

definition precompute :: "numpy \<Rightarrow> bars \<Rightarrow> indicator_series" where
  "precompute np b = (let cs = ba_closes b; (up, mid, low) = fe_bollinger np cs 20 2 in
     \<lparr>is_rsi_14 = fe_rsi np cs 14, is_rsi_7 = fe_rsi np cs 7, is_macd_hist = fe_macd_hist np cs 12 26 9,
      is_atr_14 = fe_atr np (ba_highs b) (ba_lows b) cs 14, is_bb_up = up, is_bb_mid = mid, is_bb_low = low,
      is_ema_9 = fe_ema np cs 9, is_ema_21 = fe_ema np cs 21, is_ema_50 = fe_ema np cs 50\<rparr>)"

definition value_or :: "rat option \<Rightarrow> rat \<Rightarrow> rat" where
  "value_or x d = (case x of None \<Rightarrow> d | Some v \<Rightarrow> v)"

definition lag_return :: "rat list \<Rightarrow> nat \<Rightarrow> nat \<Rightarrow> rat" where
  "lag_return cs idx lag = (if idx < lag then 0 else safe_div (fsub (cs ! idx) (cs ! (idx - lag))) (cs ! (idx - lag)) 0)"

definition mean_before :: "numpy \<Rightarrow> rat list \<Rightarrow> nat \<Rightarrow> nat \<Rightarrow> rat" where
  "mean_before np xs idx n = np_mean np (if n \<le> idx then drop (idx - n) (take idx xs) else take idx xs)"

definition crosses :: "rat option \<Rightarrow> rat option \<Rightarrow> bool" where
  "crosses prev cur = (case (prev, cur) of
     (Some p, Some c) \<Rightarrow> (p \<le> 0 \<and> 0 < c) \<or> (p \<ge> 0 \<and> 0 > c) | _ \<Rightarrow> False)"

definition macd_crossed :: "series \<Rightarrow> nat \<Rightarrow> bool" where
  "macd_crossed hist idx = list_ex (\<lambda>lag. lag \<le> idx \<and> crosses (hist ! (idx - lag)) (hist ! (idx - lag + 1))) [1, 2, 3]"

definition PI :: rat where "PI = 884279719003555 / 281474976710656"

definition hour_of :: "time \<Rightarrow> int" where "hour_of t = t div (3600 * 10 ^ 6) mod 24"
definition weekday_of :: "time \<Rightarrow> int" where "weekday_of t = (t div (86400 * 10 ^ 6) + 3) mod 7"

definition time_features :: "math_lib \<Rightarrow> time option \<Rightarrow> rat list" where
  "time_features ml ts = (case ts of None \<Rightarrow> [0, 0, 0, 0]
   | Some t \<Rightarrow> (let h = fdiv (fmul (fmul 2 PI) (of_int (hour_of t))) 24; d = fdiv (fmul (fmul 2 PI) (of_int (weekday_of t))) 7
       in [ml_sin ml h, ml_cos ml h, ml_sin ml d, ml_cos ml d]))"

definition price_features :: "math_lib \<Rightarrow> bars \<Rightarrow> nat \<Rightarrow> rat list" where
  "price_features ml b idx =
    (let cs = ba_closes b; close = cs ! idx; high = ba_highs b ! idx; low = ba_lows b ! idx; prev = cs ! (idx - 1) in
     map (lag_return cs idx) [1, 3, 5, 10, 20] @
     [if close > 0 \<and> prev > 0 then ml_log ml (fdiv close prev) else 0,
      safe_div (fsub high low) close 0, safe_div (fsub close low) (fsub high low) (1 / 2)])"

definition volume_features :: "numpy \<Rightarrow> bars \<Rightarrow> nat \<Rightarrow> rat list" where
  "volume_features np b idx =
    (let vs = ba_volumes b; vol = vs ! idx; lag5 = (if 5 \<le> idx then vs ! (idx - 5) else vs ! 0) in
     [safe_div vol (mean_before np vs idx 5) 1, safe_div vol (mean_before np vs idx 20) 1, safe_div (fsub vol lag5) lag5 0])"

definition momentum_features :: "bars \<Rightarrow> indicator_series \<Rightarrow> nat \<Rightarrow> rat list" where
  "momentum_features b s idx =
    [fdiv (fsub (value_or (is_rsi_14 s ! idx) 50) 50) 50, fdiv (fsub (value_or (is_rsi_7 s ! idx) 50) 50) 50,
     safe_div (value_or (is_macd_hist s ! idx) 0) (ba_closes b ! idx) 0,
     if macd_crossed (is_macd_hist s) idx then 1 else 0]"

definition volatility_features :: "bars \<Rightarrow> indicator_series \<Rightarrow> nat \<Rightarrow> rat list" where
  "volatility_features b s idx =
    (let close = ba_closes b ! idx; u = value_or (is_bb_up s ! idx) close; m = value_or (is_bb_mid s ! idx) close;
         lo = value_or (is_bb_low s ! idx) close in
     [safe_div (value_or (is_atr_14 s ! idx) 0) close 0, safe_div (fsub u lo) m 0,
      safe_div (fsub close lo) (fsub u lo) (1 / 2)])"

definition trend_features :: "bars \<Rightarrow> indicator_series \<Rightarrow> nat \<Rightarrow> rat list" where
  "trend_features b s idx =
    (let close = ba_closes b ! idx; e9 = value_or (is_ema_9 s ! idx) close; e21 = value_or (is_ema_21 s ! idx) close;
         e50 = value_or (is_ema_50 s ! idx) close; d9 = safe_div (fsub close e9) close 0 in
     [d9, safe_div (fsub close e21) close 0, safe_div (fsub close e50) close 0, if e9 > e21 then 1 else - 1, \<bar>d9\<bar>])"

definition candle_features :: "bars \<Rightarrow> nat \<Rightarrow> rat list" where
  "candle_features b idx =
    (let close = ba_closes b ! idx; opn = ba_opens b ! idx; high = ba_highs b ! idx; low = ba_lows b ! idx;
         hl = fsub high low in
     [safe_div \<bar>fsub close opn\<bar> hl 0, safe_div (fsub high (max opn close)) hl 0, safe_div (fsub (min opn close) low) hl 0])"

definition row_from_precomputed ::
  "numpy \<Rightarrow> math_lib \<Rightarrow> bars \<Rightarrow> indicator_series \<Rightarrow> nat \<Rightarrow> time option \<Rightarrow> rat list option" where
  "row_from_precomputed np ml b s idx ts =
    (if idx < MIN_BARS_REQUIRED - 1 then None
     else Some (price_features ml b idx @ volume_features np b idx @ momentum_features b s idx @
       volatility_features b s idx @ trend_features b s idx @ candle_features b idx @ time_features ml ts))"

definition features_for_index :: "numpy \<Rightarrow> math_lib \<Rightarrow> bars \<Rightarrow> nat \<Rightarrow> time option \<Rightarrow> rat list option" where
  "features_for_index np ml b idx ts = row_from_precomputed np ml b (precompute np b) idx ts"

text \<open>The arrays of a buffer, and those of a list of candles (\<open>to_arrays\<close> of \<open>backtest/data.py\<close>).\<close>

definition buffer_bars :: "candle_buffer \<Rightarrow> bars" where
  "buffer_bars b = \<lparr>ba_opens = opens b, ba_highs = highs b, ba_lows = lows b, ba_closes = closes b,
     ba_volumes = volumes b, ba_times = map oc_timestamp (cb_candles b)\<rparr>"

definition to_arrays :: "candle list \<Rightarrow> bars" where
  "to_arrays cs = \<lparr>ba_opens = map (\<lambda>c. fl (oc_open c)) cs, ba_highs = map (\<lambda>c. fl (oc_high c)) cs,
     ba_lows = map (\<lambda>c. fl (oc_low c)) cs, ba_closes = map (\<lambda>c. fl (oc_close c)) cs,
     ba_volumes = map (\<lambda>c. fl (oc_volume c)) cs, ba_times = map oc_timestamp cs\<rparr>"

definition build_features :: "numpy \<Rightarrow> math_lib \<Rightarrow> candle_buffer \<Rightarrow> rat list option" where
  "build_features np ml b = (if buffer_size b < int MIN_BARS_REQUIRED then None
     else features_for_index np ml (buffer_bars b) (length (closes b) - 1) (latest_timestamp b))"

definition build_feature_matrix :: "numpy \<Rightarrow> math_lib \<Rightarrow> bars \<Rightarrow> rat list list" where
  "build_feature_matrix np ml b =
    (let n = length (ba_closes b) in
     if n < MIN_BARS_REQUIRED then []
     else let s = precompute np b
       in List.map_filter (\<lambda>i. row_from_precomputed np ml b s i (Some (ba_times b ! i))) [MIN_BARS_REQUIRED - 1..<n])"

subsection \<open>The series read only the past\<close>

named_theorems past_only

lemma warm_take:
  "m \<le> k \<Longrightarrow> take m (replicate k x @ [y] @ ys) = replicate m x"
  "k < m \<Longrightarrow> take m (replicate k x @ [y] @ ys) = replicate k x @ [y] @ take (m - k - 1) ys"
  by (simp_all add: min_def take_Cons' )

lemma length_ema_from [simp]: "length (ema_from a p xs) = length xs"
  by (induction a p xs rule: ema_from.induct) (simp_all add: Let_def)

lemma length_fe_rsi_loop [simp]: "length (fe_rsi_loop p g l ds) = length ds"
  by (induction ds arbitrary: g l) (simp_all add: Let_def)

lemma length_atr_loop [simp]: "length (atr_loop p v ts) = length ts"
  by (induction ts arbitrary: v) (simp_all add: Let_def)

lemma length_true_ranges [simp]: "length (true_ranges hs ls cs) = min (length hs) (min (length ls) (length cs))"
  by (induction hs ls cs rule: true_ranges.induct) auto

lemma take_ema_from: "take m (ema_from a p xs) = ema_from a p (take m xs)"
  by (induction a p xs arbitrary: m rule: ema_from.induct) (simp_all add: take_Cons Let_def split: nat.split)

lemma take_fe_rsi_loop: "take m (fe_rsi_loop p g l ds) = fe_rsi_loop p g l (take m ds)"
  by (induction ds arbitrary: m g l) (simp_all add: take_Cons Let_def split: nat.split)

lemma take_atr_loop: "take m (atr_loop p v ts) = atr_loop p v (take m ts)"
  by (induction ts arbitrary: m v) (simp_all add: take_Cons Let_def split: nat.split)

lemma take_deltas: "deltas (take m cs) = take (m - 1) (deltas cs)"
proof (induction cs arbitrary: m rule: deltas.induct)
  case (1 a b xs)
  from 1 [of "m - 1"] show ?case by (cases m; cases "m - 1") simp_all
qed (simp_all add: take_Cons split: nat.split)

lemma take_true_ranges: "take m (true_ranges hs ls cs) = true_ranges (take m hs) (take m ls) (take m cs)"
  by (induction hs ls cs arbitrary: m rule: true_ranges.induct) (simp_all add: take_Cons split: nat.split)

text \<open>It is enough to look at prefixes that are not longer than the input.\<close>

lemma past_onlyI:
  assumes "\<And>xs. length (f xs) = length xs" "m \<le> length xs \<Longrightarrow> take m (f xs) = f (take m xs)"
  shows "take m (f xs) = f (take m xs)"
  using assms by (cases "m \<le> length xs") simp_all

lemma length_fe_ema [simp]: "1 \<le> p \<Longrightarrow> length (fe_ema np xs p) = length xs"
  by (auto simp: fe_ema_def Let_def)

lemma length_fe_rsi [simp]: "length (fe_rsi np cs p) = length cs"
  by (auto simp: fe_rsi_def Let_def)

lemma length_fe_atr [simp]: "length hs = length cs \<Longrightarrow> length ls = length cs \<Longrightarrow> length (fe_atr np hs ls cs p) = length cs"
  by (auto simp: fe_atr_def Let_def)

lemma length_fe_band [simp]: "length (fe_band np f cs p) = length cs"
  by (simp add: fe_band_def)

lemma take_fe_ema [past_only]:
  assumes "1 \<le> p" shows "take m (fe_ema np xs p) = fe_ema np (take m xs) p"
proof (rule past_onlyI)
  assume m: "m \<le> length xs"
  show "take m (fe_ema np xs p) = fe_ema np (take m xs) p"
  proof (cases "m < p")
    case True
    then have "m \<le> p - 1" using assms by simp
    then show ?thesis using m True by (simp add: fe_ema_def Let_def warm_take(1) min_def del: append.simps append_assoc)
  next
    case False
    then show ?thesis using m assms
      by (simp add: fe_ema_def Let_def warm_take(2) take_ema_from take_map drop_take min_absorb1 min_absorb2 del: append.simps append_assoc)
  qed
qed (use assms in simp)

lemma take_fe_rsi [past_only]: "take m (fe_rsi np cs p) = fe_rsi np (take m cs) p"
proof (rule past_onlyI)
  assume m: "m \<le> length cs"
  show "take m (fe_rsi np cs p) = fe_rsi np (take m cs) p"
  proof (cases "m < p + 1")
    case True
    then show ?thesis using m by (simp add: fe_rsi_def Let_def warm_take(1) min_def del: append.simps append_assoc)
  next
    case False
    then have "take p (map f (take (m - 1) (deltas cs))) = take p (map f (deltas cs))" for f :: "rat \<Rightarrow> rat"
      by (simp add: take_map min_absorb1)
    then show ?thesis using m False
      by (simp add: fe_rsi_def Let_def warm_take(2) take_fe_rsi_loop take_deltas drop_take min_absorb2 del: append.simps append_assoc)
  qed
qed simp

lemma true_ranges_of_take:
  assumes "length hs = length cs" "length ls = length cs" "m \<le> length cs" "0 < m"
  shows "true_ranges (tl (take m hs)) (tl (take m ls)) (butlast (take m cs)) = take (m - 1) (true_ranges (tl hs) (tl ls) (butlast cs))"
proof -
  have "take (m - 1) (tl xs) = tl (take m xs)" for xs :: "rat list" using assms(4) by (simp add: tl_take)
  moreover have "take (m - 1) (butlast cs) = butlast (take m cs)"
    using assms(3) by (simp add: butlast_take butlast_conv_take min_def)
  ultimately show ?thesis by (simp add: take_true_ranges)
qed

lemma take_fe_atr [past_only]:
  assumes "length hs = length cs" "length ls = length cs" "m \<le> length cs"
  shows "take m (fe_atr np hs ls cs p) = fe_atr np (take m hs) (take m ls) (take m cs) p"
proof (cases "m < p + 1")
  case True
  then show ?thesis using assms by (simp add: fe_atr_def Let_def warm_take(1) min_def del: append.simps append_assoc)
next
  case False
  then have "take p (take (m - 1) xs) = take p xs" for xs :: "rat list" by (simp add: min_absorb1)
  then show ?thesis using False assms true_ranges_of_take [OF assms]
    by (simp add: fe_atr_def Let_def warm_take(2) take_atr_loop drop_take min_absorb2 del: append.simps append_assoc)
qed

lemma take_fe_band [past_only]: "take m (fe_band np f cs p) = fe_band np f (take m cs) p"
proof (rule past_onlyI)
  assume "m \<le> length cs"
  moreover have "min (Suc i) m = Suc i" if "i < m" for i using that by simp
  ultimately show "take m (fe_band np f cs p) = fe_band np f (take m cs) p"
    by (simp add: fe_band_def take_map min_absorb2 Let_def)
qed simp

lemma valid_positions_take:
  assumes "m \<le> length xs" shows "valid_positions xs = valid_positions (take m xs) @ filter (\<lambda>i. xs ! i \<noteq> None) [m..<length xs]"
proof -
  have "[0..<length xs] = [0..<m] @ [m..<length xs]" using assms using upt_add_eq_append [of 0 m "length xs - m"] by simp
  moreover have "filter (\<lambda>i. take m xs ! i \<noteq> None) [0..<m] = filter (\<lambda>i. xs ! i \<noteq> None) [0..<m]" by (rule filter_cong) auto
  ultimately show ?thesis using assms by (simp add: valid_positions_def min_absorb2)
qed

lemma valid_positions_less: "i \<in> set (valid_positions xs) \<Longrightarrow> i < length xs"
  by (simp add: valid_positions_def)

lemma length_fe_signal_line [simp]:
  assumes "1 \<le> p" shows "length (fe_signal_line np xs p) = length xs"
proof -
  have "p \<le> length (valid_positions xs) \<Longrightarrow> valid_positions xs ! (p - 1) < length xs"
    using assms by (intro valid_positions_less nth_mem) simp
  then show ?thesis by (auto simp: fe_signal_line_def Let_def not_less)
qed

lemma take_fe_signal_line [past_only]:
  assumes "1 \<le> p" shows "take m (fe_signal_line np xs p) = fe_signal_line np (take m xs) p"
proof (rule past_onlyI)
  assume m: "m \<le> length xs"
  define valid where "valid = valid_positions (take m xs)"
  define rest where "rest = filter (\<lambda>i. xs ! i \<noteq> None) [m..<length xs]"
  have v: "valid_positions xs = valid @ rest" using valid_positions_take [OF m] by (simp add: valid_def rest_def)
  have less: "i < m" if "i \<in> set valid" for i using valid_positions_less [of i "take m xs"] that m by (simp add: valid_def)
  show "take m (fe_signal_line np xs p) = fe_signal_line np (take m xs) p"
  proof (cases "length valid < p")
    case True
    have "m \<le> (valid @ rest) ! (p - 1)" if "p \<le> length (valid @ rest)"
    proof -
      have "(valid @ rest) ! (p - 1) \<in> set rest" using that True assms by (auto simp: nth_append intro!: nth_mem)
      then show ?thesis by (simp add: rest_def)
    qed
    then show ?thesis using True m
      by (auto simp: fe_signal_line_def v valid_def [symmetric] Let_def warm_take(1) min_absorb2 not_less simp del: append.simps append_assoc)
  next
    case False
    then have start: "valid ! (p - 1) < m" using less assms by simp
    have "map (\<lambda>i. the (take m xs ! i)) (take p valid) = map (\<lambda>i. the (xs ! i)) (take p valid)"
      using less by (auto dest: in_set_takeD)
    then have "np_mean np (map (\<lambda>i. the (take m xs ! i)) (take p valid)) = np_mean np (map (\<lambda>i. the (xs ! i)) (take p valid))"
      by (rule arg_cong)
    moreover have "p - Suc 0 < length valid" using False assms by simp
    ultimately show ?thesis using False m start assms
      by (simp add: fe_signal_line_def v valid_def [symmetric] nth_append Let_def warm_take(2) take_ema_from drop_take
        min_absorb2 del: append.simps append_assoc)
  qed
qed (use assms in simp)

lemma take_fe_macd_hist [past_only]:
  "1 \<le> f \<Longrightarrow> 1 \<le> s \<Longrightarrow> 1 \<le> p \<Longrightarrow> take m (fe_macd_hist np cs f s p) = fe_macd_hist np (take m cs) f s p"
  by (simp add: fe_macd_hist_def Let_def take_map take_zip past_only)

subsection \<open>Rows on a prefix of the history\<close>

definition take_bars :: "nat \<Rightarrow> bars \<Rightarrow> bars" where
  "take_bars m b = \<lparr>ba_opens = take m (ba_opens b), ba_highs = take m (ba_highs b), ba_lows = take m (ba_lows b),
     ba_closes = take m (ba_closes b), ba_volumes = take m (ba_volumes b), ba_times = take m (ba_times b)\<rparr>"

definition take_series :: "nat \<Rightarrow> indicator_series \<Rightarrow> indicator_series" where
  "take_series m s = \<lparr>is_rsi_14 = take m (is_rsi_14 s), is_rsi_7 = take m (is_rsi_7 s), is_macd_hist = take m (is_macd_hist s),
     is_atr_14 = take m (is_atr_14 s), is_bb_up = take m (is_bb_up s), is_bb_mid = take m (is_bb_mid s),
     is_bb_low = take m (is_bb_low s), is_ema_9 = take m (is_ema_9 s), is_ema_21 = take m (is_ema_21 s), is_ema_50 = take m (is_ema_50 s)\<rparr>"

lemma precompute_take:
  assumes "length (ba_highs b) = length (ba_closes b)" "length (ba_lows b) = length (ba_closes b)" "m \<le> length (ba_closes b)"
  shows "precompute np (take_bars m b) = take_series m (precompute np b)"
  using assms by (simp add: precompute_def fe_bollinger_def take_bars_def take_series_def Let_def past_only)

lemma row_take:
  assumes "idx < m"
  shows "row_from_precomputed np ml (take_bars m b) (take_series m s) idx ts = row_from_precomputed np ml b s idx ts"
proof -
  have lag: "lag_return (take m xs) idx k = lag_return xs idx k" for xs k using assms by (simp add: lag_return_def)
  have mean: "mean_before np (take m xs) idx k = mean_before np xs idx k" for xs k
    using assms by (simp add: mean_before_def min_absorb1)
  have cross: "macd_crossed (take m xs) idx = macd_crossed xs idx" for xs using assms by (auto simp: macd_crossed_def)
  have parts: "price_features ml (take_bars m b) idx = price_features ml b idx"
    "volume_features np (take_bars m b) idx = volume_features np b idx"
    "momentum_features (take_bars m b) (take_series m s) idx = momentum_features b s idx"
    "volatility_features (take_bars m b) (take_series m s) idx = volatility_features b s idx"
    "trend_features (take_bars m b) (take_series m s) idx = trend_features b s idx"
    "candle_features (take_bars m b) idx = candle_features b idx"
    using assms by (simp_all add: price_features_def volume_features_def momentum_features_def volatility_features_def
      trend_features_def candle_features_def take_bars_def take_series_def Let_def lag mean cross)
  show ?thesis by (simp add: row_from_precomputed_def parts)
qed

lemma map_filter_total: "\<forall>x\<in>set xs. f x = Some (g x) \<Longrightarrow> List.map_filter f xs = map g xs"
  by (induction xs) (simp_all add: List.map_filter_simps)

definition bar_row :: "numpy \<Rightarrow> math_lib \<Rightarrow> bars \<Rightarrow> nat \<Rightarrow> rat list" where
  "bar_row np ml b i = the (features_for_index np ml b i (Some (ba_times b ! i)))"

lemma features_bar_row: "59 \<le> i \<Longrightarrow> features_for_index np ml b i (Some (ba_times b ! i)) = Some (bar_row np ml b i)"
  by (simp add: bar_row_def features_for_index_def row_from_precomputed_def MIN_BARS_REQUIRED_def)

lemma matrix_rows: "build_feature_matrix np ml b = map (bar_row np ml b) [59..<length (ba_closes b)]"
proof -
  have "List.map_filter (\<lambda>i. row_from_precomputed np ml b (precompute np b) i (Some (ba_times b ! i))) [59..<length (ba_closes b)] =
      map (bar_row np ml b) [59..<length (ba_closes b)]"
    using features_bar_row [of _ np ml b] by (intro map_filter_total) (auto simp: features_for_index_def)
  then show ?thesis by (auto simp: build_feature_matrix_def MIN_BARS_REQUIRED_def Let_def)
qed

lemma bar_row_take:
  assumes "length (ba_highs b) = length (ba_closes b)" "length (ba_lows b) = length (ba_closes b)" "i < m" "m \<le> length (ba_closes b)"
  shows "bar_row np ml (take_bars m b) i = bar_row np ml b i"
  using assms row_take [OF assms(3)] precompute_take [OF assms(1,2,4), of np]
  by (simp add: bar_row_def features_for_index_def take_bars_def)

lemma to_arrays_take: "to_arrays (take m cs) = take_bars m (to_arrays cs)"
  by (simp add: to_arrays_def take_bars_def take_map)

lemma to_arrays_lengths [simp]:
  "length (ba_closes (to_arrays cs)) = length cs" "length (ba_highs (to_arrays cs)) = length cs"
  "length (ba_lows (to_arrays cs)) = length cs" "length (ba_times (to_arrays cs)) = length cs"
  by (simp_all add: to_arrays_def)

lemma row_of_prefix: "i < m \<Longrightarrow> m \<le> length cs \<Longrightarrow> bar_row np ml (to_arrays (take m cs)) i = bar_row np ml (to_arrays cs) i"
  using bar_row_take [of "to_arrays cs" i m np ml] by (simp add: to_arrays_take)

lemma buffer_arrays: "buffer_bars b = to_arrays (cb_candles b)"
  by (simp add: buffer_bars_def to_arrays_def opens_def highs_def lows_def closes_def volumes_def)

subsection \<open>Properties\<close>

text \<open>C11: training and inference agree, and neither looks ahead. Row \<open>k\<close> of the matrix of a history
  (counted from the first bar with a full warm-up) is exactly the vector the inference path computes
  from a buffer that holds the bars up to that one and nothing later.\<close>

theorem training_rows_are_inference_rows:
  assumes "cb_candles b = take k cs" "MIN_BARS_REQUIRED \<le> k" "k \<le> length cs"
  shows "build_features np ml b = Some (build_feature_matrix np ml (to_arrays cs) ! (k - MIN_BARS_REQUIRED)) \<and>
    length (build_feature_matrix np ml (to_arrays cs)) = length cs - (MIN_BARS_REQUIRED - 1)"
proof -
  have k: "60 \<le> k" "k \<le> length cs" using assms(2,3) by (simp_all add: MIN_BARS_REQUIRED_def)
  let ?a = "to_arrays (take k cs)"
  have "ba_times ?a ! (k - 1) = oc_timestamp (take k cs ! (k - 1))" using k by (simp add: to_arrays_def)
  then have ts: "latest_timestamp b = Some (ba_times ?a ! (k - 1))"
    using k assms(1) by (auto simp: latest_timestamp_def latest_candle_def last_conv_nth)
  have "length (closes b) = k" using k assms(1) by (simp add: closes_def)
  then have "build_features np ml b = features_for_index np ml ?a (k - 1) (Some (ba_times ?a ! (k - 1)))"
    using k assms(1) ts by (simp add: build_features_def buffer_size_def buffer_arrays MIN_BARS_REQUIRED_def)
  also have "\<dots> = Some (bar_row np ml (to_arrays cs) (k - 1))"
    using features_bar_row [of "k - 1" np ml ?a] row_of_prefix [of "k - 1" k cs np ml] k by simp
  finally show ?thesis using k by (simp add: matrix_rows MIN_BARS_REQUIRED_def)
qed

theorem training_rows_are_inference_rows_witness:
  "build_features demo_numpy \<lparr>ml_log = id, ml_sin = id, ml_cos = id\<rparr>
      ((new_candle_buffer ''BTC/USDT'' ''1m'')\<lparr>cb_candles := take 61 (map (\<lambda>t. mk_candle ''BTC/USDT'' t 64000) [1..70])\<rparr>) =
    Some (build_feature_matrix demo_numpy \<lparr>ml_log = id, ml_sin = id, ml_cos = id\<rparr>
      (to_arrays (map (\<lambda>t. mk_candle ''BTC/USDT'' t 64000) [1..70])) ! 1)"
proof -
  let ?cs = "map (\<lambda>t. mk_candle ''BTC/USDT'' t 64000) [1..70]"
  have "MIN_BARS_REQUIRED \<le> 61" "61 \<le> length ?cs" by (simp_all add: MIN_BARS_REQUIRED_def)
  from training_rows_are_inference_rows [OF _ this, of "(new_candle_buffer ''BTC/USDT'' ''1m'')\<lparr>cb_candles := take 61 ?cs\<rparr>"]
  show ?thesis by (simp add: MIN_BARS_REQUIRED_def)
qed

end
