(* ===== verification/ML_Training.thy ===== *)
theory ML_Training
  imports Feature_Engineer
begin

text \<open>
  Labels and training data (\<open>agents/technical_analysis/ml/label_generator.py\<close>,
  \<open>agents/technical_analysis/ml/model_trainer.py\<close>): the forward-return labels, the alignment of feature
  rows with labels, the chronological split, the class weights and the training call. XGBoost is a
  parameter, a \<open>learner\<close>; the per-class scores of scikit-learn and the feature importances, which only
  go into the metrics file, are left out.

  Proved here: every training sample is the feature row of a bar with the label of its own forward
  return, and the labels at the end of the training fold are read from bars of the test fold.
\<close>

record 'm learner =
  le_fit :: "rat list list \<Rightarrow> nat list \<Rightarrow> rat list \<Rightarrow> error + 'm"
  le_fit_early :: "rat list list \<Rightarrow> nat list \<Rightarrow> rat list \<Rightarrow> (rat list list \<times> nat list) option \<Rightarrow> error + 'm"
    \<comment> \<open>with early stopping on the given set, whichever way the installed version takes it\<close>
  le_calibrate :: "'m \<Rightarrow> rat list list \<Rightarrow> nat list \<Rightarrow> error + 'm"
  le_predict_proba :: "'m \<Rightarrow> rat list \<Rightarrow> rat list"
  le_predict :: "'m \<Rightarrow> rat list \<Rightarrow> nat"

subsection \<open>Labels\<close>

record label_generator =
  lg_horizon :: int
  lg_threshold :: rat

definition new_label_generator :: "int \<Rightarrow> rat \<Rightarrow> error + label_generator" where
  "new_label_generator horizon threshold =
    (if horizon < 1 then Inl (Validation_error ''horizon'')
     else if threshold \<le> 0 then Inl (Validation_error ''threshold'')
     else Inr \<lparr>lg_horizon = horizon, lg_threshold = threshold\<rparr>)"

definition forward_return :: "rat \<Rightarrow> rat \<Rightarrow> rat" where
  "forward_return present future = (if present > 0 then fdiv (fsub future present) present else 0)"

definition label_of :: "rat \<Rightarrow> rat \<Rightarrow> rat" where
  "label_of threshold r = (if r < - threshold then - 1 else if r > threshold then 1 else 0)"

definition generate_labels :: "label_generator \<Rightarrow> rat list \<Rightarrow> series" where
  "generate_labels g cs =
    (let n = length cs; h = nat (lg_horizon g) in
     if n \<le> h then replicate n None
     else map2 (\<lambda>p f. Some (label_of (lg_threshold g) (forward_return p f))) (take (n - h) cs) (drop h cs) @ replicate h None)"

record label_counts =
  lc_buy :: nat
  lc_hold :: nat
  lc_sell :: nat
  lc_total :: nat

definition label_distribution :: "series \<Rightarrow> label_counts" where
  "label_distribution ls =
    (let valid = map the (filter (\<lambda>x. x \<noteq> None) ls)
     in \<lparr>lc_buy = length (filter (\<lambda>x. x = 1) valid), lc_hold = length (filter (\<lambda>x. x = 0) valid),
         lc_sell = length (filter (\<lambda>x. x = - 1) valid), lc_total = length valid\<rparr>)"

text \<open>\<open>LABEL_TO_CLASS\<close>, and the conversion of a label array, which fails on any other value.\<close>

definition class_of :: "rat \<Rightarrow> nat option" where
  "class_of y = (if y = - 1 then Some 0 else if y = 0 then Some 1 else if y = 1 then Some 2 else None)"

fun classes_of :: "rat list \<Rightarrow> error + nat list" where
  "classes_of [] = Inr []"
| "classes_of (y # ys) = (case class_of y of None \<Rightarrow> Inl (Type_error ''int'')
   | Some c \<Rightarrow> (case classes_of ys of Inl e \<Rightarrow> Inl e | Inr cs \<Rightarrow> Inr (c # cs)))"

subsection \<open>The training set of a history\<close>

definition FIRST_ROW :: nat where "FIRST_ROW = MIN_BARS_REQUIRED - 1"

definition training_data :: "numpy \<Rightarrow> math_lib \<Rightarrow> label_generator \<Rightarrow> candle list \<Rightarrow> rat list list \<times> series" where
  "training_data np ml g cs =
    (if cs = [] then ([], [])
     else let b = to_arrays cs; X = build_feature_matrix np ml b; y = generate_labels g (ba_closes b);
              stop = int (length cs) - lg_horizon g
       in if stop \<le> int FIRST_ROW then ([], [])
          else (take (nat (stop - int FIRST_ROW)) X, drop FIRST_ROW (take (nat stop) y)))"

definition split_at :: "nat \<Rightarrow> nat" where
  "split_at n = nat \<lfloor>fmul (of_nat n) (fl (8 / 10))\<rfloor>"

definition sample_weights :: "nat list \<Rightarrow> rat list" where
  "sample_weights ys =
    (let kinds = max (length (remdups ys)) 1
     in map (\<lambda>y. fdiv (of_nat (length ys)) (of_nat (kinds * length (filter (\<lambda>z. z = y) ys)))) ys)"

record train_metrics =
  tm_accuracy :: "rat option"
  tm_train_size :: nat
  tm_test_size :: nat
  tm_horizon :: int
  tm_threshold :: rat

definition train ::
  "numpy \<Rightarrow> 'm learner \<Rightarrow> label_generator \<Rightarrow> rat list list \<Rightarrow> rat list \<Rightarrow> error + ('m \<times> train_metrics)" where
  "train np le g X y =
    (if length X < 20 then Inl (Validation_error ''Insufficient training data'')
     else case classes_of y of Inl e \<Rightarrow> Inl e
     | Inr ys \<Rightarrow>
       let split = split_at (length X); X_test = drop split X; y_train = take split ys; y_test = drop split ys in
       case le_fit_early le (take split X) y_train (sample_weights y_train) (if X_test = [] then None else Some (X_test, y_test)) of
         Inl e \<Rightarrow> Inl e
       | Inr m \<Rightarrow> Inr (m, \<lparr>tm_accuracy = (if X_test = [] then None
            else Some (np_mean np (map2 (\<lambda>x c. if le_predict le m x = c then 1 else 0) X_test y_test))),
           tm_train_size = length (take split X), tm_test_size = length X_test,
           tm_horizon = lg_horizon g, tm_threshold = lg_threshold g\<rparr>))"

subsection \<open>Labels read a fixed distance ahead\<close>

lemma length_labels [simp]: "length (generate_labels g cs) = length cs"
  by (simp add: generate_labels_def Let_def)

lemma labels_nth:
  assumes "1 \<le> lg_horizon g" "i < length cs"
  shows "generate_labels g cs ! i = (if i + nat (lg_horizon g) < length cs
    then Some (label_of (lg_threshold g) (forward_return (cs ! i) (cs ! (i + nat (lg_horizon g))))) else None)"
  using assms by (auto simp: generate_labels_def Let_def nth_append add.commute)

text \<open>A label read within the first bars is the same on any longer history.\<close>

lemma labels_take:
  assumes "1 \<le> lg_horizon g" "i + nat (lg_horizon g) < m" "m \<le> length cs"
  shows "generate_labels g (take m cs) ! i = generate_labels g cs ! i"
  using assms by (simp add: labels_nth)

lemma label_values: "Some v \<in> set (generate_labels g cs) \<Longrightarrow> v \<in> {- 1, 0, 1}"
  by (auto simp: generate_labels_def label_of_def Let_def split: if_splits)

text \<open>Row \<open>k\<close> of the training set: the features of bar \<open>59 + k\<close> and the label of its forward return.\<close>

lemma training_data_nth:
  assumes "training_data np ml g cs = (X, y)" "1 \<le> lg_horizon g" "k < length X"
  shows "X ! k = bar_row np ml (to_arrays cs) (FIRST_ROW + k) \<and> length y = length X \<and>
    FIRST_ROW + k + nat (lg_horizon g) < length cs \<and>
    y ! k = Some (label_of (lg_threshold g) (forward_return (ba_closes (to_arrays cs) ! (FIRST_ROW + k))
      (ba_closes (to_arrays cs) ! (FIRST_ROW + k + nat (lg_horizon g)))))"
proof -
  let ?stop = "int (length cs) - lg_horizon g" and ?y = "generate_labels g (ba_closes (to_arrays cs))"
  have e: "int FIRST_ROW < ?stop" "X = take (nat (?stop - int FIRST_ROW)) (build_feature_matrix np ml (to_arrays cs))"
    "y = drop FIRST_ROW (take (nat ?stop) ?y)"
    using assms(1,3) by (auto simp: training_data_def Let_def split: if_splits)
  have len: "length X = nat (?stop - int FIRST_ROW)" "length y = length X"
    using e assms(2) by (auto simp: matrix_rows FIRST_ROW_def MIN_BARS_REQUIRED_def min_def)
  then have k: "FIRST_ROW + k + nat (lg_horizon g) < length cs" using assms(2,3) e(1) by linarith
  have "X ! k = bar_row np ml (to_arrays cs) (FIRST_ROW + k)"
    using k assms(3) by (simp add: e(2) matrix_rows FIRST_ROW_def MIN_BARS_REQUIRED_def)
  moreover have "y ! k = ?y ! (FIRST_ROW + k)" using k len assms(3) by (simp add: e(3))
  ultimately show ?thesis using k len assms(2) by (simp add: labels_nth)
qed

lemma training_data_length:
  assumes "training_data np ml g cs = (X, y)" "1 \<le> lg_horizon g" "int FIRST_ROW + lg_horizon g < int (length cs)"
  shows "length X = length cs - nat (lg_horizon g) - FIRST_ROW"
  using assms by (auto simp: training_data_def matrix_rows FIRST_ROW_def MIN_BARS_REQUIRED_def Let_def min_def split: if_splits)

subsection \<open>Properties\<close>

text \<open>The chronological split does not separate the folds: the last samples of the training fold,
  as many as the label horizon has bars, are labelled with closes of bars whose samples are in the
  test fold, the fold that early stopping watches and the reported accuracy is measured on.\<close>

theorem training_labels_reach_test_fold:
  assumes "new_label_generator h threshold = Inr g" "training_data np ml g cs = (X, y)"
    and "k < split_at (length X)" "split_at (length X) \<le> k + nat h" "k + nat h < length X"
  shows "y ! k = Some (label_of threshold (forward_return (fl (oc_close (cs ! (FIRST_ROW + k)))) (fl (oc_close (cs ! (FIRST_ROW + (k + nat h))))))) \<and>
    drop (split_at (length X)) X ! (k + nat h - split_at (length X)) = bar_row np ml (to_arrays cs) (FIRST_ROW + (k + nat h))"
proof -
  have g: "lg_horizon g = h" "lg_threshold g = threshold" "1 \<le> lg_horizon g"
    using assms(1) by (auto simp: new_label_generator_def split: if_splits)
  have "k < length X" using assms(5) by simp
  note a = training_data_nth [OF assms(2) g(3) this] training_data_nth [OF assms(2) g(3) assms(5)]
  then show ?thesis using g assms(4,5) by (simp add: to_arrays_def add.assoc)
qed

theorem training_labels_reach_test_fold_witness:
  "\<exists>X y. training_data demo_numpy \<lparr>ml_log = id, ml_sin = id, ml_cos = id\<rparr> \<lparr>lg_horizon = 12, lg_threshold = 3 / 1000\<rparr>
      (map (\<lambda>t. mk_candle ''BTC/USDT'' t 64000) [1..100]) = (X, y) \<and> split_at (length X) = 23 \<and>
    y ! 16 = Some (label_of (3 / 1000) (forward_return (fl 64000) (fl 64000)))"
proof -
  let ?cs = "map (\<lambda>t. mk_candle ''BTC/USDT'' t 64000) [1..100]" and ?ml = "\<lparr>ml_log = id, ml_sin = id, ml_cos = id\<rparr>"
  let ?g = "\<lparr>lg_horizon = 12, lg_threshold = 3 / 1000\<rparr> :: label_generator"
  obtain X y where t: "training_data demo_numpy ?ml ?g ?cs = (X, y)" by (cases "training_data demo_numpy ?ml ?g ?cs")
  have n: "length X = 29" using training_data_length [OF t] by (simp add: FIRST_ROW_def MIN_BARS_REQUIRED_def)
  have s: "split_at 29 = 23" by code_simp
  have g: "new_label_generator 12 (3 / 1000) = Inr ?g" by (simp add: new_label_generator_def)
  have "?cs ! i = mk_candle ''BTC/USDT'' (1 + int i) 64000" if "i < 100" for i using that by simp
  then have c: "oc_close (?cs ! 75) = 64000" "oc_close (?cs ! 87) = 64000" by (simp_all add: mk_candle_def)
  have "y ! 16 = Some (label_of (3 / 1000) (forward_return (fl (oc_close (?cs ! 75))) (fl (oc_close (?cs ! 87)))))"
    using training_labels_reach_test_fold [OF g t, of 16] n s by (simp add: FIRST_ROW_def MIN_BARS_REQUIRED_def del: nth_map)
  then have "y ! 16 = Some (label_of (3 / 1000) (forward_return (fl 64000) (fl 64000)))" by (simp only: c)
  then show ?thesis using t n s by metis
qed

end
