(* ===== verification/Backtest_Engine.thy ===== *)
theory Backtest_Engine
  imports Signal_Generator
begin

text \<open>
  The backtest engine (\<open>backtest/engine.py\<close>, \<open>backtest/config.py\<close>, \<open>backtest/types.py\<close>): candles replayed
  one by one; a signal read from the candles so far, filled at the next bar's open; stop-loss and
  take-profit brackets checked against each bar's high and low; fees and slippage on both sides. The
  decision callback is a parameter with a state of its own, which it may change at every call, and
  it may raise; the rule-based strategy is its instance over the modelled signal generator. The
  callback's \<open>'buy'\<close> and \<open>'sell'\<close> are an \<^typ>\<open>order_side\<close>.

  Proved here: the replay never looks ahead, every trade of its result is justified by the candles,
  and the equity it reports is the initial balance with the trades' profits and losses.
\<close>

record backtest_config =
  bc_symbol :: symbol
  bc_timeframe :: string
  bc_initial_balance :: rat
  bc_fee_pct :: rat
  bc_slippage_pct :: rat
  bc_stop_loss_pct :: rat
  bc_take_profit_pct :: rat
  bc_max_position_pct :: rat
  bc_min_order_usd :: rat
  bc_max_order_usd :: rat
  bc_signal_source :: string
  bc_min_confidence :: rat
  bc_random_seed :: int
  bc_random_runs :: nat

definition default_backtest_config :: backtest_config where
  "default_backtest_config = \<lparr>bc_symbol = ''BTC/USDT'', bc_timeframe = ''1h'', bc_initial_balance = 10000,
     bc_fee_pct = fl (1 / 1000), bc_slippage_pct = fl (5 / 10000), bc_stop_loss_pct = fl (3 / 100),
     bc_take_profit_pct = fl (8 / 100), bc_max_position_pct = fl (2 / 100), bc_min_order_usd = 10,
     bc_max_order_usd = 1000, bc_signal_source = ''rules'', bc_min_confidence = fl (1 / 2),
     bc_random_seed = 42, bc_random_runs = 200\<rparr>"

definition PERIODS_PER_YEAR :: "(string, rat) dict" where
  "PERIODS_PER_YEAR = [(''1m'', 525600), (''5m'', 105120), (''15m'', 35040), (''1h'', 8760), (''4h'', 2190), (''1d'', 365)]"

definition periods_per_year :: "backtest_config \<Rightarrow> rat" where
  "periods_per_year cfg = (case map_of PERIODS_PER_YEAR (bc_timeframe cfg) of Some p \<Rightarrow> p | None \<Rightarrow> 365)"

definition round_trip_cost_pct :: "backtest_config \<Rightarrow> rat" where
  "round_trip_cost_pct cfg = fmul 2 (fadd (bc_fee_pct cfg) (bc_slippage_pct cfg))"

datatype exit_reason = Take_profit | Stop_loss | Signal_exit | Eod

record bt_trade =
  bt_symbol :: symbol
  bt_side :: order_side
  bt_entry_time :: time
  bt_exit_time :: time
  bt_entry_price :: rat
  bt_exit_price :: rat
  bt_quantity :: rat
  bt_notional_usd :: rat
  bt_pnl_usd :: rat
  bt_return_pct :: rat
  bt_bars_held :: int
  bt_exit_reason :: exit_reason

record equity_point =
  ep_timestamp :: time
  ep_equity :: rat
  ep_in_market :: bool

record bt_position =
  bx_side :: order_side
  bx_entry_fill :: rat
  bx_qty :: rat
  bx_entry_time :: time
  bx_entry_index :: nat
  bx_size_usd :: rat

record backtest_run =
  run_config :: backtest_config
  run_curve :: "equity_point list"
  run_trades :: "bt_trade list"

text \<open>The variables of the replay loop.\<close>

record replay_state =
  rp_registry :: buffer_registry
  rp_realized :: rat
  rp_position :: "bt_position option"
  rp_pending :: "order_side option"
  rp_curve :: "equity_point list"
  rp_trades :: "bt_trade list"

definition start_replay :: "backtest_config \<Rightarrow> replay_state" where
  "start_replay cfg = \<lparr>rp_registry = [], rp_realized = bc_initial_balance cfg, rp_position = None,
     rp_pending = None, rp_curve = [], rp_trades = []\<rparr>"

subsection \<open>Opening and closing\<close>

definition fclamp :: "rat \<Rightarrow> rat \<Rightarrow> rat \<Rightarrow> rat" where
  "fclamp x lo hi = max lo (min hi x)"

definition entry_price :: "backtest_config \<Rightarrow> order_side \<Rightarrow> rat \<Rightarrow> rat" where
  "entry_price cfg side raw = (if side = BUY then fmul raw (fadd 1 (bc_slippage_pct cfg))
     else fmul raw (fsub 1 (bc_slippage_pct cfg)))"

definition exit_price :: "backtest_config \<Rightarrow> order_side \<Rightarrow> rat \<Rightarrow> rat" where
  "exit_price cfg side raw = (if side = BUY then fmul raw (fsub 1 (bc_slippage_pct cfg))
     else fmul raw (fadd 1 (bc_slippage_pct cfg)))"

definition opened :: "backtest_config \<Rightarrow> rat \<Rightarrow> order_side \<Rightarrow> rat \<Rightarrow> time \<Rightarrow> nat \<Rightarrow> bt_position" where
  "opened cfg equity side raw ts i =
    (let size = fclamp (fmul (bc_max_position_pct cfg) equity) (bc_min_order_usd cfg) (bc_max_order_usd cfg);
         fill = entry_price cfg side raw
     in \<lparr>bx_side = side, bx_entry_fill = fill, bx_qty = (if fill > 0 then fdiv size fill else 0),
         bx_entry_time = ts, bx_entry_index = i, bx_size_usd = size\<rparr>)"

definition net_pnl :: "backtest_config \<Rightarrow> bt_position \<Rightarrow> rat \<Rightarrow> rat" where
  "net_pnl cfg p fill =
    (let gross = (if bx_side p = BUY then fmul (fsub fill (bx_entry_fill p)) (bx_qty p)
           else fmul (fsub (bx_entry_fill p) fill) (bx_qty p));
         fees = fmul (bc_fee_pct cfg) (fadd (fmul (bx_entry_fill p) (bx_qty p)) (fmul fill (bx_qty p)))
     in fsub gross fees)"

definition closed_trade :: "backtest_config \<Rightarrow> bt_position \<Rightarrow> rat \<Rightarrow> time \<Rightarrow> nat \<Rightarrow> exit_reason \<Rightarrow> bt_trade" where
  "closed_trade cfg p raw ts i why =
    (let fill = exit_price cfg (bx_side p) raw; net = net_pnl cfg p fill
     in \<lparr>bt_symbol = bc_symbol cfg, bt_side = bx_side p, bt_entry_time = bx_entry_time p, bt_exit_time = ts,
         bt_entry_price = bx_entry_fill p, bt_exit_price = fill, bt_quantity = bx_qty p,
         bt_notional_usd = bx_size_usd p, bt_pnl_usd = net,
         bt_return_pct = (if bx_size_usd p > 0 then fdiv net (bx_size_usd p) else 0),
         bt_bars_held = int i - int (bx_entry_index p), bt_exit_reason = why\<rparr>)"

definition close_with :: "backtest_config \<Rightarrow> bt_position \<Rightarrow> rat \<Rightarrow> time \<Rightarrow> nat \<Rightarrow> exit_reason \<Rightarrow> replay_state \<Rightarrow> replay_state" where
  "close_with cfg p raw ts i why st = (let t = closed_trade cfg p raw ts i why
     in st\<lparr>rp_realized := fadd (rp_realized st) (bt_pnl_usd t), rp_position := None, rp_trades := rp_trades st @ [t]\<rparr>)"

definition open_with :: "backtest_config \<Rightarrow> order_side \<Rightarrow> candle \<Rightarrow> nat \<Rightarrow> replay_state \<Rightarrow> replay_state" where
  "open_with cfg side c i st =
    st\<lparr>rp_position := Some (opened cfg (rp_realized st) side (fl (oc_open c)) (oc_timestamp c) i)\<rparr>"

subsection \<open>One bar\<close>

definition fill_pending :: "backtest_config \<Rightarrow> candle \<Rightarrow> nat \<Rightarrow> replay_state \<Rightarrow> replay_state" where
  "fill_pending cfg c i st = (case rp_pending st of None \<Rightarrow> st
   | Some side \<Rightarrow> (case rp_position st of
        None \<Rightarrow> open_with cfg side c i st
      | Some p \<Rightarrow> if bx_side p \<noteq> side
          then open_with cfg side c i (close_with cfg p (fl (oc_open c)) (oc_timestamp c) i Signal_exit st)
          else st)\<lparr>rp_pending := None\<rparr>)"

definition stop_level :: "backtest_config \<Rightarrow> bt_position \<Rightarrow> rat" where
  "stop_level cfg p = (if bx_side p = BUY then fmul (bx_entry_fill p) (fsub 1 (bc_stop_loss_pct cfg))
     else fmul (bx_entry_fill p) (fadd 1 (bc_stop_loss_pct cfg)))"

definition target_level :: "backtest_config \<Rightarrow> bt_position \<Rightarrow> rat" where
  "target_level cfg p = (if bx_side p = BUY then fmul (bx_entry_fill p) (fadd 1 (bc_take_profit_pct cfg))
     else fmul (bx_entry_fill p) (fsub 1 (bc_take_profit_pct cfg)))"

definition hits_stop :: "backtest_config \<Rightarrow> bt_position \<Rightarrow> candle \<Rightarrow> bool" where
  "hits_stop cfg p c = (if bx_side p = BUY then fl (oc_low c) \<le> stop_level cfg p else fl (oc_high c) \<ge> stop_level cfg p)"

definition hits_target :: "backtest_config \<Rightarrow> bt_position \<Rightarrow> candle \<Rightarrow> bool" where
  "hits_target cfg p c = (if bx_side p = BUY then fl (oc_high c) \<ge> target_level cfg p else fl (oc_low c) \<le> target_level cfg p)"

definition check_brackets :: "backtest_config \<Rightarrow> candle \<Rightarrow> nat \<Rightarrow> replay_state \<Rightarrow> replay_state" where
  "check_brackets cfg c i st = (case rp_position st of None \<Rightarrow> st
   | Some p \<Rightarrow> if hits_stop cfg p c then close_with cfg p (stop_level cfg p) (oc_timestamp c) i Stop_loss st
       else if hits_target cfg p c then close_with cfg p (target_level cfg p) (oc_timestamp c) i Take_profit st
       else st)"

definition mark_to_market :: "candle \<Rightarrow> replay_state \<Rightarrow> replay_state" where
  "mark_to_market c st =
    (let equity = (case rp_position st of None \<Rightarrow> rp_realized st
         | Some p \<Rightarrow> fadd (rp_realized st) (if bx_side p = BUY then fmul (fsub (fl (oc_close c)) (bx_entry_fill p)) (bx_qty p)
             else fmul (fsub (bx_entry_fill p) (fl (oc_close c))) (bx_qty p)))
     in st\<lparr>rp_curve := rp_curve st @ [\<lparr>ep_timestamp = oc_timestamp c, ep_equity = equity, ep_in_market = rp_position st \<noteq> None\<rparr>]\<rparr>)"

definition replay_bar :: "backtest_config \<Rightarrow> candle \<Rightarrow> nat \<Rightarrow> replay_state \<Rightarrow> candle_buffer \<times> replay_state" where
  "replay_bar cfg c i st = (case registry_add c (rp_registry st) of
     (b, r) \<Rightarrow> (b, mark_to_market c (check_brackets cfg c i (fill_pending cfg c i (st\<lparr>rp_registry := r\<rparr>)))))"

subsection \<open>The replay\<close>

type_synonym 'd decider = "'d \<Rightarrow> candle_buffer \<Rightarrow> nat \<Rightarrow> error + (order_side option \<times> 'd)"

fun replay :: "backtest_config \<Rightarrow> 'd decider \<Rightarrow> nat \<Rightarrow> candle list \<Rightarrow> 'd \<Rightarrow> replay_state \<Rightarrow> error + ('d \<times> replay_state)" where
  "replay cfg decide i [] d st = Inr (d, st)"
| "replay cfg decide i (c # cs) d st = (case replay_bar cfg c i st of
     (b, st1) \<Rightarrow> if cs = [] then Inr (d, st1)
       else (case decide d b i of Inl e \<Rightarrow> Inl e
         | Inr (side, d') \<Rightarrow> replay cfg decide (Suc i) cs d' (st1\<lparr>rp_pending := side\<rparr>)))"

definition close_residual :: "backtest_config \<Rightarrow> candle list \<Rightarrow> replay_state \<Rightarrow> replay_state" where
  "close_residual cfg cs st = (case rp_position st of None \<Rightarrow> st
   | Some p \<Rightarrow> if rp_curve st = [] then st
       else let c = last cs; st1 = close_with cfg p (fl (oc_close c)) (oc_timestamp c) (length cs - 1) Eod st
         in st1\<lparr>rp_curve := butlast (rp_curve st1) @
              [\<lparr>ep_timestamp = oc_timestamp c, ep_equity = rp_realized st1, ep_in_market = False\<rparr>]\<rparr>)"

definition run_with_decider :: "candle list \<Rightarrow> backtest_config \<Rightarrow> 'd decider \<Rightarrow> 'd \<Rightarrow> error + (backtest_run \<times> 'd)" where
  "run_with_decider cs cfg decide d = (case replay cfg decide 0 cs d (start_replay cfg) of
     Inl e \<Rightarrow> Inl e
   | Inr (d', st) \<Rightarrow> (let st1 = close_residual cfg cs st
       in Inr (\<lparr>run_config = cfg, run_curve = rp_curve st1, run_trades = rp_trades st1\<rparr>, d')))"

subsection \<open>The rule-based strategy\<close>

text \<open>The clock and the ids of the generated signals are the environments the decider consumes, one per
  call.\<close>

definition signal_side :: "backtest_config \<Rightarrow> technical_signal option \<Rightarrow> order_side option" where
  "signal_side cfg sig = (case sig of None \<Rightarrow> None
   | Some s \<Rightarrow> if ts_confidence s < bc_min_confidence cfg then None
       else if ts_direction s = BUY_DIR \<or> ts_direction s = STRONG_BUY then Some BUY
       else if ts_direction s = SELL_DIR \<or> ts_direction s = STRONG_SELL then Some SELL
       else None)"

definition rules_decider ::
  "backtest_config \<Rightarrow> indicator_lib \<Rightarrow> numpy \<Rightarrow> ta_settings \<Rightarrow> (nat \<Rightarrow> gen_env) \<Rightarrow> unit decider" where
  "rules_decider cfg lib np ta envs = (\<lambda>d b i.
     case generate (envs i) lib np (ta\<lparr>ta_min_signal_confidence := 0\<rparr>) b of
       Inl e \<Rightarrow> Inl e | Inr sig \<Rightarrow> Inr (signal_side cfg sig, d))"

definition run_strategy ::
  "candle list \<Rightarrow> backtest_config \<Rightarrow> indicator_lib \<Rightarrow> numpy \<Rightarrow> ta_settings \<Rightarrow> (nat \<Rightarrow> gen_env) \<Rightarrow> error + (backtest_run \<times> unit)" where
  "run_strategy cs cfg lib np ta envs =
    (if bc_signal_source cfg = ''rules'' then run_with_decider cs cfg (rules_decider cfg lib np ta envs) ()
     else Inl (Not_implemented_error ''signal_source''))"

subsection \<open>The past does not depend on the future\<close>

text \<open>The replay up to the decision after a candle that is not the last one.\<close>

fun advance :: "backtest_config \<Rightarrow> 'd decider \<Rightarrow> nat \<Rightarrow> candle list \<Rightarrow> 'd \<Rightarrow> replay_state \<Rightarrow> error + ('d \<times> replay_state)" where
  "advance cfg decide i [] d st = Inr (d, st)"
| "advance cfg decide i (c # cs) d st = (case replay_bar cfg c i st of
     (b, st1) \<Rightarrow> (case decide d b i of Inl e \<Rightarrow> Inl e
       | Inr (side, d') \<Rightarrow> advance cfg decide (Suc i) cs d' (st1\<lparr>rp_pending := side\<rparr>)))"

lemma replay_append: "fut \<noteq> [] \<Longrightarrow> replay cfg decide i (past @ fut) d st =
    (case advance cfg decide i past d st of Inl e \<Rightarrow> Inl e
     | Inr (d', st') \<Rightarrow> replay cfg decide (i + length past) fut d' st')"
  by (induction past arbitrary: i d st) (simp_all split: prod.split sum.split)

lemma replay_total: "(\<And>d b i. \<not> isl (decide d b i)) \<Longrightarrow> \<not> isl (replay cfg decide i cs d st)"
proof (induction cs arbitrary: i d st)
  case (Cons c cs)
  obtain b st1 where b: "replay_bar cfg c i st = (b, st1)" by (cases "replay_bar cfg c i st")
  obtain r where "decide d b i = Inr r" using Cons.prems [of d b i] by (cases "decide d b i") auto
  then show ?case using Cons b by (auto split: prod.split)
qed simp

lemma run_total: "(\<And>d b i. \<not> isl (decide d b i)) \<Longrightarrow> \<exists>r d'. run_with_decider cs cfg decide d = Inr (r, d')"
  using replay_total [of decide cfg 0 cs d "start_replay cfg"] by (auto simp: run_with_decider_def Let_def split: sum.split)

text \<open>A replay only adds: one point of the curve per candle, trades that end on these candles.\<close>

definition extends :: "candle list \<Rightarrow> replay_state \<Rightarrow> replay_state \<Rightarrow> bool" where
  "extends cs st st' \<longleftrightarrow> (\<exists>ps ts. rp_curve st' = rp_curve st @ ps \<and> length ps = length cs \<and>
     rp_trades st' = rp_trades st @ ts \<and> (\<forall>t\<in>set ts. bt_exit_time t \<in> oc_timestamp ` set cs))"

lemma extends_refl [simp]: "extends [] st st"
  by (simp add: extends_def)

lemma extends_trans: "extends xs st st' \<Longrightarrow> extends ys st' st'' \<Longrightarrow> extends (xs @ ys) st st''"
  by (fastforce simp: extends_def)

lemma extends_pending [simp]: "extends cs st (st'\<lparr>rp_pending := x\<rparr>) = extends cs st st'"
  by (simp add: extends_def)

lemma closed_trade_fields [simp]: "bt_exit_time (closed_trade cfg p raw ts i why) = ts"
  "bt_exit_reason (closed_trade cfg p raw ts i why) = why" "bt_side (closed_trade cfg p raw ts i why) = bx_side p"
  by (simp_all add: closed_trade_def Let_def)

lemmas bar_defs = replay_bar_def mark_to_market_def check_brackets_def fill_pending_def open_with_def close_with_def Let_def

lemma extends_bar: "replay_bar cfg c i st = (b, st') \<Longrightarrow> extends [c] st st'"
  by (auto simp: bar_defs extends_def split: option.splits prod.splits if_splits)

lemma extends_advance: "advance cfg decide i cs d st = Inr (d', st') \<Longrightarrow> extends cs st st'"
proof (induction cs arbitrary: i d st)
  case (Cons c cs)
  obtain b st1 where b: "replay_bar cfg c i st = (b, st1)" by (cases "replay_bar cfg c i st")
  with Cons.prems obtain side d1 where "advance cfg decide (Suc i) cs d1 (st1\<lparr>rp_pending := side\<rparr>) = Inr (d', st')"
    by (auto split: sum.splits prod.splits)
  from extends_trans [OF _ Cons.IH [OF this], of "[c]" st] extends_bar [OF b] show ?case
    by (simp add: extends_def)
qed simp

lemma replay_last: "replay cfg decide i (cs @ [c]) d st =
    (case advance cfg decide i cs d st of Inl e \<Rightarrow> Inl e
     | Inr (d', st') \<Rightarrow> Inr (d', snd (replay_bar cfg c (i + length cs) st')))"
  by (simp add: replay_append split: sum.split prod.split)

lemma extends_replay:
  assumes "replay cfg decide i cs d st = Inr (d', st')" shows "extends cs st st'"
proof (cases cs rule: rev_cases)
  case (snoc ys y)
  with assms obtain d1 st1 where a: "advance cfg decide i ys d st = Inr (d1, st1)"
    and l: "st' = snd (replay_bar cfg y (i + length ys) st1)"
    by (auto simp: replay_last split: sum.splits prod.splits)
  have "extends [y] st1 st'" using extends_bar [OF prod.collapse [symmetric]] l by simp
  from extends_trans [OF extends_advance [OF a] this] show ?thesis by (simp add: snoc)
qed (use assms in simp)

lemma close_residual_curve:
  "rp_curve st \<noteq> [] \<Longrightarrow> \<exists>q. rp_curve (close_residual cfg cs st) = butlast (rp_curve st) @ [q]"
  by (auto simp: close_residual_def close_with_def Let_def split: option.split intro: append_butlast_last_id [symmetric])

lemma close_residual_trades:
  "cs \<noteq> [] \<Longrightarrow> \<exists>ts. rp_trades (close_residual cfg cs st) = rp_trades st @ ts \<and> (\<forall>t\<in>set ts. bt_exit_time t = oc_timestamp (last cs))"
  by (auto simp: close_residual_def close_with_def Let_def split: option.split)

lemma run_past:
  assumes "run_with_decider (past @ fut) cfg decide d = Inr (r, d')" "fut \<noteq> []"
  obtains d1 st where "advance cfg decide 0 past d (start_replay cfg) = Inr (d1, st)"
    "take (length past) (run_curve r) = rp_curve st" "length (run_curve r) = length (past @ fut)"
    "\<exists>ts. run_trades r = rp_trades st @ ts \<and> (\<forall>t\<in>set ts. bt_exit_time t \<in> oc_timestamp ` set fut)"
proof -
  obtain d1 st where a: "advance cfg decide 0 past d (start_replay cfg) = Inr (d1, st)"
    using assms by (auto simp: run_with_decider_def replay_append split: sum.splits prod.splits)
  obtain st1 where rp: "replay cfg decide (length past) fut d1 st = Inr (d', st1)"
    and r: "run_curve r = rp_curve (close_residual cfg (past @ fut) st1)" "run_trades r = rp_trades (close_residual cfg (past @ fut) st1)"
    using assms by (auto simp: run_with_decider_def replay_append a Let_def split: sum.splits prod.splits)
  have l: "length (rp_curve st) = length past" using extends_advance [OF a] by (auto simp: extends_def start_replay_def)
  obtain ps ts where e: "rp_curve st1 = rp_curve st @ ps" "length ps = length fut" "rp_trades st1 = rp_trades st @ ts"
    "\<forall>t\<in>set ts. bt_exit_time t \<in> oc_timestamp ` set fut"
    using extends_replay [OF rp] by (auto simp: extends_def)
  have "ps \<noteq> []" using e(2) assms(2) by auto
  then obtain q where q: "run_curve r = rp_curve st @ butlast ps @ [q]"
    using close_residual_curve [of st1 cfg "past @ fut"] e(1) by (auto simp: r butlast_append)
  moreover obtain us where us: "run_trades r = rp_trades st1 @ us" "\<forall>t\<in>set us. bt_exit_time t = oc_timestamp (last fut)"
    using close_residual_trades [of "past @ fut" cfg st1] assms(2) by (auto simp: r)
  have "\<forall>t\<in>set (ts @ us). bt_exit_time t \<in> oc_timestamp ` set fut" using e(4) us(2) assms(2) by auto
  then have "\<exists>ts. run_trades r = rp_trades st @ ts \<and> (\<forall>t\<in>set ts. bt_exit_time t \<in> oc_timestamp ` set fut)"
    using us(1) e(3) by (intro exI [of _ "ts @ us"]) simp
  with that [OF a] show thesis using q l e(2) assms(2) by simp
qed

subsection \<open>What justifies a trade\<close>

definition registry_after :: "candle list \<Rightarrow> buffer_registry" where
  "registry_after cs = fold (\<lambda>c r. snd (registry_add c r)) cs []"

text \<open>The buffer the decision of bar \<open>k\<close> reads, and the decision.\<close>

definition seen_buffer :: "candle list \<Rightarrow> nat \<Rightarrow> candle_buffer" where
  "seen_buffer cs k = fst (registry_add (cs ! k) (registry_after (take k cs)))"

definition decided :: "'d decider \<Rightarrow> candle list \<Rightarrow> nat \<Rightarrow> order_side \<Rightarrow> bool" where
  "decided decide cs k side \<longleftrightarrow> (\<exists>d d'. decide d (seen_buffer cs k) k = Inr (Some side, d'))"

definition untouched :: "backtest_config \<Rightarrow> bt_position \<Rightarrow> candle \<Rightarrow> bool" where
  "untouched cfg p c \<longleftrightarrow> \<not> hits_stop cfg p c \<and> \<not> hits_target cfg p c"

text \<open>A position opened on these candles and untouched by its brackets before bar \<open>n\<close>.\<close>

definition held :: "backtest_config \<Rightarrow> 'd decider \<Rightarrow> candle list \<Rightarrow> nat \<Rightarrow> bt_position \<Rightarrow> bool" where
  "held cfg decide cs n p \<longleftrightarrow> (let j = bx_entry_index p in 0 < j \<and> j < length cs \<and> decided decide cs (j - 1) (bx_side p) \<and>
     bx_entry_fill p = entry_price cfg (bx_side p) (fl (oc_open (cs ! j))) \<and> bx_entry_time p = oc_timestamp (cs ! j) \<and>
     (\<forall>m. j \<le> m \<and> m < n \<longrightarrow> untouched cfg p (cs ! m)))"

definition exit_justified :: "backtest_config \<Rightarrow> 'd decider \<Rightarrow> candle list \<Rightarrow> bt_position \<Rightarrow> nat \<Rightarrow> rat \<Rightarrow> exit_reason \<Rightarrow> bool" where
  "exit_justified cfg decide cs p k raw why \<longleftrightarrow> (case why of
     Stop_loss \<Rightarrow> hits_stop cfg p (cs ! k) \<and> raw = stop_level cfg p
   | Take_profit \<Rightarrow> \<not> hits_stop cfg p (cs ! k) \<and> hits_target cfg p (cs ! k) \<and> raw = target_level cfg p
   | Signal_exit \<Rightarrow> bx_entry_index p < k \<and> decided decide cs (k - 1) (opposite (bx_side p)) \<and> raw = fl (oc_open (cs ! k))
   | Eod \<Rightarrow> Suc k = length cs \<and> untouched cfg p (cs ! k) \<and> raw = fl (oc_close (cs ! k)))"

definition trade_justified :: "backtest_config \<Rightarrow> 'd decider \<Rightarrow> candle list \<Rightarrow> bt_trade \<Rightarrow> bool" where
  "trade_justified cfg decide cs t \<longleftrightarrow> (\<exists>p k raw. t = closed_trade cfg p raw (oc_timestamp (cs ! k)) k (bt_exit_reason t) \<and>
     held cfg decide cs k p \<and> bx_entry_index p \<le> k \<and> k < length cs \<and> exit_justified cfg decide cs p k raw (bt_exit_reason t))"

definition replay_inv :: "backtest_config \<Rightarrow> 'd decider \<Rightarrow> candle list \<Rightarrow> nat \<Rightarrow> replay_state \<Rightarrow> bool" where
  "replay_inv cfg decide cs n st \<longleftrightarrow> rp_realized st = foldl fadd (bc_initial_balance cfg) (map bt_pnl_usd (rp_trades st)) \<and>
     (\<forall>p. rp_position st = Some p \<longrightarrow> held cfg decide cs n p) \<and>
     (\<forall>t\<in>set (rp_trades st). trade_justified cfg decide cs t \<and> bt_exit_reason t \<noteq> Eod)"

text \<open>More candles change nothing about the earlier ones.\<close>

lemma decided_append: "k < length cs \<Longrightarrow> decided decide (cs @ xs) k side = decided decide cs k side"
  by (simp add: decided_def seen_buffer_def nth_append)

lemma held_append: "held cfg decide cs n p \<Longrightarrow> n \<le> length cs \<Longrightarrow> held cfg decide (cs @ xs) n p"
  by (auto simp: held_def Let_def nth_append decided_append)

lemma trade_justified_append:
  assumes "trade_justified cfg decide cs t" "bt_exit_reason t \<noteq> Eod"
  shows "trade_justified cfg decide (cs @ xs) t"
proof -
  obtain p k raw where "t = closed_trade cfg p raw (oc_timestamp (cs ! k)) k (bt_exit_reason t)"
    "held cfg decide cs k p" "bx_entry_index p \<le> k" "k < length cs" "exit_justified cfg decide cs p k raw (bt_exit_reason t)"
    using assms(1) by (auto simp: trade_justified_def)
  then show ?thesis unfolding trade_justified_def using assms(2)
    by (intro exI [of _ p] exI [of _ k] exI [of _ raw])
      (auto simp: nth_append held_append exit_justified_def decided_append split: exit_reason.splits)
qed

lemma close_with_inv:
  assumes "replay_inv cfg decide cs k st" "rp_position st = Some p" "k < length cs" "bx_entry_index p \<le> k" "why \<noteq> Eod"
    "exit_justified cfg decide cs p k raw why"
  shows "replay_inv cfg decide cs n (close_with cfg p raw (oc_timestamp (cs ! k)) k why st)"
proof -
  have "trade_justified cfg decide cs (closed_trade cfg p raw (oc_timestamp (cs ! k)) k why)"
    unfolding trade_justified_def using assms by (intro exI [of _ p] exI [of _ k] exI [of _ raw]) (simp add: replay_inv_def)
  then show ?thesis using assms(1,5) by (simp add: replay_inv_def close_with_def Let_def)
qed

lemma open_with_held:
  assumes "decided decide cs (i - 1) side" "0 < i" "i < length cs"
  shows "held cfg decide cs i (opened cfg eq side (fl (oc_open (cs ! i))) (oc_timestamp (cs ! i)) i)"
  using assms by (auto simp: held_def opened_def Let_def)

lemma side_not_eq: "(a::order_side) \<noteq> b \<longleftrightarrow> b = opposite a"
  by (cases a; cases b) simp_all

lemma fill_pending_inv:
  assumes "replay_inv cfg decide cs i st" "Suc i = length cs"
    and "\<And>side. rp_pending st = Some side \<Longrightarrow> 0 < i \<and> decided decide cs (i - 1) side"
    and "\<And>p. rp_position st = Some p \<Longrightarrow> bx_entry_index p < i"
  shows "replay_inv cfg decide cs i (fill_pending cfg (cs ! i) i st) \<and>
    (\<forall>p. rp_position (fill_pending cfg (cs ! i) i st) = Some p \<longrightarrow> bx_entry_index p \<le> i)"
proof (cases "rp_pending st")
  case (Some side)
  note d = assms(3) [OF Some]
  have hold: "held cfg decide cs i (opened cfg eq side (fl (oc_open (cs ! i))) (oc_timestamp (cs ! i)) i)" for eq
    using open_with_held d assms(2) by fastforce
  have idx: "bx_entry_index (opened cfg eq side raw ts i) = i" for eq raw ts by (simp add: opened_def Let_def)
  show ?thesis
  proof (cases "rp_position st")
    case None
    then show ?thesis using Some hold idx assms(1) by (auto simp: fill_pending_def open_with_def replay_inv_def)
  next
    case (Some p)
    show ?thesis
    proof (cases "bx_side p = side")
      case True
      then show ?thesis using Some \<open>rp_pending st = Some side\<close> assms(1,4)
        by (auto simp: fill_pending_def replay_inv_def less_imp_le)
    next
      case False
      have "exit_justified cfg decide cs p i (fl (oc_open (cs ! i))) Signal_exit"
        using d assms(4) [OF Some] False by (simp add: exit_justified_def side_not_eq)
      then have "replay_inv cfg decide cs i (close_with cfg p (fl (oc_open (cs ! i))) (oc_timestamp (cs ! i)) i Signal_exit st)"
        using close_with_inv [OF assms(1) Some, of Signal_exit] assms(2) assms(4) [OF Some] by simp
      then show ?thesis using Some False \<open>rp_pending st = Some side\<close> hold idx
        by (auto simp: fill_pending_def open_with_def replay_inv_def)
    qed
  qed
qed (use assms in \<open>auto simp: fill_pending_def less_imp_le\<close>)

lemma check_brackets_inv:
  assumes "replay_inv cfg decide cs i st" "Suc i = length cs" "\<And>p. rp_position st = Some p \<Longrightarrow> bx_entry_index p \<le> i"
  shows "replay_inv cfg decide cs (Suc i) (check_brackets cfg (cs ! i) i st)"
proof (cases "rp_position st")
  case None
  then show ?thesis using assms(1) by (auto simp: check_brackets_def replay_inv_def)
next
  case (Some p)
  have keep: "replay_inv cfg decide cs (Suc i) st" if "untouched cfg p (cs ! i)"
    using assms(1) Some that by (auto simp: replay_inv_def held_def Let_def less_Suc_eq)
  have stop: "hits_stop cfg p (cs ! i) \<Longrightarrow> exit_justified cfg decide cs p i (stop_level cfg p) Stop_loss"
    by (simp add: exit_justified_def)
  have target: "\<not> hits_stop cfg p (cs ! i) \<Longrightarrow> hits_target cfg p (cs ! i) \<Longrightarrow>
      exit_justified cfg decide cs p i (target_level cfg p) Take_profit"
    by (simp add: exit_justified_def)
  show ?thesis
    using close_with_inv [OF assms(1) Some _ assms(3) [OF Some]] assms(2) stop target keep
    by (auto simp: check_brackets_def Some untouched_def)
qed

definition between_bars :: "backtest_config \<Rightarrow> 'd decider \<Rightarrow> candle list \<Rightarrow> replay_state \<Rightarrow> bool" where
  "between_bars cfg decide cs st \<longleftrightarrow> replay_inv cfg decide cs (length cs) st \<and> rp_registry st = registry_after cs \<and>
     (\<forall>side. rp_pending st = Some side \<longrightarrow> cs \<noteq> [] \<and> decided decide cs (length cs - 1) side)"

lemma replay_inv_append:
  "replay_inv cfg decide cs (length cs) st \<Longrightarrow> replay_inv cfg decide (cs @ xs) (length cs) st"
  by (simp add: replay_inv_def held_append trade_justified_append)

lemma kept_fields [simp]:
  "rp_registry (fill_pending cfg c i st) = rp_registry st" "rp_registry (check_brackets cfg c i st) = rp_registry st"
  "rp_registry (mark_to_market c st) = rp_registry st" "rp_pending (fill_pending cfg c i st) = None"
  "rp_pending (check_brackets cfg c i st) = rp_pending st" "rp_pending (mark_to_market c st) = rp_pending st"
  "replay_inv cfg decide cs n (mark_to_market c st) = replay_inv cfg decide cs n st"
  "replay_inv cfg decide cs n (st\<lparr>rp_registry := r\<rparr>) = replay_inv cfg decide cs n st"
  "replay_inv cfg decide cs n (st\<lparr>rp_pending := x\<rparr>) = replay_inv cfg decide cs n st"
  by (simp_all add: bar_defs replay_inv_def split: option.split)

lemma registry_after_snoc: "registry_after (cs @ [c]) = snd (registry_add c (registry_after cs))"
  by (simp add: registry_after_def)

lemma seen_buffer_last: "seen_buffer (cs @ [c]) (length cs) = fst (registry_add c (registry_after cs))"
  by (simp add: seen_buffer_def)

lemma bar_between:
  assumes "between_bars cfg decide cs st" "replay_bar cfg c (length cs) st = (b, st')"
  shows "b = seen_buffer (cs @ [c]) (length cs)" "rp_registry st' = registry_after (cs @ [c])"
    "replay_inv cfg decide (cs @ [c]) (Suc (length cs)) st'" "rp_pending st' = None"
proof -
  let ?cs = "cs @ [c]" and ?i = "length cs"
  obtain b0 reg where r: "registry_add c (rp_registry st) = (b0, reg)" by (cases "registry_add c (rp_registry st)")
  let ?st = "st\<lparr>rp_registry := reg\<rparr>"
  have b: "b = b0" and st': "st' = mark_to_market c (check_brackets cfg c ?i (fill_pending cfg c ?i ?st))"
    using assms(2) r by (simp_all add: replay_bar_def)
  show "b = seen_buffer ?cs ?i" "rp_registry st' = registry_after ?cs" "rp_pending st' = None"
    using assms(1) r by (simp_all add: b st' seen_buffer_last registry_after_snoc between_bars_def)
  have i: "replay_inv cfg decide ?cs ?i ?st" using assms(1) by (simp add: between_bars_def replay_inv_append)
  have pend: "0 < ?i \<and> decided decide ?cs (?i - 1) side" if "rp_pending ?st = Some side" for side
    using assms(1) that by (auto simp: between_bars_def decided_append)
  have idx: "bx_entry_index p < ?i" if "rp_position ?st = Some p" for p
    using assms(1) that by (auto simp: between_bars_def replay_inv_def held_def Let_def)
  have "replay_inv cfg decide ?cs ?i (fill_pending cfg (?cs ! ?i) ?i ?st) \<and>
      (\<forall>p. rp_position (fill_pending cfg (?cs ! ?i) ?i ?st) = Some p \<longrightarrow> bx_entry_index p \<le> ?i)"
    by (rule fill_pending_inv [OF i _ pend idx]) simp_all
  then have "replay_inv cfg decide ?cs (Suc ?i) (check_brackets cfg (?cs ! ?i) ?i (fill_pending cfg (?cs ! ?i) ?i ?st))"
    by (intro check_brackets_inv) auto
  then show "replay_inv cfg decide ?cs (Suc ?i) st'" by (simp add: st')
qed

lemma advance_between:
  assumes "between_bars cfg decide past st" "advance cfg decide (length past) cs d st = Inr (d', st')"
  shows "between_bars cfg decide (past @ cs) st'"
  using assms
proof (induction cs arbitrary: past d st)
  case (Cons c cs)
  obtain b st1 where b: "replay_bar cfg c (length past) st = (b, st1)" by (cases "replay_bar cfg c (length past) st")
  obtain side d1 where d: "decide d b (length past) = Inr (side, d1)"
    and a: "advance cfg decide (Suc (length past)) cs d1 (st1\<lparr>rp_pending := side\<rparr>) = Inr (d', st')"
    using Cons.prems(2) b by (auto split: sum.splits)
  note bar = bar_between [OF Cons.prems(1) b]
  have "decided decide (past @ [c]) (length past) s" if "side = Some s" for s
    using d that unfolding decided_def bar(1) by blast
  then have "between_bars cfg decide (past @ [c]) (st1\<lparr>rp_pending := side\<rparr>)"
    using bar(2,3) by (simp add: between_bars_def)
  from Cons.IH [OF this] a show ?case by simp
qed simp

lemma start_between: "between_bars cfg decide [] (start_replay cfg)"
  by (simp add: between_bars_def replay_inv_def start_replay_def registry_after_def)

lemma replay_ends:
  assumes "replay cfg decide 0 cs d (start_replay cfg) = Inr (d', st)"
  shows "replay_inv cfg decide cs (length cs) st"
proof (cases cs rule: rev_cases)
  case (snoc ys y)
  with assms obtain d1 st1 where a: "advance cfg decide 0 ys d (start_replay cfg) = Inr (d1, st1)"
    and l: "st = snd (replay_bar cfg y (length ys) st1)"
    by (auto simp: replay_last split: sum.splits prod.splits)
  have "between_bars cfg decide ys st1" using advance_between [OF start_between, of cfg decide ys d] a by simp
  from bar_between(3) [OF this prod.collapse [symmetric]] show ?thesis by (simp add: l snoc)
next
  case Nil
  then show ?thesis using assms start_between [of cfg decide] by (simp add: between_bars_def)
qed

text \<open>What a finished run holds: a curve as long as the candles that ends in the realized equity.\<close>

lemma run_ends:
  assumes "run_with_decider cs cfg decide d = Inr (r, d')" "cs \<noteq> []"
  shows "(\<forall>t\<in>set (run_trades r). trade_justified cfg decide cs t) \<and> run_curve r \<noteq> [] \<and> length (run_curve r) = length cs \<and>
    ep_equity (last (run_curve r)) = foldl fadd (bc_initial_balance cfg) (map bt_pnl_usd (run_trades r)) \<and>
    \<not> ep_in_market (last (run_curve r))"
proof -
  obtain st where rp: "replay cfg decide 0 cs d (start_replay cfg) = Inr (d', st)"
    and r: "run_curve r = rp_curve (close_residual cfg cs st)" "run_trades r = rp_trades (close_residual cfg cs st)"
    using assms(1) by (auto simp: run_with_decider_def Let_def split: sum.splits prod.splits)
  have inv: "replay_inv cfg decide cs (length cs) st" using replay_ends [OF rp] .
  obtain ys y where cs: "cs = ys @ [y]" using assms(2) by (cases cs rule: rev_cases) auto
  obtain d1 st1 where "st = snd (replay_bar cfg y (length ys) st1)"
    using rp by (auto simp: cs replay_last split: sum.splits prod.splits)
  then have last: "\<exists>qs q. rp_curve st = qs @ [q] \<and>
      (rp_position st = None \<longrightarrow> ep_equity q = rp_realized st \<and> \<not> ep_in_market q)"
    by (auto simp: replay_bar_def mark_to_market_def Let_def split: prod.splits option.splits)
  have len: "length (rp_curve st) = length cs" using extends_replay [OF rp] by (auto simp: extends_def start_replay_def)
  show ?thesis
  proof (cases "rp_position st")
    case None
    then show ?thesis using last len inv assms(2) by (auto simp: r close_residual_def replay_inv_def)
  next
    case (Some p)
    have k: "Suc (length cs - 1) = length cs" "cs ! (length cs - 1) = last cs" using assms(2) by (simp_all add: last_conv_nth)
    have h: "held cfg decide cs (length cs) p" using inv Some by (simp add: replay_inv_def)
    then have j: "held cfg decide cs (length cs - 1) p" "bx_entry_index p \<le> length cs - 1" by (auto simp: held_def Let_def)
    have "bx_entry_index p \<le> length cs - 1 \<and> length cs - 1 < length cs" using j(2) assms(2) by simp
    with h have "untouched cfg p (last cs)" unfolding k(2) [symmetric] held_def Let_def by blast
    with j have "trade_justified cfg decide cs (closed_trade cfg p (fl (oc_close (last cs))) (oc_timestamp (last cs)) (length cs - 1) Eod)"
      unfolding trade_justified_def using k
      by (intro exI [of _ p] exI [of _ "length cs - 1"] exI [of _ "fl (oc_close (last cs))"]) (simp add: exit_justified_def)
    then show ?thesis using Some last len inv assms(2)
      by (auto simp: r close_residual_def close_with_def replay_inv_def Let_def)
  qed
qed

subsection \<open>Properties\<close>

definition demo_decider :: "nat decider" where
  "demo_decider d b i = Inr (if d = 0 then Some BUY else None, Suc d)"

lemma demo_decides: "\<not> isl (demo_decider d b i)"
  by (simp add: demo_decider_def)

definition demo_bars :: "candle list" where
  "demo_bars = [mk_candle ''BTC/USDT'' 60 64000, (mk_candle ''BTC/USDT'' 120 64000)\<lparr>oc_low := 60000\<rparr>]"

definition demo_config :: backtest_config where
  "demo_config = default_backtest_config\<lparr>bc_initial_balance := 8192, bc_fee_pct := 1 / 1024, bc_slippage_pct := 1 / 2048,
     bc_stop_loss_pct := 1 / 32, bc_take_profit_pct := 1 / 16, bc_max_position_pct := 1 / 64\<rparr>"

definition demo_run :: backtest_run where
  "demo_run = fst (projr (run_with_decider demo_bars demo_config demo_decider 0))"

lemma demo_runs: "\<exists>d'. run_with_decider demo_bars demo_config demo_decider 0 = Inr (demo_run, d')"
proof -
  obtain r d' where "run_with_decider demo_bars demo_config demo_decider 0 = Inr (r, d')"
    using run_total [of demo_decider] by (metis demo_decides)
  then show ?thesis by (simp add: demo_run_def)
qed

text \<open>The backtest does not look ahead. Two histories that begin with the same bars have, over
  those bars, the same equity curve, and every trade that ended on them is the same in both; whatever
  the runs differ in ends later. This holds for every decision callback that reads only what the
  engine passes it.\<close>

theorem backtest_no_lookahead:
  assumes "run_with_decider (past @ fut1) cfg decide d = Inr (r1, d1)" "run_with_decider (past @ fut2) cfg decide d = Inr (r2, d2)"
    and "fut1 \<noteq> []" "fut2 \<noteq> []"
  shows "take (length past) (run_curve r1) = take (length past) (run_curve r2) \<and>
    (\<exists>ts us vs. run_trades r1 = ts @ us \<and> run_trades r2 = ts @ vs \<and>
      (\<forall>t\<in>set us. bt_exit_time t \<in> oc_timestamp ` set fut1) \<and> (\<forall>t\<in>set vs. bt_exit_time t \<in> oc_timestamp ` set fut2))"
  by (rule run_past [OF assms(1,3)], rule run_past [OF assms(2,4)]) auto

theorem backtest_no_lookahead_witness:
  "\<exists>r d'. run_with_decider (take 1 demo_bars @ [mk_candle ''BTC/USDT'' 120 70000]) demo_config demo_decider 0 = Inr (r, d') \<and>
    take 1 (run_curve r) = take 1 (run_curve demo_run)"
proof -
  obtain r d1 where r: "run_with_decider (take 1 demo_bars @ [mk_candle ''BTC/USDT'' 120 70000]) demo_config demo_decider 0 = Inr (r, d1)"
    using run_total [of demo_decider] by (metis demo_decides)
  have s: "take 1 demo_bars @ drop 1 demo_bars = demo_bars" "length (take 1 demo_bars) = 1" "drop 1 demo_bars \<noteq> []"
    by (simp_all add: demo_bars_def)
  obtain d2 where "run_with_decider demo_bars demo_config demo_decider 0 = Inr (demo_run, d2)" using demo_runs by blast
  then have "take (length (take 1 demo_bars)) (run_curve r) = take (length (take 1 demo_bars)) (run_curve demo_run)"
    using backtest_no_lookahead [OF r, of "drop 1 demo_bars" demo_run d2] s by simp
  then show ?thesis using r unfolding s(2) by blast
qed

text \<open>C10: every trade of a backtest is justified by the candles: it was decided at the close of one bar
  from the candles up to it, entered at the next bar's open with adverse slippage, touched neither
  bracket on any bar before its exit, and left for the reason it states: the stop level on the first
  bar that reaches it (the stop before the target when one bar reaches both), the target, the open
  after an opposite decision, or the last close.\<close>

theorem backtest_trades_justified:
  assumes "run_with_decider cs cfg decide d = Inr (r, d')" "t \<in> set (run_trades r)"
  shows "trade_justified cfg decide cs t"
proof (cases "cs = []")
  case True
  then show ?thesis using assms by (auto simp: run_with_decider_def start_replay_def close_residual_def Let_def)
next
  case False
  then show ?thesis using run_ends [OF assms(1)] assms(2) by blast
qed

theorem backtest_trades_justified_witness:
  "\<exists>t. run_trades demo_run = [t] \<and> bt_exit_reason t = Stop_loss \<and> trade_justified demo_config demo_decider demo_bars t"
proof -
  have "map bt_exit_reason (run_trades demo_run) = [Stop_loss]" by code_simp
  then obtain t where t: "run_trades demo_run = [t]" "bt_exit_reason t = Stop_loss" by auto
  then show ?thesis using demo_runs backtest_trades_justified [of demo_bars demo_config demo_decider 0 demo_run _ t]
    by auto
qed

text \<open>C19: the books of a backtest balance: the curve has one point per bar, it ends flat, and the final
  equity is the initial balance plus the profit and loss of the trades, added in order.\<close>

theorem backtest_equity_is_pnl:
  assumes "run_with_decider cs cfg decide d = Inr (r, d')" "cs \<noteq> []"
  shows "length (run_curve r) = length cs \<and> \<not> ep_in_market (last (run_curve r)) \<and>
    ep_equity (last (run_curve r)) = foldl fadd (bc_initial_balance cfg) (map bt_pnl_usd (run_trades r))"
  using run_ends [OF assms] by blast

theorem backtest_equity_is_pnl_witness:
  "ep_equity (last (run_curve demo_run)) = foldl fadd 8192 (map bt_pnl_usd (run_trades demo_run))"
proof -
  have "demo_bars \<noteq> []" by (simp add: demo_bars_def)
  then show ?thesis using demo_runs backtest_equity_is_pnl [of demo_bars demo_config demo_decider 0 demo_run]
    by (auto simp: demo_config_def)
qed

end
