(* ===== verification/Walk_Forward.thy ===== *)
theory Walk_Forward
  imports ML_Training Backtest_Engine
begin

text \<open>
  The walk-forward strategy (\<open>backtest/walkforward.py\<close>): a model retrained on an expanding window while
  the engine replays. It computes features and labels of the whole history at the start, so unlike the
  rule-based strategy it has the future at hand; the training cut-off must keep it away from it.

  Proved here: it does, for any learner: what the strategy decides at a bar is a function of the
  candles up to that bar, so its backtest does not look ahead either.
\<close>

record wf_params =
  wf_horizon :: int
  wf_threshold :: rat
  wf_initial_train :: int
  wf_retrain_every :: int
  wf_min_train_samples :: int
  wf_directional_threshold :: rat
  wf_calibrate :: bool

definition default_wf_params :: wf_params where
  "default_wf_params = \<lparr>wf_horizon = 10, wf_threshold = fl (1 / 100), wf_initial_train = 200, wf_retrain_every = 30,
     wf_min_train_samples = 120, wf_directional_threshold = fl (40 / 100), wf_calibrate = False\<rparr>"

record 'm wf_state =
  wm_model :: "'m option"
  wm_last_train :: int
  wm_retrains :: int

definition start_wf :: "'m wf_state" where
  "start_wf = \<lparr>wm_model = None, wm_last_train = - (10 ^ 9), wm_retrains = 0\<rparr>"

record wf_data =
  wd_rows :: "rat list list"
  wd_labels :: series

definition wf_data_of :: "numpy \<Rightarrow> math_lib \<Rightarrow> label_generator \<Rightarrow> candle list \<Rightarrow> wf_data" where
  "wf_data_of np ml g cs = (let b = to_arrays cs in
     \<lparr>wd_rows = build_feature_matrix np ml b, wd_labels = generate_labels g (ba_closes b)\<rparr>)"

definition row_for_bar :: "wf_data \<Rightarrow> nat \<Rightarrow> nat option" where
  "row_for_bar d bar = (let r = int bar - int FIRST_ROW in
     if 0 \<le> r \<and> r < int (length (wd_rows d)) then Some (nat r) else None)"

text \<open>The samples whose label window has closed by bar \<open>i\<close>; labels that are NaN are masked out.\<close>

definition training_window :: "wf_params \<Rightarrow> wf_data \<Rightarrow> nat \<Rightarrow> (rat list \<times> rat) list option" where
  "training_window pm d i =
    (let b_max = int i - wf_horizon pm; last_row = b_max - int FIRST_ROW in
     if last_row < 0 then None
     else Some (map (\<lambda>(x, y). (x, the y)) (filter (\<lambda>(x, y). y \<noteq> None)
       (zip (take (nat (last_row + 1)) (wd_rows d)) (drop FIRST_ROW (take (nat (b_max + 1)) (wd_labels d)))))))"

definition class_weights :: "nat list \<Rightarrow> rat list" where
  "class_weights ys = map (\<lambda>c. fdiv (of_nat (length ys)) (fmul 3 (of_nat (length (filter (\<lambda>z. z = c) ys))))) ys"

definition fit_model :: "'m learner \<Rightarrow> wf_params \<Rightarrow> rat list list \<Rightarrow> nat list \<Rightarrow> error + 'm" where
  "fit_model le pm X ys = (let w = class_weights ys in
     case le_fit le X ys w of Inl e \<Rightarrow> Inl e
     | Inr m \<Rightarrow> Inr (if wf_calibrate pm \<and> 200 \<le> length X
         then let cut = split_at (length X) in
           (case le_fit le (take cut X) (take cut ys) (take cut w) of Inl e \<Rightarrow> m
            | Inr base \<Rightarrow> (case le_calibrate le base (drop cut X) (drop cut ys) of Inl e \<Rightarrow> m | Inr cal \<Rightarrow> cal))
         else m))"

definition maybe_retrain :: "'m learner \<Rightarrow> wf_params \<Rightarrow> wf_data \<Rightarrow> nat \<Rightarrow> 'm wf_state \<Rightarrow> error + 'm wf_state" where
  "maybe_retrain le pm d i st =
    (if wm_model st \<noteq> None \<and> int i - wm_last_train st < wf_retrain_every pm then Inr st
     else case training_window pm d i of None \<Rightarrow> Inr st
     | Some samples \<Rightarrow>
       if int (length samples) < wf_min_train_samples pm then Inr st
       else case classes_of (map snd samples) of Inl e \<Rightarrow> Inl e
       | Inr ys \<Rightarrow> if length (remdups ys) < 2 then Inr st
         else case fit_model le pm (map fst samples) ys of Inl e \<Rightarrow> Inl e
         | Inr m \<Rightarrow> Inr (st\<lparr>wm_model := Some m, wm_last_train := int i, wm_retrains := wm_retrains st + 1\<rparr>))"

definition argmax :: "rat list \<Rightarrow> nat" where
  "argmax xs = length (takeWhile (\<lambda>x. x < Max (set xs)) xs)"

definition side_of_class :: "rat \<Rightarrow> rat list \<Rightarrow> order_side option" where
  "side_of_class threshold proba = (let cls = argmax proba in
     if proba ! cls < threshold then None
     else if cls = 2 then Some BUY else if cls = 0 then Some SELL else None)"

definition wf_decide :: "'m learner \<Rightarrow> wf_params \<Rightarrow> wf_data \<Rightarrow> 'm wf_state decider" where
  "wf_decide le pm d = (\<lambda>st b i.
     if int i < wf_initial_train pm then Inr (None, st)
     else case maybe_retrain le pm d i st of Inl e \<Rightarrow> Inl e
     | Inr st1 \<Rightarrow> (case wm_model st1 of None \<Rightarrow> Inr (None, st1)
        | Some m \<Rightarrow> (case row_for_bar d i of None \<Rightarrow> Inr (None, st1)
           | Some r \<Rightarrow> Inr (side_of_class (wf_directional_threshold pm) (le_predict_proba le m (wd_rows d ! r)), st1))))"

definition run_walkforward ::
  "numpy \<Rightarrow> math_lib \<Rightarrow> 'm learner \<Rightarrow> candle list \<Rightarrow> backtest_config \<Rightarrow> wf_params \<Rightarrow> error + (backtest_run \<times> 'm wf_state)" where
  "run_walkforward np ml le cs cfg pm = (case new_label_generator (wf_horizon pm) (wf_threshold pm) of
     Inl e \<Rightarrow> Inl e
   | Inr g \<Rightarrow> run_with_decider cs cfg (wf_decide le pm (wf_data_of np ml g cs)) start_wf)"

subsection \<open>The decision of a bar reads only the candles up to it\<close>

lemma advance_cong:
  assumes "\<And>k d b. i \<le> k \<Longrightarrow> k < i + length cs \<Longrightarrow> decide d b k = decide' d b k"
  shows "advance cfg decide i cs d st = advance cfg decide' i cs d st"
  using assms
proof (induction cs arbitrary: i d st)
  case (Cons c cs)
  have "advance cfg decide (Suc i) cs d st = advance cfg decide' (Suc i) cs d st" for d st
    by (rule Cons.IH) (use Cons.prems in simp)
  moreover have "decide d b i = decide' d b i" for b using Cons.prems by simp
  ultimately show ?case by (auto split: prod.split sum.split)
qed simp

text \<open>Two deciders that agree on the first bars give runs that agree there.\<close>

lemma runs_agree:
  assumes "run_with_decider (past @ fut1) cfg decide d = Inr (r1, d1)" "run_with_decider (past @ fut2) cfg decide' d = Inr (r2, d2)"
    and "fut1 \<noteq> []" "fut2 \<noteq> []" "\<And>k d b. k < length past \<Longrightarrow> decide d b k = decide' d b k"
  shows "take (length past) (run_curve r1) = take (length past) (run_curve r2) \<and>
    (\<exists>ts us vs. run_trades r1 = ts @ us \<and> run_trades r2 = ts @ vs \<and>
      (\<forall>t\<in>set us. bt_exit_time t \<in> oc_timestamp ` set fut1) \<and> (\<forall>t\<in>set vs. bt_exit_time t \<in> oc_timestamp ` set fut2))"
proof -
  have "advance cfg decide 0 past d (start_replay cfg) = advance cfg decide' 0 past d (start_replay cfg)"
    by (rule advance_cong) (use assms(5) in simp)
  then show ?thesis by - (rule run_past [OF assms(1,3)], rule run_past [OF assms(2,4)], auto)
qed

lemma rows_of_prefix:
  assumes "i < m" "m \<le> length cs"
  shows "take (Suc i - 59) (wd_rows (wf_data_of np ml g (take m cs))) = take (Suc i - 59) (wd_rows (wf_data_of np ml g cs))"
proof -
  have "take (Suc i - 59) [59..<n] = [59..<Suc i]" if "i < n" for n
    using that by (cases "59 \<le> Suc i") simp_all
  moreover have "map (bar_row np ml (to_arrays (take m cs))) [59..<Suc i] = map (bar_row np ml (to_arrays cs)) [59..<Suc i]"
    by (rule map_cong) (use assms row_of_prefix [of _ m cs np ml] in auto)
  ultimately show ?thesis using assms
    by (simp add: wf_data_of_def matrix_rows take_map min_absorb2 Let_def del: take_upt upt_Suc map_eq_conv)
qed

lemma labels_of_prefix:
  assumes "1 \<le> lg_horizon g" "b + nat (lg_horizon g) \<le> i" "i < m" "m \<le> length cs"
  shows "take (Suc b) (wd_labels (wf_data_of np ml g (take m cs))) = take (Suc b) (wd_labels (wf_data_of np ml g cs))"
proof (rule nth_equalityI)
  fix k assume "k < length (take (Suc b) (wd_labels (wf_data_of np ml g (take m cs))))"
  then have "k < Suc b" "k + nat (lg_horizon g) < m" using assms by (auto simp: wf_data_of_def Let_def to_arrays_take take_bars_def)
  then show "take (Suc b) (wd_labels (wf_data_of np ml g (take m cs))) ! k = take (Suc b) (wd_labels (wf_data_of np ml g cs)) ! k"
    using labels_take [of g k m "ba_closes (to_arrays cs)"] assms
    by (simp add: wf_data_of_def Let_def to_arrays_take take_bars_def)
qed (use assms in \<open>simp add: wf_data_of_def Let_def to_arrays_take take_bars_def min_def\<close>)

lemma window_of_prefix:
  assumes "lg_horizon g = wf_horizon pm" "1 \<le> wf_horizon pm" "i < m" "m \<le> length cs"
  shows "training_window pm (wf_data_of np ml g (take m cs)) i = training_window pm (wf_data_of np ml g cs) i"
proof (cases "int i - wf_horizon pm - int FIRST_ROW < 0")
  case False
  define b where "b = nat (int i - wf_horizon pm)"
  have b: "nat (int i - wf_horizon pm + 1) = Suc b" "nat (int i - wf_horizon pm - int FIRST_ROW + 1) = Suc b - 59"
    "b + nat (lg_horizon g) \<le> i" "b < i" "59 \<le> b"
    using False assms(1,2) by (auto simp: b_def FIRST_ROW_def MIN_BARS_REQUIRED_def)
  have "b < m" using b(4) assms(3) by simp
  then show ?thesis
    using rows_of_prefix [OF _ assms(4), of b np ml g] labels_of_prefix [OF _ b(3) assms(3,4), of np ml] assms(1,2)
    by (simp add: training_window_def b(1,2) Let_def)
qed (simp add: training_window_def Let_def)

lemma row_for_bar_of_prefix:
  assumes "i < m" "m \<le> length cs"
  shows "map_option ((!) (wd_rows (wf_data_of np ml g (take m cs)))) (row_for_bar (wf_data_of np ml g (take m cs)) i) =
    map_option ((!) (wd_rows (wf_data_of np ml g cs))) (row_for_bar (wf_data_of np ml g cs) i)"
proof -
  have "59 + nat (int i - 59) = i" if "59 \<le> i" using that by simp
  then show ?thesis using assms row_of_prefix [OF assms, of np ml]
    by (auto simp: row_for_bar_def wf_data_of_def matrix_rows Let_def FIRST_ROW_def MIN_BARS_REQUIRED_def simp del: nat_diff_distrib')
qed

lemma wf_decide_of_prefix:
  assumes "lg_horizon g = wf_horizon pm" "1 \<le> wf_horizon pm" "i < m" "m \<le> length cs"
  shows "wf_decide le pm (wf_data_of np ml g (take m cs)) st b i = wf_decide le pm (wf_data_of np ml g cs) st b i"
proof -
  have "maybe_retrain le pm (wf_data_of np ml g (take m cs)) i st = maybe_retrain le pm (wf_data_of np ml g cs) i st"
    by (simp add: maybe_retrain_def window_of_prefix [OF assms])
  then show ?thesis using row_for_bar_of_prefix [OF assms(3,4), of np ml g]
    by (auto simp: wf_decide_def split: sum.split option.splits)
qed

subsection \<open>Properties\<close>

text \<open>C4: the walk-forward backtest does not look ahead, although it computes the features and labels of
  the whole history before it starts: whatever the learner, two histories that begin with the same
  bars give the same equity curve and the same finished trades over those bars.\<close>

theorem walkforward_no_lookahead:
  assumes "run_walkforward np ml le (past @ fut1) cfg pm = Inr (r1, s1)" "run_walkforward np ml le (past @ fut2) cfg pm = Inr (r2, s2)"
    and "fut1 \<noteq> []" "fut2 \<noteq> []"
  shows "take (length past) (run_curve r1) = take (length past) (run_curve r2) \<and>
    (\<exists>ts us vs. run_trades r1 = ts @ us \<and> run_trades r2 = ts @ vs \<and>
      (\<forall>t\<in>set us. bt_exit_time t \<in> oc_timestamp ` set fut1) \<and> (\<forall>t\<in>set vs. bt_exit_time t \<in> oc_timestamp ` set fut2))"
proof -
  obtain g where g: "new_label_generator (wf_horizon pm) (wf_threshold pm) = Inr g"
    using assms(1) by (auto simp: run_walkforward_def split: sum.splits)
  then have h: "lg_horizon g = wf_horizon pm" "1 \<le> wf_horizon pm"
    by (auto simp: new_label_generator_def split: if_splits)
  show ?thesis
  proof (rule runs_agree [OF _ _ assms(3,4)])
    show "run_with_decider (past @ fut1) cfg (wf_decide le pm (wf_data_of np ml g (past @ fut1))) start_wf = Inr (r1, s1)"
      "run_with_decider (past @ fut2) cfg (wf_decide le pm (wf_data_of np ml g (past @ fut2))) start_wf = Inr (r2, s2)"
      using assms(1,2) g by (simp_all add: run_walkforward_def)
    fix k d b assume k: "k < length past"
    have "wf_decide le pm (wf_data_of np ml g (past @ fut)) d b k = wf_decide le pm (wf_data_of np ml g past) d b k" for fut
      using wf_decide_of_prefix [OF h k, of "past @ fut" le np ml d b] by simp
    then show "wf_decide le pm (wf_data_of np ml g (past @ fut1)) d b k = wf_decide le pm (wf_data_of np ml g (past @ fut2)) d b k"
      by simp
  qed
qed

text \<open>A learner that always fits, and predicts a rise.\<close>

definition demo_learner :: "unit learner" where
  "demo_learner = \<lparr>le_fit = (\<lambda>X y w. Inr ()), le_fit_early = (\<lambda>X y w e. Inr ()), le_calibrate = (\<lambda>m X y. Inr m),
     le_predict_proba = (\<lambda>m x. [0, 0, 1]), le_predict = (\<lambda>m x. 2)\<rparr>"

theorem walkforward_no_lookahead_witness:
  "\<exists>r1 r2. take 2 (run_curve r1) = take 2 (run_curve r2) \<and>
    (\<exists>s1. run_walkforward demo_numpy \<lparr>ml_log = id, ml_sin = id, ml_cos = id\<rparr> demo_learner
       (map (\<lambda>t. mk_candle ''BTC/USDT'' t 64000) [1, 2, 3]) default_backtest_config default_wf_params = Inr (r1, s1)) \<and>
    (\<exists>s2. run_walkforward demo_numpy \<lparr>ml_log = id, ml_sin = id, ml_cos = id\<rparr> demo_learner
       (map (\<lambda>t. mk_candle ''BTC/USDT'' t 64000) [1, 2, 7]) default_backtest_config default_wf_params = Inr (r2, s2))"
proof -
  let ?past = "map (\<lambda>t. mk_candle ''BTC/USDT'' t 64000) [1, 2]"
  let ?run = "\<lambda>cs. run_walkforward demo_numpy \<lparr>ml_log = id, ml_sin = id, ml_cos = id\<rparr> demo_learner cs default_backtest_config default_wf_params"
  have "\<not> isl (wf_decide demo_learner default_wf_params d st b i)" if "length (wd_labels d) \<le> 3" for d st b i
  proof -
    have "maybe_retrain demo_learner default_wf_params d i st = Inr st \<or>
        (\<exists>samples. training_window default_wf_params d i = Some samples \<and> 120 \<le> int (length samples))"
      by (auto simp: maybe_retrain_def default_wf_params_def split: option.split)
    moreover have "length samples \<le> 3" if "training_window default_wf_params d i = Some samples" for samples
    proof -
      have "length samples \<le> length (wd_labels d)"
        using that by (auto simp: training_window_def Let_def split: if_splits) (rule order_trans [OF length_filter_le], simp)
      then show ?thesis using \<open>length (wd_labels d) \<le> 3\<close> by simp
    qed
    ultimately have "maybe_retrain demo_learner default_wf_params d i st = Inr st" by fastforce
    then show ?thesis by (auto simp: wf_decide_def split: option.split)
  qed
  moreover have g: "new_label_generator (wf_horizon default_wf_params) (wf_threshold default_wf_params) =
      Inr \<lparr>lg_horizon = 10, lg_threshold = fl (1 / 100)\<rparr>" by code_simp
  ultimately have total: "\<exists>r s. ?run cs = Inr (r, s)" if "length cs \<le> 3" for cs
    using that run_total [of "wf_decide demo_learner default_wf_params (wf_data_of demo_numpy \<lparr>ml_log = id, ml_sin = id, ml_cos = id\<rparr>
        \<lparr>lg_horizon = 10, lg_threshold = fl (1 / 100)\<rparr> cs)" cs default_backtest_config start_wf]
    by (simp add: run_walkforward_def wf_data_of_def Let_def)
  obtain r1 s1 where r1: "?run (?past @ [mk_candle ''BTC/USDT'' 3 64000]) = Inr (r1, s1)"
    using total [of "?past @ [mk_candle ''BTC/USDT'' 3 64000]"] by auto
  obtain r2 s2 where r2: "?run (?past @ [mk_candle ''BTC/USDT'' 7 64000]) = Inr (r2, s2)"
    using total [of "?past @ [mk_candle ''BTC/USDT'' 7 64000]"] by auto
  have "take 2 (run_curve r1) = take 2 (run_curve r2)"
    using walkforward_no_lookahead [OF r1 r2] by (simp add: numeral_2_eq_2)
  then show ?thesis using r1 r2 by auto
qed

end
