(* ===== verification/ML_Signals.thy ===== *)
theory ML_Signals
  imports ML_Training
begin

text \<open>
  The signal generator over a trained model (\<open>agents/technical_analysis/ml/ml_signal_generator.py\<close>): loading
  a model with its sidecar files, and turning class probabilities into a signal. The files and the
  model are parameters: what loading the model and parsing each sidecar gives, and what the
  model predicts. The optional training accuracy of the metrics is a metadata value.

  Proved here: what an emitted signal guarantees, and that a model that says HOLD may still emit a
  direction.
\<close>

definition feature_names :: "string list" where
  "feature_names = [''returns_1'', ''returns_3'', ''returns_5'', ''returns_10'', ''returns_20'', ''log_return_1'',
     ''high_low_ratio'', ''close_position'', ''volume_ratio_5'', ''volume_ratio_20'', ''volume_trend'', ''rsi_14'', ''rsi_7'',
     ''macd_hist'', ''macd_signal_cross'', ''atr_14_pct'', ''bb_width'', ''bb_pct_b'', ''ema_9_dist'', ''ema_21_dist'',
     ''ema_50_dist'', ''ema_cross_9_21'', ''trend_strength'', ''candle_body'', ''upper_wick'', ''lower_wick'', ''hour_sin'',
     ''hour_cos'', ''day_of_week_sin'', ''day_of_week_cos'']"

definition CLASS_NAMES :: "string list" where
  "CLASS_NAMES = [''SELL'', ''HOLD'', ''BUY'']"

subsection \<open>Loading\<close>

record model_metrics =
  mm_accuracy :: "meta_value option"
  mm_top_features :: "string option list"  \<comment> \<open>the \<open>feature\<close> entries of \<open>top_features\<close>\<close>

record 'm model_files =
  mf_model_exists :: bool
  mf_model :: "error + 'm"
  mf_features :: "(error + string list) option"
  mf_metrics :: "(error + model_metrics) option"

record 'm ml_generator =
  mg_model_path :: string
  mg_model :: "'m option"
  mg_feature_names :: "string list"
  mg_metrics :: model_metrics
  mg_top_features :: "string list"
  mg_loaded :: bool

definition empty_metrics :: model_metrics where
  "empty_metrics = \<lparr>mm_accuracy = None, mm_top_features = []\<rparr>"

definition unloaded :: "string \<Rightarrow> 'm ml_generator" where
  "unloaded path = \<lparr>mg_model_path = path, mg_model = None, mg_feature_names = [], mg_metrics = empty_metrics,
     mg_top_features = [], mg_loaded = False\<rparr>"

definition failed_load :: "'m ml_generator \<Rightarrow> 'm ml_generator" where
  "failed_load g = g\<lparr>mg_loaded := False, mg_model := None\<rparr>"

definition load_model :: "'m model_files \<Rightarrow> 'm ml_generator \<Rightarrow> 'm ml_generator" where
  "load_model fs g =
    (if \<not> mf_model_exists fs then g
     else case mf_model fs of Inl e \<Rightarrow> failed_load g
     | Inr m \<Rightarrow>
       (case mf_features fs of Some (Inl e) \<Rightarrow> failed_load (g\<lparr>mg_model := Some m\<rparr>)
        | names \<Rightarrow>
          let g1 = (g\<lparr>mg_model := Some m\<rparr>)\<lparr>mg_feature_names := (case names of Some (Inr ns) \<Rightarrow> ns | _ \<Rightarrow> mg_feature_names g)\<rparr> in
          (case mf_metrics fs of Some (Inl e) \<Rightarrow> failed_load g1
           | metrics \<Rightarrow>
             let ms = (case metrics of Some (Inr ms) \<Rightarrow> ms | _ \<Rightarrow> mg_metrics g) in
             g1\<lparr>mg_metrics := ms, mg_loaded := True,
               mg_top_features := map (\<lambda>t. case t of None \<Rightarrow> ''?'' | Some n \<Rightarrow> n) (take 3 (mm_top_features ms))\<rparr>)))"

definition new_ml_generator :: "'m model_files \<Rightarrow> string \<Rightarrow> 'm ml_generator" where
  "new_ml_generator fs path = load_model fs (unloaded path)"

fun first_diff_from :: "nat \<Rightarrow> string list \<Rightarrow> string list \<Rightarrow> nat option" where
  "first_diff_from i (x # xs) (y # ys) = (if x \<noteq> y then Some i else first_diff_from (Suc i) xs ys)"
| "first_diff_from i [] [] = None"
| "first_diff_from i [] ys = Some i"
| "first_diff_from i xs [] = Some i"

definition first_diff :: "string list \<Rightarrow> string list \<Rightarrow> nat option" where
  "first_diff a b = first_diff_from 0 a b"

definition is_loaded :: "'m ml_generator \<Rightarrow> bool" where
  "is_loaded g \<longleftrightarrow> mg_loaded g \<and> mg_model g \<noteq> None"

subsection \<open>Generating\<close>

fun index_of :: "'a \<Rightarrow> 'a list \<Rightarrow> nat option" where
  "index_of x [] = None"
| "index_of x (y # ys) = (if x = y then Some 0 else map_option Suc (index_of x ys))"

definition ema_50_distance :: "'m ml_generator \<Rightarrow> rat list \<Rightarrow> error + rat" where
  "ema_50_distance g features =
    (case index_of ''ema_50_dist'' (if mg_feature_names g = [] then feature_names else mg_feature_names g) of
       None \<Rightarrow> Inr 0
     | Some i \<Rightarrow> if i < length features then Inr (features ! i) else Inl Index_error)"

definition DIRECTIONAL_THRESHOLD :: rat where "DIRECTIONAL_THRESHOLD = fl (35 / 100)"

definition ml_direction :: "rat \<Rightarrow> rat \<Rightarrow> signal_direction \<times> rat" where
  "ml_direction p_sell p_buy =
    (if p_buy \<ge> DIRECTIONAL_THRESHOLD \<and> p_buy > p_sell then (BUY_DIR, p_buy)
     else if p_sell \<ge> DIRECTIONAL_THRESHOLD \<and> p_sell > p_buy then (SELL_DIR, p_sell)
     else (NEUTRAL, max p_buy p_sell))"

definition first_argmax :: "rat list \<Rightarrow> nat" where
  "first_argmax xs = length (takeWhile (\<lambda>x. x < Max (set xs)) xs)"

definition ml_metadata :: "'m ml_generator \<Rightarrow> rat list \<Rightarrow> rat \<Rightarrow> (string, meta_value) dict" where
  "ml_metadata g proba away =
    [(''model'', Meta_text ''xgboost''), (''model_path'', Meta_text (mg_model_path g)),
     (''p_buy'', Meta_num (fround 4 (proba ! 2))), (''p_sell'', Meta_num (fround 4 (proba ! 0))),
     (''p_hold'', Meta_num (fround 4 (proba ! 1))),
     (''top_features'', Meta_list (map Meta_text (mg_top_features g))),
     (''argmax_class'', Meta_text (CLASS_NAMES ! first_argmax proba)),
     (''ema_50_dist'', Meta_num (fround 6 away))] @
    (case mm_accuracy (mg_metrics g) of None \<Rightarrow> [] | Some a \<Rightarrow> [(''training_accuracy'', a)])"

definition ml_generate ::
  "gen_env \<Rightarrow> numpy \<Rightarrow> math_lib \<Rightarrow> ('m \<Rightarrow> rat list \<Rightarrow> error + rat list) \<Rightarrow> ta_settings \<Rightarrow> 'm ml_generator \<Rightarrow>
     candle_buffer \<Rightarrow> error + technical_signal option" where
  "ml_generate env np ml predict cfg g b =
    (case (if mg_loaded g then mg_model g else None) of None \<Rightarrow> Inr None
     | Some m \<Rightarrow>
     case build_features np ml b of None \<Rightarrow> Inr None
     | Some features \<Rightarrow>
     case ema_50_distance g features of Inl e \<Rightarrow> Inl e
     | Inr away \<Rightarrow>
     case predict m features of Inl e \<Rightarrow> Inr None
     | Inr proba \<Rightarrow>
     if length proba \<noteq> 3 then Inr None
     else case ml_direction (proba ! 0) (proba ! 2) of (direction, confidence) \<Rightarrow>
     if confidence < ta_min_signal_confidence cfg then Inr None
     else case new_technical_signal \<lparr>ts_signal_id = ge_signal_id env, ts_source = ML_SOURCE, ts_symbol = cb_symbol b,
         ts_timeframe = cb_timeframe b, ts_timestamp = ge_stamp env,
         ts_expires_at = ge_expiry_now env + ta_signal_ttl_seconds cfg * 10 ^ 6,
         ts_direction = direction, ts_confidence = fround 4 confidence, ts_indicators = [],
         ts_price = (case latest_close b of None \<Rightarrow> 0 | Some p \<Rightarrow> p), ts_price_change_1h_pct = None,
         ts_metadata = ml_metadata g proba away\<rparr> of
       Inl e \<Rightarrow> Inl e | Inr s \<Rightarrow> Inr (Some s))"

subsection \<open>Properties\<close>

lemma ml_generate_Some:
  assumes "ml_generate env np ml predict cfg g b = Inr (Some s)"
  obtains m features away proba where "mg_loaded g" "mg_model g = Some m" "build_features np ml b = Some features"
    "ema_50_distance g features = Inr away" "predict m features = Inr proba" "length proba = 3"
    "ts_direction s = fst (ml_direction (proba ! 0) (proba ! 2))"
    "ts_confidence s = fround 4 (snd (ml_direction (proba ! 0) (proba ! 2)))"
    "ta_min_signal_confidence cfg \<le> snd (ml_direction (proba ! 0) (proba ! 2))"
    "0 \<le> ts_confidence s" "ts_confidence s \<le> 1" "ts_source s = ML_SOURCE" "ts_symbol s = cb_symbol b"
    "ts_metadata s = ml_metadata g proba away"
proof -
  obtain m where m: "mg_loaded g" "mg_model g = Some m"
    using assms by (cases "mg_loaded g"; cases "mg_model g") (simp_all add: ml_generate_def)
  obtain features where f: "build_features np ml b = Some features"
    using assms m by (cases "build_features np ml b") (simp_all add: ml_generate_def)
  obtain away where d: "ema_50_distance g features = Inr away"
    using assms m f by (cases "ema_50_distance g features") (simp_all add: ml_generate_def)
  obtain proba where p: "predict m features = Inr proba"
    using assms m f d by (cases "predict m features") (simp_all add: ml_generate_def)
  have n: "length proba = 3" using assms m f d p by (cases "length proba = 3") (simp_all add: ml_generate_def)
  obtain dir conf where dc: "ml_direction (proba ! 0) (proba ! 2) = (dir, conf)" by (cases "ml_direction (proba ! 0) (proba ! 2)")
  have c: "\<not> conf < ta_min_signal_confidence cfg"
    using assms m f d p n dc by (cases "conf < ta_min_signal_confidence cfg") (simp_all add: ml_generate_def)
  have r: "0 \<le> fround 4 conf \<and> fround 4 conf \<le> 1"
    using assms m f d p n dc c
    by (cases "0 \<le> fround 4 conf \<and> fround 4 conf \<le> 1") (auto simp: ml_generate_def new_technical_signal_def)
  show thesis
  proof (rule that)
    have "s = \<lparr>ts_signal_id = ge_signal_id env, ts_source = ML_SOURCE, ts_symbol = cb_symbol b,
         ts_timeframe = cb_timeframe b, ts_timestamp = ge_stamp env,
         ts_expires_at = ge_expiry_now env + ta_signal_ttl_seconds cfg * 10 ^ 6,
         ts_direction = dir, ts_confidence = fround 4 conf, ts_indicators = [],
         ts_price = (case latest_close b of None \<Rightarrow> 0 | Some p \<Rightarrow> p), ts_price_change_1h_pct = None,
         ts_metadata = ml_metadata g proba away\<rparr>"
      using assms m f d p n dc c r by (simp add: ml_generate_def new_technical_signal_def)
    then show "ts_direction s = fst (ml_direction (proba ! 0) (proba ! 2))"
      "ts_confidence s = fround 4 (snd (ml_direction (proba ! 0) (proba ! 2)))"
      "ta_min_signal_confidence cfg \<le> snd (ml_direction (proba ! 0) (proba ! 2))"
      "0 \<le> ts_confidence s" "ts_confidence s \<le> 1" "ts_source s = ML_SOURCE" "ts_symbol s = cb_symbol b"
      "ts_metadata s = ml_metadata g proba away"
      using dc c r by (simp_all add: not_less)
  qed (use m f d p n in simp_all)
qed

lemma feature_lengths:
  "length (price_features ml b i) = 8" "length (volume_features np b i) = 3" "length (momentum_features b s i) = 4"
  "length (volatility_features b s i) = 3" "length (trend_features b s i) = 5" "length (candle_features b i) = 3"
  "length (time_features ml t) = 4"
  by (simp_all add: price_features_def volume_features_def momentum_features_def volatility_features_def trend_features_def
    candle_features_def time_features_def Let_def split: option.split)

lemma build_features_length: "build_features np ml b = Some fs \<Longrightarrow> length fs = 30"
  by (auto simp: build_features_def features_for_index_def row_from_precomputed_def feature_lengths split: if_splits)


definition demo_ml :: "unit ml_generator" where
  "demo_ml = \<lparr>mg_model_path = ''m'', mg_model = Some (), mg_feature_names = [], mg_metrics = empty_metrics,
     mg_top_features = [], mg_loaded = True\<rparr>"

definition demo_hold :: "unit \<Rightarrow> rat list \<Rightarrow> error + rat list" where
  "demo_hold m x = Inr [1 / 8, 7 / 16, 7 / 16 - 1 / 1024]"

definition demo_ml_buffer :: candle_buffer where
  "demo_ml_buffer = (new_candle_buffer ''BTC/USDT'' ''1m'')\<lparr>cb_candles := map (\<lambda>t. mk_candle ''BTC/USDT'' t 64000) [1..60]\<rparr>"

lemma demo_ml_features: "\<exists>fs. build_features np ml demo_ml_buffer = Some fs"
  by (simp add: build_features_def features_for_index_def row_from_precomputed_def demo_ml_buffer_def buffer_size_def closes_def
    MIN_BARS_REQUIRED_def)

text \<open>The documentation says a model whose most likely class is HOLD gives a neutral signal; here it
  buys.\<close>

lemma hold_may_buy:
  "\<exists>s. ml_generate demo_gen_env np ml demo_hold (default_ta_settings\<lparr>ta_min_signal_confidence := 1 / 4\<rparr>) demo_ml demo_ml_buffer =
      Inr (Some s) \<and> ts_direction s = BUY_DIR \<and> map_of (ts_metadata s) ''argmax_class'' = Some (Meta_text ''HOLD'')"
proof -
  obtain fs where fs: "build_features np ml demo_ml_buffer = Some fs" using demo_ml_features by blast
  have "index_of ''ema_50_dist'' feature_names = Some 20" by code_simp
  then have d: "ema_50_distance demo_ml fs = Inr (fs ! 20)"
    using build_features_length [OF fs] by (simp add: ema_50_distance_def demo_ml_def)
  have n: "ml_direction (1 / 8) (7 / 16 - 1 / 1024) = (BUY_DIR, 7 / 16 - 1 / 1024)"
    "0 \<le> fround 4 (447 / 1024) \<and> fround 4 (447 / 1024) \<le> 1" "CLASS_NAMES ! first_argmax [1 / 8, 7 / 16, 447 / 1024] = ''HOLD''"
    by code_simp+
  show ?thesis using fs d n
    by (simp add: ml_generate_def demo_ml_def demo_hold_def new_technical_signal_def ml_metadata_def)
qed


end
