(* ===== verification/Model_Registry.thy ===== *)
theory Model_Registry
  imports Text_Format
begin

text \<open>
  The registry of trained models (\<open>agents/technical_analysis/ml/model_registry.py\<close>): file names, version
  numbers, the pointer to the latest model and what is read when it is missing. The models directory
  is a dict from file names to contents in the order the system lists them; a directory that does not
  exist is the empty one. Letters and digits are those of ASCII.

  Proved here: a version number is read back from its file name, so a saved model never overwrites an
  older one and is the latest afterwards, and a save that fails half-way leaves the latest model.
\<close>

type_synonym directory = "(string, string) dict"

subsection \<open>Names\<close>

definition lower :: "char \<Rightarrow> char" where
  "lower c = (let n = of_char c :: int in if 65 \<le> n \<and> n \<le> 90 then char_of (n + 32) else c)"

definition name_char :: "char \<Rightarrow> bool" where
  "name_char c \<longleftrightarrow> (let n = of_char c :: int in (97 \<le> n \<and> n \<le> 122) \<or> (48 \<le> n \<and> n \<le> 57) \<or> c = CHR ''_'')"

function collapse :: "string \<Rightarrow> string" where
  "collapse [] = []"
| "collapse (c # cs) = (if name_char c then c # collapse cs
     else CHR ''_'' # collapse (dropWhile (\<lambda>x. \<not> name_char x) cs))"
  by pat_completeness auto
termination
  by (relation "measure length") (auto simp: less_Suc_eq_le length_dropWhile_le)

definition strip_by :: "(char \<Rightarrow> bool) \<Rightarrow> string \<Rightarrow> string" where
  "strip_by p t = rev (dropWhile p (rev (dropWhile p t)))"

definition whitespace :: "char \<Rightarrow> bool" where
  "whitespace c \<longleftrightarrow> (let n = of_char c :: int in (9 \<le> n \<and> n \<le> 13) \<or> (28 \<le> n \<and> n \<le> 32))"

definition normalise :: "symbol \<Rightarrow> string \<Rightarrow> string" where
  "normalise symbol timeframe =
    strip_by (\<lambda>c. c = CHR ''_'') (collapse (map (\<lambda>c. if c = CHR ''/'' then CHR ''_'' else c) (map lower symbol))) @
    ''_'' @ map lower timeframe"

definition version_name :: "string \<Rightarrow> int \<Rightarrow> string" where
  "version_name prefix v = prefix @ ''_v'' @ digits v"

definition model_file :: "string \<Rightarrow> string" where "model_file base = base @ ''.joblib''"

text \<open>Matching \<open>^prefix_v(\d+)\.joblib$\<close>.\<close>

definition version_of :: "string \<Rightarrow> string \<Rightarrow> int option" where
  "version_of prefix name = (let p = prefix @ ''_v''; rest = drop (length p) name; k = length rest - 7 in
     if take (length p) name = p \<and> drop k rest = ''.joblib'' then read_digits (take k rest) else None)"

definition latest_pointer :: "string \<Rightarrow> string" where "latest_pointer prefix = prefix @ ''_latest''"

subsection \<open>Operations\<close>

definition next_version :: "string \<Rightarrow> directory \<Rightarrow> int" where
  "next_version prefix d = foldl max 0 (List.map_filter (version_of prefix) (map fst d)) + 1"

fun scan_best :: "string \<Rightarrow> (int \<times> string) option \<Rightarrow> string list \<Rightarrow> (int \<times> string) option" where
  "scan_best prefix best [] = best"
| "scan_best prefix best (n # ns) = scan_best prefix
     (case version_of prefix n of None \<Rightarrow> best
      | Some v \<Rightarrow> (case best of None \<Rightarrow> Some (v, n) | Some (w, _) \<Rightarrow> if v > w then Some (v, n) else best)) ns"

definition pointed :: "string \<Rightarrow> directory \<Rightarrow> string option" where
  "pointed prefix d = (case map_of d (latest_pointer prefix) of None \<Rightarrow> None
   | Some text \<Rightarrow> (let nm = model_file (strip_by whitespace text) in if map_of d nm \<noteq> None then Some nm else None))"

definition get_latest_path :: "symbol \<Rightarrow> string \<Rightarrow> directory \<Rightarrow> string option" where
  "get_latest_path symbol timeframe d = (let prefix = normalise symbol timeframe in
     case pointed prefix d of Some nm \<Rightarrow> Some nm
     | None \<Rightarrow> map_option snd (scan_best prefix None (map fst d)))"

text \<open>The four writes of a save, in order; \<open>fail\<close> is the write that raises, with what it has left of its
  file (nothing, when opening it failed; else a truncated or partial content) and its error.\<close>

type_synonym write_failure = "nat \<times> string option \<times> error"

definition attempted :: "nat \<Rightarrow> string option \<Rightarrow> (string \<times> string) list \<Rightarrow> (string \<times> string) list" where
  "attempted k left files = take k files @
     (case left of None \<Rightarrow> [] | Some c \<Rightarrow> map (\<lambda>(n, x). (n, c)) (take 1 (drop k files)))"

definition write_files :: "write_failure option \<Rightarrow> (string \<times> string) list \<Rightarrow> directory \<Rightarrow> (error + unit) \<times> directory" where
  "write_files fail files d = (case fail of
     None \<Rightarrow> (Inr (), fold (\<lambda>(n, c). AList.update n c) files d)
   | Some (k, left, e) \<Rightarrow> (Inl e, fold (\<lambda>(n, c). AList.update n c) (attempted k left files) d))"

definition save_files :: "string \<Rightarrow> string \<Rightarrow> string \<Rightarrow> (int \<Rightarrow> string) \<Rightarrow> string \<Rightarrow> directory \<Rightarrow> (string \<times> string) list" where
  "save_files prefix base model metrics names d =
    [(model_file base, model), (base @ ''_metrics.json'', metrics (next_version prefix d)),
     (base @ ''_features.json'', names), (latest_pointer prefix, base)]"

definition save_model ::
  "write_failure option \<Rightarrow> string \<Rightarrow> (int \<Rightarrow> string) \<Rightarrow> string \<Rightarrow> symbol \<Rightarrow> string \<Rightarrow> directory \<Rightarrow> (error + string) \<times> directory" where
  "save_model fail model metrics names symbol timeframe d =
    (let prefix = normalise symbol timeframe; base = version_name prefix (next_version prefix d) in
     case write_files fail (save_files prefix base model metrics names d) d of
       (Inl e, d') \<Rightarrow> (Inl e, d') | (Inr _, d') \<Rightarrow> (Inr (model_file base), d'))"

subsection \<open>Versions\<close>

lemma version_round_trip: "0 \<le> v \<Longrightarrow> version_of prefix (model_file (version_name prefix v)) = Some v"
  by (simp add: version_of_def model_file_def version_name_def Let_def)

lemma foldl_max_ge: "a \<le> foldl max a xs" "x \<in> set xs \<Longrightarrow> x \<le> foldl max a xs" for a :: int
proof (induction xs arbitrary: a)
  case (Cons y ys)
  { case 1 then show ?case using Cons(1) [of "max a y"] by simp }
  { case 2 then show ?case using Cons(1) [of "max a y"] Cons(2) [of "max a y"] by auto }
qed simp_all

lemma next_version_fresh: "map_of d n \<noteq> None \<Longrightarrow> version_of prefix n = Some v \<Longrightarrow> v < next_version prefix d"
  using foldl_max_ge(2) [of v "List.map_filter (version_of prefix) (map fst d)" 0]
  by (force simp: next_version_def List.map_filter_def dest!: map_of_SomeD)

lemma next_version_pos: "1 \<le> next_version prefix d"
  using foldl_max_ge(1) [of 0] by (simp add: next_version_def)

lemma new_file: "map_of d (model_file (version_name prefix (next_version prefix d))) = None"
  using next_version_fresh [of d _ prefix "next_version prefix d"] version_round_trip [of "next_version prefix d" prefix]
    next_version_pos [of prefix d] by fastforce

subsection \<open>The pointer\<close>

lemma strip_by_id: "t \<noteq> [] \<Longrightarrow> \<not> p (hd t) \<Longrightarrow> \<not> p (last t) \<Longrightarrow> strip_by p t = t"
proof -
  assume t: "t \<noteq> []" "\<not> p (hd t)" "\<not> p (last t)"
  then have "dropWhile p t = t" by (cases t) simp_all
  moreover have "dropWhile p (rev t) = rev t" using t by (cases t rule: rev_cases) simp_all
  ultimately show ?thesis by (simp add: strip_by_def)
qed

lemma collapse_chars: "c \<in> set (collapse t) \<Longrightarrow> name_char c"
proof (induction t rule: collapse.induct)
  case (2 x xs)
  have "name_char (CHR ''_'')" by (simp add: name_char_def)
  then show ?case using 2 by (auto split: if_splits)
qed simp

lemma set_strip_by: "set (strip_by p t) \<subseteq> set t"
  by (metis set_dropWhileD set_rev strip_by_def subsetI)

lemma name_char_not_whitespace: "name_char c \<Longrightarrow> \<not> whitespace c"
  by (auto simp: name_char_def whitespace_def Let_def)

lemma last_digits: "0 \<le> n \<Longrightarrow> \<exists>d. 0 \<le> d \<and> d < 10 \<and> last (digits n) = digit d"
  by (subst digits.simps) (auto intro: exI [of _ "n mod 10"])

lemma digit_not_whitespace: "0 \<le> d \<Longrightarrow> d < 10 \<Longrightarrow> \<not> whitespace (digit d)"
proof -
  assume "0 \<le> d" "d < 10"
  then have "d = 0 \<or> d = 1 \<or> d = 2 \<or> d = 3 \<or> d = 4 \<or> d = 5 \<or> d = 6 \<or> d = 7 \<or> d = 8 \<or> d = 9" by presburger
  then show ?thesis by (auto simp: digit_def whitespace_def Let_def)
qed

lemma strip_base: "0 \<le> v \<Longrightarrow> strip_by whitespace (version_name (normalise s tf) v) = version_name (normalise s tf) v"
proof (rule strip_by_id)
  assume v: "0 \<le> v"
  define sym where "sym = strip_by (\<lambda>c. c = CHR ''_'') (collapse (map (\<lambda>c. if c = CHR ''/'' then CHR ''_'' else c) (map lower s)))"
  have "hd (sym @ CHR ''_'' # rest) \<in> insert (CHR ''_'') (set sym)" for rest by (cases sym) simp_all
  moreover have "name_char c" if "c \<in> set sym" for c
    using that set_strip_by collapse_chars by (fastforce simp: sym_def)
  moreover have "name_char (CHR ''_'')" by (simp add: name_char_def)
  ultimately have "name_char (hd (sym @ CHR ''_'' # rest))" for rest by (metis insert_iff)
  then show "\<not> whitespace (hd (version_name (normalise s tf) v))"
    using name_char_not_whitespace by (simp add: version_name_def normalise_def sym_def)
  show "\<not> whitespace (last (version_name (normalise s tf) v))"
    using last_digits [OF v] digit_not_whitespace by (auto simp: version_name_def)
qed (simp add: version_name_def)

text \<open>The names a save writes, apart from one another.\<close>

lemma save_names:
  "latest_pointer p \<noteq> model_file (version_name p v)" "latest_pointer p \<noteq> version_name p v @ ''_metrics.json''"
  "latest_pointer p \<noteq> version_name p v @ ''_features.json''"
  "model_file (version_name p v) \<noteq> version_name p v @ ''_metrics.json''"
  "model_file (version_name p v) \<noteq> version_name p v @ ''_features.json''"
  by (simp_all add: latest_pointer_def model_file_def version_name_def)

lemma present_update: "map_of d n \<noteq> None \<Longrightarrow> map_of (AList.update m c d) n \<noteq> None"
  by simp

lemma present_fold: "map_of d n \<noteq> None \<Longrightarrow> map_of (fold (\<lambda>(n, c). AList.update n c) files d) n \<noteq> None"
  by (induction files arbitrary: d) auto

lemma untouched_fold: "n \<notin> fst ` set files \<Longrightarrow> map_of (fold (\<lambda>(n, c). AList.update n c) files d) n = map_of d n"
  by (induction files arbitrary: d) auto

subsection \<open>Properties\<close>

lemma early_writes:
  assumes "k < 3 \<or> k = 3 \<and> left = None"
  shows "fst ` set (attempted k left (save_files p base model metrics names d)) \<subseteq>
    {model_file base, base @ ''_metrics.json'', base @ ''_features.json''}"
proof -
  have "k = 0 \<or> k = 1 \<or> k = 2 \<or> k = 3 \<and> left = None" using assms by linarith
  then show ?thesis by (auto simp: attempted_def save_files_def split: option.splits)
qed

lemma model_file_no_sidecar: "model_file b \<noteq> base @ ''_metrics.json''" "model_file b \<noteq> base @ ''_features.json''"
  by (auto simp: model_file_def dest!: arg_cong [where f = rev])

text \<open>C23: saving a model publishes it, or nothing. A save writes a file that was not there and makes it
  the latest model of its pair; a save that
  fails before its last file, the pointer, is touched leaves the latest model and its content as they
  were, whatever it has written of the other files, as long as the pointer was in place.\<close>

theorem save_model_is_atomic:
  assumes "save_model fail model metrics names symbol timeframe d = (r, d')"
    and "\<And>k left e. fail = Some (k, left, e) \<Longrightarrow> (k < 3 \<or> k = 3 \<and> left = None) \<and> pointed (normalise symbol timeframe) d \<noteq> None"
  shows "case r of
    Inr nm \<Rightarrow> map_of d nm = None \<and> map_of d' nm = Some model \<and> get_latest_path symbol timeframe d' = Some nm
  | Inl e \<Rightarrow> get_latest_path symbol timeframe d' = get_latest_path symbol timeframe d \<and>
      (\<forall>nm. get_latest_path symbol timeframe d = Some nm \<longrightarrow> map_of d' nm = map_of d nm)"
proof -
  define p where "p = normalise symbol timeframe"
  define v where "v = next_version p d"
  define base where "base = version_name p v"
  define files where "files = save_files p base model metrics names d"
  have v: "0 \<le> v" using next_version_pos [of p d] by (simp add: v_def)
  have fresh: "map_of d (model_file base) = None" using new_file [of d p] by (simp add: base_def v_def)
  note names = save_names [of p v, folded base_def]
  have s: "(r, d') = (case write_files fail files d of (Inl e, d') \<Rightarrow> (Inl e, d') | (Inr _, d') \<Rightarrow> (Inr (model_file base), d'))"
    using assms(1) unfolding save_model_def Let_def p_def v_def base_def files_def by (rule sym)
  show ?thesis
  proof (cases fail)
    case None
    have strip: "strip_by whitespace base = base" using strip_base [OF v] by (simp add: base_def p_def)
    have d': "r = Inr (model_file base)" "d' = fold (\<lambda>(n, c). AList.update n c) files d"
      using s None by (simp_all add: write_files_def)
    have "map_of d' (latest_pointer p) = Some base" "map_of d' (model_file base) = Some model"
      using names by (simp_all add: d'(2) files_def save_files_def)
    then have "get_latest_path symbol timeframe d' = Some (model_file base)"
      using strip by (simp add: get_latest_path_def pointed_def p_def [symmetric])
    then show ?thesis using fresh \<open>map_of d' (model_file base) = Some model\<close> by (simp add: d'(1))
  next
    case (Some ke)
    then obtain k left e where ke: "fail = Some (k, left, e)" "k < 3 \<or> k = 3 \<and> left = None"
      by (cases ke) (use assms(2) in blast)
    obtain nm where nm: "pointed p d = Some nm" using assms(2) [OF ke(1)] by (auto simp: p_def)
    then have there: "map_of d nm \<noteq> None" by (auto simp: pointed_def Let_def split: option.splits if_splits)
    have d': "r = Inl e" "d' = fold (\<lambda>(n, c). AList.update n c) (attempted k left files) d"
      using s ke by (simp_all add: write_files_def)
    have written: "fst ` set (attempted k left files) \<subseteq> {model_file base, base @ ''_metrics.json'', base @ ''_features.json''}"
      unfolding files_def by (rule early_writes [OF ke(2)])
    then have "latest_pointer p \<notin> fst ` set (attempted k left files)" using names by blast
    then have ptr: "map_of d' (latest_pointer p) = map_of d (latest_pointer p)" by (simp add: d'(2) untouched_fold)
    obtain b where b: "nm = model_file b" using nm by (auto simp: pointed_def Let_def split: option.splits if_splits)
    have "nm \<noteq> model_file base" using fresh there by auto
    then have "nm \<notin> fst ` set (attempted k left files)"
      using written model_file_no_sidecar [of b base] unfolding b by blast
    then have same: "map_of d' nm = map_of d nm" by (simp add: d'(2) untouched_fold)
    then have "pointed p d' = Some nm" using nm there ptr
      by (auto simp: pointed_def Let_def split: option.splits if_splits)
    then show ?thesis using nm same by (simp add: d'(1) get_latest_path_def p_def [symmetric])
  qed
qed

definition demo_models :: directory where
  "demo_models = [(''btc_usdt_1m_v7.joblib'', ''old''), (latest_pointer ''btc_usdt_1m'', ''btc_usdt_1m_v7'')]"

theorem save_model_is_atomic_witness:
  "(case save_model None ''M'' (\<lambda>v. ''{}'') ''[]'' ''BTC/USDT'' ''1m'' demo_models of (r, d') \<Rightarrow>
     r = Inr ''btc_usdt_1m_v8.joblib'' \<and> get_latest_path ''BTC/USDT'' ''1m'' d' = Some ''btc_usdt_1m_v8.joblib'') \<and>
   (case save_model (Some (0, Some ''half'', Runtime_error [])) ''M'' (\<lambda>v. ''{}'') ''[]'' ''BTC/USDT'' ''1m'' demo_models of
     (r, d') \<Rightarrow> isl r \<and> get_latest_path ''BTC/USDT'' ''1m'' d' = get_latest_path ''BTC/USDT'' ''1m'' demo_models)"
proof -
  let ?s = "save_model None ''M'' (\<lambda>v. ''{}'') ''[]'' ''BTC/USDT'' ''1m'' demo_models"
  let ?f = "save_model (Some (0, Some ''half'', Runtime_error [])) ''M'' (\<lambda>v. ''{}'') ''[]'' ''BTC/USDT'' ''1m'' demo_models"
  have "fst ?s = Inr ''btc_usdt_1m_v8.joblib''" "fst ?f = Inl (Runtime_error [])" by code_simp+
  then obtain d1 d2 where s: "?s = (Inr ''btc_usdt_1m_v8.joblib'', d1)" and f: "?f = (Inl (Runtime_error []), d2)"
    by (cases ?s; cases ?f) simp
  have p: "pointed (normalise ''BTC/USDT'' ''1m'') demo_models \<noteq> None" by code_simp
  show ?thesis using save_model_is_atomic [OF s] save_model_is_atomic [OF f] p by (simp add: s f)
qed

text \<open>Without a pointer to fall back on, a first save that fails half-way is picked up by the scan.\<close>

lemma first_save_half_written:
  "case save_model (Some (1, None, Runtime_error [])) ''M'' (\<lambda>v. ''{}'') ''[]'' ''BTC/USDT'' ''1m'' [] of (r, d') \<Rightarrow>
    isl r \<and> get_latest_path ''BTC/USDT'' ''1m'' d' = Some ''btc_usdt_1m_v1.joblib''"
  by code_simp

end
