(* ===== verification/Control_API.thy ===== *)
theory Control_API
  imports Messaging Risk_Agent Execution_Agent
begin

text \<open>
  The control endpoints (\<open>api/routers/control.py\<close>): the key check, the broadcast command, the halt latch
  and its removal, and the test order. An \<open>HTTPException\<close> is an \<open>http_error\<close> with its status code; the
  texts are shortened. The bus of the application may be missing. What the test order's subscription
  hears before its deadline is a list.

  Proved here: a halt issued over the API outlives the agents: whatever else happens on Redis, an agent
  that starts later starts halted, the risk agent then rejects and the execution agent places nothing.
\<close>

datatype http_error = Http_error nat string | Server_error error

record command_request =
  cq_command :: system_command
  cq_target_agent :: string
  cq_reason :: "string option"

record command_reply =
  cy_command :: system_command
  cy_target_agent :: string
  cy_command_id :: uuid
  cy_notified :: int

record halt_reply =
  hy_override_id :: uuid
  hy_reason :: string
  hy_notified :: int

definition default_halt_reason :: string where "default_halt_reason = ''Manual halt via API''"

text \<open>The key check every endpoint depends on.\<close>

definition require_control_key :: "settings \<Rightarrow> string option \<Rightarrow> http_error + unit" where
  "require_control_key s x_api_key =
    (if st_control_api_key s = None \<or> st_control_api_key s = Some [] then Inl (Http_error 403 ''Control plane disabled'')
     else if x_api_key = None \<or> x_api_key \<noteq> st_control_api_key s then Inl (Http_error 401 ''X-API-Key'')
     else Inr ())"

definition bus_or_503 :: "'s message_bus option \<Rightarrow> http_error + 's message_bus" where
  "bus_or_503 b = (case b of None \<Rightarrow> Inl (Http_error 503 ''Message bus not available'') | Some b \<Rightarrow> Inr b)"

definition post_command ::
  "'s redis \<Rightarrow> (system_command_message \<Rightarrow> string) \<Rightarrow> uuid \<Rightarrow> time \<Rightarrow> command_request \<Rightarrow> 's message_bus option \<Rightarrow>
     (http_error + command_reply) \<times> 's message_bus option" where
  "post_command ops to_json cid now body bus = (case bus_or_503 bus of Inl e \<Rightarrow> (Inl e, bus)
   | Inr b \<Rightarrow> (let m = \<lparr>sc_command_id = cid, sc_command = cq_command body, sc_target_agent = cq_target_agent body,
         sc_issued_by = ''api'', sc_timestamp = now, sc_reason = cq_reason body\<rparr> in
       case publish ops to_json (\<lambda>_. SYSTEM_COMMAND) m b of
         (Inl e, b1) \<Rightarrow> (Inl (Http_error 502 ''Publish failed''), Some b1)
       | (Inr n, b1) \<Rightarrow> (Inr \<lparr>cy_command = cq_command body, cy_target_agent = cq_target_agent body,
           cy_command_id = cid, cy_notified = n\<rparr>, Some b1)))"

definition api_override :: "uuid \<Rightarrow> time \<Rightarrow> string \<Rightarrow> risk_override" where
  "api_override oid now reason = \<lparr>ro_override_id = oid, ro_reason = reason, ro_triggered_by = ''api:halt'',
     ro_timestamp = now, ro_daily_loss_pct = None, ro_total_drawdown_pct = None, ro_requires_human_reset = True\<rparr>"

text \<open>The latch is written first, then the override is published.\<close>

definition post_halt ::
  "'s redis \<Rightarrow> (risk_override \<Rightarrow> string) \<Rightarrow> uuid \<Rightarrow> time \<Rightarrow> string \<Rightarrow> 's message_bus option \<Rightarrow>
     (http_error + halt_reply) \<times> 's message_bus option" where
  "post_halt ops to_json oid now reason bus = (case bus_or_503 bus of Inl e \<Rightarrow> (Inl e, bus)
   | Inr b \<Rightarrow> (case kv_set ops HALT_KEY reason None b of
       (Inl e, b1) \<Rightarrow> (Inl (Http_error 502 ''Halt failed''), Some b1)
     | (Inr _, b1) \<Rightarrow>
       (case publish ops to_json (\<lambda>_. SYSTEM_RISK_OVERRIDE) (api_override oid now reason) b1 of
          (Inl e, b2) \<Rightarrow> (Inl (Http_error 502 ''Halt failed''), Some b2)
        | (Inr n, b2) \<Rightarrow> (Inr \<lparr>hy_override_id = oid, hy_reason = reason, hy_notified = n\<rparr>, Some b2))))"

definition post_resume :: "'s redis \<Rightarrow> 's message_bus option \<Rightarrow> (http_error + unit) \<times> 's message_bus option" where
  "post_resume ops bus = (case bus_or_503 bus of Inl e \<Rightarrow> (Inl e, bus)
   | Inr b \<Rightarrow> (case cache_delete ops HALT_KEY b of
       (Inl e, b1) \<Rightarrow> (Inl (Http_error 502 ''Resume failed''), Some b1) | (Inr _, b1) \<Rightarrow> (Inr (), Some b1)))"

subsection \<open>The test order\<close>

record test_order_env =
  to_proposal_id :: uuid
  to_assessment_id :: uuid
  to_signal_id :: uuid
  to_now :: time

definition test_proposal :: "test_order_env \<Rightarrow> symbol \<Rightarrow> trade_proposal" where
  "test_proposal env s = \<lparr>tp_proposal_id = to_proposal_id env, tp_symbol = s, tp_side = BUY, tp_order_type = MARKET,
     tp_timestamp = to_now env, tp_requested_size_usd = 10, tp_requested_quantity = None, tp_limit_price = None,
     tp_suggested_stop_loss_pct = Some (fl (2 / 100)), tp_suggested_take_profit_pct = Some (fl (4 / 100)),
     tp_signal = \<lparr>as_signal_id = to_signal_id env, as_symbol = s, as_timestamp = to_now env, as_direction = BUY_DIR,
       as_confidence = 1, as_composite_score = 1, as_technical_signal = None, as_sentiment_signal = None,
       as_technical_weight = fl (7 / 10), as_sentiment_weight = fl (3 / 10), as_total_signals = 0, as_signals_discarded = 0\<rparr>,
     tp_reasoning = ''API test_order''\<rparr>"

definition test_assessment :: "test_order_env \<Rightarrow> symbol \<Rightarrow> risk_assessment" where
  "test_assessment env s = \<lparr>ra_assessment_id = to_assessment_id env, ra_proposal_id = to_proposal_id env, ra_timestamp = to_now env,
     ra_decision = APPROVED, ra_rejection_reason = None, ra_rejection_detail = None, ra_approved_size_usd = None,
     ra_approved_quantity = Some (1 / 100), ra_approved_stop_loss_pct = Some (fl (2 / 100)),
     ra_approved_take_profit_pct = Some (fl (4 / 100)), ra_portfolio_value_usd = None, ra_current_daily_loss_pct = None,
     ra_open_positions_count = 0, ra_original_proposal = test_proposal env s\<rparr>"

text \<open>The wait for the result, over the polls made before the deadline: messages of other proposals and
  messages that do not parse are skipped, an exception of the connection ends the wait.\<close>

fun await_test_result ::
  "(string \<Rightarrow> error + execution_result) \<Rightarrow> uuid \<Rightarrow> (error + raw_message option) list \<Rightarrow> error + execution_result option" where
  "await_test_result parse pid [] = Inr None"
| "await_test_result parse pid (Inl e # rs) = Inl e"
| "await_test_result parse pid (Inr r # rs) =
     (case (case r of None \<Rightarrow> None | Some raw \<Rightarrow> heard parse raw) of
        Some res \<Rightarrow> if er_proposal_id res = pid then Inr (Some res) else await_test_result parse pid rs
      | None \<Rightarrow> await_test_result parse pid rs)"

definition post_test_order ::
  "'s redis \<Rightarrow> (risk_assessment \<Rightarrow> string) \<Rightarrow> (string \<Rightarrow> error + execution_result) \<Rightarrow> test_order_env \<Rightarrow> settings \<Rightarrow>
     error option \<Rightarrow> (error + raw_message option) list \<Rightarrow> 's message_bus option \<Rightarrow> (http_error + execution_result) \<times> 's message_bus option" where
  "post_test_order ops to_json parse env s subscribe_error heard_before_deadline bus =
    (if \<not> uses_mt5 s then (Inl (Http_error 400 ''MT5 mode''), bus)
     else case bus of None \<Rightarrow> (Inl (Http_error 503 ''Message bus not available''), bus)
     | Some b \<Rightarrow> if \<not> mb_pool b then (Inl (Http_error 503 ''Message bus not available''), bus)
       else case md_symbols (st_market_data s) of [] \<Rightarrow> (Inl (Server_error Index_error), bus)
       | symbol # _ \<Rightarrow>
         (case subscribe_error of Some e \<Rightarrow> (Inl (Server_error e), bus)
          | None \<Rightarrow> (case publish ops to_json (\<lambda>_. RISK_ASSESSMENT) (test_assessment env symbol) b of
              (Inl e, b1) \<Rightarrow> (Inl (Server_error e), Some b1)
            | (Inr _, b1) \<Rightarrow> (case await_test_result parse (to_proposal_id env) heard_before_deadline of
                Inl e \<Rightarrow> (Inl (Server_error e), Some b1)
              | Inr (Some res) \<Rightarrow> (Inr res, Some b1)
              | Inr None \<Rightarrow> (Inl (Http_error 504 ''Timeout''), Some b1)))))"

subsection \<open>The latch among other traffic\<close>

text \<open>What agents and endpoints do on the bus between the halt and a restart.\<close>

datatype bus_action =
    Set_key string string "int option" | Get_key string | Delete_key string
  | Publish_on string string | Push_on string string int

fun bus_act :: "'s redis \<Rightarrow> bus_action \<Rightarrow> 's message_bus \<Rightarrow> 's message_bus" where
  "bus_act ops (Set_key k v ttl) b = snd (kv_set ops k v ttl b)"
| "bus_act ops (Get_key k) b = snd (kv_get ops k b)"
| "bus_act ops (Delete_key k) b = snd (cache_delete ops k b)"
| "bus_act ops (Publish_on ch m) b = snd (publish_to ops id ch m b)"
| "bus_act ops (Push_on k v n) b = snd (list_push_capped ops k v n b)"

definition bus_traffic :: "'s redis \<Rightarrow> bus_action list \<Rightarrow> 's message_bus \<Rightarrow> 's message_bus" where
  "bus_traffic ops acts b = fold (bus_act ops) acts b"

text \<open>Traffic that leaves the halt key alone.\<close>

fun spares_latch :: "bus_action \<Rightarrow> bool" where
  "spares_latch (Set_key k v ttl) \<longleftrightarrow> k \<noteq> HALT_KEY"
| "spares_latch (Delete_key k) \<longleftrightarrow> k \<noteq> HALT_KEY"
| "spares_latch a \<longleftrightarrow> True"

lemma bus_act_look: "redis_laws ops look items \<Longrightarrow> spares_latch a \<Longrightarrow> bus_look look (bus_act ops a b) HALT_KEY = bus_look look b HALT_KEY"
  using kv_set_look(2) [of ops look items _ _ _ b "fst r" "snd r" HALT_KEY for r :: "(error + unit) \<times> 'a message_bus"]
    cache_delete_look(2) [of ops look items _ b "fst r" "snd r" HALT_KEY for r :: "(error + unit) \<times> 'a message_bus"]
    kv_get_look(2) [OF _ prod.collapse [symmetric]] publish_look [OF _ prod.collapse [symmetric]]
    push_look [OF _ prod.collapse [symmetric]]
  by (cases a) (auto simp: eq_commute [of HALT_KEY])

lemma bus_traffic_look: "redis_laws ops look items \<Longrightarrow> list_all spares_latch acts \<Longrightarrow>
    bus_look look (bus_traffic ops acts b) HALT_KEY = bus_look look b HALT_KEY"
  unfolding bus_traffic_def by (induction acts arbitrary: b) (simp_all add: bus_act_look)

lemma post_halt_look:
  assumes "redis_laws ops look items" "post_halt ops to_json oid now reason (Some b) = (Inr reply, Some b')"
  shows "bus_look look b' HALT_KEY = Some reason"
proof -
  obtain b1 where s: "kv_set ops HALT_KEY reason None b = (Inr (), b1)"
    and p: "\<exists>r. publish ops to_json (\<lambda>_. SYSTEM_RISK_OVERRIDE) (api_override oid now reason) b1 = (r, b')"
    using assms(2) by (auto simp: post_halt_def bus_or_503_def split: sum.splits prod.splits)
  from p obtain r where "publish_to ops to_json SYSTEM_RISK_OVERRIDE (api_override oid now reason) b1 = (r, b')"
    by (auto simp: publish_def)
  then show ?thesis using publish_look [OF assms(1)] kv_set_look(1) [OF assms(1) s refl] by metis
qed

lemma halted_start:
  "start_agent None (Inr (Some reason)) None a = (Inr (), a') \<Longrightarrow> reason \<noteq> [] \<Longrightarrow> ba_trading_halted a'"
  by (auto simp: start_agent_def load_halt_latch_def Let_def)

subsection \<open>Properties\<close>

text \<open>C5: a halt over the API survives restarts: once \<open>/control/halt\<close> has answered, with a reason that is
  not empty, and whatever else is read, written, deleted, pushed or published on Redis except the halt key itself,
  every agent that starts and reads the latch starts halted; the risk agent then approves nothing,
  and the execution agent answers no assessment and leaves the broker alone.\<close>

theorem halt_survives_restart:
  assumes "redis_laws ops look items" "post_halt ops to_json oid now reason (Some b) = (Inr reply, Some b1)" "reason \<noteq> []"
    and "list_all spares_latch acts" "kv_get ops HALT_KEY (bus_traffic ops acts b1) = (Inr found, b2)"
    and "start_agent None (Inr found) None a = (Inr (), a')"
  shows "ba_trading_halted a' \<and>
    (rk_base rk = a' \<longrightarrow> \<not> is_approved (fst (evaluate renv p rk))) \<and>
    (xa_base ex = a' \<longrightarrow> fst (process_assessment bops xenv asm ex) = [] \<and>
      xa_broker (snd (process_assessment bops xenv asm ex)) = xa_broker ex)"
proof -
  have "found = Some reason"
    using kv_get_look(1) [OF assms(1,5) refl] bus_traffic_look [OF assms(1,4)] post_halt_look [OF assms(1,2)] by simp
  then have h: "ba_trading_halted a'" using halted_start [of reason a a'] assms(3,6) by simp
  have "\<not> is_approved (fst (evaluate renv p rk))" if "rk_base rk = a'"
  proof -
    obtain v ros rk' where e: "evaluate renv p rk = (v, ros, rk')" by (cases "evaluate renv p rk")
    have "halted rk" using h that by (simp add: halted_def)
    from halted_evaluate(1) [OF this e] e show ?thesis by (simp add: is_approved_def)
  qed
  moreover have "fst (process_assessment bops xenv asm ex) = [] \<and> xa_broker (snd (process_assessment bops xenv asm ex)) = xa_broker ex"
    if "xa_base ex = a'"
    using h that by (simp add: process_assessment_def)
  ultimately show ?thesis using h by blast
qed

text \<open>The latch is the text of the reason, and an empty one reads as no latch: a halt with an empty
  reason answers like any other and does not survive.\<close>

lemma halt_without_reason_is_lost:
  assumes "redis_laws ops look items" "post_halt ops to_json oid now [] (Some b) = (Inr reply, Some b1)"
    and "kv_get ops HALT_KEY b1 = (Inr found, b2)" "start_agent None (Inr found) None (new_base_agent s name) = (Inr (), a')"
  shows "\<not> ba_trading_halted a'"
proof -
  have "found = Some []" using kv_get_look(1) [OF assms(1,3) refl] post_halt_look [OF assms(1,2)] by simp
  then show ?thesis using assms(4) by (auto simp: start_agent_def load_halt_latch_def new_base_agent_def Let_def)
qed

text \<open>Redis as a pair of maps, which never fails.\<close>

definition demo_redis :: "((string \<Rightarrow> string option) \<times> (string \<Rightarrow> string list)) redis" where
  "demo_redis = \<lparr>rd_publish = (\<lambda>ch m s. (Inr 1, s)), rd_get = (\<lambda>k s. (Inr (fst s k), s)),
     rd_set = (\<lambda>k v s. (Inr (), ((fst s)(k := Some v), snd s))), rd_setex = (\<lambda>k t v s. (Inr (), ((fst s)(k := Some v), snd s))),
     rd_delete = (\<lambda>k s. (Inr (), ((fst s)(k := None), snd s))),
     rd_exec = (\<lambda>cs s. (Inr (), (fst s, fold (\<lambda>c ls. case c of Lpush k v \<Rightarrow> ls(k := v # ls k)
       | Ltrim k a z \<Rightarrow> ls(k := take (nat (z - a) + 1) (drop (nat a) (ls k)))) cs (snd s)))),
     rd_ping = (\<lambda>s. (Inr (), s))\<rparr>"

lemma demo_redis_laws: "redis_laws demo_redis fst snd"
  by (auto simp: redis_laws_def demo_redis_def)

definition demo_bus :: "((string \<Rightarrow> string option) \<times> (string \<Rightarrow> string list)) message_bus" where
  "demo_bus = (new_message_bus ''api'' (\<lambda>k. None, \<lambda>k. []))\<lparr>mb_pool := True, mb_connected := True\<rparr>"

theorem halt_survives_restart_witness:
  "\<exists>b1 b2 found a'. post_halt demo_redis (\<lambda>_. []) 1 0 ''manual'' (Some demo_bus) =
      (Inr \<lparr>hy_override_id = 1, hy_reason = ''manual'', hy_notified = 1\<rparr>, Some b1) \<and>
    kv_get demo_redis HALT_KEY (bus_traffic demo_redis [Set_key ''x'' ''y'' None, Delete_key ''z'', Publish_on ''c'' ''m''] b1) = (Inr found, b2) \<and>
    start_agent None (Inr found) None (new_base_agent default_settings ''risk'') = (Inr (), a') \<and> ba_trading_halted a'"
proof -
  obtain b1 where h: "post_halt demo_redis (\<lambda>_. []) 1 0 ''manual'' (Some demo_bus) =
      (Inr \<lparr>hy_override_id = 1, hy_reason = ''manual'', hy_notified = 1\<rparr>, Some b1)"
    and pool: "mb_pool b1"
    by (auto simp: post_halt_def bus_or_503_def kv_set_def publish_def publish_to_def with_pool_def demo_redis_def demo_bus_def new_message_bus_def)
  let ?acts = "[Set_key ''x'' ''y'' None, Delete_key ''z'', Publish_on ''c'' ''m'']"
  obtain b2 found where g: "kv_get demo_redis HALT_KEY (bus_traffic demo_redis ?acts b1) = (Inr found, b2)"
    using pool by (auto simp: bus_traffic_def kv_set_def kv_get_def cache_delete_def publish_to_def with_pool_def demo_redis_def)
  obtain a' where a: "start_agent None (Inr found) None (new_base_agent default_settings ''risk'') = (Inr (), a')"
    by (simp add: start_agent_def Let_def)
  have "list_all spares_latch ?acts" by (simp add: HALT_KEY_def)
  from halt_survives_restart [OF demo_redis_laws h _ this g a, THEN conjunct1] have "ba_trading_halted a'" by simp
  with h g a show ?thesis by blast
qed

end
