(* ===== verification/Fetcher.thy ===== *)
theory Fetcher
  imports Market_Models
begin

text \<open>
  The exchange fetcher (\<open>agents/market_data/fetcher.py\<close>): connecting, the guards, the retried calls and
  the translation of the exchange library's exceptions. CCXT and tenacity are not part of the
  program. CCXT is a record of \<open>isinstance\<close> tests over an opaque type of exceptions, and the outcomes of
  the calls are arguments: \<open>call n\<close> is what the \<open>n\<close>-th attempt gives. Tenacity's decorator is a function
  of the policy and of these outcomes; \<open>retries_as_documented\<close> is what its documentation says of it.

  Proved here: with a decorator that does so, a fetch survives up to four transient failures and
  reports the fifth as an error of the program, and a fetch never returns candles that are invalid
  or not of the feed that was asked for.
\<close>

record exchange_settings =
  xs_name :: string
  xs_api_key :: "string option"
  xs_api_secret :: "string option"
  xs_api_passphrase :: "string option"
  xs_sandbox :: bool
  xs_rate_limit_ms :: int
  xs_request_timeout_ms :: int
  xs_ws_reconnect_attempts :: int
  xs_ws_reconnect_delay :: rat

definition default_exchange_settings :: exchange_settings where
  "default_exchange_settings = \<lparr>xs_name = ''binance'', xs_api_key = None, xs_api_secret = None,
     xs_api_passphrase = None, xs_sandbox = True, xs_rate_limit_ms = 100,
     xs_request_timeout_ms = 10000, xs_ws_reconnect_attempts = 5, xs_ws_reconnect_delay = 2\<rparr>"

text \<open>The truth of an optional secret: \<open>SecretStr\<close> has the length of its text.\<close>

definition given_secret :: "string option \<Rightarrow> bool" where
  "given_secret k \<longleftrightarrow> k \<noteq> None \<and> k \<noteq> Some []"

subsection \<open>The libraries\<close>

text \<open>\<open>escape e\<close> stands for an exception no \<open>except\<close> clause translates.\<close>

record 'e ccxt =
  network_error :: "'e \<Rightarrow> bool"
  request_timeout :: "'e \<Rightarrow> bool"
  exchange_not_available :: "'e \<Rightarrow> bool"
  ddos_protection :: "'e \<Rightarrow> bool"
  rate_limit_exceeded :: "'e \<Rightarrow> bool"
  bad_symbol :: "'e \<Rightarrow> bool"
  authentication_error :: "'e \<Rightarrow> bool"
  error_text :: "'e \<Rightarrow> string"
  escape :: "'e \<Rightarrow> error"

record 'e retry_policy =
  rp_retry :: "'e \<Rightarrow> bool"
  rp_multiplier :: rat
  rp_min :: rat
  rp_max :: rat
  rp_attempts :: nat
  rp_reraise :: bool

type_synonym ('e, 'a) retrier = "'e retry_policy \<Rightarrow> (nat \<Rightarrow> 'e + 'a) \<Rightarrow> 'e + 'a"

definition RETRY_POLICY :: "'e ccxt \<Rightarrow> 'e retry_policy" where
  "RETRY_POLICY lib =
     \<lparr>rp_retry = (\<lambda>e. network_error lib e \<or> request_timeout lib e \<or> exchange_not_available lib e \<or>
        ddos_protection lib e),
      rp_multiplier = 1, rp_min = 1, rp_max = 30, rp_attempts = 5, rp_reraise = True\<rparr>"

text \<open>The attempt that decides: all before it failed with an error the policy retries, and it is a
  success, an error the policy does not retry, or the last attempt allowed.\<close>

definition decides :: "'e retry_policy \<Rightarrow> (nat \<Rightarrow> 'e + 'a) \<Rightarrow> nat \<Rightarrow> bool" where
  "decides p call k \<longleftrightarrow> k < rp_attempts p \<and> (\<forall>j<k. \<exists>e. call j = Inl e \<and> rp_retry p e) \<and>
     (case call k of Inr v \<Rightarrow> True | Inl e \<Rightarrow> \<not> rp_retry p e \<or> Suc k = rp_attempts p)"

definition retries_as_documented :: "('e, 'a) retrier \<Rightarrow> bool" where
  "retries_as_documented retrying \<longleftrightarrow>
     (\<forall>p call k. rp_reraise p \<longrightarrow> decides p call k \<longrightarrow> retrying p call = call k)"

subsection \<open>The fetcher\<close>

record market_info =
  mi_limits :: "(string, (string, rat option) dict) dict option"
  mi_precision :: "(string, rat option) dict option"

type_synonym markets = "(symbol, market_info) dict"

record exchange_fetcher =
  ef_settings :: exchange_settings
  ef_orderbook_depth :: int
  ef_exchange :: bool
  ef_markets :: markets
  ef_connected :: bool

definition new_exchange_fetcher :: "exchange_settings \<Rightarrow> int \<Rightarrow> exchange_fetcher" where
  "new_exchange_fetcher s depth = \<lparr>ef_settings = s, ef_orderbook_depth = depth, ef_exchange = False,
     ef_markets = [], ef_connected = False\<rparr>"

record client_config =
  cc_rate_limit :: int
  cc_timeout :: int
  cc_api_key :: "string option"
  cc_secret :: "string option"
  cc_password :: "string option"
  cc_sandbox :: bool

definition exchange_config :: "exchange_settings \<Rightarrow> client_config" where
  "exchange_config s = (let both = given_secret (xs_api_key s) \<and> given_secret (xs_api_secret s) in
     \<lparr>cc_rate_limit = xs_rate_limit_ms s, cc_timeout = xs_request_timeout_ms s,
      cc_api_key = (if both then xs_api_key s else None),
      cc_secret = (if both then xs_api_secret s else None),
      cc_password = (if both \<and> given_secret (xs_api_passphrase s) then xs_api_passphrase s else None),
      cc_sandbox = xs_sandbox s\<rparr>)"

text \<open>\<open>connect\<close>: \<open>known\<close> is whether CCXT has a class of that name, \<open>load\<close> what \<open>load_markets\<close> of the client
  built from the configuration gives.\<close>

definition connect_fetcher ::
  "'e ccxt \<Rightarrow> (string \<Rightarrow> bool) \<Rightarrow> (client_config \<Rightarrow> 'e + markets) \<Rightarrow> exchange_fetcher \<Rightarrow>
    (error + unit) \<times> exchange_fetcher" where
  "connect_fetcher lib known load f = (let cfg = ef_settings f in
     if \<not> known (xs_name cfg) then (Inl (Exchange_connection_error (''Unknown exchange: '' @ xs_name cfg)), f)
     else let f1 = f\<lparr>ef_exchange := True\<rparr> in
       case load (exchange_config cfg) of
         Inr ms \<Rightarrow> (Inr (), f1\<lparr>ef_markets := ms, ef_connected := True\<rparr>)
       | Inl e \<Rightarrow> (Inl (if authentication_error lib e then Exchange_auth_error
           else if network_error lib e then Exchange_connection_error (error_text lib e)
           else escape lib e), f1))"

definition disconnect_fetcher :: "error option \<Rightarrow> exchange_fetcher \<Rightarrow> (error + unit) \<times> exchange_fetcher" where
  "disconnect_fetcher close_error f = (if \<not> ef_exchange f then (Inr (), f)
     else case close_error of Some e \<Rightarrow> (Inl e, f) | None \<Rightarrow> (Inr (), f\<lparr>ef_connected := False\<rparr>))"

definition assert_connected :: "exchange_fetcher \<Rightarrow> error + unit" where
  "assert_connected f = (if \<not> ef_connected f \<or> \<not> ef_exchange f
     then Inl (Exchange_connection_error ''ExchangeFetcher not connected'') else Inr ())"

definition assert_symbol_supported :: "symbol \<Rightarrow> exchange_fetcher \<Rightarrow> error + unit" where
  "assert_symbol_supported s f = (if ef_markets f \<noteq> [] \<and> s \<notin> fst ` set (ef_markets f)
     then Inl (Exchange_connection_error (''Symbol not available: '' @ s)) else Inr ())"

definition fetch_guards :: "symbol \<Rightarrow> exchange_fetcher \<Rightarrow> error + unit" where
  "fetch_guards s f = (case assert_connected f of Inl e \<Rightarrow> Inl e | Inr _ \<Rightarrow> assert_symbol_supported s f)"

definition ohlcv_error :: "'e ccxt \<Rightarrow> symbol \<Rightarrow> 'e \<Rightarrow> error" where
  "ohlcv_error lib s e = (if rate_limit_exceeded lib e then Exchange_rate_limit_error
     else if bad_symbol lib e then Exchange_connection_error (''Bad symbol '' @ s @ '': '' @ error_text lib e)
     else if network_error lib e \<or> request_timeout lib e then Exchange_connection_error (error_text lib e)
     else escape lib e)"

type_synonym raw_rows = "rat option list list"

definition fetch_ohlcv ::
  "'e ccxt \<Rightarrow> ('e, raw_rows) retrier \<Rightarrow> (nat \<Rightarrow> 'e + raw_rows) \<Rightarrow> time \<Rightarrow> symbol \<Rightarrow> string \<Rightarrow>
    exchange_fetcher \<Rightarrow> error + candle list" where
  "fetch_ohlcv lib retrying call now s tf f = (case fetch_guards s f of Inl e \<Rightarrow> Inl e | Inr _ \<Rightarrow>
     (case retrying (RETRY_POLICY lib) call of
        Inl e \<Rightarrow> Inl (ohlcv_error lib s e)
      | Inr raw \<Rightarrow> if raw = [] then Inl (Insufficient_data_error 1 0 (''OHLCV['' @ s @ ''/'' @ tf @ '']''))
          else map_ok (\<lambda>row. candle_from_ccxt now row s tf) raw))"

definition transport_error :: "'e ccxt \<Rightarrow> 'e \<Rightarrow> error" where
  "transport_error lib e = (if network_error lib e \<or> request_timeout lib e
     then Exchange_connection_error (error_text lib e) else escape lib e)"

type_synonym raw_book = "rat option \<times> (rat \<times> rat) list option \<times> (rat \<times> rat) list option"

text \<open>\<open>depth or orderbook_depth\<close>: a depth of zero counts as none. \<open>call d n\<close> is the \<open>n\<close>-th attempt
  at depth \<open>d\<close>.\<close>

definition book_depth :: "int option \<Rightarrow> exchange_fetcher \<Rightarrow> int" where
  "book_depth depth f = (case depth of Some d \<Rightarrow> if d = 0 then ef_orderbook_depth f else d
     | None \<Rightarrow> ef_orderbook_depth f)"

definition fetch_order_book ::
  "'e ccxt \<Rightarrow> ('e, raw_book) retrier \<Rightarrow> (int \<Rightarrow> nat \<Rightarrow> 'e + raw_book) \<Rightarrow> time \<Rightarrow> symbol \<Rightarrow> int option \<Rightarrow>
    exchange_fetcher \<Rightarrow> error + order_book" where
  "fetch_order_book lib retrying call now s depth f = (case fetch_guards s f of Inl e \<Rightarrow> Inl e | Inr _ \<Rightarrow>
     (case retrying (RETRY_POLICY lib) (call (book_depth depth f)) of
        Inl e \<Rightarrow> Inl (transport_error lib e)
      | Inr (stamp, bids, asks) \<Rightarrow> Inr (order_book_from_ccxt now stamp bids asks s)))"

definition fetch_ticker ::
  "'e ccxt \<Rightarrow> ('e, raw_ticker) retrier \<Rightarrow> (nat \<Rightarrow> 'e + raw_ticker) \<Rightarrow> time \<Rightarrow> symbol \<Rightarrow>
    exchange_fetcher \<Rightarrow> error + ticker" where
  "fetch_ticker lib retrying call now s f = (case fetch_guards s f of Inl e \<Rightarrow> Inl e | Inr _ \<Rightarrow>
     (case retrying (RETRY_POLICY lib) call of
        Inl e \<Rightarrow> Inl (transport_error lib e)
      | Inr raw \<Rightarrow> ticker_from_ccxt now raw))"

text \<open>The raw balance is passed through.\<close>

definition fetch_balance ::
  "'e ccxt \<Rightarrow> ('e, 'b) retrier \<Rightarrow> (nat \<Rightarrow> 'e + 'b) \<Rightarrow> exchange_fetcher \<Rightarrow> error + 'b" where
  "fetch_balance lib retrying call f = (case assert_connected f of Inl e \<Rightarrow> Inl e | Inr _ \<Rightarrow>
     if \<not> given_secret (xs_api_key (ef_settings f)) then Inl Exchange_auth_error
     else (case retrying (RETRY_POLICY lib) call of
        Inl e \<Rightarrow> Inl (if authentication_error lib e then Exchange_auth_error else transport_error lib e)
      | Inr balance \<Rightarrow> Inr balance))"

subsection \<open>Symbol utilities and health\<close>

definition get_supported_symbols :: "exchange_fetcher \<Rightarrow> symbol list" where
  "get_supported_symbols f = map fst (ef_markets f)"

definition is_symbol_supported :: "symbol \<Rightarrow> exchange_fetcher \<Rightarrow> bool" where
  "is_symbol_supported s f \<longleftrightarrow> s \<in> fst ` set (ef_markets f)"

text \<open>\<open>market.get("limits", {}).get("amount", {}).get("min")\<close> and its like: a missing key reads as an
  empty dictionary.\<close>

definition get_or_empty :: "'k \<Rightarrow> ('k, ('j, 'v) dict) dict \<Rightarrow> ('j, 'v) dict" where
  "get_or_empty k d = (case map_of d k of None \<Rightarrow> [] | Some x \<Rightarrow> x)"

definition get_value :: "'k \<Rightarrow> ('k, 'v option) dict \<Rightarrow> 'v option" where
  "get_value k d = (case map_of d k of None \<Rightarrow> None | Some x \<Rightarrow> x)"

definition get_min_order_size :: "symbol \<Rightarrow> exchange_fetcher \<Rightarrow> rat option" where
  "get_min_order_size s f = (case map_of (ef_markets f) s of None \<Rightarrow> None
     | Some m \<Rightarrow> (case mi_limits m of None \<Rightarrow> None
         | Some l \<Rightarrow> get_value ''min'' (get_or_empty ''amount'' l)))"

definition get_price_precision :: "symbol \<Rightarrow> exchange_fetcher \<Rightarrow> rat option" where
  "get_price_precision s f = (case map_of (ef_markets f) s of None \<Rightarrow> None
     | Some m \<Rightarrow> (case mi_precision m of None \<Rightarrow> None | Some p \<Rightarrow> get_value ''price'' p))"

text \<open>\<open>ping\<close>: with no client the attribute access raises, which the handler catches too.\<close>

definition ping_fetcher :: "'e + int \<Rightarrow> exchange_fetcher \<Rightarrow> bool" where
  "ping_fetcher fetched_time f \<longleftrightarrow> ef_exchange f \<and> \<not> isl fetched_time"

subsection \<open>Facts\<close>

lemma fetch_guards_iff: "fetch_guards s f = Inr () \<longleftrightarrow> ef_connected f \<and> ef_exchange f \<and>
    (ef_markets f = [] \<or> is_symbol_supported s f)"
  by (auto simp: fetch_guards_def assert_connected_def assert_symbol_supported_def is_symbol_supported_def)

lemma fetch_guards_cases: "fetch_guards s f = Inr () \<or> (\<exists>m. fetch_guards s f = Inl (Exchange_connection_error m))"
  by (auto simp: fetch_guards_def assert_connected_def assert_symbol_supported_def)

text \<open>Credentials reach the client together or not at all.\<close>

lemma exchange_config_credentials:
  "cc_api_key (exchange_config s) = None \<longleftrightarrow> cc_secret (exchange_config s) = None"
  by (auto simp: exchange_config_def Let_def given_secret_def)

text \<open>A connection attempt that fails leaves the connection flag as it was.\<close>

lemma connect_fetcher_connected:
  assumes "connect_fetcher lib known load f = (r, f')"
  shows "ef_connected f' = (ef_connected f \<or> \<not> isl r)" "\<not> isl r \<Longrightarrow> ef_exchange f'"
  using assms by (auto simp: connect_fetcher_def Let_def split: if_splits sum.splits)

text \<open>Under the documented behaviour the decorator gives what some attempt gave.\<close>

lemma some_attempt_decides:
  assumes "0 < rp_attempts p"
  shows "\<exists>k. decides p call k"
proof -
  define bad where "bad = (\<lambda>k. \<exists>e. call k = Inl e \<and> rp_retry p e)"
  have stop: "decides p call k" if "k < rp_attempts p" "\<forall>j<k. bad j" "\<not> bad k \<or> Suc k = rp_attempts p" for k
    using that by (auto simp: decides_def bad_def split: sum.split)
  show ?thesis
  proof (cases "\<forall>k<rp_attempts p. bad k")
    case True
    then have "decides p call (rp_attempts p - 1)" using assms by (intro stop) auto
    then show ?thesis by (rule exI)
  next
    case False
    define k where "k = (LEAST k. \<not> bad k)"
    obtain i where i: "i < rp_attempts p" "\<not> bad i" using False by blast
    have "\<not> bad k" using LeastI [of "\<lambda>k. \<not> bad k", OF i(2)] by (simp add: k_def)
    moreover have "k \<le> i" using Least_le [of "\<lambda>k. \<not> bad k", OF i(2)] by (simp add: k_def)
    moreover have "bad j" if "j < k" for j using that not_less_Least by (fastforce simp: k_def)
    ultimately show ?thesis using stop [of k] i(1) by auto
  qed
qed

abbreviation transient :: "'e ccxt \<Rightarrow> 'e \<Rightarrow> bool" where
  "transient lib \<equiv> rp_retry (RETRY_POLICY lib)"

lemma retried:
  assumes "retries_as_documented retrying"
  obtains k where "k < 5" "\<forall>j<k. \<exists>e. call j = Inl e \<and> transient lib e"
    "retrying (RETRY_POLICY lib) call = call k" "\<And>e. call k = Inl e \<Longrightarrow> transient lib e \<Longrightarrow> k = 4"
proof -
  obtain k where k: "decides (RETRY_POLICY lib) call k"
    using some_attempt_decides [of "RETRY_POLICY lib" call] by (auto simp: RETRY_POLICY_def)
  moreover have "retrying (RETRY_POLICY lib) call = call k"
    using assms k by (simp add: retries_as_documented_def RETRY_POLICY_def)
  ultimately show ?thesis
    by (intro that [of k]) (auto simp: decides_def, auto simp: RETRY_POLICY_def)
qed

lemma fetch_ohlcv_rows:
  assumes "fetch_ohlcv lib retrying call now s tf f = Inr cs"
  shows "cs \<noteq> [] \<and> (\<forall>c\<in>set cs. candle_ok c \<and> oc_symbol c = s \<and> oc_timeframe c = tf)"
proof -
  obtain raw where raw: "raw \<noteq> []" "map_ok (\<lambda>row. candle_from_ccxt now row s tf) raw = Inr cs"
    using assms by (auto simp: fetch_ohlcv_def split: sum.splits if_splits)
  have all: "list_all2 (\<lambda>row c. candle_from_ccxt now row s tf = Inr c) raw cs" using map_ok_InrD [OF raw(2)] .
  then have "cs \<noteq> []" using raw(1) by auto
  moreover have "candle_ok c \<and> oc_symbol c = s \<and> oc_timeframe c = tf" if "c \<in> set cs" for c
    using all that candle_from_ccxt_ok by (fastforce simp: list_all2_conv_all_nth in_set_conv_nth)
  ultimately show ?thesis by simp
qed

text \<open>A decorator that does what the documentation says, to run the model with.\<close>

fun retry_from :: "'e retry_policy \<Rightarrow> (nat \<Rightarrow> 'e + 'a) \<Rightarrow> nat \<Rightarrow> nat \<Rightarrow> 'e + 'a" where
  "retry_from p call n 0 = call n"
| "retry_from p call n (Suc left) = (case call n of Inr v \<Rightarrow> Inr v
     | Inl e \<Rightarrow> if rp_retry p e then retry_from p call (Suc n) left else Inl e)"

definition retry_loop :: "('e, 'a) retrier" where
  "retry_loop p call = retry_from p call 0 (rp_attempts p - 1)"

lemma retry_from_skips:
  "\<forall>j<k. \<exists>e. call (n + j) = Inl e \<and> rp_retry p e \<Longrightarrow> k \<le> left \<Longrightarrow>
    retry_from p call n left = retry_from p call (n + k) (left - k)"
proof (induction k arbitrary: n left)
  case (Suc k)
  obtain l where l: "left = Suc l" using Suc.prems(2) by (cases left) auto
  have "\<exists>e. call (n + 0) = Inl e \<and> rp_retry p e" using Suc.prems(1) by blast
  moreover have "\<forall>j<k. \<exists>e. call (Suc n + j) = Inl e \<and> rp_retry p e"
    using Suc.prems(1) by (metis Suc_less_eq add_Suc add_Suc_right)
  ultimately show ?case using Suc.IH [of "Suc n" l] Suc.prems(2) by (auto simp: l)
qed simp

lemma retry_loop_documented: "retries_as_documented retry_loop"
  unfolding retries_as_documented_def
proof (intro allI impI)
  fix p call k
  assume d: "decides p call k"
  then have "retry_loop p call = retry_from p call k (rp_attempts p - 1 - k)"
    using retry_from_skips [of k call 0 p "rp_attempts p - 1"] by (auto simp: retry_loop_def decides_def)
  also have "\<dots> = call k"
    using d by (cases "rp_attempts p - 1 - k") (auto simp: decides_def split: sum.splits)
  finally show "retry_loop p call = call k" .
qed

text \<open>A fetch of candles gives up only after five attempts. Under the documented behaviour of
  the retry decorator, a fetch that passes the guards takes the answer of the first attempt that is
  not a transient network failure: its rows as candles, or its error translated. A transient failure
  is reported only when it is the fifth, and when it is one of CCXT's network errors it surfaces as
  an error of the market data branch, never as a raw exception of the library.\<close>

theorem fetch_ohlcv_retries:
  assumes "retries_as_documented retrying" "fetch_guards s f = Inr ()"
  shows "\<exists>k<5. (\<forall>j<k. \<exists>e. call j = Inl e \<and> transient lib e) \<and>
    (case call k of
       Inr raw \<Rightarrow> fetch_ohlcv lib retrying call now s tf f =
         (if raw = [] then Inl (Insufficient_data_error 1 0 (''OHLCV['' @ s @ ''/'' @ tf @ '']''))
          else map_ok (\<lambda>row. candle_from_ccxt now row s tf) raw)
     | Inl e \<Rightarrow> fetch_ohlcv lib retrying call now s tf f = Inl (ohlcv_error lib s e) \<and>
         (transient lib e \<longrightarrow> k = 4) \<and>
         (network_error lib e \<longrightarrow> error_class (ohlcv_error lib s e) = Market_data_branch))"
proof -
  obtain k where k: "k < 5" "\<forall>j<k. \<exists>e. call j = Inl e \<and> transient lib e"
    "retrying (RETRY_POLICY lib) call = call k" "\<And>e. call k = Inl e \<Longrightarrow> transient lib e \<Longrightarrow> k = 4"
    using retried [OF assms(1)] by blast
  show ?thesis
    using k assms(2) by (intro exI [of _ k]) (auto simp: fetch_ohlcv_def ohlcv_error_def split: sum.split)
qed

text \<open>Two timeouts and then an answer.\<close>

definition demo_ccxt :: "nat ccxt" where
  "demo_ccxt = \<lparr>network_error = (\<lambda>e. e < 10), request_timeout = (\<lambda>e. e = 1),
     exchange_not_available = (\<lambda>e. e = 2), ddos_protection = (\<lambda>e. e = 3),
     rate_limit_exceeded = (\<lambda>e. e = 4), bad_symbol = (\<lambda>e. e = 11), authentication_error = (\<lambda>e. e = 12),
     error_text = (\<lambda>e. ''failed''), escape = (\<lambda>e. Runtime_error ''other'')\<rparr>"

definition demo_fetcher :: exchange_fetcher where
  "demo_fetcher = \<lparr>ef_settings = default_exchange_settings, ef_orderbook_depth = 20,
     ef_exchange = True, ef_markets = [], ef_connected = True\<rparr>"

definition demo_call :: "nat \<Rightarrow> nat + raw_rows" where
  "demo_call n = (if n < 2 then Inl 1 else Inr [[Some 0, Some 2, Some 3, Some 1, Some 2, Some 5]])"

theorem fetch_ohlcv_retries_witness:
  "\<exists>k<5. (\<forall>j<k. \<exists>e. demo_call j = Inl e \<and> transient demo_ccxt e) \<and>
    (case demo_call k of
       Inr raw \<Rightarrow> fetch_ohlcv demo_ccxt retry_loop demo_call 0 ''X'' ''1m'' demo_fetcher =
         (if raw = [] then Inl (Insufficient_data_error 1 0 (''OHLCV['' @ ''X'' @ ''/'' @ ''1m'' @ '']''))
          else map_ok (\<lambda>row. candle_from_ccxt 0 row ''X'' ''1m'') raw)
     | Inl e \<Rightarrow> fetch_ohlcv demo_ccxt retry_loop demo_call 0 ''X'' ''1m'' demo_fetcher = Inl (ohlcv_error demo_ccxt ''X'' e) \<and>
         (transient demo_ccxt e \<longrightarrow> k = 4) \<and>
         (network_error demo_ccxt e \<longrightarrow> error_class (ohlcv_error demo_ccxt ''X'' e) = Market_data_branch))"
  by (rule fetch_ohlcv_retries) (simp_all add: retry_loop_documented fetch_guards_iff demo_fetcher_def)

text \<open>The third attempt's row is the candle returned.\<close>

lemma demo_fetch: "map_sum id (map oc_close) (fetch_ohlcv demo_ccxt retry_loop demo_call 0 ''X'' ''1m'' demo_fetcher) = Inr [2]"
  by code_simp

end
