(* ===== verification/Data_Sources.thy ===== *)
theory Data_Sources
  imports Fetcher Market_Data_Agent
begin

text \<open>
  The market-data layer (\<open>data_sources/\<close>): the choice of a source, the keyless exchange source over the
  fetcher, the MetaTrader 5 source, and the contract both keep. The MetaTrader5 package is not part of
  the program: a record of what its functions return. The contract is the locale \<open>candle_source\<close>; the
  market data agent's facts are proved in it and hold for every source the program can choose.
\<close>

record data_source_capabilities =
  dsc_name :: string
  dsc_is_live :: bool
  dsc_is_keyless :: bool
  dsc_requires_local_terminal :: bool

subsection \<open>The MetaTrader 5 source\<close>

definition DEFAULT_SYMBOL_MAP :: "(symbol, string) dict" where
  "DEFAULT_SYMBOL_MAP = [(''BTC/USDT'', ''BTCUSD''), (''ETH/USDT'', ''ETHUSD''), (''BTC/USD'', ''BTCUSD''),
     (''ETH/USD'', ''ETHUSD'')]"

record mt5_rate =
  mr_time :: int
  mr_open :: rat
  mr_high :: rat
  mr_low :: rat
  mr_close :: rat
  mr_tick_volume :: int
  mr_real_volume :: int

record mt5_tick =
  mtk_last :: rat
  mtk_bid :: rat
  mtk_ask :: rat

datatype mt5_timeframe = TIMEFRAME_M1 | TIMEFRAME_M5 | TIMEFRAME_M15 | TIMEFRAME_H1 | TIMEFRAME_H4 | TIMEFRAME_D1

record mt5_terminal =
  mtt_importable :: bool
  mtt_initialize :: bool
  mtt_rates :: "string \<Rightarrow> mt5_timeframe \<Rightarrow> int \<Rightarrow> mt5_rate list option"
  mtt_tick :: "string \<Rightarrow> mt5_tick option"

record mt5_source =
  mso_loaded :: bool
  mso_connected :: bool
  mso_symbol_map :: "(symbol, string) dict"

definition new_mt5_source :: "(symbol, string) dict option \<Rightarrow> mt5_source" where
  "new_mt5_source m = \<lparr>mso_loaded = False, mso_connected = False,
     mso_symbol_map = (case m of None \<Rightarrow> DEFAULT_SYMBOL_MAP | Some d \<Rightarrow> if d = [] then DEFAULT_SYMBOL_MAP else d)\<rparr>"

definition mt5_is_available :: "mt5_terminal \<Rightarrow> bool" where
  "mt5_is_available t = mtt_importable t"

definition source_map_symbol :: "symbol \<Rightarrow> mt5_source \<Rightarrow> string" where
  "source_map_symbol s src = (case map_of (mso_symbol_map src) s of Some b \<Rightarrow> b
     | None \<Rightarrow> filter (\<lambda>c. c \<noteq> CHR ''/'') s)"

definition TIMEFRAME_TABLE :: "(string, mt5_timeframe) dict" where
  "TIMEFRAME_TABLE = [(''1m'', TIMEFRAME_M1), (''5m'', TIMEFRAME_M5), (''15m'', TIMEFRAME_M15),
     (''1h'', TIMEFRAME_H1), (''4h'', TIMEFRAME_H4), (''1d'', TIMEFRAME_D1)]"

text \<open>Every operation may import the package on its first use.\<close>

definition require_module :: "mt5_terminal \<Rightarrow> mt5_source \<Rightarrow> (error + unit) \<times> mt5_source" where
  "require_module t src = (if mso_loaded src then (Inr (), src)
     else if mtt_importable t then (Inr (), src\<lparr>mso_loaded := True\<rparr>)
     else (Inl (Exchange_connection_error ''MetaTrader5 package is not installed''), src))"

definition mt5_timeframe_of :: "string \<Rightarrow> error + mt5_timeframe" where
  "mt5_timeframe_of tf = (case map_of TIMEFRAME_TABLE tf of Some c \<Rightarrow> Inr c
     | None \<Rightarrow> Inl (Exchange_connection_error (''MT5Source: unsupported timeframe '' @ tf)))"

definition connect_mt5 :: "mt5_terminal \<Rightarrow> mt5_source \<Rightarrow> (error + unit) \<times> mt5_source" where
  "connect_mt5 t src = (case require_module t src of
     (Inl e, src1) \<Rightarrow> (Inl e, src1)
   | (Inr _, src1) \<Rightarrow> if \<not> mtt_initialize t
       then (Inl (Exchange_connection_error ''MT5 initialize() failed''), src1)
       else (Inr (), src1\<lparr>mso_connected := True\<rparr>))"

definition disconnect_mt5 :: "mt5_source \<Rightarrow> mt5_source" where
  "disconnect_mt5 src = (if mso_loaded src \<and> mso_connected src then src\<lparr>mso_connected := False\<rparr> else src)"

definition candle_of_rate :: "time \<Rightarrow> symbol \<Rightarrow> string \<Rightarrow> mt5_rate \<Rightarrow> error + candle" where
  "candle_of_rate now s tf r = validate_ohlcv_consistency
     \<lparr>oc_symbol = s, oc_timeframe = tf, oc_timestamp = mr_time r * 10 ^ 6,
      oc_open = dec_of_float (mr_open r), oc_high = dec_of_float (mr_high r),
      oc_low = dec_of_float (mr_low r), oc_close = dec_of_float (mr_close r),
      oc_volume = of_int (if mr_real_volume r \<noteq> 0 then mr_real_volume r else mr_tick_volume r),
      oc_quote_volume = None, oc_is_closed = True, oc_received_at = now\<rparr>"

definition mt5_fetch_ohlcv ::
  "mt5_terminal \<Rightarrow> time \<Rightarrow> symbol \<Rightarrow> string \<Rightarrow> int \<Rightarrow> mt5_source \<Rightarrow> (error + candle list) \<times> mt5_source" where
  "mt5_fetch_ohlcv t now s tf count src = (case require_module t src of
     (Inl e, src1) \<Rightarrow> (Inl e, src1)
   | (Inr _, src1) \<Rightarrow> (case mt5_timeframe_of tf of
         Inl e \<Rightarrow> Inl e
       | Inr code \<Rightarrow> (case mtt_rates t (source_map_symbol s src1) code count of
           None \<Rightarrow> Inl (Exchange_connection_error ''MT5 copy_rates_from_pos returned no data'')
         | Some rates \<Rightarrow> if rates = []
             then Inl (Exchange_connection_error ''MT5 copy_rates_from_pos returned no data'')
             else map_ok (candle_of_rate now s tf) rates), src1))"

definition mt5_fetch_ticker ::
  "mt5_terminal \<Rightarrow> time \<Rightarrow> symbol \<Rightarrow> mt5_source \<Rightarrow> (error + ticker) \<times> mt5_source" where
  "mt5_fetch_ticker t now s src = (case require_module t src of
     (Inl e, src1) \<Rightarrow> (Inl e, src1)
   | (Inr _, src1) \<Rightarrow> (case mtt_tick t (source_map_symbol s src1) of
         None \<Rightarrow> Inl (Exchange_connection_error ''MT5 symbol_info_tick failed'')
       | Some k \<Rightarrow> Inr \<lparr>tk_symbol = s, tk_timestamp = now,
           tk_last = dec_of_float (if mtk_last k \<noteq> 0 then mtk_last k else if mtk_bid k \<noteq> 0 then mtk_bid k else mtk_ask k),
           tk_bid = truthy_decimal (Some (mtk_bid k)), tk_ask = truthy_decimal (Some (mtk_ask k)),
           tk_high_24h = None, tk_low_24h = None, tk_volume_24h = None, tk_change_24h_pct = None\<rparr>, src1))"

subsection \<open>A data source\<close>

text \<open>The two classes behind the interface. The environment of an operation holds both libraries.\<close>

datatype data_source = Public_exchange_source exchange_fetcher | Mt5_source mt5_source

record 'e source_env =
  se_ccxt :: "'e ccxt"
  se_retrying_rows :: "('e, raw_rows) retrier"
  se_retrying_ticker :: "('e, raw_ticker) retrier"
  se_known :: "string \<Rightarrow> bool"
  se_load :: "client_config \<Rightarrow> 'e + markets"
  se_rows :: "symbol \<Rightarrow> string \<Rightarrow> int \<Rightarrow> int option \<Rightarrow> nat \<Rightarrow> 'e + raw_rows"
  se_ticker :: "symbol \<Rightarrow> nat \<Rightarrow> 'e + raw_ticker"
  se_time :: "'e + int"
  se_close_error :: "error option"
  se_terminal :: mt5_terminal
  se_now :: time

fun source_capabilities :: "data_source \<Rightarrow> data_source_capabilities" where
  "source_capabilities (Public_exchange_source f) = \<lparr>dsc_name = xs_name (ef_settings f), dsc_is_live = True,
     dsc_is_keyless = True, dsc_requires_local_terminal = False\<rparr>"
| "source_capabilities (Mt5_source m) = \<lparr>dsc_name = ''mt5'', dsc_is_live = True, dsc_is_keyless = False,
     dsc_requires_local_terminal = True\<rparr>"

fun source_name :: "data_source \<Rightarrow> string" where
  "source_name (Public_exchange_source f) = xs_name (ef_settings f)"
| "source_name (Mt5_source m) = ''mt5''"

fun source_is_sandbox :: "data_source \<Rightarrow> bool" where
  "source_is_sandbox (Public_exchange_source f) = xs_sandbox (ef_settings f)"
| "source_is_sandbox (Mt5_source m) = False"

fun source_connect :: "'e source_env \<Rightarrow> data_source \<Rightarrow> (error + unit) \<times> data_source" where
  "source_connect env (Public_exchange_source f) =
     (case connect_fetcher (se_ccxt env) (se_known env) (se_load env) f of (r, f') \<Rightarrow> (r, Public_exchange_source f'))"
| "source_connect env (Mt5_source m) = (case connect_mt5 (se_terminal env) m of (r, m') \<Rightarrow> (r, Mt5_source m'))"

fun source_disconnect :: "'e source_env \<Rightarrow> data_source \<Rightarrow> (error + unit) \<times> data_source" where
  "source_disconnect env (Public_exchange_source f) =
     (case disconnect_fetcher (se_close_error env) f of (r, f') \<Rightarrow> (r, Public_exchange_source f'))"
| "source_disconnect env (Mt5_source m) = (Inr (), Mt5_source (disconnect_mt5 m))"

fun source_fetch_ohlcv ::
  "'e source_env \<Rightarrow> symbol \<Rightarrow> string \<Rightarrow> int \<Rightarrow> int option \<Rightarrow> data_source \<Rightarrow> (error + candle list) \<times> data_source" where
  "source_fetch_ohlcv env s tf count since (Public_exchange_source f) =
     (fetch_ohlcv (se_ccxt env) (se_retrying_rows env) (se_rows env s tf count since) (se_now env) s tf f,
      Public_exchange_source f)"
| "source_fetch_ohlcv env s tf count since (Mt5_source m) =
     (case mt5_fetch_ohlcv (se_terminal env) (se_now env) s tf count m of (r, m') \<Rightarrow> (r, Mt5_source m'))"

fun source_fetch_ticker :: "'e source_env \<Rightarrow> symbol \<Rightarrow> data_source \<Rightarrow> (error + ticker) \<times> data_source" where
  "source_fetch_ticker env s (Public_exchange_source f) =
     (fetch_ticker (se_ccxt env) (se_retrying_ticker env) (se_ticker env s) (se_now env) s f, Public_exchange_source f)"
| "source_fetch_ticker env s (Mt5_source m) =
     (case mt5_fetch_ticker (se_terminal env) (se_now env) s m of (r, m') \<Rightarrow> (r, Mt5_source m'))"

text \<open>The default \<open>ping\<close> fetches one candle of a fixed feed; the exchange source asks for the time.\<close>

fun source_ping :: "'e source_env \<Rightarrow> data_source \<Rightarrow> bool \<times> data_source" where
  "source_ping env (Public_exchange_source f) = (ping_fetcher (se_time env) f, Public_exchange_source f)"
| "source_ping env (Mt5_source m) = (case source_fetch_ohlcv env ''BTC/USDT'' ''1m'' 1 None (Mt5_source m) of
     (r, src) \<Rightarrow> (\<not> isl r, src))"

subsection \<open>Choosing the source\<close>

definition ascii_lower :: "char \<Rightarrow> char" where
  "ascii_lower c = (let n = of_char c :: int in if 65 \<le> n \<and> n \<le> 90 then char_of (n + 32) else c)"

definition is_space :: "char \<Rightarrow> bool" where
  "is_space c = (let n = of_char c :: int in n = 32 \<or> (9 \<le> n \<and> n \<le> 13) \<or> (28 \<le> n \<and> n \<le> 31))"

definition strip_text :: "string \<Rightarrow> string" where
  "strip_text t = rev (dropWhile is_space (rev (dropWhile is_space t)))"

text \<open>\<open>(choice or "public").strip().lower()\<close>, on ASCII text.\<close>

definition source_choice :: "string \<Rightarrow> string" where
  "source_choice choice = map ascii_lower (strip_text (if choice = [] then ''public'' else choice))"

definition get_data_source :: "string \<Rightarrow> bool \<Rightarrow> exchange_settings \<Rightarrow> int \<Rightarrow> data_source" where
  "get_data_source choice available xs depth =
    (let public = Public_exchange_source (new_exchange_fetcher xs depth); c = source_choice choice in
     if c = ''public'' then public
     else if c = ''mt5'' then Mt5_source (new_mt5_source None)
     else if c = ''auto'' then (if available then Mt5_source (new_mt5_source None) else public)
     else public)"

subsection \<open>Facts\<close>

lemma candle_of_rate_ok:
  assumes "candle_of_rate now s tf r = Inr c"
  shows "candle_ok c" "oc_symbol c = s" "oc_timeframe c = tf"
  using assms by (auto simp: candle_of_rate_def validate_ohlcv_iff)

lemma mt5_fetch_ohlcv_rows:
  assumes "mt5_fetch_ohlcv t now s tf count src = (Inr cs, src')"
  shows "cs \<noteq> [] \<and> (\<forall>c\<in>set cs. candle_ok c \<and> oc_symbol c = s \<and> oc_timeframe c = tf)"
proof -
  obtain rates where r: "rates \<noteq> []" "map_ok (candle_of_rate now s tf) rates = Inr cs"
    using assms by (auto simp: mt5_fetch_ohlcv_def split: prod.splits sum.splits option.splits if_splits)
  have all: "list_all2 (\<lambda>r c. candle_of_rate now s tf r = Inr c) rates cs" using map_ok_InrD [OF r(2)] .
  then have "cs \<noteq> []" using r(1) by auto
  moreover have "candle_ok c \<and> oc_symbol c = s \<and> oc_timeframe c = tf" if "c \<in> set cs" for c
    using all that candle_of_rate_ok by (fastforce simp: list_all2_conv_all_nth in_set_conv_nth)
  ultimately show ?thesis by simp
qed

text \<open>The source is a local terminal only when it was asked for, or found under \<open>auto\<close>; a name the
  program does not know gives the keyless default.\<close>

lemma local_terminal_only_on_request:
  "dsc_requires_local_terminal (source_capabilities (get_data_source choice available xs depth)) \<longleftrightarrow>
    source_choice choice = ''mt5'' \<or> source_choice choice = ''auto'' \<and> available"
  by (auto simp: get_data_source_def Let_def)

lemma default_choice: "source_choice [] = ''public''" "source_choice '' Public '' = ''public''"
  by code_simp+

text \<open>A source that failed to connect refuses every fetch of a fetcher; the MetaTrader source does not
  look at its connection flag.\<close>

lemma unconnected_fetch_refused:
  "fetch_ohlcv lib retrying call now s tf (new_exchange_fetcher xs depth) =
    Inl (Exchange_connection_error ''ExchangeFetcher not connected'')"
  by (simp add: fetch_ohlcv_def fetch_guards_def assert_connected_def new_exchange_fetcher_def)

subsection \<open>The contract of a source\<close>

locale candle_source =
  fixes fetch :: "symbol \<Rightarrow> string \<Rightarrow> int \<Rightarrow> int option \<Rightarrow> 's \<Rightarrow> (error + candle list) \<times> 's"
  assumes fetched: "fetch s tf count since src = (Inr cs, src') \<Longrightarrow>
    cs \<noteq> [] \<and> (\<forall>c\<in>set cs. candle_ok c \<and> oc_symbol c = s \<and> oc_timeframe c = tf)"
begin

text \<open>What the agent makes of a fetch: valid, closed candles of the feed it asked for.\<close>

lemma ingested:
  assumes "fe_fetched env = fst (fetch s tf count since src)" "fe_fetched env = Inr cs"
    "ingest env cs ag = (out, ag')" "c \<in> set out"
  shows "candle_ok c \<and> oc_symbol c = s \<and> oc_timeframe c = tf \<and> c \<in> set (closed_candles (fe_now env) cs)"
proof -
  have "fetch s tf count since src = (Inr cs, snd (fetch s tf count since src))"
    using assms(1,2) by (metis prod.collapse)
  from fetched [OF this] have "\<forall>c\<in>set cs. candle_ok c \<and> oc_symbol c = s \<and> oc_timeframe c = tf" by blast
  moreover have cl: "c \<in> set (closed_candles (fe_now env) cs)" using ingest_closed [OF assms(3,4)] .
  moreover have "c \<in> set cs" using cl by (simp add: closed_candles_def)
  ultimately show ?thesis by blast
qed

lemma polled:
  assumes "fe_fetched env = fst (fetch s tf count since src)" "poll_ohlcv env tf ag = (out, wait, ag')" "c \<in> set out"
  shows "candle_ok c \<and> oc_symbol c = s \<and> oc_timeframe c = tf \<and>
    (\<exists>cs. fe_fetched env = Inr cs \<and> c \<in> set (closed_candles (fe_now env) cs))"
proof -
  obtain cs ag1 where cs: "fe_fetched env = Inr cs" "ingest env cs ag = (out, ag1)"
    using assms(2,3) by (auto simp: poll_ohlcv_def Let_def split: if_splits sum.splits prod.splits)
  from ingested [OF assms(1) cs assms(3)] cs(1) show ?thesis by blast
qed

lemma warmed_up:
  assumes "\<And>s tf. fe_fetched (env (s, tf)) = fst (fetch s tf count since (src (s, tf)))" "warmup_pairs env ps ag = (out, ag')" "c \<in> set out"
  shows "candle_ok c \<and> (oc_symbol c, oc_timeframe c) \<in> set ps"
  using assms(2,3)
proof (induction ps arbitrary: ag out)
  case (Cons p ps)
  obtain s tf where p: "p = (s, tf)" by (cases p)
  show ?case
  proof (cases "fe_fetched (env p)")
    case (Inl e)
    then show ?thesis using Cons by auto
  next
    case (Inr cs)
    obtain o1 ag1 where i: "ingest (env p) cs ag = (o1, ag1)" by (cases "ingest (env p) cs ag")
    obtain o2 ag2 where w: "warmup_pairs env ps ag1 = (o2, ag2)" by (cases "warmup_pairs env ps ag1")
    have "c \<in> set o1 \<or> c \<in> set o2" using Cons.prems Inr i w by auto
    then show ?thesis
      using ingested [OF assms(1), of s tf cs ag o1 ag1 c] Inr i Cons.IH [of ag1 o2] Cons.prems(1) w
      by (auto simp: p)
  qed
qed simp

end

lemma source_fetch_contract:
  assumes "source_fetch_ohlcv env s tf count since src = (Inr cs, src')"
  shows "cs \<noteq> [] \<and> (\<forall>c\<in>set cs. candle_ok c \<and> oc_symbol c = s \<and> oc_timeframe c = tf)"
proof (cases src)
  case (Public_exchange_source f)
  then show ?thesis using assms by (auto dest: fetch_ohlcv_rows)
next
  case (Mt5_source m)
  obtain m' where "mt5_fetch_ohlcv (se_terminal env) (se_now env) s tf count m = (Inr cs, m')"
    using assms Mt5_source by (auto split: prod.splits)
  from mt5_fetch_ohlcv_rows [OF this] show ?thesis .
qed

interpretation configured: candle_source "source_fetch_ohlcv env" for env
  by unfold_locales (rule source_fetch_contract)

text \<open>Whatever source the configuration selects, and whatever it returns, the market data agent
  publishes only candles that are consistent (low and high enclose open and close, no negative
  volume), that belong to the feed it polled, that came with this fetch and whose interval has
  ended. Errors of either library reach the agent as exceptions, never as candles.\<close>

theorem polled_candles_sound:
  assumes "fe_fetched env = fst (source_fetch_ohlcv senv s tf count since src)"
    and "poll_ohlcv env tf ag = (out, wait, ag')" "c \<in> set out"
  shows "candle_ok c \<and> oc_symbol c = s \<and> oc_timeframe c = tf \<and>
    (\<exists>cs. fe_fetched env = Inr cs \<and> c \<in> set cs) \<and>
    (\<forall>n. map_of TIMEFRAME_SECONDS tf = Some n \<longrightarrow> oc_timestamp c + n * 10 ^ 6 \<le> fe_now env)"
  using configured.polled [OF assms] by (auto simp: closed_candles_def)

text \<open>A terminal with one closed and one forming bar, under the choice \<open>mt5\<close>.\<close>

definition demo_terminal :: mt5_terminal where
  "demo_terminal = \<lparr>mtt_importable = True, mtt_initialize = True,
     mtt_rates = (\<lambda>b code n. Some (map (\<lambda>i. \<lparr>mr_time = 60 * i, mr_open = 2, mr_high = 3, mr_low = 1, mr_close = 2,
        mr_tick_volume = 4, mr_real_volume = 0\<rparr>) [0, 1])),
     mtt_tick = (\<lambda>b. None)\<rparr>"

definition demo_source_env :: "nat source_env" where
  "demo_source_env = \<lparr>se_ccxt = demo_ccxt, se_retrying_rows = retry_loop, se_retrying_ticker = retry_loop,
     se_known = (\<lambda>n. True), se_load = (\<lambda>c. Inl 1), se_rows = (\<lambda>s tf n since k. Inl 1),
     se_ticker = (\<lambda>s k. Inl 1), se_time = Inl 1, se_close_error = None, se_terminal = demo_terminal,
     se_now = 90 * 10 ^ 6\<rparr>"

definition demo_source :: data_source where
  "demo_source = get_data_source '' MT5'' True default_exchange_settings 20"

definition demo_fetched :: "error + candle list" where
  "demo_fetched = fst (source_fetch_ohlcv demo_source_env ''BTC/USDT'' ''1m'' 3 None demo_source)"

definition demo_fetch_env :: fetch_env where
  "demo_fetch_env = \<lparr>fe_fetched = demo_fetched, fe_now = 90 * 10 ^ 6, fe_publish_ok = (\<lambda>c. True),
     fe_persist_ok = (\<lambda>c. True)\<rparr>"

definition demo_bar :: candle where
  "demo_bar = \<lparr>oc_symbol = ''BTC/USDT'', oc_timeframe = ''1m'', oc_timestamp = 0, oc_open = 2, oc_high = 3,
     oc_low = 1, oc_close = 2, oc_volume = 4, oc_quote_volume = None, oc_is_closed = True,
     oc_received_at = 90 * 10 ^ 6\<rparr>"

definition demo_market_agent :: market_agent where
  "demo_market_agent = (let ag = new_market_agent default_settings
     in ag\<lparr>ma_base := (ma_base ag)\<lparr>ba_status := RUNNING\<rparr>\<rparr>)"

lemma demo_poll: "fst (poll_ohlcv demo_fetch_env ''1m'' demo_market_agent) = [demo_bar]"
  by code_simp

theorem polled_candles_sound_witness:
  "candle_ok demo_bar \<and> oc_symbol demo_bar = ''BTC/USDT'' \<and> oc_timeframe demo_bar = ''1m'' \<and>
    (\<exists>cs. fe_fetched demo_fetch_env = Inr cs \<and> demo_bar \<in> set cs) \<and>
    (\<forall>n. map_of TIMEFRAME_SECONDS ''1m'' = Some n \<longrightarrow> oc_timestamp demo_bar + n * 10 ^ 6 \<le> fe_now demo_fetch_env)"
proof (rule polled_candles_sound)
  show "fe_fetched demo_fetch_env = fst (source_fetch_ohlcv demo_source_env ''BTC/USDT'' ''1m'' 3 None demo_source)"
    by (simp add: demo_fetch_env_def demo_fetched_def)
  let ?r = "poll_ohlcv demo_fetch_env ''1m'' demo_market_agent"
  show "?r = (fst ?r, fst (snd ?r), snd (snd ?r))" by simp
  show "demo_bar \<in> set (fst ?r)" by (simp add: demo_poll)
qed

end
