(* ===== verification/Stream_Handler.thy ===== *)
theory Stream_Handler
  imports Fetcher
begin

text \<open>
  The WebSocket handler (\<open>agents/market_data/websocket_handler.py\<close>): the health record of a stream, starting
  and stopping streams, and the reconnect loop. The loop runs a stream body that may return, raise or
  be cancelled, and reads \<open>_running\<close> anew at each turn; both are functions of the turn, as is whether the
  wait after it was cancelled. The body the repository ships returns at once (\<open>stream_single\<close>).

  Proved here: the loop ends after at most one turn more than the configured reconnections, with
  waits that grow up to a minute; the shipped body never waits and delivers nothing.
\<close>

record stream_health =
  sh_symbol :: symbol
  sh_timeframe :: string
  sh_connected :: bool
  sh_last_message_at :: "time option"
  sh_message_count :: int
  sh_error_count :: int
  sh_reconnect_count :: int

definition new_stream_health :: "symbol \<Rightarrow> string \<Rightarrow> stream_health" where
  "new_stream_health s tf = \<lparr>sh_symbol = s, sh_timeframe = tf, sh_connected = False,
     sh_last_message_at = None, sh_message_count = 0, sh_error_count = 0, sh_reconnect_count = 0\<rparr>"

definition stream_age_seconds :: "time \<Rightarrow> stream_health \<Rightarrow> rat option" where
  "stream_age_seconds now h = map_option (\<lambda>t. seconds (now - t)) (sh_last_message_at h)"

definition record_message :: "time \<Rightarrow> stream_health \<Rightarrow> stream_health" where
  "record_message now h = h\<lparr>sh_message_count := sh_message_count h + 1, sh_last_message_at := Some now\<rparr>"

definition record_stream_error :: "stream_health \<Rightarrow> stream_health" where
  "record_stream_error h = h\<lparr>sh_error_count := sh_error_count h + 1\<rparr>"

record health_dict =
  hd_symbol :: symbol
  hd_timeframe :: string
  hd_connected :: bool
  hd_last_message_age_seconds :: "rat option"
  hd_message_count :: int
  hd_error_count :: int
  hd_reconnect_count :: int

definition health_to_dict :: "time \<Rightarrow> stream_health \<Rightarrow> health_dict" where
  "health_to_dict now h = \<lparr>hd_symbol = sh_symbol h, hd_timeframe = sh_timeframe h,
     hd_connected = sh_connected h, hd_last_message_age_seconds = stream_age_seconds now h,
     hd_message_count = sh_message_count h, hd_error_count = sh_error_count h,
     hd_reconnect_count = sh_reconnect_count h\<rparr>"

subsection \<open>The reconnect loop\<close>

datatype stream_outcome = Stream_returned | Stream_cancelled | Stream_raised

record stream_env =
  sv_running :: "int \<Rightarrow> bool"
  sv_single :: "int \<Rightarrow> stream_health \<Rightarrow> stream_outcome \<times> stream_health"
  sv_slept :: "int \<Rightarrow> bool"

text \<open>How the task ends: a cancelled wait propagates out of the handler.\<close>

datatype stream_exit = Exited | Cancelled_in_wait

text \<open>The wait is \<open>min(delay * 2 ** (attempt - 1), 60.0)\<close>; a power too large for a float is not represented.\<close>

definition reconnect_wait :: "exchange_settings \<Rightarrow> int \<Rightarrow> rat" where
  "reconnect_wait cfg attempt = min (fmul (xs_ws_reconnect_delay cfg) (2 ^ nat (attempt - 1))) 60"

definition note_failure :: "stream_health \<Rightarrow> stream_health" where
  "note_failure h = (let h1 = record_stream_error (h\<lparr>sh_connected := False\<rparr>)
     in h1\<lparr>sh_reconnect_count := sh_reconnect_count h1 + 1\<rparr>)"

function stream_with_reconnect ::
  "exchange_settings \<Rightarrow> stream_env \<Rightarrow> int \<Rightarrow> stream_health \<Rightarrow> rat list \<times> stream_exit \<times> stream_health" where
  "stream_with_reconnect cfg env attempt h =
    (if \<not> (sv_running env attempt \<and> attempt \<le> xs_ws_reconnect_attempts cfg)
     then ([], Exited, h\<lparr>sh_connected := False\<rparr>)
     else case sv_single env attempt (h\<lparr>sh_connected := True\<rparr>) of (outcome, h1) \<Rightarrow>
       (case outcome of
          Stream_returned \<Rightarrow> ([], Exited, h1\<lparr>sh_connected := False\<rparr>)
        | Stream_cancelled \<Rightarrow> ([], Exited, h1\<lparr>sh_connected := False\<rparr>)
        | Stream_raised \<Rightarrow> (let h2 = note_failure h1; attempt' = attempt + 1 in
            if attempt' > xs_ws_reconnect_attempts cfg then ([], Exited, h2\<lparr>sh_connected := False\<rparr>)
            else let wait = reconnect_wait cfg attempt' in
              if \<not> sv_slept env attempt' then ([wait], Cancelled_in_wait, h2)
              else (case stream_with_reconnect cfg env attempt' h2 of (ws, r) \<Rightarrow> (wait # ws, r)))))"
  by pat_completeness auto
termination
  by (relation "measure (\<lambda>(cfg, env, attempt, h). nat (xs_ws_reconnect_attempts cfg + 1 - attempt))") auto

declare stream_with_reconnect.simps [simp del]

text \<open>The body as shipped: it returns without receiving anything.\<close>

definition stream_single :: "int \<Rightarrow> stream_health \<Rightarrow> stream_outcome \<times> stream_health" where
  "stream_single attempt h = (Stream_returned, h)"

subsection \<open>The handler\<close>

text \<open>A task is known by whether it has finished. The reconnect loop works on the stream's health
  object; \<open>finish_stream\<close> is the end of its task.\<close>

record websocket_handler =
  wh_settings :: exchange_settings
  wh_streams :: "(symbol \<times> string, stream_health) dict"
  wh_tasks :: "(symbol \<times> string, bool) dict"
  wh_running :: bool

definition new_websocket_handler :: "exchange_settings \<Rightarrow> websocket_handler" where
  "new_websocket_handler xs = \<lparr>wh_settings = xs, wh_streams = [], wh_tasks = [], wh_running = False\<rparr>"

definition start_stream :: "symbol \<Rightarrow> string \<Rightarrow> websocket_handler \<Rightarrow> websocket_handler" where
  "start_stream s tf w = (if map_of (wh_tasks w) (s, tf) = Some False then w
     else w\<lparr>wh_streams := AList.update (s, tf) (new_stream_health s tf) (wh_streams w),
            wh_running := True, wh_tasks := AList.update (s, tf) False (wh_tasks w)\<rparr>)"

definition finish_stream :: "stream_env \<Rightarrow> symbol \<Rightarrow> string \<Rightarrow> websocket_handler \<Rightarrow> websocket_handler" where
  "finish_stream env s tf w = (case (map_of (wh_tasks w) (s, tf), map_of (wh_streams w) (s, tf)) of
     (Some False, Some h) \<Rightarrow> (case stream_with_reconnect (wh_settings w) env 0 h of (ws, r, h') \<Rightarrow>
         w\<lparr>wh_streams := AList.update (s, tf) h' (wh_streams w), wh_tasks := AList.update (s, tf) True (wh_tasks w)\<rparr>)
   | _ \<Rightarrow> w)"

text \<open>The cancelled loop leaves its stream marked as not connected.\<close>

definition stop_stream :: "symbol \<Rightarrow> string \<Rightarrow> websocket_handler \<Rightarrow> websocket_handler" where
  "stop_stream s tf w =
    (let w1 = (case (map_of (wh_tasks w) (s, tf), map_of (wh_streams w) (s, tf)) of
         (Some False, Some h) \<Rightarrow> w\<lparr>wh_streams := AList.update (s, tf) (h\<lparr>sh_connected := False\<rparr>) (wh_streams w)\<rparr>
       | _ \<Rightarrow> w)
     in w1\<lparr>wh_tasks := AList.delete (s, tf) (wh_tasks w)\<rparr>)"

definition stop_all :: "websocket_handler \<Rightarrow> websocket_handler" where
  "stop_all w = fold (\<lambda>(s, tf). stop_stream s tf) (map fst (wh_tasks w)) (w\<lparr>wh_running := False\<rparr>)"

definition get_health :: "time \<Rightarrow> websocket_handler \<Rightarrow> (string, health_dict) dict" where
  "get_health now w = fold (\<lambda>((s, tf), h). AList.update (s @ ''/'' @ tf) (health_to_dict now h)) (wh_streams w) []"

subsection \<open>Facts\<close>

lemma note_failure_counts [simp]: "sh_reconnect_count (note_failure h) = sh_reconnect_count h + 1"
  "sh_message_count (note_failure h) = sh_message_count h" "\<not> sh_connected (note_failure h)"
  by (simp_all add: note_failure_def record_stream_error_def Let_def)

text \<open>The waits are the first of the schedule that starts after the given attempt.\<close>

lemma stream_waits:
  "stream_with_reconnect cfg env attempt h = (ws, r, h') \<Longrightarrow>
    \<exists>n. ws = map (\<lambda>i. reconnect_wait cfg (attempt + 1 + int i)) [0..<n] \<and>
      (n = 0 \<or> attempt + int n \<le> xs_ws_reconnect_attempts cfg) \<and> \<not> sh_connected h'"
proof (induction cfg env attempt h arbitrary: ws rule: stream_with_reconnect.induct)
  case (1 cfg env attempt h)
  let ?max = "xs_ws_reconnect_attempts cfg"
  show ?case
  proof (cases "sv_running env attempt \<and> attempt \<le> ?max")
    case run: True
    obtain outcome h1 where b: "sv_single env attempt (h\<lparr>sh_connected := True\<rparr>) = (outcome, h1)"
      by (cases "sv_single env attempt (h\<lparr>sh_connected := True\<rparr>)")
    show ?thesis
    proof (cases "outcome = Stream_raised \<and> attempt + 1 \<le> ?max")
      case again: True
      show ?thesis
      proof (cases "sv_slept env (attempt + 1)")
        case True
        obtain ws2 r2 h2 where rec: "stream_with_reconnect cfg env (attempt + 1) (note_failure h1) = (ws2, r2, h2)"
          by (cases "stream_with_reconnect cfg env (attempt + 1) (note_failure h1)")
        have eq: "ws = reconnect_wait cfg (attempt + 1) # ws2" "r2 = r" "h2 = h'"
          using 1(2) run b again True rec by (auto simp: stream_with_reconnect.simps [of cfg env attempt h] Let_def)
        from 1(1) [of outcome h1 "note_failure h1" "attempt + 1" "reconnect_wait cfg (attempt + 1)"]
        obtain n where n: "ws2 = map (\<lambda>i. reconnect_wait cfg (attempt + 2 + int i)) [0..<n]"
          "n = 0 \<or> attempt + 1 + int n \<le> ?max" "\<not> sh_connected h'"
          using run b again True rec eq(2,3) by (auto simp: add.assoc)
        have "ws = map (\<lambda>i. reconnect_wait cfg (attempt + 1 + int i)) [0..<Suc n]"
          unfolding eq n(1) upt_conv_Cons [OF zero_less_Suc] map_Suc_upt [symmetric] by (simp add: algebra_simps)
        then show ?thesis using n again eq by (intro exI [of _ "Suc n"]) auto
      next
        case False
        then show ?thesis
          using 1(2) run b again
          by (intro exI [of _ 1]) (auto simp: stream_with_reconnect.simps [of cfg env attempt h] Let_def)
      qed
    next
      case False
      then show ?thesis
        using 1(2) run b
        by (intro exI [of _ 0], cases outcome)
           (auto simp: stream_with_reconnect.simps [of cfg env attempt h] Let_def split: if_splits)
    qed
  next
    case False
    then show ?thesis
      using 1(2) by (intro exI [of _ 0]) (auto simp: stream_with_reconnect.simps [of cfg env attempt h])
  qed
qed

lemma reconnect_wait_le: "reconnect_wait cfg n \<le> 60"
  by (simp add: reconnect_wait_def)

lemma reconnect_wait_mono:
  assumes "0 \<le> xs_ws_reconnect_delay cfg" "m \<le> n"
  shows "reconnect_wait cfg m \<le> reconnect_wait cfg n"
proof -
  have "(2 :: rat) ^ nat (m - 1) \<le> 2 ^ nat (n - 1)" using assms(2) by (intro power_increasing) auto
  then have "fmul (xs_ws_reconnect_delay cfg) (2 ^ nat (m - 1)) \<le> fmul (xs_ws_reconnect_delay cfg) (2 ^ nat (n - 1))"
    using assms(1) by (simp add: float_ops binary64.rnd_mono mult_left_mono)
  then show ?thesis by (simp add: reconnect_wait_def min.coboundedI1 min.coboundedI2)
qed

text \<open>The reconnect loop always ends and backs off: whatever the stream body does, it waits at most
  \<open>ws_reconnect_attempts\<close> times, no wait is longer than a minute or shorter than the one before it, and
  the stream is marked as not connected at the end.\<close>

theorem reconnect_bounded:
  assumes "0 \<le> xs_ws_reconnect_delay cfg" "stream_with_reconnect cfg env 0 h = (waits, r, h')"
  shows "int (length waits) \<le> max 0 (xs_ws_reconnect_attempts cfg) \<and> sorted waits \<and>
    (\<forall>x\<in>set waits. x \<le> 60) \<and> \<not> sh_connected h'"
proof -
  obtain n where n: "waits = map (\<lambda>i. reconnect_wait cfg (0 + 1 + int i)) [0..<n]"
    "n = 0 \<or> 0 + int n \<le> xs_ws_reconnect_attempts cfg" "\<not> sh_connected h'"
    using stream_waits [OF assms(2)] by blast
  have "sorted waits" unfolding n(1) sorted_iff_nth_mono
    by (auto intro!: reconnect_wait_mono assms(1))
  then show ?thesis using n by (auto simp: reconnect_wait_le)
qed

text \<open>A stream that always fails, under the default settings: waits of 2, 4, 8, 16 and 32 seconds.\<close>

definition demo_failing :: stream_env where
  "demo_failing = \<lparr>sv_running = (\<lambda>n. True), sv_single = (\<lambda>n h. (Stream_raised, h)), sv_slept = (\<lambda>n. True)\<rparr>"

lemma demo_waits: "fst (stream_with_reconnect default_exchange_settings demo_failing 0 (new_stream_health ''X'' ''1m'')) =
    [2, 4, 8, 16, 32]"
  by code_simp

theorem reconnect_bounded_witness:
  "let waits = [2, 4, 8, 16, 32 :: rat];
       h' = snd (snd (stream_with_reconnect default_exchange_settings demo_failing 0 (new_stream_health ''X'' ''1m'')))
   in int (length waits) \<le> max 0 (xs_ws_reconnect_attempts default_exchange_settings) \<and> sorted waits \<and>
     (\<forall>x\<in>set waits. x \<le> 60) \<and> \<not> sh_connected h'"
  unfolding Let_def
proof (rule reconnect_bounded)
  let ?s = "stream_with_reconnect default_exchange_settings demo_failing 0 (new_stream_health ''X'' ''1m'')"
  show "0 \<le> xs_ws_reconnect_delay default_exchange_settings" by (simp add: default_exchange_settings_def)
  show "?s = ([2, 4, 8, 16, 32], fst (snd ?s), snd (snd ?s))" using demo_waits by (metis prod.collapse)
qed

text \<open>The shipped body never reconnects and delivers no message: a started stream ends in one turn and
  its counters stay at zero, so candles reach the agent by polling only.\<close>

lemma shipped_stream_delivers_nothing:
  assumes "sv_single env = stream_single"
  shows "stream_with_reconnect cfg env 0 h = ([], Exited, h\<lparr>sh_connected := False\<rparr>)"
  using assms by (simp add: stream_with_reconnect.simps [of cfg env 0] stream_single_def)

text \<open>A running stream is not started twice; stopping forgets the tasks and keeps the health records.\<close>

lemma start_stream_twice: "start_stream s tf (start_stream s tf w) = start_stream s tf w"
  by (simp add: start_stream_def)

lemma stop_stream_tasks [simp]: "wh_tasks (stop_stream s tf w) = AList.delete (s, tf) (wh_tasks w)"
  by (simp add: stop_stream_def Let_def)

lemma stop_stream_keys: "fst ` set (wh_streams (stop_stream s tf w)) = fst ` set (wh_streams w)"
  by (auto simp: stop_stream_def Let_def keys_update dest!: map_of_keys split: option.splits bool.splits)

lemma stop_streams: "fst ` set (wh_tasks (fold (\<lambda>(s, tf). stop_stream s tf) ks w)) = fst ` set (wh_tasks w) - set ks \<and>
    fst ` set (wh_streams (fold (\<lambda>(s, tf). stop_stream s tf) ks w)) = fst ` set (wh_streams w)"
proof (induction ks arbitrary: w)
  case (Cons k ks)
  obtain s tf where "k = (s, tf)" by (cases k)
  then show ?case using Cons [of "stop_stream s tf w"] by (auto simp: keys_delete stop_stream_keys)
qed simp

lemma stop_all_stops: "wh_tasks (stop_all w) = []" "fst ` set (wh_streams (stop_all w)) = fst ` set (wh_streams w)"
  using stop_streams [of "map fst (wh_tasks w)" "w\<lparr>wh_running := False\<rparr>"]
  by (simp_all add: stop_all_def)

end
