(* ===== verification/Dashboard_API.thy ===== *)
theory Dashboard_API
  imports Paper_Broker Execution_Agent Stream_Handler
begin

text \<open>
  What the control plane shows (\<open>api/routers/status.py\<close>, \<open>positions.py\<close>, \<open>dashboard.py\<close>, \<open>api/main.py\<close>,
  \<open>api/websocket.py\<close>): the heartbeat registry and the health summary, the portfolio read back from
  Redis, the event feed and the fan-out to WebSocket clients. Redis holds the typed records the
  brokers and the execution agent wrote; which reads succeed is an argument. JSON payloads on the
  feed are trees. FastAPI, the socket library and the evaluation files are outside.

  Proved here: the portfolio the API reports is the one the paper broker holds, after any operations
  that returned and were saved; the system is healthy exactly when the last heartbeat of every agent
  heard is recent and says \<open>RUNNING\<close>.
\<close>

subsection \<open>Heartbeats and health\<close>

type_synonym heartbeat_registry = "(string, agent_heartbeat) dict"

text \<open>What the watcher takes from its subscription: a heartbeat, something else, an error or the end.\<close>

datatype watch_event = Watch_heartbeat agent_heartbeat | Watch_other | Watch_error | Watch_cancelled

fun heartbeat_watcher :: "watch_event list \<Rightarrow> heartbeat_registry \<Rightarrow> heartbeat_registry" where
  "heartbeat_watcher [] reg = reg"
| "heartbeat_watcher (Watch_heartbeat hb # es) reg = heartbeat_watcher es (AList.update (hb_agent_name hb) hb reg)"
| "heartbeat_watcher (Watch_other # es) reg = heartbeat_watcher es reg"
| "heartbeat_watcher (Watch_error # es) reg = heartbeat_watcher es reg"
| "heartbeat_watcher (Watch_cancelled # es) reg = reg"

record health_row =
  hw_status :: agent_status
  hw_uptime_seconds :: rat
  hw_messages_processed :: int
  hw_errors_since_start :: int
  hw_last_seen_seconds_ago :: rat
  hw_is_stale :: bool

record health_reply =
  hr_system_ok :: bool
  hr_trading_mode :: trading_mode
  hr_timestamp :: time
  hr_agents :: "(string, health_row) dict"

definition heartbeat_age :: "time \<Rightarrow> agent_heartbeat \<Rightarrow> rat" where
  "heartbeat_age now hb = seconds (now - hb_timestamp hb)"

definition heartbeat_stale :: "settings \<Rightarrow> time \<Rightarrow> agent_heartbeat \<Rightarrow> bool" where
  "heartbeat_stale s now hb \<longleftrightarrow> heartbeat_age now hb > of_int (mon_heartbeat_timeout_seconds (st_monitoring s))"

definition health_row_of :: "settings \<Rightarrow> time \<Rightarrow> agent_heartbeat \<Rightarrow> health_row" where
  "health_row_of s now hb = \<lparr>hw_status = hb_status hb, hw_uptime_seconds = fround 1 (hb_uptime_seconds hb),
     hw_messages_processed = hb_messages_processed hb, hw_errors_since_start = hb_errors_since_start hb,
     hw_last_seen_seconds_ago = fround 1 (heartbeat_age now hb), hw_is_stale = heartbeat_stale s now hb\<rparr>"

definition get_system_health :: "settings \<Rightarrow> time \<Rightarrow> heartbeat_registry \<Rightarrow> health_reply" where
  "get_system_health s now reg = \<lparr>hr_system_ok = (reg \<noteq> [] \<and>
       list_all (\<lambda>(name, hb). hb_status hb = RUNNING \<and> \<not> heartbeat_stale s now hb) reg),
     hr_trading_mode = st_trading_mode s, hr_timestamp = now,
     hr_agents = map (\<lambda>(name, hb). (name, health_row_of s now hb)) reg\<rparr>"

subsection \<open>The portfolio\<close>

record api_keys =
  ak_portfolio :: portfolio_store
  ak_mt5_balance :: "broker_balance option"
  ak_mt5_positions :: "cached_position list option"
  ak_history :: "execution_result option list"  \<comment> \<open>an entry that does not parse is \<open>None\<close>\<close>

text \<open>Whether the application has a bus with a pool, and whether its first and second read succeed.\<close>

record api_env =
  av_bus :: bool
  av_first :: bool
  av_second :: bool

record api_position =
  ap_symbol :: symbol
  ap_side :: order_side
  ap_quantity :: rat
  ap_entry_price :: rat
  ap_current_price :: rat
  ap_unrealised_pnl_usd :: rat
  ap_cost_usd :: rat

record api_balance =
  al_total_equity_usd :: rat
  al_free_margin_usd :: rat
  al_used_margin_usd :: rat

definition zero_balance :: api_balance where
  "zero_balance = \<lparr>al_total_equity_usd = 0, al_free_margin_usd = 0, al_used_margin_usd = 0\<rparr>"

definition paper_row :: "paper_position \<Rightarrow> api_position" where
  "paper_row p = \<lparr>ap_symbol = pp_symbol p, ap_side = pp_side p, ap_quantity = fl (pp_quantity p),
     ap_entry_price = fl (pp_entry_price p), ap_current_price = fl (pp_entry_price p),
     ap_unrealised_pnl_usd = 0, ap_cost_usd = fl (pp_cost_usd p)\<rparr>"

definition mt5_row :: "cached_position \<Rightarrow> api_position" where
  "mt5_row p = \<lparr>ap_symbol = cp_symbol p, ap_side = cp_side p, ap_quantity = fl (cp_quantity p),
     ap_entry_price = fl (cp_entry_price p), ap_current_price = fl (cp_current_price p),
     ap_unrealised_pnl_usd = fl (cp_unrealised_pnl_usd p), ap_cost_usd = fmul (fl (cp_quantity p)) (fl (cp_entry_price p))\<rparr>"

definition api_get_positions :: "settings \<Rightarrow> api_env \<Rightarrow> api_keys \<Rightarrow> api_position list \<times> nat" where
  "api_get_positions s env keys =
    (let ps = (if \<not> av_bus env \<or> \<not> av_first env then []
       else if uses_mt5 s then (case ak_mt5_positions keys of None \<Rightarrow> [] | Some ps \<Rightarrow> map mt5_row ps)
       else (case ps_positions (ak_portfolio keys) of None \<Rightarrow> [] | Some d \<Rightarrow> map paper_row (dvals d)))
     in (ps, length ps))"

definition used_margin :: "(symbol, paper_position) dict \<Rightarrow> rat" where
  "used_margin d = foldl (\<lambda>u p. fadd u (fl (pp_cost_usd p))) 0 (dvals d)"

definition api_get_balance :: "settings \<Rightarrow> api_env \<Rightarrow> api_keys \<Rightarrow> api_balance" where
  "api_get_balance s env keys =
    (if \<not> av_bus env \<or> \<not> av_first env then zero_balance
     else if uses_mt5 s then (case ak_mt5_balance keys of None \<Rightarrow> zero_balance
       | Some b \<Rightarrow> \<lparr>al_total_equity_usd = fl (bb_total_equity_usd b), al_free_margin_usd = fl (bb_free_margin_usd b),
           al_used_margin_usd = fl (bb_used_margin_usd b)\<rparr>)
     else case ps_cash (ak_portfolio keys) of None \<Rightarrow> zero_balance
       | Some cash \<Rightarrow> if \<not> av_second env then zero_balance
           else (let free = fl cash;
               used = (case ps_positions (ak_portfolio keys) of None \<Rightarrow> 0 | Some d \<Rightarrow> used_margin d)
             in \<lparr>al_total_equity_usd = fadd free used, al_free_margin_usd = free, al_used_margin_usd = used\<rparr>))"

definition HISTORY_PAGE_SIZE :: nat where "HISTORY_PAGE_SIZE = 50"

definition api_get_history :: "api_env \<Rightarrow> api_keys \<Rightarrow> execution_result list \<times> nat" where
  "api_get_history env keys = (let rs = (if \<not> av_bus env \<or> \<not> av_first env then []
       else List.map_filter id (take HISTORY_PAGE_SIZE (ak_history keys))) in (rs, length rs))"

subsection \<open>The dashboard\<close>

text \<open>The dashboard reads cash and positions before it looks at either, and rounds to cents.\<close>

definition read_balance_and_positions :: "api_env \<Rightarrow> api_keys \<Rightarrow> api_balance \<times> paper_position list" where
  "read_balance_and_positions env keys =
    (if \<not> av_bus env \<or> \<not> av_first env \<or> \<not> av_second env then (zero_balance, [])
     else (let free = (case ps_cash (ak_portfolio keys) of None \<Rightarrow> 0 | Some c \<Rightarrow> fl c);
         d = (case ps_positions (ak_portfolio keys) of None \<Rightarrow> [] | Some d \<Rightarrow> d); used = used_margin d
       in (\<lparr>al_total_equity_usd = fround 2 (fadd free used), al_free_margin_usd = fround 2 free,
            al_used_margin_usd = fround 2 used\<rparr>, dvals d)))"

record overview =
  ov_balance :: api_balance
  ov_total_return_pct :: rat
  ov_open_positions :: "paper_position list"
  ov_open_positions_count :: nat
  ov_agents_total :: nat
  ov_agents_healthy :: nat

definition healthy_agents :: "settings \<Rightarrow> time \<Rightarrow> heartbeat_registry \<Rightarrow> nat" where
  "healthy_agents s now reg = length (filter (\<lambda>(name, hb). hb_status hb = RUNNING \<and> \<not> heartbeat_stale s now hb) reg)"

text \<open>\<open>balance["total_equity_usd"] or initial\<close>: an equity of zero reads as the initial balance.\<close>

definition get_overview :: "settings \<Rightarrow> time \<Rightarrow> api_env \<Rightarrow> api_keys \<Rightarrow> heartbeat_registry \<Rightarrow> overview" where
  "get_overview s now env keys reg = (case read_balance_and_positions env keys of (balance, ps) \<Rightarrow>
    (let initial = st_paper_initial_balance_usd s;
         equity = (if al_total_equity_usd balance \<noteq> 0 then al_total_equity_usd balance else initial)
     in \<lparr>ov_balance = balance,
         ov_total_return_pct = (if initial \<noteq> 0 then fround 4 (fmul (fdiv (fsub equity initial) initial) 100) else 0),
         ov_open_positions = ps, ov_open_positions_count = length ps,
         ov_agents_total = length reg, ov_agents_healthy = healthy_agents s now reg\<rparr>))"

subsection \<open>The event feed\<close>

datatype json = J_null | J_bool bool | J_num rat | J_str string | J_list "json list" | J_obj "(string \<times> json) list"

fun json_truthy :: "json \<Rightarrow> bool" where
  "json_truthy J_null = False"
| "json_truthy (J_bool b) = b"
| "json_truthy (J_num x) = (x \<noteq> 0)"
| "json_truthy (J_str t) = (t \<noteq> [])"
| "json_truthy (J_list xs) = (xs \<noteq> [])"
| "json_truthy (J_obj d) = (d \<noteq> [])"

text \<open>\<open>payload.get(key)\<close>: only objects have it.\<close>

fun json_get :: "string \<Rightarrow> json \<Rightarrow> error + json" where
  "json_get k (J_obj d) = Inr (case map_of d k of None \<Rightarrow> J_null | Some v \<Rightarrow> v)"
| "json_get k _ = Inl (Type_error ''get'')"

datatype feed_kind = Feed_signal | Feed_proposal | Feed_assessment | Feed_fill | Feed_heartbeat | Feed_unknown

definition kind_of_channel :: "string \<Rightarrow> feed_kind" where
  "kind_of_channel ch = (if take (length ''signal.technical'') ch = ''signal.technical'' then Feed_signal
     else if ch = ''decision.proposal'' then Feed_proposal
     else if ch = ''risk.assessment'' then Feed_assessment
     else if ch = ''execution.result'' then Feed_fill
     else if ch = ''system.heartbeat'' then Feed_heartbeat else Feed_unknown)"

record feed_row =
  fr_kind :: feed_kind
  fr_fields :: "(string \<times> json) list"

text \<open>The values of several keys, in order, or the first failure.\<close>

definition json_fields :: "(string \<times> string) list \<Rightarrow> json \<Rightarrow> error + (string \<times> json) list" where
  "json_fields ks p = map_ok (\<lambda>(name, k). case json_get k p of Inl e \<Rightarrow> Inl e | Inr v \<Rightarrow> Inr (name, v)) ks"

definition feed_timestamp :: "json \<Rightarrow> error + json" where
  "feed_timestamp p = (case map_ok (\<lambda>k. json_get k p) [''timestamp'', ''created_at'', ''executed_at''] of
     Inl e \<Rightarrow> Inl e
   | Inr vs \<Rightarrow> Inr (case filter json_truthy (butlast vs) of v # _ \<Rightarrow> v | [] \<Rightarrow> last vs))"

definition original_proposal_symbol :: "json \<Rightarrow> error + json" where
  "original_proposal_symbol p = (case json_get ''original_proposal'' p of Inl e \<Rightarrow> Inl e
     | Inr v \<Rightarrow> json_get ''symbol'' (if json_truthy v then v else J_obj []))"

definition summarise :: "feed_kind \<Rightarrow> json \<Rightarrow> error + (string \<times> json) list" where
  "summarise k p = (case feed_timestamp p of Inl e \<Rightarrow> Inl e | Inr ts \<Rightarrow>
    (case (case k of
        Feed_proposal \<Rightarrow> json_fields [(''symbol'', ''symbol''), (''side'', ''side''), (''size_usd'', ''requested_size_usd'')] p
      | Feed_assessment \<Rightarrow> (case original_proposal_symbol p of Inl e \<Rightarrow> Inl e | Inr smb \<Rightarrow>
          (case json_fields [(''decision'', ''decision''), (''reason'', ''rejection_reason'')] p of Inl e \<Rightarrow> Inl e
           | Inr fs \<Rightarrow> Inr ((''symbol'', smb) # fs)))
      | Feed_fill \<Rightarrow> json_fields [(''symbol'', ''symbol''), (''side'', ''side''), (''status'', ''status''), (''price'', ''average_fill_price'')] p
      | _ \<Rightarrow> Inr [])
     of Inl e \<Rightarrow> Inl e | Inr fs \<Rightarrow> Inr (fs @ [(''timestamp'', ts)])))"

subsection \<open>Clients and the broadcast task\<close>

type_synonym client = nat

text \<open>One broadcast: \<open>alive\<close> is which sends succeed; the others are removed.\<close>

definition broadcast :: "(client \<Rightarrow> bool) \<Rightarrow> client list \<Rightarrow> client list \<times> client list" where
  "broadcast alive clients = (filter alive clients, foldl (\<lambda>cs w. filter (\<lambda>c. c \<noteq> w) cs) clients (filter (\<lambda>c. \<not> alive c) clients))"

record feed_state =
  fd_signals :: "json list"
  fd_events :: "feed_row list"
  fd_clients :: "client list"
  fd_sent :: "(string \<times> feed_kind \<times> json \<times> client list) list"

definition RECENT_SIGNALS :: nat where "RECENT_SIGNALS = 50"
definition RECENT_EVENTS :: nat where "RECENT_EVENTS = 100"

definition new_feed :: feed_state where
  "new_feed = \<lparr>fd_signals = [], fd_events = [], fd_clients = [], fd_sent = []\<rparr>"

datatype feed_event =
    Feed_message string "json option" "client \<Rightarrow> bool"  \<comment> \<open>channel, payload (\<open>None\<close>: no JSON), sends that succeed\<close>
  | Client_joined client
  | Client_left client

definition note_feed :: "feed_kind \<Rightarrow> json \<Rightarrow> feed_state \<Rightarrow> error + feed_state" where
  "note_feed k p st = (if k = Feed_signal then Inr (st\<lparr>fd_signals := take RECENT_SIGNALS (p # fd_signals st)\<rparr>)
     else if k = Feed_proposal \<or> k = Feed_assessment \<or> k = Feed_fill then
       (case summarise k p of Inl e \<Rightarrow> Inl e
        | Inr fs \<Rightarrow> Inr (st\<lparr>fd_events := take RECENT_EVENTS (\<lparr>fr_kind = k, fr_fields = fs\<rparr> # fd_events st)\<rparr>))
     else Inr st)"

text \<open>A failure while a message is noted is caught by the loop: the message is dropped.\<close>

fun feed_step :: "feed_event \<Rightarrow> feed_state \<Rightarrow> feed_state" where
  "feed_step (Client_joined c) st = st\<lparr>fd_clients := fd_clients st @ [c]\<rparr>"
| "feed_step (Client_left c) st = st\<lparr>fd_clients := filter (\<lambda>d. d \<noteq> c) (fd_clients st)\<rparr>"
| "feed_step (Feed_message ch payload alive) st = (case payload of None \<Rightarrow> st | Some p \<Rightarrow>
     (let k = kind_of_channel ch in case note_feed k p st of Inl e \<Rightarrow> st
      | Inr st1 \<Rightarrow> if fd_clients st1 = [] then st1
          else (case broadcast alive (fd_clients st1) of (served, remaining) \<Rightarrow>
            st1\<lparr>fd_clients := remaining, fd_sent := fd_sent st1 @ [(ch, k, p, served)]\<rparr>)))"

subsection \<open>The registry holds the last heartbeats\<close>

fun beats :: "watch_event list \<Rightarrow> agent_heartbeat list" where
  "beats [] = []"
| "beats (Watch_heartbeat hb # es) = hb # beats es"
| "beats (Watch_cancelled # es) = []"
| "beats (Watch_other # es) = beats es"
| "beats (Watch_error # es) = beats es"

definition beats_of :: "string \<Rightarrow> agent_heartbeat list \<Rightarrow> agent_heartbeat list" where
  "beats_of name hbs = filter (\<lambda>hb. hb_agent_name hb = name) hbs"

lemma watcher_snoc: "heartbeat_watcher es reg = fold (\<lambda>hb. AList.update (hb_agent_name hb) hb) (beats es) reg"
  by (induction es reg rule: heartbeat_watcher.induct) simp_all

lemma registry_lookup: "map_of (fold (\<lambda>hb. AList.update (hb_agent_name hb) hb) hbs []) name =
    (if beats_of name hbs = [] then None else Some (last (beats_of name hbs)))"
  by (induction hbs rule: rev_induct) (auto simp: beats_of_def)

lemma registry_ok: "dict_ok (fold (\<lambda>hb. AList.update (hb_agent_name hb) hb) hbs [])"
  by (induction hbs rule: rev_induct) simp_all

lemma dict_all: "dict_ok d \<Longrightarrow> list_all (\<lambda>(k, v). P v) d \<longleftrightarrow> (\<forall>k v. map_of d k = Some v \<longrightarrow> P v)"
  by (auto simp: list_all_iff map_of_eq_Some_iff)

text \<open>The health summary speaks of the last heartbeats. Whatever the watcher heard, the system is
  reported healthy exactly when some agent was heard and the last heartbeat of every agent heard says
  \<open>RUNNING\<close> and is not older than the configured timeout; each agent heard has one row, with the state
  of its last heartbeat.\<close>

theorem health_reports_last_heartbeats:
  "(hr_system_ok (get_system_health s now (heartbeat_watcher es [])) \<longleftrightarrow>
    beats es \<noteq> [] \<and> (\<forall>name\<in>hb_agent_name ` set (beats es). let hb = last (beats_of name (beats es)) in
      hb_status hb = RUNNING \<and> seconds (now - hb_timestamp hb) \<le> of_int (mon_heartbeat_timeout_seconds (st_monitoring s)))) \<and>
   map_of (hr_agents (get_system_health s now (heartbeat_watcher es []))) name =
    (if name \<in> hb_agent_name ` set (beats es) then Some (health_row_of s now (last (beats_of name (beats es)))) else None)"
proof -
  define reg where "reg = heartbeat_watcher es []"
  have look: "map_of reg n = (if beats_of n (beats es) = [] then None else Some (last (beats_of n (beats es))))" for n
    by (simp add: reg_def watcher_snoc registry_lookup)
  have heard: "beats_of n (beats es) \<noteq> [] \<longleftrightarrow> n \<in> hb_agent_name ` set (beats es)" for n
    by (auto simp: beats_of_def filter_empty_conv)
  have ne: "reg \<noteq> [] \<longleftrightarrow> beats es \<noteq> []"
  proof
    assume "reg \<noteq> []"
    then obtain n hb where "map_of reg n = Some hb" by (cases reg) (metis list.exhaust map_of_Cons_code(2) prod.exhaust, metis map_of_Cons_code(2) prod.exhaust)
    then show "beats es \<noteq> []" using look [of n] by (auto simp: beats_of_def split: if_splits)
  next
    assume "beats es \<noteq> []"
    then obtain hb where "hb \<in> set (beats es)" by (cases "beats es") auto
    then have "map_of reg (hb_agent_name hb) \<noteq> None" using look heard by auto
    then show "reg \<noteq> []" by auto
  qed
  have "dict_ok reg" by (simp add: reg_def watcher_snoc registry_ok)
  from dict_all [OF this] have "hr_system_ok (get_system_health s now (heartbeat_watcher es [])) \<longleftrightarrow>
    beats es \<noteq> [] \<and> (\<forall>name\<in>hb_agent_name ` set (beats es). let hb = last (beats_of name (beats es)) in
      hb_status hb = RUNNING \<and> seconds (now - hb_timestamp hb) \<le> of_int (mon_heartbeat_timeout_seconds (st_monitoring s)))"
    unfolding reg_def [symmetric] Let_def get_system_health_def health_reply.simps ne look
    by (auto simp: heard heartbeat_stale_def heartbeat_age_def not_less split: if_splits)
  moreover have "map_of (hr_agents (get_system_health s now (heartbeat_watcher es []))) name =
    (if name \<in> hb_agent_name ` set (beats es) then Some (health_row_of s now (last (beats_of name (beats es)))) else None)"
    unfolding reg_def [symmetric] get_system_health_def health_reply.simps map_of_map [of "health_row_of s now" reg]
    using heard [of name] by (auto simp: look)
  ultimately show ?thesis by (rule conjI)
qed

text \<open>Two agents; one was silent too long.\<close>

definition demo_beat :: "string \<Rightarrow> time \<Rightarrow> agent_heartbeat" where
  "demo_beat name t = \<lparr>hb_agent_name = name, hb_status = RUNNING, hb_timestamp = t * 10 ^ 6, hb_messages_processed = 0,
     hb_errors_since_start = 0, hb_uptime_seconds = 0, hb_extra = []\<rparr>"

definition demo_watch :: "watch_event list" where
  "demo_watch = [Watch_heartbeat (demo_beat ''a'' 0), Watch_heartbeat (demo_beat ''b'' 5), Watch_other, Watch_heartbeat (demo_beat ''a'' 40)]"

lemma demo_unhealthy: "\<not> hr_system_ok (get_system_health default_settings (41 * 10 ^ 6) (heartbeat_watcher demo_watch []))"
  by code_simp

theorem health_reports_last_heartbeats_witness:
  "\<exists>name\<in>hb_agent_name ` set (beats demo_watch). let hb = last (beats_of name (beats demo_watch)) in
    \<not> (hb_status hb = RUNNING \<and> seconds (41 * 10 ^ 6 - hb_timestamp hb) \<le>
      of_int (mon_heartbeat_timeout_seconds (st_monitoring default_settings)))"
proof -
  have "beats demo_watch \<noteq> []" by (simp add: demo_watch_def)
  then show ?thesis
    using health_reports_last_heartbeats [of default_settings "41 * 10 ^ 6" demo_watch, THEN conjunct1] demo_unhealthy
    by (auto simp: Let_def)
qed

subsection \<open>The reported portfolio is the broker's\<close>

text \<open>What Redis holds is what the broker holds.\<close>

definition stored :: "paper_broker \<Rightarrow> bool" where
  "stored b \<longleftrightarrow> pb_bus b \<and> pb_store b = \<lparr>ps_cash = Some (pb_cash b), ps_positions = Some (pb_positions b)\<rparr>"

fun event_saved :: "broker_event \<Rightarrow> bool" where
  "event_saved (Ev_place env a) = (pe_save env = Save_ok)"
| "event_saved (Ev_close env s price) = (pe_save env = Save_ok)"
| "event_saved (Ev_connect restore save) = (save = Save_ok)"
| "event_saved (Ev_disconnect save) = (save = Save_ok)"

fun event_returned :: "broker_event \<Rightarrow> paper_broker \<Rightarrow> bool" where
  "event_returned (Ev_place env a) b = (\<not> isl (fst (place_order env a b)))"
| "event_returned (Ev_close env s price) b = (\<not> isl (fst (close_position env s price b)))"
| "event_returned _ b = True"

fun clean_run :: "broker_event list \<Rightarrow> paper_broker \<Rightarrow> bool" where
  "clean_run [] b = True"
| "clean_run (ev # evs) b = (event_saved ev \<and> event_returned ev b \<and> clean_run evs (broker_step ev b))"

lemma save_stores: "pb_bus b \<Longrightarrow> stored (save_portfolio_state Save_ok b)"
  by (simp add: stored_def save_portfolio_state_def)

lemma restore_stored: "stored b \<Longrightarrow> restore_portfolio_state r b = b"
  by (auto simp: stored_def restore_portfolio_state_def Let_def)

lemma remember_stored [simp]: "stored (remember_order pid r b) = stored b"
  by (simp add: stored_def remember_order_def)

lemma close_at_stored:
  assumes "close_at env s ref pid aid b = (Inr x, b')" "stored b" "pe_save env = Save_ok"
  shows "stored b'"
proof (cases x)
  case None
  then show ?thesis using assms close_at_None by blast
next
  case (Some r)
  from assms(1) [unfolded Some] obtain ps cash where "b' = save_portfolio_state (pe_save env) (b\<lparr>pb_positions := ps, pb_cash := cash\<rparr>)"
    by (cases rule: close_at_SomeE) blast
  then show ?thesis using assms(2,3) by (simp add: save_stores stored_def [of b])
qed

lemma place_order_stored:
  assumes "place_order env a b = (Inr r, b')" "stored b" "pe_save env = Save_ok"
  shows "stored b'"
  using assms(1)
proof (cases rule: place_order_cases)
  case (closed r1 ref pos b1)
  then show ?thesis using close_at_stored [OF closed(7) assms(2,3)] by simp
next
  case (opened r1 ref tech)
  from opened(8) show ?thesis
  proof (cases rule: open_position_InrE)
    case 1
    then show ?thesis using assms(2,3) by (simp add: save_stores stored_def [of b] remember_order_def)
  qed
qed (use assms in simp_all)

lemma broker_step_stored:
  assumes "stored b" "event_saved ev" "event_returned ev b"
  shows "stored (broker_step ev b)"
proof (cases ev)
  case (Ev_place env a)
  obtain x b' where p: "place_order env a b = (x, b')" by (cases "place_order env a b")
  then obtain r where "x = Inr r" using assms(3) Ev_place by (cases x) auto
  then show ?thesis using place_order_stored [of env a b r b'] p assms Ev_place by simp
next
  case (Ev_close env s price)
  obtain x b' where p: "close_position env s price b = (x, b')" by (cases "close_position env s price b")
  then obtain r where "x = Inr r" using assms(3) Ev_close by (cases x) auto
  then show ?thesis
    using p assms Ev_close by (auto simp: close_position_def Let_def split: option.splits if_splits intro: close_at_stored)
next
  case (Ev_connect restore save)
  then show ?thesis
    using assms by (auto simp: connect_def restore_stored save_stores stored_def [of b] split: sum.split)
next
  case (Ev_disconnect save)
  then show ?thesis using assms by (simp add: disconnect_def save_stores stored_def [of b])
qed

lemma broker_run_stored: "stored b \<Longrightarrow> clean_run evs b \<Longrightarrow> stored (broker_run evs b)"
  by (induction evs arbitrary: b) (simp_all add: broker_run_def broker_step_stored)

text \<open>The API shows the paper broker's books. Start from a broker whose books are in Redis and let it
  place and close orders, connect and disconnect in any order, as long as every operation returned
  and its save succeeded; then the positions the API lists are exactly the broker's, one row each
  with its floats, the free margin is the broker's cash, the used margin the sum of the positions'
  costs, and the equity their sum.\<close>

theorem api_reports_broker_books:
  assumes "stored b" "clean_run evs b" "\<not> uses_mt5 s" "av_bus env" "av_first env" "av_second env"
    and "b' = broker_run evs b" "ak_portfolio keys = pb_store b'"
  shows "api_get_positions s env keys = (map paper_row (dvals (pb_positions b')), length (pb_positions b')) \<and>
    (let used = foldl fadd 0 (map (\<lambda>p. fl (pp_cost_usd p)) (dvals (pb_positions b'))) in
      api_get_balance s env keys = \<lparr>al_total_equity_usd = fadd (fl (pb_cash b')) used,
        al_free_margin_usd = fl (pb_cash b'), al_used_margin_usd = used\<rparr>)"
proof -
  have "ak_portfolio keys = \<lparr>ps_cash = Some (pb_cash b'), ps_positions = Some (pb_positions b')\<rparr>"
    using broker_run_stored [OF assms(1,2)] assms(7,8) by (simp add: stored_def)
  moreover have "used_margin d = foldl fadd 0 (map (\<lambda>p. fl (pp_cost_usd p)) (dvals d))" for d
    by (simp add: used_margin_def foldl_map)
  ultimately show ?thesis
    using assms(3-6) by (simp add: api_get_positions_def api_get_balance_def Let_def)
qed

text \<open>The demonstration purchase, after a first connection.\<close>

definition demo_connected :: paper_broker where
  "demo_connected = snd (connect Restore_ok Save_ok fresh_broker)"

definition demo_after :: paper_broker where
  "demo_after = broker_run [Ev_place demo_env demo_buy] demo_connected"

definition demo_keys :: api_keys where
  "demo_keys = \<lparr>ak_portfolio = pb_store demo_after, ak_mt5_balance = None, ak_mt5_positions = None, ak_history = []\<rparr>"

lemma demo_stored: "stored demo_connected"
  by (simp add: demo_connected_def connect_def fresh_broker_def new_paper_broker_def set_bus_def assert_paper_mode_def
      is_paper_trading_def default_settings_def restore_portfolio_state_def save_portfolio_state_def stored_def)

lemma demo_clean: "clean_run [Ev_place demo_env demo_buy] demo_connected"
proof -
  have "\<not> isl (fst (place_order demo_env demo_buy demo_connected))" by code_simp
  then show ?thesis by (simp add: demo_env_def mk_env_def)
qed

theorem api_reports_broker_books_witness:
  "api_get_positions default_settings \<lparr>av_bus = True, av_first = True, av_second = True\<rparr> demo_keys =
      (map paper_row (dvals (pb_positions demo_after)), length (pb_positions demo_after)) \<and>
    (let used = foldl fadd 0 (map (\<lambda>p. fl (pp_cost_usd p)) (dvals (pb_positions demo_after))) in
      api_get_balance default_settings \<lparr>av_bus = True, av_first = True, av_second = True\<rparr> demo_keys =
        \<lparr>al_total_equity_usd = fadd (fl (pb_cash demo_after)) used, al_free_margin_usd = fl (pb_cash demo_after), al_used_margin_usd = used\<rparr>)"
proof (rule api_reports_broker_books [OF demo_stored demo_clean])
  show "\<not> uses_mt5 default_settings" by code_simp
qed (simp_all add: demo_after_def demo_keys_def)

text \<open>An account that lost everything shows no loss: the dashboard takes an equity of zero for a missing
  one and reports the return of the initial balance.\<close>

lemma overview_hides_total_loss:
  assumes "al_total_equity_usd (fst (read_balance_and_positions env keys)) = 0"
  shows "ov_total_return_pct (get_overview s now env keys reg) = 0"
  using assms by (cases "read_balance_and_positions env keys")
    (auto simp: get_overview_def Let_def float_ops binary64.rnd_zero fround_def)

subsection \<open>Clients and the feed\<close>

text \<open>A broadcast reaches every client whose socket takes it, and keeps just these.\<close>

lemma remove_clients: "foldl (\<lambda>cs w. filter (\<lambda>c. c \<noteq> w) cs) cs ws = filter (\<lambda>c. c \<notin> set ws) cs"
  by (induction ws arbitrary: cs) (auto intro!: filter_cong)

lemma broadcast_served: "broadcast alive cs = (filter alive cs, filter alive cs)"
  by (auto simp: broadcast_def remove_clients intro!: filter_cong)

text \<open>The ring buffers stay within their bounds.\<close>

lemma feed_bounded:
  assumes "length (fd_signals st) \<le> RECENT_SIGNALS" "length (fd_events st) \<le> RECENT_EVENTS"
  shows "length (fd_signals (feed_step ev st)) \<le> RECENT_SIGNALS \<and> length (fd_events (feed_step ev st)) \<le> RECENT_EVENTS"
  using assms
  by (cases ev) (auto simp: note_feed_def Let_def split: option.split sum.splits prod.split if_splits)

lemma feed_run_bounded:
  "length (fd_signals (fold feed_step evs new_feed)) \<le> RECENT_SIGNALS \<and> length (fd_events (fold feed_step evs new_feed)) \<le> RECENT_EVENTS"
  by (induction evs rule: rev_induct) (simp_all add: feed_bounded, simp add: new_feed_def)

end
