(* ===== verification/Backtest_Metrics.thy ===== *)
theory Backtest_Metrics
  imports Backtest_Engine Float_Functions Text_Format
begin

text \<open>
  The performance metrics of a backtest (\<open>backtest/metrics.py\<close>): returns per bar, mean and deviation,
  drawdown, calendar months and the full set. The power function is libm's: a parameter that may
  raise (a negative base gives a complex number, which \<open>round\<close> refuses). \<open>sum\<close> adds from the left; an
  infinite profit factor is \<open>None\<close>.

  Proved here: the one-pass drawdown is the maximum over all bars of the fall from the running peak,
  and its duration the longest run of bars below it; the reported percentages are percentages.
\<close>

type_synonym py_pow = "rat \<Rightarrow> rat \<Rightarrow> error + rat"

definition per_bar_returns :: "rat list \<Rightarrow> rat list" where
  "per_bar_returns equity = map (\<lambda>i. let prev = equity ! (i - 1) in
     if prev > 0 then fdiv (fsub (equity ! i) prev) prev else 0) [1..<length equity]"

definition mean_of :: "rat list \<Rightarrow> rat" where
  "mean_of xs = (if xs = [] then 0 else fdiv (fsum xs) (of_nat (length xs)))"

text \<open>\<open>_std\<close> with its default of one degree of freedom.\<close>

definition std_of :: "py_pow \<Rightarrow> rat list \<Rightarrow> error + rat" where
  "std_of pow xs = (if length xs \<le> 1 then Inr 0 else let m = mean_of xs in
     (case map_ok (\<lambda>x. pow (fsub x m) 2) xs of Inl e \<Rightarrow> Inl e
      | Inr squares \<Rightarrow> Inr (fsqrt (fdiv (fsum squares) (of_nat (length xs - 1))))))"

subsection \<open>Drawdown\<close>

text \<open>The variables of the loop: peak, largest drawdown, current and longest length.\<close>

type_synonym drawdown_state = "rat \<times> rat \<times> int \<times> int"

fun drawdown_step :: "drawdown_state \<Rightarrow> rat \<Rightarrow> drawdown_state" where
  "drawdown_step (peak, max_dd, cur_len, max_len) v =
    (if v \<ge> peak then (v, max_dd, 0, max_len)
     else (peak, max max_dd (if peak > 0 then fdiv (fsub peak v) peak else 0), cur_len + 1, max max_len (cur_len + 1)))"

definition max_drawdown :: "rat list \<Rightarrow> rat \<times> int" where
  "max_drawdown equity = (if equity = [] then (0, 0)
     else case foldl drawdown_step (hd equity, 0, 0, 0) equity of (peak, max_dd, cur_len, max_len) \<Rightarrow> (max_dd, max_len))"

subsection \<open>Calendar months\<close>

text \<open>Year and month of a UTC timestamp in the proleptic Gregorian calendar: days are counted from the
  first of March of year 0, in eras of 400 years.\<close>

definition year_month :: "time \<Rightarrow> int \<times> int" where
  "year_month t =
    (let z = t div (86400 * 10 ^ 6) + 719468; era = z div 146097; doe = z mod 146097;
         yoe = (doe - doe div 1460 + doe div 36524 - doe div 146096) div 365;
         doy = doe - (365 * yoe + yoe div 4 - yoe div 100);
         mp = (5 * doy + 2) div 153;
         m = (if mp < 10 then mp + 3 else mp - 9)
     in (yoe + era * 400 + (if m \<le> 2 then 1 else 0), m))"

definition month_key :: "int \<times> int \<Rightarrow> string" where
  "month_key ym = padded 4 (digits (fst ym)) @ ''-'' @ padded 2 (digits (snd ym))"

definition by_month :: "equity_point list \<Rightarrow> (int \<times> int, equity_point list) dict" where
  "by_month curve = foldl (\<lambda>d p. let k = year_month (ep_timestamp p) in
     AList.update k ((case map_of d k of None \<Rightarrow> [] | Some ps \<Rightarrow> ps) @ [p]) d) [] curve"

text \<open>The keys sort as texts as their months do, for years of four digits.\<close>

definition monthly_returns :: "equity_point list \<Rightarrow> (string, rat) dict" where
  "monthly_returns curve = map (\<lambda>(ym, pts). let s = ep_equity (hd pts); e = ep_equity (last pts) in
     (month_key ym, if s > 0 then fdiv (fsub e s) s else 0))
     (sort_key (\<lambda>((y, m), pts). 12 * y + m) (by_month curve))"

subsection \<open>The metric set\<close>

record bt_metrics =
  bm_initial_balance :: rat
  bm_final_balance :: rat
  bm_total_return_pct :: rat
  bm_cagr_pct :: rat
  bm_sharpe :: rat
  bm_sortino :: rat
  bm_calmar :: rat
  bm_max_drawdown_pct :: rat
  bm_max_drawdown_duration_bars :: int
  bm_num_trades :: nat
  bm_win_rate_pct :: rat
  bm_profit_factor :: "rat option"
  bm_expectancy_usd :: rat
  bm_avg_win_usd :: rat
  bm_avg_loss_usd :: rat
  bm_exposure_pct :: rat
  bm_monthly_returns :: "(string, rat) dict"

definition total_return :: "rat \<Rightarrow> rat \<Rightarrow> rat" where
  "total_return initial final = (if initial > 0 then fdiv (fsub final initial) initial else 0)"

definition elapsed_years :: "equity_point list \<Rightarrow> rat" where
  "elapsed_years curve = (if length curve \<ge> 2
     then fdiv (seconds (ep_timestamp (last curve) - ep_timestamp (hd curve))) 31557600 else 0)"

definition cagr_of :: "py_pow \<Rightarrow> rat \<Rightarrow> rat \<Rightarrow> rat \<Rightarrow> error + rat" where
  "cagr_of pow years initial final = (if \<not> (years > 0 \<and> final > 0) then Inr 0
     else if initial = 0 then Inl Zero_division
     else (case pow (fdiv final initial) (fdiv 1 years) of Inl e \<Rightarrow> Inl e | Inr x \<Rightarrow> Inr (fsub x 1)))"

definition profit_factor :: "rat \<Rightarrow> rat \<Rightarrow> rat option" where
  "profit_factor gross_win gross_loss = (if gross_loss > 0 then Some (fround 4 (fdiv gross_win gross_loss))
     else if gross_win > 0 then None else Some (fround 4 0))"

definition win_rate :: "bt_trade list \<Rightarrow> rat" where
  "win_rate trades = (if trades = [] then 0
     else fdiv (of_nat (length (filter (\<lambda>t. bt_pnl_usd t > 0) trades))) (of_nat (length trades)))"

definition exposure :: "equity_point list \<Rightarrow> rat" where
  "exposure curve = (if curve = [] then 0
     else fdiv (of_nat (length (filter ep_in_market curve))) (of_nat (length curve)))"

definition pct4 :: "rat \<Rightarrow> rat" where
  "pct4 x = fround 4 (fmul x 100)"

definition compute_metrics :: "py_pow \<Rightarrow> equity_point list \<Rightarrow> bt_trade list \<Rightarrow> rat \<Rightarrow> rat \<Rightarrow> error + bt_metrics" where
  "compute_metrics pow curve trades periods initial =
    (let equity = map ep_equity curve; final = (if equity = [] then initial else last equity);
         rets = per_bar_returns equity; mean_r = mean_of rets; downside = filter (\<lambda>r. r < 0) rets;
         ann = fsqrt periods; (mdd, mdd_len) = max_drawdown equity;
         wins = map bt_pnl_usd (filter (\<lambda>t. bt_pnl_usd t > 0) trades);
         losses = map bt_pnl_usd (filter (\<lambda>t. bt_pnl_usd t \<le> 0) trades);
         gross_win = fsum wins; gross_loss = - fsum losses
     in case cagr_of pow (elapsed_years curve) initial final of Inl e \<Rightarrow> Inl e | Inr cagr \<Rightarrow>
       (case std_of pow rets of Inl e \<Rightarrow> Inl e | Inr std_r \<Rightarrow>
       (case (if length downside > 1 then std_of pow downside else Inr 0) of Inl e \<Rightarrow> Inl e | Inr dstd \<Rightarrow>
         Inr \<lparr>bm_initial_balance = fround 2 initial, bm_final_balance = fround 2 final,
           bm_total_return_pct = pct4 (total_return initial final), bm_cagr_pct = pct4 cagr,
           bm_sharpe = fround 4 (if std_r > 0 then fmul (fdiv mean_r std_r) ann else 0),
           bm_sortino = fround 4 (if dstd > 0 then fmul (fdiv mean_r dstd) ann else 0),
           bm_calmar = fround 4 (if mdd > 0 then fdiv cagr mdd else 0),
           bm_max_drawdown_pct = pct4 mdd, bm_max_drawdown_duration_bars = mdd_len,
           bm_num_trades = length trades, bm_win_rate_pct = pct4 (win_rate trades),
           bm_profit_factor = profit_factor gross_win gross_loss,
           bm_expectancy_usd = fround 4 (mean_of (map bt_pnl_usd trades)),
           bm_avg_win_usd = fround 4 (mean_of wins), bm_avg_loss_usd = fround 4 (mean_of losses),
           bm_exposure_pct = pct4 (exposure curve),
           bm_monthly_returns = map (\<lambda>(k, v). (k, pct4 v)) (monthly_returns curve)\<rparr>)))"

lemma year_month_values: "map year_month [0, 951782400 * 10 ^ 6, 951868800 * 10 ^ 6, 1704067199 * 10 ^ 6, - 1] =
    [(1970, 1), (2000, 2), (2000, 3), (2023, 12), (1969, 12)]"
  by code_simp

lemma month_key_value: "month_key (2000, 3) = ''2000-03''"
  by code_simp

subsection \<open>The drawdown against its definition\<close>

definition running_peak :: "rat list \<Rightarrow> nat \<Rightarrow> rat" where
  "running_peak xs i = Max (set (take (Suc i) xs))"

definition drawdown_at :: "rat list \<Rightarrow> nat \<Rightarrow> rat" where
  "drawdown_at xs i = (let p = running_peak xs i in if p > 0 then fdiv (fsub p (xs ! i)) p else 0)"

text \<open>A stretch of bars that are all below the running peak.\<close>

definition under_water :: "rat list \<Rightarrow> nat \<Rightarrow> nat \<Rightarrow> bool" where
  "under_water xs i n \<longleftrightarrow> i + n \<le> length xs \<and> (\<forall>j<n. xs ! (i + j) < running_peak xs (i + j))"

lemma running_peak_append: "i < length xs \<Longrightarrow> running_peak (xs @ ys) i = running_peak xs i"
  by (simp add: running_peak_def)

lemma drawdown_at_append: "i < length xs \<Longrightarrow> drawdown_at (xs @ ys) i = drawdown_at xs i"
  by (simp add: drawdown_at_def running_peak_append nth_append Let_def)

lemma Max_snoc: "xs \<noteq> [] \<Longrightarrow> Max (set (xs @ [v])) = max v (Max (set xs))"
  by simp

lemma running_peak_snoc: "xs \<noteq> [] \<Longrightarrow> running_peak (xs @ [v]) (length xs) = max v (Max (set xs))"
  by (simp add: running_peak_def)

lemma under_water_append: "i + n \<le> length xs \<Longrightarrow> under_water (xs @ ys) i n = under_water xs i n"
  by (auto simp: under_water_def running_peak_append nth_append)

lemma under_water_snoc:
  assumes "xs \<noteq> []" "under_water (xs @ [v]) i n"
  shows "under_water xs i n \<or> (n = 0 \<and> i = Suc (length xs)) \<or>
    (v < Max (set xs) \<and> (\<exists>k. n = Suc k \<and> i + k = length xs \<and> under_water xs i k))"
proof (cases "i + n \<le> length xs")
  case True
  then show ?thesis using assms by (simp add: under_water_append)
next
  case False
  then have e: "i + n = Suc (length xs)" using assms(2) by (simp add: under_water_def)
  show ?thesis
  proof (cases n)
    case (Suc k)
    have "under_water (xs @ [v]) i k" using assms(2) by (auto simp: under_water_def Suc)
    then have "under_water xs i k" using e by (simp add: under_water_append Suc)
    moreover have "(xs @ [v]) ! (i + k) < running_peak (xs @ [v]) (i + k)"
      using assms(2) by (auto simp: under_water_def Suc)
    then have "v < Max (set xs)" using e assms(1) by (simp add: Suc running_peak_snoc)
    ultimately show ?thesis using e Suc by auto
  qed (use e in simp)
qed

lemma under_water_extend:
  assumes "xs \<noteq> []" "under_water xs i k" "i + k = length xs" "v < Max (set xs)"
  shows "under_water (xs @ [v]) i (Suc k)"
  using assms by (auto simp: under_water_def less_Suc_eq running_peak_append running_peak_snoc nth_append)

definition drawdown_inv :: "rat list \<Rightarrow> drawdown_state \<Rightarrow> bool" where
  "drawdown_inv xs s = (case s of (peak, dd, cur, len) \<Rightarrow>
     peak = Max (set xs) \<and> dd = Max (drawdown_at xs ` {..<length xs}) \<and> 0 \<le> dd \<and>
     (\<exists>c m. cur = int c \<and> len = int m \<and> c \<le> length xs \<and> under_water xs (length xs - c) c \<and>
       (\<forall>i n. i + n = length xs \<longrightarrow> under_water xs i n \<longrightarrow> n \<le> c) \<and>
       (\<exists>i. under_water xs i m) \<and> (\<forall>i n. under_water xs i n \<longrightarrow> n \<le> m)))"

lemma drawdown_invI:
  assumes "peak = Max (set xs)" "dd = Max (drawdown_at xs ` {..<length xs})" "0 \<le> dd"
    and "cur = int c" "c \<le> length xs" "under_water xs (length xs - c) c"
    and "\<And>i n. i + n = length xs \<Longrightarrow> under_water xs i n \<Longrightarrow> n \<le> c"
    and "len = int m" "\<exists>i. under_water xs i m" "\<And>i n. under_water xs i n \<Longrightarrow> n \<le> m"
  shows "drawdown_inv xs (peak, dd, cur, len)"
  unfolding drawdown_inv_def prod.case using assms by blast

lemma drawdown_inv_single: "drawdown_inv [x] (x, 0, 0, 0)"
proof -
  have "n = 0" if "under_water [x] i n" for i n
  proof (rule ccontr)
    assume "n \<noteq> 0"
    then have "i = 0" "[x] ! (i + 0) < running_peak [x] (i + 0)" using that by (auto simp: under_water_def)
    then show False by (simp add: running_peak_def)
  qed
  moreover have "under_water [x] i 0 \<longleftrightarrow> i \<le> 1" for i by (simp add: under_water_def)
  moreover have "drawdown_at [x] ` {..<length [x]} = {0}"
    by (auto simp: drawdown_at_def running_peak_def float_ops binary64.rnd_zero lessThan_Suc)
  ultimately show ?thesis by (auto simp: drawdown_inv_def)
qed

lemma drawdown_at_last:
  assumes "xs \<noteq> []" "peak = Max (set xs)"
  shows "drawdown_at (xs @ [v]) (length xs) =
    (if v \<ge> peak then 0 else if peak > 0 then fdiv (fsub peak v) peak else 0)"
proof -
  have "running_peak (xs @ [v]) (length xs) = max v peak" using assms by (simp add: running_peak_snoc)
  then show ?thesis by (auto simp: drawdown_at_def Let_def float_ops binary64.rnd_zero max_def)
qed

lemma Max_drawdowns_snoc:
  assumes "xs \<noteq> []"
  shows "Max (drawdown_at (xs @ [v]) ` {..<length (xs @ [v])}) =
    max (drawdown_at (xs @ [v]) (length xs)) (Max (drawdown_at xs ` {..<length xs}))"
proof -
  have eq: "drawdown_at (xs @ [v]) ` {..<length (xs @ [v])} =
      insert (drawdown_at (xs @ [v]) (length xs)) (drawdown_at xs ` {..<length xs})"
    by (auto simp: lessThan_Suc drawdown_at_append)
  show ?thesis unfolding eq by (rule Max.insert) (use assms in \<open>auto simp: lessThan_empty_iff\<close>)
qed

lemma drawdown_quotient_nonneg: "v \<le> p \<Longrightarrow> 0 < p \<Longrightarrow> 0 \<le> fdiv (fsub p v) p"
  by (simp add: float_ops binary64.rnd_nonneg binary64.rnd_diff_nonneg)

lemma drawdown_inv_above:
  assumes "xs \<noteq> []" "drawdown_inv xs (peak, dd, cur, len)" "v \<ge> peak"
  shows "drawdown_inv (xs @ [v]) (v, dd, 0, len)"
proof -
  obtain m where i: "peak = Max (set xs)" "dd = Max (drawdown_at xs ` {..<length xs})" "0 \<le> dd" "len = int m"
    "\<exists>i. under_water xs i m" "\<And>i n. under_water xs i n \<Longrightarrow> n \<le> m"
    using assms(2) by (auto simp: drawdown_inv_def)
  have w: "under_water xs i n \<or> n = 0" if "under_water (xs @ [v]) i n" for i n
    using under_water_snoc [OF assms(1) that] assms(3) i(1) by auto
  have e: "n = 0" if "i + n = length (xs @ [v])" "under_water (xs @ [v]) i n" for i n
    using w [OF that(2)] that(1) by (auto simp: under_water_def)
  have "\<exists>i. under_water (xs @ [v]) i m" using i(5) by (metis under_water_append under_water_def)
  moreover have "under_water (xs @ [v]) (length (xs @ [v]) - 0) 0" by (simp add: under_water_def)
  moreover have "v = Max (set (xs @ [v]))" unfolding Max_snoc [OF assms(1)] using assms(3) i(1) by (simp only: max.absorb1)
  moreover have "dd = Max (drawdown_at (xs @ [v]) ` {..<length (xs @ [v])})"
    using i(2,3) assms(3) by (simp only: Max_drawdowns_snoc [OF assms(1)] drawdown_at_last [OF assms(1) i(1)]) simp
  moreover have "n \<le> m" if "under_water (xs @ [v]) i n" for i n using w [OF that] i(6) by auto
  ultimately show ?thesis using i(3,4) e by (intro drawdown_invI [of v _ dd 0 0 len m]) simp_all
qed

lemma drawdown_inv_below:
  assumes "xs \<noteq> []" "drawdown_inv xs (peak, dd, cur, len)" "v < peak"
  shows "drawdown_inv (xs @ [v]) (peak, max dd (if peak > 0 then fdiv (fsub peak v) peak else 0), cur + 1, max len (cur + 1))"
proof -
  obtain c m where i: "peak = Max (set xs)" "dd = Max (drawdown_at xs ` {..<length xs})" "0 \<le> dd"
    "cur = int c" "len = int m" "c \<le> length xs" "under_water xs (length xs - c) c"
    "\<And>i n. i + n = length xs \<Longrightarrow> under_water xs i n \<Longrightarrow> n \<le> c"
    "\<exists>i. under_water xs i m" "\<And>i n. under_water xs i n \<Longrightarrow> n \<le> m"
    using assms(2) by (auto simp: drawdown_inv_def)
  have run: "under_water (xs @ [v]) (length (xs @ [v]) - Suc c) (Suc c)"
    using under_water_extend [OF assms(1) i(7)] i(1,6) assms(3) by simp
  have upper: "n \<le> max m (Suc c) \<and> (i + n = length (xs @ [v]) \<longrightarrow> n \<le> Suc c)" if "under_water (xs @ [v]) i n" for i n
    using under_water_snoc [OF assms(1) that]
  proof (elim disjE)
    assume u: "under_water xs i n"
    then have "i + n \<le> length xs" by (simp add: under_water_def)
    then show ?thesis using i(10) [OF u] by auto
  next
    assume "v < Max (set xs) \<and> (\<exists>k. n = Suc k \<and> i + k = length xs \<and> under_water xs i k)"
    then obtain k where k: "n = Suc k" "i + k = length xs" "under_water xs i k" by auto
    show ?thesis using i(8) [OF k(2,3)] k(1) by auto
  qed auto
  have "\<exists>i. under_water (xs @ [v]) i m" using i(9) by (metis under_water_append under_water_def)
  then have longest: "\<exists>i. under_water (xs @ [v]) i (max m (Suc c))" using run by (metis max_def)
  have peak: "peak = Max (set (xs @ [v]))" unfolding Max_snoc [OF assms(1)] using assms(3) i(1) by (simp only: max.absorb2 less_imp_le)
  have dd: "max dd (if peak > 0 then fdiv (fsub peak v) peak else 0) = Max (drawdown_at (xs @ [v]) ` {..<length (xs @ [v])})"
    using i(2) assms(3) by (simp only: Max_drawdowns_snoc [OF assms(1)] drawdown_at_last [OF assms(1) i(1)]) (simp add: max.commute)
  have lens: "cur + 1 = int (Suc c)" "max len (cur + 1) = int (max m (Suc c))" using i(4,5) by auto
  show ?thesis
    by (rule drawdown_invI [OF peak dd _ lens(1) _ run _ lens(2) longest]) (use i(3,6) upper in \<open>auto simp: le_max_iff_disj\<close>)
qed

lemma drawdown_inv_foldl: "drawdown_inv (x # ys) (foldl drawdown_step (x, 0, 0, 0) (x # ys))"
proof (induction ys rule: rev_induct)
  case (snoc v ys)
  obtain peak dd cur len where s: "foldl drawdown_step (x, 0, 0, 0) (x # ys) = (peak, dd, cur, len)"
    by (cases "foldl drawdown_step (x, 0, 0, 0) (x # ys)")
  then have "drawdown_inv (x # ys) (peak, dd, cur, len)" using snoc by simp
  then have "drawdown_inv ((x # ys) @ [v]) (drawdown_step (peak, dd, cur, len) v)"
    using drawdown_inv_above [of "x # ys" peak dd cur len v] drawdown_inv_below [of "x # ys" peak dd cur len v] by simp
  then show ?case using s by simp
qed (simp add: drawdown_inv_single)

lemma drawdown_inv_result:
  assumes "equity \<noteq> []"
  obtains peak cur where "drawdown_inv equity (peak, fst (max_drawdown equity), cur, snd (max_drawdown equity))"
proof -
  obtain x ys where e: "equity = x # ys" using assms by (cases equity) auto
  obtain peak dd cur len where s: "foldl drawdown_step (x, 0, 0, 0) (x # ys) = (peak, dd, cur, len)"
    by (cases "foldl drawdown_step (x, 0, 0, 0) (x # ys)")
  then have "max_drawdown equity = (dd, len)" by (simp add: max_drawdown_def e)
  then show ?thesis using drawdown_inv_foldl [of x ys] s that [of peak cur] by (simp add: e)
qed

text \<open>The reported drawdown is the real one. The one-pass loop over the equity curve returns the
  largest fall from the running peak over all bars, and the length of the longest stretch of
  consecutive bars below the running peak: there is such a stretch and none is longer.\<close>

theorem max_drawdown_is_maximum:
  assumes "equity \<noteq> []"
  shows "fst (max_drawdown equity) = Max (drawdown_at equity ` {..<length equity}) \<and>
    (\<exists>n. snd (max_drawdown equity) = int n \<and> (\<exists>i. under_water equity i n) \<and>
      (\<forall>i m. under_water equity i m \<longrightarrow> m \<le> n))"
proof -
  obtain peak cur where "drawdown_inv equity (peak, fst (max_drawdown equity), cur, snd (max_drawdown equity))"
    using drawdown_inv_result [OF assms] .
  then show ?thesis by (auto simp: drawdown_inv_def)
qed

text \<open>Two falls: by a quarter for two bars, then by a half for one.\<close>

definition demo_equity :: "rat list" where
  "demo_equity = [4, 3, 7 / 2, 8, 4]"

lemma demo_drawdown: "max_drawdown demo_equity = (1 / 2, 2)"
  by code_simp

theorem max_drawdown_is_maximum_witness:
  "1 / 2 = Max (drawdown_at demo_equity ` {..<length demo_equity}) \<and>
    (\<exists>n. (2 :: int) = int n \<and> (\<exists>i. under_water demo_equity i n) \<and> (\<forall>i m. under_water demo_equity i m \<longrightarrow> m \<le> n))"
proof -
  have "demo_equity \<noteq> []" by (simp add: demo_equity_def)
  from max_drawdown_is_maximum [OF this] show ?thesis unfolding demo_drawdown fst_conv snd_conv .
qed

subsection \<open>Percentages\<close>

lemma pct4_unit: assumes "0 \<le> x" "x \<le> 1" shows "0 \<le> pct4 x \<and> pct4 x \<le> 100"
proof -
  have hundred: "fl 100 = 100" using fl_of_small_int [of 100] by simp
  have "0 \<le> fmul x 100" "fmul x 100 \<le> 100"
    using assms binary64.rnd_le_exact [OF hundred, of "x * 100"] by (simp_all add: fmul_def binary64.rnd_nonneg)
  moreover have "fround 4 0 = 0" "fround 4 100 = 100" by code_simp+
  ultimately show ?thesis using fround_ge [of 4 0] fround_le [of 4 100] by (simp add: pct4_def)
qed

lemma count_ratio: "0 \<le> fdiv (of_nat (length (filter P xs))) (of_nat (length xs)) \<and>
    (xs \<noteq> [] \<longrightarrow> fdiv (of_nat (length (filter P xs))) (of_nat (length xs)) \<le> 1)"
  by (auto simp: fdiv_def binary64.rnd_nonneg intro!: binary64.rnd_ratio_le_one)

lemma drawdown_at_unit:
  assumes "\<forall>x\<in>set xs. 0 \<le> x \<and> is_float x" "i < length xs"
  shows "0 \<le> drawdown_at xs i \<and> drawdown_at xs i \<le> 1"
proof -
  define p where "p = running_peak xs i"
  have p: "p \<in> set (take (Suc i) xs)" unfolding p_def running_peak_def by (rule Max_in) (use assms(2) in auto)
  have v: "xs ! i \<in> set (take (Suc i) xs)" using assms(2) by (simp add: take_Suc_conv_app_nth)
  have "xs ! i \<le> p" unfolding p_def running_peak_def using v by simp
  moreover have "0 \<le> xs ! i" "fl p = p" using assms p by (auto dest!: in_set_takeD)
  moreover have "fsub p (xs ! i) \<le> p" unfolding fsub_def by (rule binary64.rnd_diff_le) fact+
  ultimately show ?thesis
    unfolding drawdown_at_def Let_def p_def [symmetric]
    by (simp add: drawdown_quotient_nonneg) (simp add: fdiv_def binary64.rnd_ratio_le_one)
qed

lemma max_drawdown_unit:
  assumes "\<forall>x\<in>set xs. 0 \<le> x \<and> is_float x"
  shows "0 \<le> fst (max_drawdown xs) \<and> fst (max_drawdown xs) \<le> 1"
proof (cases "xs = []")
  case False
  then obtain peak cur where "drawdown_inv xs (peak, fst (max_drawdown xs), cur, snd (max_drawdown xs))"
    using drawdown_inv_result by blast
  then have "fst (max_drawdown xs) \<in> drawdown_at xs ` {..<length xs}"
    using False by (simp add: drawdown_inv_def Max_in lessThan_empty_iff)
  then show ?thesis using drawdown_at_unit [OF assms] by auto
qed (simp add: max_drawdown_def)

text \<open>The reported percentages lie between 0 and 100 on any curve of non-negative floats.\<close>

lemma metrics_percentages:
  assumes "compute_metrics pow curve trades periods initial = Inr m"
    and "\<forall>p\<in>set curve. 0 \<le> ep_equity p \<and> is_float (ep_equity p)"
  shows "bm_max_drawdown_pct m \<in> {0..100}" "bm_win_rate_pct m \<in> {0..100}" "bm_exposure_pct m \<in> {0..100}"
    "bm_num_trades m = length trades"
proof -
  have m: "bm_max_drawdown_pct m = pct4 (fst (max_drawdown (map ep_equity curve)))"
    "bm_win_rate_pct m = pct4 (win_rate trades)" "bm_exposure_pct m = pct4 (exposure curve)" "bm_num_trades m = length trades"
    using assms(1) by (auto simp: compute_metrics_def Let_def split: prod.splits sum.splits)
  have "0 \<le> win_rate trades \<and> win_rate trades \<le> 1" "0 \<le> exposure curve \<and> exposure curve \<le> 1"
    using count_ratio by (auto simp: win_rate_def exposure_def)
  then show "bm_max_drawdown_pct m \<in> {0..100}" "bm_win_rate_pct m \<in> {0..100}" "bm_exposure_pct m \<in> {0..100}"
    "bm_num_trades m = length trades"
    using m max_drawdown_unit [of "map ep_equity curve"] assms(2) pct4_unit by auto
qed

text \<open>The metrics raise only when the power does, or on an initial balance of zero.\<close>

lemma metrics_total:
  assumes "\<And>x y. \<not> isl (pow x y)" "initial \<noteq> 0"
  shows "\<not> isl (compute_metrics pow curve trades periods initial)"
proof -
  have map: "\<not> isl (map_ok (\<lambda>x. pow (f x) 2) xs)" for f :: "rat \<Rightarrow> rat" and xs
    by (rule map_ok_not_isl) (rule assms(1))
  have std: "\<not> isl (std_of pow xs)" for xs
    using map [of "\<lambda>x. fsub x (mean_of xs)" xs] by (auto simp: std_of_def Let_def split: sum.split)
  have "\<not> isl (cagr_of pow y initial final)" for y final
    using assms(1) [of "fdiv final initial" "fdiv 1 y"] assms(2) by (auto simp: cagr_of_def split: sum.split)
  then show ?thesis
    using std by (auto simp: compute_metrics_def Let_def split: prod.split sum.split if_splits) (metis isl_def)+
qed

end
