(* ===== verification/Benchmarks.thy ===== *)
theory Benchmarks
  imports Backtest_Metrics
begin

text \<open>
  The benchmarks of a backtest (\<open>backtest/benchmarks.py\<close>): buy and hold, and random entries run many
  times through the backtest engine. \<open>random.Random(seed).random()\<close> is a parameter: the stream of
  numbers of a seed. The decision callback of a run keeps its place in that stream.

  Proved here: the summary of the random runs is consistent: the worst, median and best return are
  returns of runs in that order, the strategy beats at most all of them, and the p-value lies in
  (0, 1], is 1 exactly when no run is beaten, and falls as more runs are beaten.
\<close>

definition buy_and_hold ::
  "py_pow \<Rightarrow> candle list \<Rightarrow> backtest_config \<Rightarrow> error + (equity_point list \<times> bt_metrics option)" where
  "buy_and_hold pow cs cfg = (if cs = [] then Inr ([], None) else
    (let fee = bc_fee_pct cfg; slip = bc_slippage_pct cfg;
         entry_fill = fmul (fl (oc_close (hd cs))) (fadd 1 slip);
         invested = fmul (bc_initial_balance cfg) (fsub 1 fee);
         qty = (if entry_fill > 0 then fdiv invested entry_fill else 0);
         curve = map (\<lambda>c. \<lparr>ep_timestamp = oc_timestamp c, ep_equity = fmul qty (fl (oc_close c)), ep_in_market = True\<rparr>) cs;
         exit_fill = fmul (fl (oc_close (last cs))) (fsub 1 slip);
         final_equity = fmul (fmul qty exit_fill) (fsub 1 fee);
         curve1 = butlast curve @ [\<lparr>ep_timestamp = oc_timestamp (last cs), ep_equity = final_equity, ep_in_market = False\<rparr>]
     in case compute_metrics pow curve1 [] (periods_per_year cfg) (bc_initial_balance cfg) of
          Inl e \<Rightarrow> Inl e | Inr m \<Rightarrow> Inr (curve1, Some m)))"

subsection \<open>Random entries\<close>

type_synonym random_streams = "int \<Rightarrow> nat \<Rightarrow> rat"

definition entry_prob :: "nat \<Rightarrow> int \<Rightarrow> rat" where
  "entry_prob n target_trades = min 1 (fdiv (of_int (max target_trades 1)) (of_int (max (int n - 60) 1)))"

definition random_decider :: "(nat \<Rightarrow> rat) \<Rightarrow> rat \<Rightarrow> nat decider" where
  "random_decider rng p = (\<lambda>k b i. if buffer_size b < 60 then Inr (None, k)
     else if rng k < p then Inr (Some (if rng (Suc k) < 1 / 2 then BUY else SELL), k + 2)
     else Inr (None, Suc k))"

definition random_run ::
  "py_pow \<Rightarrow> random_streams \<Rightarrow> candle list \<Rightarrow> backtest_config \<Rightarrow> rat \<Rightarrow> nat \<Rightarrow> error + bt_metrics" where
  "random_run pow rng cs cfg p run_idx =
    (case run_with_decider cs cfg (random_decider (rng (bc_random_seed cfg + int run_idx)) p) 0 of
       Inl e \<Rightarrow> Inl e
     | Inr (r, k) \<Rightarrow> compute_metrics pow (run_curve r) (run_trades r) (periods_per_year cfg) (bc_initial_balance cfg))"

record random_comparison =
  rc_strategy_return_pct :: rat
  rc_strategy_beats_runs :: nat
  rc_strategy_percentile :: rat
  rc_p_value_vs_random :: rat

record random_summary =
  rs_runs :: nat
  rs_entry_prob :: rat
  rs_mean_total_return_pct :: rat
  rs_median_total_return_pct :: rat
  rs_best_total_return_pct :: rat
  rs_worst_total_return_pct :: rat
  rs_mean_sharpe :: rat
  rs_mean_win_rate_pct :: rat
  rs_comparison :: "random_comparison option"

definition mean4 :: "rat list \<Rightarrow> rat" where
  "mean4 xs = (if xs = [] then 0 else fround 4 (fdiv (fsum xs) (of_nat (length xs))))"

definition beaten :: "rat \<Rightarrow> rat list \<Rightarrow> nat" where
  "beaten x rs = length (filter (\<lambda>r. x > r) rs)"

definition p_value :: "nat \<Rightarrow> nat \<Rightarrow> rat" where
  "p_value k beats = fround 4 (fdiv (of_int (int k - int beats + 1)) (of_nat (k + 1)))"

definition compare_random :: "rat \<Rightarrow> rat list \<Rightarrow> random_comparison" where
  "compare_random x rs = (let k = length rs; b = beaten x rs in
     \<lparr>rc_strategy_return_pct = fround 4 x, rc_strategy_beats_runs = b,
      rc_strategy_percentile = fround 2 (fdiv (of_nat (100 * b)) (of_nat k)),
      rc_p_value_vs_random = p_value k b\<rparr>)"

definition random_entry ::
  "py_pow \<Rightarrow> random_streams \<Rightarrow> candle list \<Rightarrow> backtest_config \<Rightarrow> int \<Rightarrow> rat option \<Rightarrow> error + random_summary option" where
  "random_entry pow rng cs cfg target_trades strategy_return_pct =
    (if length cs < 2 then Inr None else
     (let p = entry_prob (length cs) target_trades in
      case map_ok (random_run pow rng cs cfg p) [0..<bc_random_runs cfg] of Inl e \<Rightarrow> Inl e
      | Inr ms \<Rightarrow> (let rs = map bm_total_return_pct ms; k = length rs in
          Inr (Some \<lparr>rs_runs = k, rs_entry_prob = fround 5 p, rs_mean_total_return_pct = mean4 rs,
            rs_median_total_return_pct = (if k > 0 then fround 4 (sort rs ! (k div 2)) else 0),
            rs_best_total_return_pct = (if k > 0 then fround 4 (Max (set rs)) else 0),
            rs_worst_total_return_pct = (if k > 0 then fround 4 (Min (set rs)) else 0),
            rs_mean_sharpe = mean4 (map bm_sharpe ms), rs_mean_win_rate_pct = mean4 (map bm_win_rate_pct ms),
            rs_comparison = (case strategy_return_pct of None \<Rightarrow> None
              | Some x \<Rightarrow> if k > 0 then Some (compare_random x rs) else None)\<rparr>))))"

subsection \<open>Facts\<close>

lemma entry_prob_unit: "entry_prob n t \<le> 1" "0 \<le> entry_prob n t"
  by (auto simp: entry_prob_def fdiv_def binary64.rnd_nonneg)

text \<open>A random run trades, or does not, whatever the stream holds: the callback never raises, so a run
  raises only where its metrics do.\<close>

lemma random_run_metrics:
  obtains r k where "run_with_decider cs cfg (random_decider g p) 0 = Inr (r, k)"
proof -
  have "\<not> isl (random_decider g p d b i)" for d b i by (simp add: random_decider_def)
  then show ?thesis using run_total [of "random_decider g p" cs cfg 0] that by blast
qed

lemma random_run_total:
  assumes "\<And>x y. \<not> isl (pow x y)" "bc_initial_balance cfg \<noteq> 0"
  shows "\<not> isl (random_run pow rng cs cfg p i)"
proof -
  obtain r k where "run_with_decider cs cfg (random_decider (rng (bc_random_seed cfg + int i)) p) 0 = Inr (r, k)"
    using random_run_metrics .
  then show ?thesis using metrics_total [of pow, OF assms] by (simp add: random_run_def)
qed

lemma beaten_le: "beaten x rs \<le> length rs"
  by (simp add: beaten_def)

lemma p_value_range:
  assumes "b \<le> k" "k \<le> 9999"
  shows "0 < p_value k b \<and> p_value k b \<le> 1"
proof -
  have "1 / 10000 \<le> (of_int (int k - int b + 1) / of_nat (k + 1) :: rat)"
    using assms by (simp add: field_simps)
  then have "fl (1 / 10000) \<le> fdiv (of_int (int k - int b + 1)) (of_nat (k + 1))"
    unfolding fdiv_def by (rule binary64.rnd_mono)
  then have "fround 4 (fl (1 / 10000)) \<le> p_value k b" unfolding p_value_def by (rule fround_mono)
  moreover have "0 < fround 4 (fl (1 / 10000))" by code_simp
  moreover have "fdiv (of_int (int k - int b + 1)) (of_nat (k + 1)) \<le> 1"
    unfolding fdiv_def by (rule binary64.rnd_ratio_le_one) (use assms in auto)
  ultimately show ?thesis using fround_le [of 4 1] by (simp add: p_value_def fround4_values)
qed

lemma p_value_antimono: "b \<le> c \<Longrightarrow> p_value k c \<le> p_value k b"
  unfolding p_value_def fdiv_def by (intro fround_mono binary64.rnd_mono divide_right_mono) simp_all

lemma p_value_none: "p_value k 0 = 1"
proof -
  have "fdiv (of_int (int k - int 0 + 1)) (of_nat (k + 1)) = 1" by (simp add: fdiv_def binary64.rnd_one add.commute)
  then show ?thesis by (simp add: p_value_def fround4_values)
qed

lemma beaten_mono: "y \<le> x \<Longrightarrow> beaten y rs \<le> beaten x rs"
  unfolding beaten_def by (induction rs) auto

lemma compare_random_facts:
  assumes "length rs \<le> 9999"
  shows "rc_strategy_beats_runs (compare_random x rs) = card {i. i < length rs \<and> rs ! i < x} \<and>
    rc_strategy_beats_runs (compare_random x rs) \<le> length rs \<and>
    0 < rc_p_value_vs_random (compare_random x rs) \<and> rc_p_value_vs_random (compare_random x rs) \<le> 1 \<and>
    (rc_strategy_beats_runs (compare_random x rs) = 0 \<longrightarrow> rc_p_value_vs_random (compare_random x rs) = 1) \<and>
    (\<forall>y\<le>x. rc_p_value_vs_random (compare_random x rs) \<le> rc_p_value_vs_random (compare_random y rs))"
  using beaten_le [of x rs] p_value_range [OF beaten_le assms, of x] p_value_antimono [OF beaten_mono]
  by (simp add: compare_random_def Let_def p_value_none) (simp add: beaten_def length_filter_conv_card)

lemma median_mem: "rs \<noteq> [] \<Longrightarrow> sort rs ! (length rs div 2) \<in> set rs"
  by (metis length_sort set_sort nth_mem div_less_dividend length_greater_0_conv one_less_numeral_iff semiring_norm(76))

lemma random_entry_total:
  assumes "\<And>x y. \<not> isl (pow x y)" "bc_initial_balance cfg \<noteq> 0" "2 \<le> length cs"
  shows "\<exists>s. random_entry pow rng cs cfg t sr = Inr (Some s)"
proof -
  have "\<not> isl (map_ok (random_run pow rng cs cfg (entry_prob (length cs) t)) [0..<bc_random_runs cfg])"
    by (rule map_ok_not_isl) (rule random_run_total [OF assms(1,2)])
  then show ?thesis using assms(3) by (auto simp: random_entry_def Let_def split: sum.split)
qed

lemma random_entry_SomeE:
  assumes "random_entry pow rng cs cfg t sr = Inr (Some s)"
  obtains ms where "map_ok (random_run pow rng cs cfg (entry_prob (length cs) t)) [0..<bc_random_runs cfg] = Inr ms"
    "length ms = bc_random_runs cfg" "rs_runs s = length ms"
    "rs_median_total_return_pct s = (if ms = [] then 0 else fround 4 (sort (map bm_total_return_pct ms) ! (length ms div 2)))"
    "rs_best_total_return_pct s = (if ms = [] then 0 else fround 4 (Max (set (map bm_total_return_pct ms))))"
    "rs_worst_total_return_pct s = (if ms = [] then 0 else fround 4 (Min (set (map bm_total_return_pct ms))))"
    "rs_comparison s = (case sr of None \<Rightarrow> None | Some x \<Rightarrow> if ms = [] then None else Some (compare_random x (map bm_total_return_pct ms)))"
proof -
  obtain ms where ms: "map_ok (random_run pow rng cs cfg (entry_prob (length cs) t)) [0..<bc_random_runs cfg] = Inr ms"
    using assms by (auto simp: random_entry_def Let_def split: if_splits sum.splits)
  have len: "length ms = bc_random_runs cfg" using list_all2_lengthD [OF map_ok_InrD [OF ms]] by simp
  have two: "\<not> length cs < 2" using assms by (auto simp: random_entry_def)
  show ?thesis
    by (rule that [OF ms len]) (use assms ms two in \<open>cases ms; auto simp: random_entry_def Let_def split: option.split\<close>)+
qed

text \<open>The comparison with random entries is sound. For up to 9999 runs that completed, the worst,
  median and best returns are returns of some runs and stand in that order; when a strategy's return
  is given it beats at most as many runs as there were, and its p-value lies strictly above 0 and at
  most at 1, is 1 when it beats none, and is never smaller for a strategy with a smaller return.\<close>

theorem random_entry_sound:
  assumes "random_entry pow rng cs cfg t sr = Inr (Some s)" "0 < bc_random_runs cfg" "bc_random_runs cfg \<le> 9999"
  shows "rs_runs s = bc_random_runs cfg \<and>
    rs_worst_total_return_pct s \<le> rs_median_total_return_pct s \<and>
    rs_median_total_return_pct s \<le> rs_best_total_return_pct s \<and>
    (\<exists>rs. length rs = rs_runs s \<and>
      (\<forall>i<length rs. \<exists>m. random_run pow rng cs cfg (entry_prob (length cs) t) i = Inr m \<and> rs ! i = bm_total_return_pct m) \<and>
      {rs_worst_total_return_pct s, rs_median_total_return_pct s, rs_best_total_return_pct s} \<subseteq> fround 4 ` set rs \<and>
      (\<forall>x. sr = Some x \<longrightarrow> (\<exists>c. rs_comparison s = Some c \<and>
        rc_strategy_beats_runs c = card {i. i < length rs \<and> rs ! i < x} \<and> rc_strategy_beats_runs c \<le> rs_runs s \<and>
        0 < rc_p_value_vs_random c \<and> rc_p_value_vs_random c \<le> 1 \<and>
        (rc_strategy_beats_runs c = 0 \<longrightarrow> rc_p_value_vs_random c = 1) \<and>
        (\<forall>y\<le>x. rc_p_value_vs_random c \<le> rc_p_value_vs_random (compare_random y rs)))))"
proof -
  obtain ms where runs: "map_ok (random_run pow rng cs cfg (entry_prob (length cs) t)) [0..<bc_random_runs cfg] = Inr ms"
    and ms: "length ms = bc_random_runs cfg" "rs_runs s = length ms"
    "rs_median_total_return_pct s = (if ms = [] then 0 else fround 4 (sort (map bm_total_return_pct ms) ! (length ms div 2)))"
    "rs_best_total_return_pct s = (if ms = [] then 0 else fround 4 (Max (set (map bm_total_return_pct ms))))"
    "rs_worst_total_return_pct s = (if ms = [] then 0 else fround 4 (Min (set (map bm_total_return_pct ms))))"
    "rs_comparison s = (case sr of None \<Rightarrow> None | Some x \<Rightarrow> if ms = [] then None else Some (compare_random x (map bm_total_return_pct ms)))"
    using random_entry_SomeE [OF assms(1)] .
  define rs where "rs = map bm_total_return_pct ms"
  have ne: "ms \<noteq> []" "rs \<noteq> []" "length rs = length ms" using ms(1) assms(2) by (auto simp: rs_def)
  have each: "\<forall>i<length rs. \<exists>m. random_run pow rng cs cfg (entry_prob (length cs) t) i = Inr m \<and> rs ! i = bm_total_return_pct m"
    using map_ok_InrD [OF runs] by (auto simp: list_all2_conv_all_nth rs_def)
  define med where "med = sort rs ! (length rs div 2)"
  have med: "med \<in> set rs" unfolding med_def using median_mem [OF ne(2)] .
  have vals: "rs_median_total_return_pct s = fround 4 med" "rs_best_total_return_pct s = fround 4 (Max (set rs))"
    "rs_worst_total_return_pct s = fround 4 (Min (set rs))"
    using ms ne by (simp_all add: med_def rs_def)
  have order: "fround 4 (Min (set rs)) \<le> fround 4 med" "fround 4 med \<le> fround 4 (Max (set rs))"
    using med by (auto intro!: fround_mono)
  have mem: "{fround 4 (Min (set rs)), fround 4 med, fround 4 (Max (set rs))} \<subseteq> fround 4 ` set rs"
    using med ne(2) by auto
  have cmp: "rs_comparison s = Some (compare_random x rs)" if "sr = Some x" for x
    using ms(6) ne that by (simp add: rs_def)
  have facts: "rc_strategy_beats_runs (compare_random x rs) = card {i. i < length rs \<and> rs ! i < x} \<and>
      rc_strategy_beats_runs (compare_random x rs) \<le> length rs \<and>
      0 < rc_p_value_vs_random (compare_random x rs) \<and> rc_p_value_vs_random (compare_random x rs) \<le> 1 \<and>
      (rc_strategy_beats_runs (compare_random x rs) = 0 \<longrightarrow> rc_p_value_vs_random (compare_random x rs) = 1) \<and>
      (\<forall>y\<le>x. rc_p_value_vs_random (compare_random x rs) \<le> rc_p_value_vs_random (compare_random y rs))" for x
    using compare_random_facts [of rs x] ne ms(1) assms(3) by simp
  have "\<exists>c. rs_comparison s = Some c \<and> rc_strategy_beats_runs c = card {i. i < length rs \<and> rs ! i < x} \<and>
      rc_strategy_beats_runs c \<le> rs_runs s \<and> 0 < rc_p_value_vs_random c \<and> rc_p_value_vs_random c \<le> 1 \<and>
      (rc_strategy_beats_runs c = 0 \<longrightarrow> rc_p_value_vs_random c = 1) \<and>
      (\<forall>y\<le>x. rc_p_value_vs_random c \<le> rc_p_value_vs_random (compare_random y rs))" if "sr = Some x" for x
    unfolding ms(2) ne(3) [symmetric]
    by (rule exI [of _ "compare_random x rs"], rule conjI [OF cmp [OF that] facts [of x]])
  then show ?thesis
    unfolding vals using order mem each ms(1,2) ne(3) by (intro conjI exI [of _ rs]) auto
qed

text \<open>Three runs over the demonstration bars; the numbers drawn do not matter here.\<close>

abbreviation demo_random :: "error + random_summary option" where
  "demo_random \<equiv> random_entry (\<lambda>x y. Inr 1) (\<lambda>seed k. 0) demo_bars (demo_config\<lparr>bc_random_runs := 3\<rparr>) 5 (Some 1)"

theorem random_entry_sound_witness:
  "\<exists>s. demo_random = Inr (Some s) \<and> rs_runs s = 3 \<and>
    rs_worst_total_return_pct s \<le> rs_median_total_return_pct s \<and>
    rs_median_total_return_pct s \<le> rs_best_total_return_pct s \<and>
    (\<exists>c. rs_comparison s = Some c \<and> 0 < rc_p_value_vs_random c \<and> rc_p_value_vs_random c \<le> 1)"
proof -
  have "\<exists>s. demo_random = Inr (Some s)"
    by (rule random_entry_total) (simp_all add: demo_config_def demo_bars_def)
  then obtain s where s: "demo_random = Inr (Some s)" ..
  show ?thesis
    using random_entry_sound [OF s] s by (intro exI [of _ s]) auto
qed

end
