(* ===== verification/Evaluation.thy ===== *)
theory Evaluation
  imports Benchmarks Walk_Forward
begin

text \<open>
  A full evaluation (\<open>backtest/run.py\<close>, \<open>backtest/ml_eval.py\<close>): the rule-based strategy, its benchmarks, the
  out-of-sample test of the classifier and the walk-forward strategy, with the verdict whether the
  latter is kept. Reading the data files, the scikit-learn scores and the report files are outside;
  the two histories (the strategies' and the classifier's) are arguments, since the classifier is
  always evaluated on the bundled data.

  Proved here: the classifier is evaluated on the samples the trainer would build from the same
  history, with a test fold no training sample comes from; the walk-forward strategy is kept exactly
  when it beats the rules on both return and Sharpe ratio.
\<close>

subsection \<open>The classifier out of sample\<close>

definition build_xy :: "numpy \<Rightarrow> math_lib \<Rightarrow> label_generator \<Rightarrow> candle list \<Rightarrow> rat list list \<times> series" where
  "build_xy np ml g cs =
    (let b = to_arrays cs; X = build_feature_matrix np ml b; y = generate_labels g (ba_closes b);
         first = int MIN_BARS_REQUIRED - 1; stop = int (length (ba_closes b)) - lg_horizon g
     in if stop \<le> first \<or> X = [] then ([], [])
        else (take (nat (stop - first)) X, drop (nat first) (take (nat stop) y)))"

text \<open>\<open>np.vectorize(dict.get)(y).astype(int64)\<close>: a missing label cannot be converted.\<close>

definition label_classes :: "series \<Rightarrow> error + nat list" where
  "label_classes y = (if None \<in> set y then Inl (Type_error ''int64'') else classes_of (map the y))"

record class_balance =
  cb_sell :: nat
  cb_hold :: nat
  cb_buy :: nat

definition balance_of :: "nat list \<Rightarrow> class_balance" where
  "balance_of ys = \<lparr>cb_sell = length (filter (\<lambda>c. c = 0) ys), cb_hold = length (filter (\<lambda>c. c = 1) ys),
     cb_buy = length (filter (\<lambda>c. c = 2) ys)\<rparr>"

record ml_report =
  mlr_n_samples :: nat
  mlr_train_size :: nat
  mlr_test_size :: nat
  mlr_accuracy :: rat
  mlr_balance_train :: class_balance
  mlr_balance_test :: class_balance

text \<open>\<open>None\<close> is the report \<open>available: False\<close>.\<close>

definition evaluate_ml :: "numpy \<Rightarrow> math_lib \<Rightarrow> 'm learner \<Rightarrow> int \<Rightarrow> rat \<Rightarrow> candle list \<Rightarrow> error + ml_report option" where
  "evaluate_ml np ml le horizon threshold cs =
    (case new_label_generator horizon threshold of Inl e \<Rightarrow> Inl e
     | Inr g \<Rightarrow> (case build_xy np ml g cs of (X, y) \<Rightarrow>
         if length X < 60 then Inr None
         else case label_classes y of Inl e \<Rightarrow> Inl e
         | Inr ys \<Rightarrow>
           let split = split_at (length X); X_test = drop split X; y_train = take split ys; y_test = drop split ys in
           case le_fit le (take split X) y_train (class_weights y_train) of Inl e \<Rightarrow> Inl e
           | Inr m \<Rightarrow> Inr (Some \<lparr>mlr_n_samples = length X, mlr_train_size = length (take split X), mlr_test_size = length X_test,
               mlr_accuracy = fround 4 (np_mean np (map2 (\<lambda>x c. if argmax (le_predict_proba le m x) = c then 1 else 0) X_test y_test)),
               mlr_balance_train = balance_of y_train, mlr_balance_test = balance_of y_test\<rparr>)))"

subsection \<open>The run\<close>

record improvement =
  im_metrics :: bt_metrics
  im_return_delta_pct :: rat
  im_sharpe_delta :: rat
  im_beats_baseline :: bool
  im_kept :: bool

record evaluation =
  evl_strategy :: bt_metrics
  evl_buy_hold :: "bt_metrics option"
  evl_random :: "random_summary option"
  evl_ml :: "ml_report option"
  evl_improved :: "improvement option"

definition beats :: "bt_metrics \<Rightarrow> bt_metrics \<Rightarrow> bool" where
  "beats m base \<longleftrightarrow> bm_total_return_pct m > bm_total_return_pct base \<and> bm_sharpe m > bm_sharpe base"

definition improvement_of :: "bt_metrics \<Rightarrow> bt_metrics \<Rightarrow> improvement" where
  "improvement_of m base = \<lparr>im_metrics = m,
     im_return_delta_pct = fround 4 (fsub (bm_total_return_pct m) (bm_total_return_pct base)),
     im_sharpe_delta = fround 4 (fsub (bm_sharpe m) (bm_sharpe base)),
     im_beats_baseline = beats m base, im_kept = beats m base\<rparr>"

definition run_metrics :: "py_pow \<Rightarrow> backtest_config \<Rightarrow> error + (backtest_run \<times> 'd) \<Rightarrow> error + bt_metrics" where
  "run_metrics pow cfg r = (case r of Inl e \<Rightarrow> Inl e
     | Inr (run, d) \<Rightarrow> compute_metrics pow (run_curve run) (run_trades run) (periods_per_year cfg) (bc_initial_balance cfg))"

record 'm eval_env =
  ee_pow :: py_pow
  ee_lib :: indicator_lib
  ee_numpy :: numpy
  ee_math :: math_lib
  ee_learner :: "'m learner"
  ee_signals :: "nat \<Rightarrow> gen_env"
  ee_streams :: random_streams

definition walkforward_part :: "'m eval_env \<Rightarrow> backtest_config \<Rightarrow> wf_params option \<Rightarrow> candle list \<Rightarrow> bt_metrics \<Rightarrow> error + improvement option" where
  "walkforward_part env cfg params cs base = (case params of None \<Rightarrow> Inr None
   | Some pm \<Rightarrow> (case run_metrics (ee_pow env) cfg (run_walkforward (ee_numpy env) (ee_math env) (ee_learner env) cs cfg pm) of
        Inl e \<Rightarrow> Inl e | Inr m \<Rightarrow> Inr (Some (improvement_of m base))))"

definition random_part :: "'m eval_env \<Rightarrow> backtest_config \<Rightarrow> candle list \<Rightarrow> bt_metrics \<Rightarrow> error + random_summary option" where
  "random_part env cfg cs base = (if bm_num_trades base \<noteq> 0
     then random_entry (ee_pow env) (ee_streams env) cs cfg (int (bm_num_trades base)) (Some (bm_total_return_pct base))
     else Inr None)"

text \<open>\<open>main\<close> between loading the data and writing the files; \<open>None\<close> is the exit with too few candles.\<close>

definition evaluate_run ::
  "'m eval_env \<Rightarrow> ta_settings \<Rightarrow> backtest_config \<Rightarrow> wf_params option \<Rightarrow> int \<Rightarrow> rat \<Rightarrow> candle list \<Rightarrow> error + candle list \<Rightarrow>
    error + evaluation option" where
  "evaluate_run env ta cfg params ml_horizon ml_threshold cs bundled =
    (if length cs < 80 then Inr None else
     case run_metrics (ee_pow env) cfg (run_strategy cs cfg (ee_lib env) (ee_numpy env) ta (ee_signals env)) of Inl e \<Rightarrow> Inl e
     | Inr base \<Rightarrow> (case buy_and_hold (ee_pow env) cs cfg of Inl e \<Rightarrow> Inl e
     | Inr (curve, bh) \<Rightarrow> (case random_part env cfg cs base of Inl e \<Rightarrow> Inl e
     | Inr rnd \<Rightarrow> (case bundled of Inl e \<Rightarrow> Inl e
     | Inr ml_cs \<Rightarrow> (case evaluate_ml (ee_numpy env) (ee_math env) (ee_learner env) ml_horizon ml_threshold ml_cs of Inl e \<Rightarrow> Inl e
     | Inr ml \<Rightarrow> (case walkforward_part env cfg params cs base of Inl e \<Rightarrow> Inl e
     | Inr imp \<Rightarrow> Inr (Some \<lparr>evl_strategy = base, evl_buy_hold = bh, evl_random = rnd, evl_ml = ml, evl_improved = imp\<rparr>)))))))"

subsection \<open>Facts\<close>

text \<open>The classifier is evaluated on what it would be trained on. For every history and every label
  generator with a positive horizon, the samples the evaluation builds are those the trainer builds:
  the same feature rows with the same labels, none of them missing.\<close>

theorem evaluation_samples_are_training_samples:
  assumes "1 \<le> lg_horizon g"
  shows "build_xy np ml g cs = training_data np ml g cs \<and> None \<notin> set (snd (build_xy np ml g cs))"
proof -
  have len: "length (ba_closes (to_arrays cs)) = length cs" by (simp add: to_arrays_def)
  have "build_feature_matrix np ml (to_arrays cs) \<noteq> []" if "int FIRST_ROW < int (length cs) - lg_horizon g"
    using that assms by (auto simp: matrix_rows len FIRST_ROW_def MIN_BARS_REQUIRED_def)
  then have same: "build_xy np ml g cs = training_data np ml g cs"
    using assms by (cases "cs = []") (auto simp: build_xy_def training_data_def Let_def len FIRST_ROW_def MIN_BARS_REQUIRED_def)
  obtain X y where d: "training_data np ml g cs = (X, y)" by (cases "training_data np ml g cs")
  have "y ! k \<noteq> None" if "k < length X" for k using training_data_nth [OF d assms that] by simp
  moreover have "length y = length X"
    using training_data_nth [OF d assms, of 0] d
    by (cases X) (auto simp: training_data_def Let_def matrix_rows len FIRST_ROW_def MIN_BARS_REQUIRED_def split: if_splits)
  ultimately have "None \<notin> set y" by (metis in_set_conv_nth)
  then show ?thesis using same d by simp
qed

theorem evaluation_samples_are_training_samples_witness:
  "build_xy demo_numpy \<lparr>ml_log = id, ml_sin = id, ml_cos = id\<rparr> \<lparr>lg_horizon = 1, lg_threshold = 1 / 100\<rparr>
      (map (\<lambda>t. mk_candle ''BTC/USDT'' t 64000) [1..70]) =
    training_data demo_numpy \<lparr>ml_log = id, ml_sin = id, ml_cos = id\<rparr> \<lparr>lg_horizon = 1, lg_threshold = 1 / 100\<rparr>
      (map (\<lambda>t. mk_candle ''BTC/USDT'' t 64000) [1..70])"
  by (rule evaluation_samples_are_training_samples [THEN conjunct1]) simp

text \<open>The verdict: the walk-forward strategy is kept exactly when its reported return and its reported
  Sharpe ratio are both larger than the rules', computed on the same candles.\<close>

theorem evaluation_verdict:
  assumes "evaluate_run env ta cfg params h th cs bundled = Inr (Some ev)" "evl_improved ev = Some im"
  obtains pm where "params = Some pm"
    "run_metrics (ee_pow env) cfg (run_strategy cs cfg (ee_lib env) (ee_numpy env) ta (ee_signals env)) = Inr (evl_strategy ev)"
    "run_metrics (ee_pow env) cfg (run_walkforward (ee_numpy env) (ee_math env) (ee_learner env) cs cfg pm) = Inr (im_metrics im)"
    "im_kept im \<longleftrightarrow> bm_total_return_pct (im_metrics im) > bm_total_return_pct (evl_strategy ev) \<and>
      bm_sharpe (im_metrics im) > bm_sharpe (evl_strategy ev)"
proof -
  obtain pm where "params = Some pm" using assms
    by (cases params) (auto simp: evaluate_run_def walkforward_part_def split: if_splits sum.splits prod.splits)
  then show ?thesis
    using assms that [of pm]
    by (auto simp: evaluate_run_def walkforward_part_def improvement_of_def beats_def split: if_splits sum.splits prod.splits)
qed

text \<open>Without trades of the strategy there is no random comparison.\<close>

lemma no_trades_no_random: "bm_num_trades base = 0 \<Longrightarrow> random_part env cfg cs base = Inr None"
  by (simp add: random_part_def)

end
