(* ===== verification/Script_Backtest.thy ===== *)
theory Script_Backtest
  imports Backtest_Metrics Signal_Aggregator Proposal_Builder Position_Sizer Drawdown_Monitor
begin

text \<open>
  The offline harness (\<open>scripts/backtest.py\<close>): candles from the database replayed through the signal
  generator, the aggregator, the proposal builder, the drawdown monitor and the position sizer, with
  fills at the close. The clocks and identifiers each candle's calls consume are the environments of
  the candles. The monitor's day changes with the wall clock, not with the candles. Loading the
  candles, the command line and the printed summary are outside.

  Proved here: the harness and the monitor agree on what is open, every trade starts and ends at the
  close of a candle of the history, and at the end nothing is open in the monitor. The request's fields that a result only repeats are left out of it.
\<close>

record script_position =
  sq_entry_price :: money
  sq_quantity :: money
  sq_side :: order_side
  sq_entry_time :: time

record trade_record =
  tr_symbol :: symbol
  tr_side :: order_side
  tr_entry_price :: money
  tr_exit_price :: money
  tr_quantity :: money
  tr_pnl :: money
  tr_entry_time :: time
  tr_exit_time :: time

record script_result =
  sr_initial_balance :: rat
  sr_final_balance :: rat
  sr_total_trades :: nat
  sr_winning_trades :: nat
  sr_losing_trades :: nat
  sr_total_pnl :: rat
  sr_max_drawdown :: rat
  sr_sharpe_ratio :: rat
  sr_trades :: "trade_record list"

record script_state =
  sb_registry :: buffer_registry
  sb_open :: "(symbol, script_position) dict"
  sb_trades :: "trade_record list"
  sb_peak :: money
  sb_max_drawdown :: rat
  sb_monitor :: drawdown_monitor

record pipeline =
  pl_lib :: indicator_lib
  pl_numpy :: numpy
  pl_ta :: ta_settings
  pl_aggregator :: signal_aggregator
  pl_builder :: proposal_builder
  pl_sizer :: position_sizer

definition new_pipeline :: "indicator_lib \<Rightarrow> numpy \<Rightarrow> settings \<Rightarrow> pipeline" where
  "new_pipeline lib np s = (let rs = st_risk s; ta = st_technical_analysis s in
     \<lparr>pl_lib = lib, pl_numpy = np, pl_ta = ta, pl_aggregator = new_signal_aggregator (ta_min_signal_confidence ta),
      pl_builder = new_proposal_builder (rs_max_position_pct rs) (rs_max_order_size_usd rs),
      pl_sizer = new_position_sizer (rs_max_position_pct rs) (rs_min_order_size_usd rs) (rs_max_order_size_usd rs)\<rparr>)"

record candle_env =
  cv_gen :: gen_env
  cv_agg :: agg_env
  cv_proposal_id :: uuid
  cv_now :: time

definition start_script :: "time \<Rightarrow> settings \<Rightarrow> rat \<Rightarrow> script_state" where
  "start_script now s initial = \<lparr>sb_registry = [], sb_open = [], sb_trades = [], sb_peak = dec_of_float initial,
     sb_max_drawdown = 0, sb_monitor = new_drawdown_monitor now initial (rs_max_daily_loss_pct (st_risk s))
       (rs_max_total_drawdown_pct (st_risk s))\<rparr>"

subsection \<open>Closing and opening\<close>

definition script_pnl :: "script_position \<Rightarrow> money \<Rightarrow> money" where
  "script_pnl p price = (if sq_side p = BUY then dmul (dsub price (sq_entry_price p)) (sq_quantity p)
     else dmul (dsub (sq_entry_price p) price) (sq_quantity p))"

definition script_trade :: "symbol \<Rightarrow> script_position \<Rightarrow> candle \<Rightarrow> trade_record" where
  "script_trade s p c = \<lparr>tr_symbol = s, tr_side = sq_side p, tr_entry_price = sq_entry_price p,
     tr_exit_price = oc_close c, tr_quantity = sq_quantity p, tr_pnl = script_pnl p (oc_close c),
     tr_entry_time = sq_entry_time p, tr_exit_time = oc_timestamp c\<rparr>"

definition monitor_close :: "symbol \<Rightarrow> money \<Rightarrow> drawdown_monitor \<Rightarrow> drawdown_monitor" where
  "monitor_close s pnl m = m\<lparr>dm_state := ledger_close s pnl (dm_state m)\<rparr>"

definition track_peak :: "script_state \<Rightarrow> script_state" where
  "track_peak st = (let current = portfolio_value_usd (dm_state (sb_monitor st)) in
     if current > sb_peak st then st\<lparr>sb_peak := current\<rparr>
     else if sb_peak st > 0
       then st\<lparr>sb_max_drawdown := max (sb_max_drawdown st) (fl (ddiv (dsub (sb_peak st) current) (sb_peak st)))\<rparr>
     else st)"

definition close_opposite :: "candle \<Rightarrow> order_side \<Rightarrow> script_state \<Rightarrow> script_state" where
  "close_opposite c side st = (case map_of (sb_open st) (oc_symbol c) of None \<Rightarrow> st
   | Some p \<Rightarrow> if sq_side p = side then st
       else track_peak (st\<lparr>sb_monitor := monitor_close (oc_symbol c) (script_pnl p (oc_close c)) (sb_monitor st),
              sb_trades := sb_trades st @ [script_trade (oc_symbol c) p c],
              sb_open := AList.delete (oc_symbol c) (sb_open st)\<rparr>))"

definition open_at_close :: "candle \<Rightarrow> order_side \<Rightarrow> money \<Rightarrow> script_state \<Rightarrow> error + script_state" where
  "open_at_close c side amount st = (if amount \<le> 0 then Inr st
     else if oc_close c = 0 then Inl Zero_division
     else Inr (st\<lparr>sb_monitor := (sb_monitor st)\<lparr>dm_state := ledger_open (oc_symbol c) amount None (dm_state (sb_monitor st))\<rparr>,
       sb_open := AList.update (oc_symbol c) \<lparr>sq_entry_price = oc_close c, sq_quantity = ddiv amount (oc_close c),
         sq_side = side, sq_entry_time = oc_timestamp c\<rparr> (sb_open st)\<rparr>))"

definition act_on_proposal :: "pipeline \<Rightarrow> money \<Rightarrow> trade_proposal \<Rightarrow> candle \<Rightarrow> script_state \<Rightarrow> error + script_state" where
  "act_on_proposal pl value p c st = (let st1 = close_opposite c (tp_side p) st in
     if map_of (sb_open st1) (oc_symbol c) \<noteq> None then Inr st1
     else open_at_close c (tp_side p) (calculate (pl_sizer pl) value (get_stop_loss_pct p)) st1)"

subsection \<open>One candle\<close>

definition script_candle :: "pipeline \<Rightarrow> candle_env \<Rightarrow> candle \<Rightarrow> script_state \<Rightarrow> error + script_state" where
  "script_candle pl env c st0 = (case registry_add c (sb_registry st0) of (b, r) \<Rightarrow>
    (let st = st0\<lparr>sb_registry := r\<rparr> in
     if \<not> is_warm b then Inr st else
     case generate (cv_gen env) (pl_lib pl) (pl_numpy pl) (pl_ta pl) b of Inl e \<Rightarrow> Inl e | Inr None \<Rightarrow> Inr st | Inr (Some sig) \<Rightarrow>
     (case aggregate (cv_agg env) (pl_aggregator pl) (oc_symbol c) (Some sig) None of Inl e \<Rightarrow> Inl e | Inr None \<Rightarrow> Inr st
      | Inr (Some agg) \<Rightarrow>
     (case daily_loss_limit_breached (cv_now env) (sb_monitor st) of (breached, m) \<Rightarrow>
      (let st1 = st\<lparr>sb_monitor := m\<rparr> in
       if breached \<or> total_drawdown_limit_breached m then Inr st1
       else (let value = portfolio_value_usd (dm_state m) in
         case build (cv_proposal_id env) (cv_now env) (pl_builder pl) agg value of Inl e \<Rightarrow> Inl e | Inr None \<Rightarrow> Inr st1
         | Inr (Some p) \<Rightarrow> act_on_proposal pl value p c st1))))))"

fun script_replay :: "pipeline \<Rightarrow> (nat \<Rightarrow> candle_env) \<Rightarrow> nat \<Rightarrow> candle list \<Rightarrow> script_state \<Rightarrow> error + script_state" where
  "script_replay pl env i [] st = Inr st"
| "script_replay pl env i (c # cs) st = (case script_candle pl (env i) c st of Inl e \<Rightarrow> Inl e
     | Inr st1 \<Rightarrow> script_replay pl env (Suc i) cs st1)"

definition close_at_end :: "candle \<Rightarrow> script_state \<Rightarrow> script_state" where
  "close_at_end c st = fold (\<lambda>(s, p) st. st\<lparr>sb_monitor := monitor_close s (script_pnl p (oc_close c)) (sb_monitor st),
     sb_trades := sb_trades st @ [script_trade s p c]\<rparr>) (sb_open st) st"

subsection \<open>The result\<close>

definition daily_pnl :: "trade_record list \<Rightarrow> (int, rat) dict" where
  "daily_pnl ts = foldl (\<lambda>d t. let k = utc_date (tr_exit_time t) in
     AList.update k (fadd (case map_of d k of None \<Rightarrow> 0 | Some v \<Rightarrow> v) (fl (tr_pnl t))) d) [] ts"

definition compute_sharpe :: "py_pow \<Rightarrow> trade_record list \<Rightarrow> rat \<Rightarrow> error + rat" where
  "compute_sharpe pow ts initial = (if length ts < 2 then Inr 0
     else if initial = 0 then Inl Zero_division
     else let returns = map (\<lambda>v. fdiv v initial) (dvals (daily_pnl ts)) in
       if length returns < 2 then Inr 0
       else (case std_of pow returns of Inl e \<Rightarrow> Inl e
         | Inr std_r \<Rightarrow> Inr (if std_r = 0 then 0 else fmul (fdiv (mean_of returns) std_r) (fsqrt 252))))"

definition script_result_of :: "py_pow \<Rightarrow> rat \<Rightarrow> script_state \<Rightarrow> error + script_result" where
  "script_result_of pow initial st = (case compute_sharpe pow (sb_trades st) initial of Inl e \<Rightarrow> Inl e
   | Inr sharpe \<Rightarrow> (let final = fl (portfolio_value_usd (dm_state (sb_monitor st))) in
     Inr \<lparr>sr_initial_balance = initial, sr_final_balance = final, sr_total_trades = length (sb_trades st),
       sr_winning_trades = length (filter (\<lambda>t. tr_pnl t > 0) (sb_trades st)),
       sr_losing_trades = length (filter (\<lambda>t. tr_pnl t \<le> 0) (sb_trades st)),
       sr_total_pnl = fsub final initial, sr_max_drawdown = sb_max_drawdown st, sr_sharpe_ratio = sharpe,
       sr_trades = sb_trades st\<rparr>))"

definition run_backtest ::
  "py_pow \<Rightarrow> indicator_lib \<Rightarrow> numpy \<Rightarrow> settings \<Rightarrow> time \<Rightarrow> (nat \<Rightarrow> candle_env) \<Rightarrow> rat \<Rightarrow> candle list \<Rightarrow>
    error + (script_result \<times> script_state)" where
  "run_backtest pow lib np s now env initial cs =
    (if cs = [] then Inr (\<lparr>sr_initial_balance = initial, sr_final_balance = initial, sr_total_trades = 0,
       sr_winning_trades = 0, sr_losing_trades = 0, sr_total_pnl = 0, sr_max_drawdown = 0, sr_sharpe_ratio = 0,
       sr_trades = []\<rparr>, start_script now s initial)
     else case script_replay (new_pipeline lib np s) env 0 cs (start_script now s initial) of Inl e \<Rightarrow> Inl e
     | Inr st \<Rightarrow> (let st1 = close_at_end (last cs) st in
         case script_result_of pow initial st1 of Inl e \<Rightarrow> Inl e | Inr r \<Rightarrow> Inr (r, st1)))"

subsection \<open>Trades come from the history\<close>

text \<open>A trade between the closes of two candles, with the profit of its side.\<close>

definition trade_from :: "candle list \<Rightarrow> trade_record \<Rightarrow> bool" where
  "trade_from cs t \<longleftrightarrow> (\<exists>c\<in>set cs. \<exists>c'\<in>set cs. tr_entry_price t = oc_close c \<and> tr_entry_time t = oc_timestamp c \<and>
     tr_exit_price t = oc_close c' \<and> tr_exit_time t = oc_timestamp c' \<and>
     tr_pnl t = (if tr_side t = BUY then dmul (dsub (oc_close c') (oc_close c)) (tr_quantity t)
       else dmul (dsub (oc_close c) (oc_close c')) (tr_quantity t)))"

definition entered_in :: "candle list \<Rightarrow> script_position \<Rightarrow> bool" where
  "entered_in cs p \<longleftrightarrow> (\<exists>c\<in>set cs. sq_entry_price p = oc_close c \<and> sq_entry_time p = oc_timestamp c)"

definition script_inv :: "candle list \<Rightarrow> script_state \<Rightarrow> bool" where
  "script_inv seen st \<longleftrightarrow> dict_ok (sb_open st) \<and> dict_ok (pf_open_positions (dm_state (sb_monitor st))) \<and>
     fst ` set (sb_open st) = fst ` set (pf_open_positions (dm_state (sb_monitor st))) \<and>
     list_all (entered_in seen) (dvals (sb_open st)) \<and>
     list_all (trade_from seen) (sb_trades st)"

lemma script_trade_from:
  assumes "entered_in cs p" "c' \<in> set cs"
  shows "trade_from cs (script_trade s p c')"
proof -
  obtain c where c: "c \<in> set cs" "sq_entry_price p = oc_close c" "sq_entry_time p = oc_timestamp c" using assms(1) unfolding entered_in_def by blast
  show ?thesis unfolding trade_from_def
    by (rule bexI [OF bexI [OF _ assms(2)] c(1)]) (simp add: script_trade_def script_pnl_def c(2,3))
qed

lemma script_inv_fields [simp]:
  "script_inv seen (st\<lparr>sb_registry := r\<rparr>) = script_inv seen st"
  "script_inv seen (track_peak st) = script_inv seen st"
  by (simp_all add: script_inv_def track_peak_def Let_def)

lemma script_inv_monitor:
  "pf_open_positions (dm_state m) = pf_open_positions (dm_state (sb_monitor st)) \<Longrightarrow>
    script_inv seen (st\<lparr>sb_monitor := m\<rparr>) = script_inv seen st"
  by (simp add: script_inv_def)

lemma ledger_positions [simp]:
  "pf_open_positions (ledger_close s x st) = AList.delete s (pf_open_positions st)"
  "pf_open_positions (ledger_open s c side st) = AList.update s c (pf_open_positions st)"
  by (simp_all add: ledger_close_def ledger_open_def Let_def)

lemma daily_positions:
  "daily_loss_limit_breached now m = (x, m') \<Longrightarrow> pf_open_positions (dm_state m') = pf_open_positions (dm_state m)"
  by (auto simp: daily_loss_limit_breached_def maybe_reset_daily_def Let_def)

lemma script_inv_close:
  assumes "script_inv seen st" "c \<in> set seen"
  shows "script_inv seen (close_opposite c side st)"
proof (cases "map_of (sb_open st) (oc_symbol c)")
  case (Some p)
  then have "entered_in seen p" using assms(1) map_of_mem [OF Some] unfolding script_inv_def list_all_iff by blast
  then have "trade_from seen (script_trade (oc_symbol c) p c)" using assms(2) by (rule script_trade_from)
  then show ?thesis
    using assms(1) Some list_all_delete [of "entered_in seen" "sb_open st" "oc_symbol c"]
    by (simp add: close_opposite_def) (simp add: script_inv_def monitor_close_def keys_delete dict_ok_delete)
qed (use assms in \<open>simp add: close_opposite_def\<close>)

lemma script_inv_open:
  assumes "open_at_close c side amount st = Inr st'" "script_inv seen st" "c \<in> set seen"
  shows "script_inv seen st'"
proof -
  define p where "p = \<lparr>sq_entry_price = oc_close c, sq_quantity = ddiv amount (oc_close c), sq_side = side, sq_entry_time = oc_timestamp c\<rparr>"
  have "entered_in seen p" using assms(3) by (auto simp: entered_in_def p_def)
  then have "list_all (entered_in seen) (dvals (AList.update (oc_symbol c) p (sb_open st)))"
    using assms(2) unfolding script_inv_def by (intro list_all_update) auto
  then have "script_inv seen (st\<lparr>sb_monitor := (sb_monitor st)\<lparr>dm_state := ledger_open (oc_symbol c) amount None (dm_state (sb_monitor st))\<rparr>,
      sb_open := AList.update (oc_symbol c) p (sb_open st)\<rparr>)"
    using assms(2) by (simp only: script_inv_def keys_update ledger_positions dict_ok_update) (simp add: keys_update distinct_update)
  then show ?thesis using assms(1,2) unfolding open_at_close_def p_def [symmetric] by (auto split: if_splits)
qed

lemma script_candle_cases:
  assumes "script_candle pl env c st0 = Inr st'"
  obtains r where "st' = st0\<lparr>sb_registry := r\<rparr>"
  | r x m where "daily_loss_limit_breached (cv_now env) (sb_monitor st0) = (x, m)" "st' = st0\<lparr>sb_registry := r, sb_monitor := m\<rparr>"
  | r x m v p where "daily_loss_limit_breached (cv_now env) (sb_monitor st0) = (x, m)"
      "act_on_proposal pl v p c (st0\<lparr>sb_registry := r, sb_monitor := m\<rparr>) = Inr st'"
proof -
  obtain b r where r: "registry_add c (sb_registry st0) = (b, r)" by (cases "registry_add c (sb_registry st0)")
  obtain x m where d: "daily_loss_limit_breached (cv_now env) (sb_monitor st0) = (x, m)"
    by (cases "daily_loss_limit_breached (cv_now env) (sb_monitor st0)")
  note step = assms [unfolded script_candle_def r prod.case Let_def]
  show thesis
  proof (cases "is_warm b")
    case False
    then show thesis using step that(1) [of r] by simp
  next
    case warm: True
    obtain sig where g: "generate (cv_gen env) (pl_lib pl) (pl_numpy pl) (pl_ta pl) b = Inr sig"
      using step warm by (cases "generate (cv_gen env) (pl_lib pl) (pl_numpy pl) (pl_ta pl) b") auto
    show thesis
    proof (cases sig)
      case None
      then show thesis using step warm g that(1) [of r] by simp
    next
      case (Some sg)
      obtain agg where a: "aggregate (cv_agg env) (pl_aggregator pl) (oc_symbol c) (Some sg) None = Inr agg"
        using step warm g Some by (cases "aggregate (cv_agg env) (pl_aggregator pl) (oc_symbol c) (Some sg) None") auto
      show thesis
      proof (cases agg)
        case None
        then show thesis using step warm g Some a that(1) [of r] by simp
      next
        case (Some ag)
        note rest = step [unfolded g sum.case option.case \<open>sig = Some sg\<close> a Some] warm d
        define st1 where "st1 = st0\<lparr>sb_registry := r, sb_monitor := m\<rparr>"
        define v where "v = portfolio_value_usd (dm_state m)"
        have "st' = st1 \<or> (\<exists>p. act_on_proposal pl v p c st1 = Inr st')"
          using rest by (cases "build (cv_proposal_id env) (cv_now env) (pl_builder pl) ag v")
            (auto simp: st1_def v_def split: if_splits option.splits)
        then show thesis using that(2) [OF d, of r] that(3) [OF d, of v _ r] by (auto simp: st1_def)
      qed
    qed
  qed
qed

lemma script_inv_act:
  assumes "act_on_proposal pl v p c st = Inr st'" "script_inv seen st" "c \<in> set seen"
  shows "script_inv seen st'"
  using assms(1) script_inv_close [OF assms(2,3)] script_inv_open [OF _ _ assms(3)]
  by (auto simp: act_on_proposal_def Let_def split: if_splits)

lemma script_inv_candle:
  assumes "script_candle pl env c st0 = Inr st'" "script_inv seen st0" "c \<in> set seen"
  shows "script_inv seen st'"
proof -
  have base: "script_inv seen (st0\<lparr>sb_registry := r, sb_monitor := m\<rparr>)"
    if "daily_loss_limit_breached (cv_now env) (sb_monitor st0) = (x, m)" for r x m
    using assms(2) daily_positions [OF that] by (simp add: script_inv_def)
  from assms(1) show ?thesis
  proof (cases rule: script_candle_cases)
    case (3 r x m v p)
    then show ?thesis using script_inv_act [OF 3(2) base [OF 3(1)] assms(3)] by simp
  qed (use assms(2) base in auto)
qed

lemma script_inv_replay:
  "script_replay pl env i cs st = Inr st' \<Longrightarrow> script_inv seen st \<Longrightarrow> set cs \<subseteq> set seen \<Longrightarrow> script_inv seen st'"
  by (induction cs arbitrary: i st) (auto split: sum.splits intro: script_inv_candle)

lemma close_at_end_fold:
  fixes ps :: "(symbol, script_position) dict"
  defines "g \<equiv> \<lambda>c (s, p) st. st\<lparr>sb_monitor := monitor_close s (script_pnl p (oc_close c)) (sb_monitor st),
     sb_trades := sb_trades st @ [script_trade s p c]\<rparr>"
  shows "sb_trades (fold (g c) ps st) = sb_trades st @ map (\<lambda>(s, p). script_trade s p c) ps \<and>
    fst ` set (pf_open_positions (dm_state (sb_monitor (fold (g c) ps st)))) =
      fst ` set (pf_open_positions (dm_state (sb_monitor st))) - fst ` set ps"
proof (induction ps arbitrary: st)
  case (Cons sp ps)
  obtain s p where sp: "sp = (s, p)" by (cases sp)
  show ?case using Cons [of "g c sp st"] by (simp add: sp g_def monitor_close_def keys_delete Diff_insert2 [symmetric])
qed simp

text \<open>The offline harness closes what it opens. When a run over a history that is not empty
  returns, every trade of its result was entered and left at closes of candles of the history, with
  the profit of its side; the drawdown monitor holds no open position any more; and the winning and
  losing trades add up to all of them.\<close>

theorem script_backtest_sound:
  assumes "run_backtest pow lib np s now env initial cs = Inr (r, st)" "cs \<noteq> []"
  shows "list_all (trade_from cs) (sr_trades r) \<and> pf_open_positions (dm_state (sb_monitor st)) = [] \<and>
    sr_winning_trades r + sr_losing_trades r = sr_total_trades r \<and> sr_total_trades r = length (sr_trades r)"
proof -
  obtain st0 where st0: "script_replay (new_pipeline lib np s) env 0 cs (start_script now s initial) = Inr st0"
    and r: "st = close_at_end (last cs) st0" "script_result_of pow initial st = Inr r"
    using assms by (auto simp: run_backtest_def Let_def split: sum.splits)
  have "script_inv cs (start_script now s initial)"
    by (simp add: script_inv_def start_script_def new_drawdown_monitor_def Let_def)
  then have inv: "script_inv cs st0" using script_inv_replay [OF st0] by simp
  have "list_all (trade_from cs) (map (\<lambda>(s, p). script_trade s p (last cs)) (sb_open st0))"
    using inv assms(2) unfolding script_inv_def by (auto simp: list_all_iff intro!: script_trade_from)
  then have t: "list_all (trade_from cs) (sb_trades st)" and o: "fst ` set (pf_open_positions (dm_state (sb_monitor st))) = {}"
    using close_at_end_fold [where c = "last cs" and ps = "sb_open st0" and st = st0] inv
    by (simp_all add: r(1) close_at_end_def script_inv_def)
  have "length (filter (\<lambda>t. tr_pnl t > 0) ts) + length (filter (\<lambda>t. tr_pnl t \<le> 0) ts) = length ts" for ts
    using sum_length_filter_compl [of "\<lambda>t. tr_pnl t > 0" ts] by (simp add: not_less)
  then show ?thesis using t o r(2) by (auto simp: script_result_of_def Let_def split: sum.splits)
qed

text \<open>A run that trades: the fiftieth of equal candles warms the buffer, the uptrend library's signal is
  bought at its close, and the end of the history closes it.\<close>

definition demo_candle_env :: candle_env where
  "demo_candle_env = \<lparr>cv_gen = demo_gen_env, cv_agg = \<lparr>ae_technical_now = 0, ae_sentiment_now = 0, ae_signal_id = 2, ae_stamp = 0\<rparr>,
     cv_proposal_id = 3, cv_now = 0\<rparr>"

definition demo_script_run :: "error + (script_result \<times> script_state)" where
  "demo_script_run = run_backtest (\<lambda>x y. Inr x) demo_lib demo_numpy (default_settings\<lparr>st_technical_analysis := default_ta_settings\<lparr>ta_ema_long := 60\<rparr>\<rparr>) 0 (\<lambda>i. demo_candle_env) 10000
     (map (\<lambda>t. mk_candle ''BTC/USDT'' t 64000) [1..50])"

lemma demo_script_trades:
  "case demo_script_run of Inr (r, st) \<Rightarrow> map tr_side (sr_trades r) = [BUY] | _ \<Rightarrow> False"
  by code_simp

theorem script_backtest_sound_witness:
  "\<exists>r st. demo_script_run = Inr (r, st) \<and> map tr_side (sr_trades r) = [BUY] \<and>
    list_all (trade_from (map (\<lambda>t. mk_candle ''BTC/USDT'' t 64000) [1..50])) (sr_trades r) \<and>
    pf_open_positions (dm_state (sb_monitor st)) = [] \<and> sr_winning_trades r + sr_losing_trades r = 1"
proof -
  obtain r st where run: "demo_script_run = Inr (r, st)" and t: "map tr_side (sr_trades r) = [BUY]"
    using demo_script_trades by (auto split: sum.splits)
  have "length (sr_trades r) = 1" using arg_cong [OF t, of length] by simp
  then show ?thesis
    using script_backtest_sound [OF run [unfolded demo_script_run_def]] run t
    by (intro exI [of _ r] exI [of _ st]) simp
qed

end
