(* ===== verification/Repositories.thy ===== *)
theory Repositories
  imports Market_Models Trade_Models Broker_Interface Candle_Buffer Drawdown_Monitor
begin

text \<open>
  The repositories over the database (\<open>core/db/repositories/\<close>) and the columns they write
  (\<open>core/db/models.py\<close>): candles by their composite key, the audit trail of proposals, assessments
  and executions with their foreign keys, and positions by symbol. The database is a parameter
  (\<open>sql\<close>): what a \<open>Numeric(p, s)\<close> column makes of a number, which strings fit a \<open>String(n)\<close> column,
  the order in which it scans a table and the errors it raises. An enum is stored by its value, which
  the model writes as the member. Sums over \<open>Numeric\<close> columns are exact.

  Proved here: what a table returns after a sequence of upserts, in which order, and that it always
  can be read back; the round trip of executions and what it loses; that the audit trail has no
  execution without its decision; that the positions table is a map of symbols.
\<close>

record sql =
  sq_numeric :: "nat \<Rightarrow> nat \<Rightarrow> rat \<Rightarrow> error + rat"
  sq_text :: "nat \<Rightarrow> string \<Rightarrow> error option"
  sq_scan :: "nat \<Rightarrow> nat list"
  sq_integrity :: error
  sq_foreign_keys :: bool

text \<open>The documented behaviour the code relies on: rounding to a column's scale is monotone, keeps
  zero and what it has rounded, and a scan returns every row once.\<close>

definition sql_laws :: "sql \<Rightarrow> bool" where
  "sql_laws q \<longleftrightarrow>
     (\<forall>p s x y x' y'. sq_numeric q p s x = Inr y \<longrightarrow> sq_numeric q p s x' = Inr y' \<longrightarrow> x \<le> x' \<longrightarrow> y \<le> y') \<and>
     (\<forall>p s x y. sq_numeric q p s x = Inr y \<longrightarrow> sq_numeric q p s y = Inr y) \<and>
     (\<forall>p s. sq_numeric q p s 0 = Inr 0) \<and> (\<forall>n. distinct (sq_scan q n) \<and> set (sq_scan q n) = {..<n})"

definition scan :: "sql \<Rightarrow> 'a list \<Rightarrow> 'a list" where
  "scan q rows = map (\<lambda>i. rows ! i) (sq_scan q (length rows))"

fun opt_ok :: "('a \<Rightarrow> error + 'b) \<Rightarrow> 'a option \<Rightarrow> error + 'b option" where
  "opt_ok f None = Inr None"
| "opt_ok f (Some x) = (case f x of Inl e \<Rightarrow> Inl e | Inr y \<Rightarrow> Inr (Some y))"

fun fits_opt :: "sql \<Rightarrow> nat \<Rightarrow> string option \<Rightarrow> error option" where
  "fits_opt q n None = None"
| "fits_opt q n (Some s) = sq_text q n s"

text \<open>One step of a chain of calls that raise: it returned, so each call did.\<close>

lemma okE:
  assumes "(case x of Inl e \<Rightarrow> Inl e | Inr y \<Rightarrow> f y) = Inr z"
  obtains y where "x = Inr y" "f y = Inr z"
  using assms by (cases x) auto

lemma fitsE:
  assumes "(case x of Some e \<Rightarrow> Inl e | None \<Rightarrow> y) = Inr z"
  obtains "x = None" "y = Inr z"
  using assms by (cases x) auto

lemmas ok_elims = okE fitsE

subsection \<open>Candles\<close>

type_synonym candle_key = "symbol \<times> string \<times> time"

record candle_row =
  cr_open :: rat
  cr_high :: rat
  cr_low :: rat
  cr_close :: rat
  cr_volume :: rat
  cr_quote_volume :: "rat option"
  cr_received_at :: time

type_synonym candle_table = "(candle_key, candle_row) dict"

definition candle_key :: "candle \<Rightarrow> candle_key" where
  "candle_key c = (oc_symbol c, oc_timeframe c, oc_timestamp c)"

definition candle_to_row :: "sql \<Rightarrow> candle \<Rightarrow> error + candle_row" where
  "candle_to_row q c =
    (case sq_text q 20 (oc_symbol c) of Some e \<Rightarrow> Inl e | None \<Rightarrow>
    (case sq_text q 5 (oc_timeframe c) of Some e \<Rightarrow> Inl e | None \<Rightarrow>
    (case sq_numeric q 20 8 (oc_open c) of Inl e \<Rightarrow> Inl e | Inr op \<Rightarrow>
    (case sq_numeric q 20 8 (oc_high c) of Inl e \<Rightarrow> Inl e | Inr hi \<Rightarrow>
    (case sq_numeric q 20 8 (oc_low c) of Inl e \<Rightarrow> Inl e | Inr lo \<Rightarrow>
    (case sq_numeric q 20 8 (oc_close c) of Inl e \<Rightarrow> Inl e | Inr cl \<Rightarrow>
    (case sq_numeric q 30 8 (oc_volume c) of Inl e \<Rightarrow> Inl e | Inr vol \<Rightarrow>
    (case opt_ok (sq_numeric q 30 8) (oc_quote_volume c) of Inl e \<Rightarrow> Inl e | Inr qv \<Rightarrow>
      Inr \<lparr>cr_open = op, cr_high = hi, cr_low = lo, cr_close = cl, cr_volume = vol, cr_quote_volume = qv,
        cr_received_at = oc_received_at c\<rparr>))))))))"

fun row_to_candle :: "candle_key \<times> candle_row \<Rightarrow> error + candle" where
  "row_to_candle ((s, tf, t), r) = validate_ohlcv_consistency
     \<lparr>oc_symbol = s, oc_timeframe = tf, oc_timestamp = t, oc_open = cr_open r, oc_high = cr_high r,
      oc_low = cr_low r, oc_close = cr_close r, oc_volume = cr_volume r, oc_quote_volume = cr_quote_volume r,
      oc_is_closed = True, oc_received_at = cr_received_at r\<rparr>"

definition upsert_candle :: "sql \<Rightarrow> candle \<Rightarrow> candle_table \<Rightarrow> error + candle_table" where
  "upsert_candle q c db = (case candle_to_row q c of Inl e \<Rightarrow> Inl e
     | Inr r \<Rightarrow> Inr (AList.update (candle_key c) r db))"

definition in_range :: "time option \<Rightarrow> time option \<Rightarrow> time \<Rightarrow> bool" where
  "in_range since until t \<longleftrightarrow> (case since of None \<Rightarrow> True | Some a \<Rightarrow> a \<le> t) \<and> (case until of None \<Rightarrow> True | Some b \<Rightarrow> t < b)"

definition limited :: "nat option \<Rightarrow> 'a list \<Rightarrow> 'a list" where
  "limited n xs = (case n of None \<Rightarrow> xs | Some k \<Rightarrow> take k xs)"

definition rows_of :: "symbol \<Rightarrow> string \<Rightarrow> time option \<Rightarrow> time option \<Rightarrow> candle_table \<Rightarrow> candle_table" where
  "rows_of s tf since until db = filter (\<lambda>((s', tf', t), _). s' = s \<and> tf' = tf \<and> in_range since until t) db"

definition row_time :: "candle_key \<times> candle_row \<Rightarrow> time" where
  "row_time kr = snd (snd (fst kr))"

definition get_candles ::
  "sql \<Rightarrow> symbol \<Rightarrow> string \<Rightarrow> time option \<Rightarrow> time option \<Rightarrow> nat option \<Rightarrow> candle_table \<Rightarrow> error + candle list" where
  "get_candles q s tf since until lim_rows db =
     map_ok row_to_candle (limited lim_rows (sort_key row_time (rows_of s tf since until (scan q db))))"

definition get_latest_candle :: "sql \<Rightarrow> symbol \<Rightarrow> string \<Rightarrow> candle_table \<Rightarrow> error + candle option" where
  "get_latest_candle q s tf db = (case sort_key (\<lambda>kr. - row_time kr) (rows_of s tf None None (scan q db)) of
     [] \<Rightarrow> Inr None | kr # _ \<Rightarrow> (case row_to_candle kr of Inl e \<Rightarrow> Inl e | Inr c \<Rightarrow> Inr (Some c)))"

fun upsert_candles :: "sql \<Rightarrow> candle list \<Rightarrow> candle_table \<Rightarrow> error + candle_table" where
  "upsert_candles q [] db = Inr db"
| "upsert_candles q (c # cs) db = (case upsert_candle q c db of Inl e \<Rightarrow> Inl e | Inr db1 \<Rightarrow> upsert_candles q cs db1)"

subsection \<open>What the candle table returns\<close>

lemma sql_mono:
  assumes "sql_laws q" "sq_numeric q p s x = Inr y" "sq_numeric q p s x' = Inr y'" "x \<le> x'"
  shows "y \<le> y'"
proof -
  have "\<forall>p s x y x' y'. sq_numeric q p s x = Inr y \<longrightarrow> sq_numeric q p s x' = Inr y' \<longrightarrow> x \<le> x' \<longrightarrow> y \<le> y'"
    using assms(1) unfolding sql_laws_def by (rule conjunct1)
  then show ?thesis using assms(2-4) by (elim allE impE) assumption+
qed

lemma sql_again: "sql_laws q \<Longrightarrow> sq_numeric q p s x = Inr y \<Longrightarrow> sq_numeric q p s y = Inr y"
  unfolding sql_laws_def by (elim conjE) metis

lemma sql_zero: "sql_laws q \<Longrightarrow> sq_numeric q p s 0 = Inr 0"
  by (simp add: sql_laws_def)

lemma set_scan: "sql_laws q \<Longrightarrow> set (scan q xs) = set xs"
  by (auto simp: scan_def sql_laws_def in_set_conv_nth image_iff)

lemma length_scan:
  assumes "sql_laws q"
  shows "length (scan q xs) = length xs"
proof -
  have "distinct (sq_scan q (length xs))" "set (sq_scan q (length xs)) = {..<length xs}"
    using assms by (simp_all add: sql_laws_def)
  then show ?thesis using distinct_card [of "sq_scan q (length xs)"] by (simp add: scan_def)
qed

lemma distinct_scan:
  assumes "sql_laws q" "distinct (map f xs)"
  shows "distinct (map f (scan q xs))"
proof -
  have "inj_on (\<lambda>i. f (xs ! i)) {..<length xs}"
    using assms(2) by (auto simp: inj_on_def distinct_conv_nth)
  then show ?thesis using assms(1) by (simp add: scan_def sql_laws_def distinct_map comp_def)
qed

definition stored :: "sql \<Rightarrow> candle \<Rightarrow> error + candle" where
  "stored q c = (case candle_to_row q c of Inl e \<Rightarrow> Inl e | Inr r \<Rightarrow> row_to_candle (candle_key c, r))"

lemma candle_to_row_InrD:
  "candle_to_row q c = Inr r \<Longrightarrow> sq_text q 20 (oc_symbol c) = None \<and> sq_text q 5 (oc_timeframe c) = None \<and>
    sq_numeric q 20 8 (oc_open c) = Inr (cr_open r) \<and> sq_numeric q 20 8 (oc_high c) = Inr (cr_high r) \<and>
    sq_numeric q 20 8 (oc_low c) = Inr (cr_low r) \<and> sq_numeric q 20 8 (oc_close c) = Inr (cr_close r) \<and>
    sq_numeric q 30 8 (oc_volume c) = Inr (cr_volume r) \<and>
    opt_ok (sq_numeric q 30 8) (oc_quote_volume c) = Inr (cr_quote_volume r) \<and> cr_received_at r = oc_received_at c"
  unfolding candle_to_row_def by (elim ok_elims, simp only: sum.inject, hypsubst, simp)

text \<open>Rounding keeps the order of the prices, so the validator accepts what is read back.\<close>

lemma row_read:
  assumes "sql_laws q" "candle_ok c" "candle_to_row q c = Inr r"
  shows "\<exists>c'. row_to_candle (candle_key c, r) = Inr c' \<and> candle_key c' = candle_key c \<and> candle_to_row q c' = Inr r"
proof -
  have n: "sq_text q 20 (oc_symbol c) = None" "sq_text q 5 (oc_timeframe c) = None"
    "sq_numeric q 20 8 (oc_open c) = Inr (cr_open r)" "sq_numeric q 20 8 (oc_high c) = Inr (cr_high r)"
    "sq_numeric q 20 8 (oc_low c) = Inr (cr_low r)" "sq_numeric q 20 8 (oc_close c) = Inr (cr_close r)"
    "sq_numeric q 30 8 (oc_volume c) = Inr (cr_volume r)" "opt_ok (sq_numeric q 30 8) (oc_quote_volume c) = Inr (cr_quote_volume r)"
    "cr_received_at r = oc_received_at c"
    by (simp_all add: candle_to_row_InrD [OF assms(3)])
  note mono = sql_mono [OF assms(1)] and again = sql_again [OF assms(1)] and zero = sql_zero [OF assms(1)]
  have qv: "opt_ok (sq_numeric q 30 8) (cr_quote_volume r) = Inr (cr_quote_volume r)"
    using n(8) again by (cases "oc_quote_volume c"; cases "cr_quote_volume r") (auto split: sum.splits)
  let ?c = "\<lparr>oc_symbol = oc_symbol c, oc_timeframe = oc_timeframe c, oc_timestamp = oc_timestamp c, oc_open = cr_open r,
    oc_high = cr_high r, oc_low = cr_low r, oc_close = cr_close r, oc_volume = cr_volume r,
    oc_quote_volume = cr_quote_volume r, oc_is_closed = True, oc_received_at = cr_received_at r\<rparr>"
  have "candle_ok ?c"
    using assms(2) mono [OF n(5) n(3)] mono [OF n(5) n(6)] mono [OF n(3) n(4)] mono [OF n(6) n(4)] mono [OF zero n(7)]
    by (simp add: candle_ok_def)
  then have "row_to_candle (candle_key c, r) = Inr ?c" by (simp add: candle_key_def validate_ohlcv_iff)
  then show ?thesis
    using n(1,2) again [OF n(3)] again [OF n(4)] again [OF n(5)] again [OF n(6)] again [OF n(7)] qv
    by (simp add: candle_key_def candle_to_row_def)
qed

lemma row_key: "row_to_candle kr = Inr c \<Longrightarrow> candle_key c = fst kr"
  by (cases kr rule: row_to_candle.cases) (auto simp: validate_ohlcv_iff candle_key_def)

lemma upserted_table:
  assumes "upsert_candles q cs db = Inr db'"
  shows "map_of db' k = (case filter (\<lambda>c. candle_key c = k) cs of [] \<Rightarrow> map_of db k
      | ds \<Rightarrow> (case candle_to_row q (last ds) of Inl e \<Rightarrow> None | Inr r \<Rightarrow> Some r))"
    and "dict_ok db \<Longrightarrow> dict_ok db'"
proof -
  show "map_of db' k = (case filter (\<lambda>c. candle_key c = k) cs of [] \<Rightarrow> map_of db k
      | ds \<Rightarrow> (case candle_to_row q (last ds) of Inl e \<Rightarrow> None | Inr r \<Rightarrow> Some r))"
    using assms
  proof (induction cs arbitrary: db)
    case (Cons c cs)
    then obtain r where r: "candle_to_row q c = Inr r" "upsert_candles q cs (AList.update (candle_key c) r db) = Inr db'"
      by (auto simp: upsert_candle_def split: sum.splits)
    show ?case using Cons.IH [OF r(2)] r(1) by (auto split: list.splits)
  qed simp
  show "dict_ok db \<Longrightarrow> dict_ok db'"
    using assms by (induction cs arbitrary: db) (auto simp: upsert_candle_def split: sum.splits)
qed

lemma upserted_row:
  assumes "upsert_candles q cs [] = Inr db"
  shows "kr \<in> set db \<Longrightarrow> filter (\<lambda>c. candle_key c = fst kr) cs \<noteq> [] \<and>
      candle_to_row q (last (filter (\<lambda>c. candle_key c = fst kr) cs)) = Inr (snd kr)"
    and "fst ` set db = candle_key ` set cs"
proof -
  have d: "dict_ok db" using upserted_table(2) [OF assms] by simp
  show "filter (\<lambda>c. candle_key c = fst kr) cs \<noteq> [] \<and>
      candle_to_row q (last (filter (\<lambda>c. candle_key c = fst kr) cs)) = Inr (snd kr)" if "kr \<in> set db"
  proof -
    have "map_of db (fst kr) = Some (snd kr)" using that d by simp
    then show ?thesis using upserted_table(1) [OF assms, of "fst kr"] by (auto split: list.splits sum.splits)
  qed
  have "upsert_candles q cs t = Inr db \<Longrightarrow> fst ` set db = fst ` set t \<union> candle_key ` set cs" for t
  proof (induction cs arbitrary: t)
    case (Cons c cs)
    then obtain r where "upsert_candles q cs (AList.update (candle_key c) r t) = Inr db"
      by (auto simp: upsert_candle_def split: sum.splits)
    from Cons.IH [OF this] show ?case by (simp add: keys_update)
  qed simp
  from this [OF assms] show "fst ` set db = candle_key ` set cs" by simp
qed

lemma upserted_readable:
  assumes "sql_laws q" "upsert_candles q cs [] = Inr db" "list_all candle_ok cs" "kr \<in> set db"
  shows "\<exists>c. row_to_candle kr = Inr c"
proof -
  define ds where "ds = filter (\<lambda>c. candle_key c = fst kr) cs"
  have "ds \<noteq> []" and row: "candle_to_row q (last ds) = Inr (snd kr)" using upserted_row(1) [OF assms(2,4)] by (simp_all add: ds_def)
  then have "last ds \<in> set ds" by simp
  then have "candle_ok (last ds)" "candle_key (last ds) = fst kr" using assms(3) by (auto simp: ds_def list_all_iff)
  then show ?thesis using row_read [OF assms(1) _ row] by (cases kr) auto
qed

lemma map_ok_limited: "map_ok f xs = Inr ys \<Longrightarrow> map_ok f (limited k xs) = Inr (limited k ys)"
proof (cases k)
  case (Some n)
  have "map_ok f xs = Inr ys \<Longrightarrow> map_ok f (take n xs) = Inr (take n ys)"
    by (induction xs arbitrary: ys n) (auto simp: take_Cons split: sum.splits nat.splits)
  then show "map_ok f xs = Inr ys \<Longrightarrow> map_ok f (limited k xs) = Inr (limited k ys)" by (simp add: limited_def Some)
qed (simp add: limited_def)

lemma rows_strictly_sorted:
  assumes "dict_ok db" "sql_laws q"
  shows "sorted_wrt (<) (map row_time (sort_key row_time (rows_of s tf since until (scan q db))))"
proof -
  have "distinct (map fst (rows_of s tf since until (scan q db)))"
    unfolding rows_of_def by (rule distinct_map_filter) (rule distinct_scan [OF assms(2,1)])
  moreover have "inj_on (\<lambda>k. snd (snd k)) (fst ` set (rows_of s tf since until (scan q db)))"
    by (auto simp: rows_of_def inj_on_def)
  ultimately have "distinct (map row_time (rows_of s tf since until (scan q db)))"
    by (auto simp: distinct_map row_time_def inj_on_def)
  then have "distinct (map row_time (sort_key row_time (rows_of s tf since until (scan q db))))"
    by (simp add: distinct_map)
  then show ?thesis by (simp add: strict_sorted_iff)
qed

lemma row_times:
  assumes "sql_laws q"
  shows "row_time ` set (rows_of s tf since until (scan q db)) = {t. in_range since until t \<and> (s, tf, t) \<in> fst ` set db}"
proof -
  have "t \<in> row_time ` set (rows_of s tf since until (scan q db))" if "((s, tf, t), r) \<in> set db" "in_range since until t" for t r
    by (rule image_eqI [of _ _ "((s, tf, t), r)"]) (use that in \<open>simp_all add: rows_of_def row_time_def set_scan [OF assms]\<close>)
  then show ?thesis by (auto simp: rows_of_def row_time_def set_scan [OF assms] intro!: image_eqI)
qed

lemma candle_rows:
  assumes "sql_laws q" "upsert_candles q cs [] = Inr db" "list_all candle_ok cs"
  shows "\<exists>rows. (\<forall>k. get_candles q s tf since until k db = Inr (limited k rows)) \<and>
    sorted_wrt (<) (map oc_timestamp rows) \<and>
    (\<forall>t. t \<in> oc_timestamp ` set rows \<longleftrightarrow> in_range since until t \<and> (s, tf, t) \<in> candle_key ` set cs) \<and>
    (\<forall>r\<in>set rows. oc_symbol r = s \<and> oc_timeframe r = tf \<and>
       stored q (last (filter (\<lambda>c. candle_key c = candle_key r) cs)) = Inr r)"
proof -
  define L where "L = sort_key row_time (rows_of s tf since until (scan q db))"
  have L: "kr \<in> set L \<longleftrightarrow> kr \<in> set db \<and> fst kr = (s, tf, row_time kr) \<and> in_range since until (row_time kr)" for kr
    by (cases kr) (auto simp: L_def rows_of_def set_scan [OF assms(1)] row_time_def)
  have ds: "last ds \<in> set cs \<and> candle_key (last ds) = fst kr \<and> candle_to_row q (last ds) = Inr (snd kr)"
    if "kr \<in> set L" and "ds = filter (\<lambda>c. candle_key c = fst kr) cs" for kr ds
    using upserted_row(1) [OF assms(2), of kr] that(1) last_in_set [of ds] by (auto simp: L that(2))
  have "\<exists>c. row_to_candle kr = Inr c" if "kr \<in> set L" for kr using upserted_readable [OF assms] that L by blast
  then obtain rows where rows: "map_ok row_to_candle L = Inr rows" using map_ok_total by metis
  then have all: "list_all2 (\<lambda>kr c. row_to_candle kr = Inr c) L rows" by (rule map_ok_InrD)
  then have keys: "map candle_key rows = map fst L"
    by (induction rule: list_all2_induct) (simp_all add: row_key)
  have "map oc_timestamp rows = map (snd \<circ> snd) (map candle_key rows)" by (simp add: candle_key_def)
  also have "\<dots> = map row_time L" by (simp add: keys row_time_def)
  finally have times: "map oc_timestamp rows = map row_time L" .
  have sorted: "sorted_wrt (<) (map oc_timestamp rows)"
    unfolding times L_def using rows_strictly_sorted [OF _ assms(1)] upserted_table(2) [OF assms(2)] by simp
  have "t \<in> oc_timestamp ` set rows \<longleftrightarrow> in_range since until t \<and> (s, tf, t) \<in> candle_key ` set cs" for t
    using arg_cong [OF times, of set] row_times [OF assms(1), of s tf since until db] upserted_row(2) [OF assms(2)]
    by (simp add: L_def)
  moreover have "oc_symbol r = s \<and> oc_timeframe r = tf \<and> stored q (last (filter (\<lambda>c. candle_key c = candle_key r) cs)) = Inr r"
    if mem: "r \<in> set rows" for r
  proof -
    obtain i where i: "i < length rows" "r = rows ! i" using mem by (auto simp: in_set_conv_nth)
    define kr where "kr = L ! i"
    have kr: "kr \<in> set L" "row_to_candle kr = Inr r" using all i by (simp_all add: kr_def list_all2_conv_all_nth)
    have k: "candle_key r = fst kr" "fst kr = (s, tf, row_time kr)" using row_key [OF kr(2)] kr(1) by (simp_all add: L)
    have "stored q (last (filter (\<lambda>c. candle_key c = candle_key r) cs)) = row_to_candle (fst kr, snd kr)"
      using ds [OF kr(1) refl] unfolding stored_def k(1) by simp
    moreover have "oc_symbol r = s \<and> oc_timeframe r = tf" using k by (simp add: candle_key_def)
    ultimately show ?thesis using kr(2) by (simp only: prod.collapse)
  qed
  ultimately show ?thesis using sorted map_ok_limited [OF rows] unfolding get_candles_def L_def by blast
qed

text \<open>C28: What the candle table returns. After any sequence of upserts of valid candles a query never raises:
  it returns, in strictly ascending time, one candle for each timestamp of that symbol and timeframe
  in the range that was ever written, namely what the columns make of the last version written; a
  limit cuts the later ones off. A fresh buffer warmed with the answer to a query limited to its
  capacity holds exactly that answer.\<close>

theorem candle_repo_roundtrip:
  assumes "sql_laws q" "upsert_candles q cs [] = Inr db" "list_all candle_ok cs"
  shows "\<exists>rows. (\<forall>k. get_candles q s tf since until k db = Inr (limited k rows)) \<and>
    sorted_wrt (<) (map oc_timestamp rows) \<and>
    (\<forall>t. t \<in> oc_timestamp ` set rows \<longleftrightarrow> in_range since until t \<and> (s, tf, t) \<in> candle_key ` set cs) \<and>
    (\<forall>r\<in>set rows. oc_symbol r = s \<and> oc_timeframe r = tf \<and>
       stored q (last (filter (\<lambda>c. candle_key c = candle_key r) cs)) = Inr r) \<and>
    (\<forall>n\<le>MAX_BUFFER_SIZE. cb_candles (fold buffer_add (take n rows) (new_candle_buffer s tf)) = take n rows)"
proof -
  have fill: "cb_candles (fold buffer_add (take n rows) (new_candle_buffer s tf)) = take n rows"
    if "sorted_wrt (<) (map oc_timestamp rows)" "n \<le> MAX_BUFFER_SIZE" for rows n
  proof -
    have "records [] (take n rows) = take n rows"
      using records_ascending [of "[]" "take n rows"] that(1) by (simp add: sorted_wrt_take take_map [symmetric])
    then show ?thesis
      using buffer_fold_records [of "new_candle_buffer s tf" "[]" "take n rows"] that(2)
      by (simp add: new_candle_buffer_def suffix_of_def MAX_BUFFER_SIZE_def)
  qed
  then show ?thesis using candle_rows [OF assms, of s tf since until] by blast
qed

text \<open>The latest candle is the newest of those that were written.\<close>

theorem latest_candle_is_newest:
  assumes "sql_laws q" "upsert_candles q cs [] = Inr db" "list_all candle_ok cs"
  shows "\<exists>out. get_latest_candle q s tf db = Inr out \<and>
    (out = None \<longleftrightarrow> (\<forall>d\<in>set cs. \<not> (oc_symbol d = s \<and> oc_timeframe d = tf))) \<and>
    (\<forall>c d. out = Some c \<longrightarrow> d \<in> set cs \<longrightarrow> oc_symbol d = s \<longrightarrow> oc_timeframe d = tf \<longrightarrow> oc_timestamp d \<le> oc_timestamp c)"
proof -
  define L where "L = sort_key (\<lambda>kr. - row_time kr) (rows_of s tf None None (scan q db))"
  have times: "row_time ` set L = {t. (s, tf, t) \<in> candle_key ` set cs}"
    using row_times [OF assms(1), of s tf None None db] upserted_row(2) [OF assms(2)] by (simp add: L_def in_range_def)
  show ?thesis
  proof (cases L)
    case Nil
    then show ?thesis using times by (auto simp: get_latest_candle_def L_def [symmetric] candle_key_def)
  next
    case (Cons kr rest)
    have "kr \<in> set (rows_of s tf None None (scan q db))" using Cons set_sort [of "\<lambda>kr. - row_time kr"] unfolding L_def
      by (metis list.set_intros(1))
    then have "kr \<in> set db" by (simp add: rows_of_def set_scan [OF assms(1)])
    then have "\<exists>c. row_to_candle kr = Inr c" by (rule upserted_readable [OF assms])
    then obtain c where c: "row_to_candle kr = Inr c" ..
    have "oc_timestamp c = row_time kr" using row_key [OF c, symmetric] by (simp add: candle_key_def row_time_def)
    moreover have "\<forall>x\<in>set L. row_time x \<le> row_time kr"
      using sorted_sort_key [of "\<lambda>kr. - row_time kr" "rows_of s tf None None (scan q db)", folded L_def] by (simp add: Cons)
    ultimately have "oc_timestamp d \<le> oc_timestamp c" if "d \<in> set cs" "oc_symbol d = s" "oc_timeframe d = tf" for d
    proof -
      have "oc_timestamp d \<in> row_time ` set L" unfolding times using that by (auto simp: candle_key_def)
      then show ?thesis using \<open>oc_timestamp c = row_time kr\<close> \<open>\<forall>x\<in>set L. row_time x \<le> row_time kr\<close> by auto
    qed
    moreover have "\<exists>d\<in>set cs. oc_symbol d = s \<and> oc_timeframe d = tf" using times by (force simp: Cons candle_key_def)
    ultimately show ?thesis
      by (intro exI [of _ "Some c"]) (auto simp: get_latest_candle_def L_def [symmetric] Cons c)
  qed
qed

subsection \<open>Proposals, assessments and executions\<close>

record proposal_row =
  pw_symbol :: symbol
  pw_side :: order_side
  pw_order_type :: order_type
  pw_requested_size_usd :: money
  pw_suggested_stop_loss_pct :: "money option"
  pw_suggested_take_profit_pct :: "money option"
  pw_signal_direction :: signal_direction
  pw_signal_confidence :: money
  pw_reasoning :: string
  pw_created_at :: time

record assessment_row =
  aw_proposal_id :: uuid
  aw_decision :: risk_decision
  aw_rejection_reason :: "rejection_reason option"
  aw_rejection_detail :: "string option"
  aw_approved_size_usd :: "money option"
  aw_approved_stop_loss_pct :: "money option"
  aw_portfolio_value_usd :: "money option"
  aw_current_daily_loss_pct :: "money option"
  aw_open_positions_count :: int
  aw_created_at :: time

record execution_row =
  ew_proposal_id :: uuid
  ew_assessment_id :: uuid
  ew_exchange_order_id :: "string option"
  ew_symbol :: symbol
  ew_side :: order_side
  ew_order_type :: order_type
  ew_status :: order_status
  ew_requested_quantity :: money
  ew_filled_quantity :: money
  ew_average_fill_price :: "money option"
  ew_total_cost_usd :: "money option"
  ew_fee_usd :: "money option"
  ew_fee_currency :: "string option"
  ew_is_paper :: bool
  ew_error_message :: "string option"
  ew_retry_count :: int
  ew_created_at :: time

record trade_db =
  td_proposals :: "(uuid, proposal_row) dict"
  td_assessments :: "(uuid, assessment_row) dict"
  td_executions :: "(uuid, execution_row) dict"

text \<open>An insert: the primary key must be new.\<close>

definition insert_row :: "sql \<Rightarrow> uuid \<Rightarrow> 'r \<Rightarrow> (uuid, 'r) dict \<Rightarrow> error + (uuid, 'r) dict" where
  "insert_row q k r t = (if map_of t k \<noteq> None then Inl (sq_integrity q) else Inr (AList.update k r t))"

definition refers :: "sql \<Rightarrow> uuid \<Rightarrow> (uuid, 'r) dict \<Rightarrow> bool" where
  "refers q k t \<longleftrightarrow> \<not> sq_foreign_keys q \<or> map_of t k \<noteq> None"

definition float_column :: "sql \<Rightarrow> nat \<Rightarrow> nat \<Rightarrow> rat \<Rightarrow> error + rat" where
  "float_column q p s x = sq_numeric q p s (dec_of_float x)"

definition save_proposal :: "sql \<Rightarrow> trade_proposal \<Rightarrow> trade_db \<Rightarrow> error + trade_db" where
  "save_proposal q p db =
    (case sq_text q 20 (tp_symbol p) of Some e \<Rightarrow> Inl e | None \<Rightarrow>
    (case sq_numeric q 20 2 (tp_requested_size_usd p) of Inl e \<Rightarrow> Inl e | Inr amount \<Rightarrow>
    (case opt_ok (float_column q 10 6) (tp_suggested_stop_loss_pct p) of Inl e \<Rightarrow> Inl e | Inr sl \<Rightarrow>
    (case opt_ok (float_column q 10 6) (tp_suggested_take_profit_pct p) of Inl e \<Rightarrow> Inl e | Inr tp \<Rightarrow>
    (case float_column q 5 4 (as_confidence (tp_signal p)) of Inl e \<Rightarrow> Inl e | Inr conf \<Rightarrow>
    (case insert_row q (tp_proposal_id p)
        \<lparr>pw_symbol = tp_symbol p, pw_side = tp_side p, pw_order_type = tp_order_type p, pw_requested_size_usd = amount,
         pw_suggested_stop_loss_pct = sl, pw_suggested_take_profit_pct = tp,
         pw_signal_direction = as_direction (tp_signal p), pw_signal_confidence = conf,
         pw_reasoning = tp_reasoning p, pw_created_at = tp_timestamp p\<rparr> (td_proposals db) of Inl e \<Rightarrow> Inl e
     | Inr t \<Rightarrow> Inr (db\<lparr>td_proposals := t\<rparr>)))))))"

definition save_assessment :: "sql \<Rightarrow> risk_assessment \<Rightarrow> trade_db \<Rightarrow> error + trade_db" where
  "save_assessment q a db =
    (case opt_ok (sq_numeric q 20 2) (ra_approved_size_usd a) of Inl e \<Rightarrow> Inl e | Inr amount \<Rightarrow>
    (case opt_ok (float_column q 10 6) (ra_approved_stop_loss_pct a) of Inl e \<Rightarrow> Inl e | Inr sl \<Rightarrow>
    (case opt_ok (sq_numeric q 20 2) (ra_portfolio_value_usd a) of Inl e \<Rightarrow> Inl e | Inr value \<Rightarrow>
    (case opt_ok (float_column q 10 6) (ra_current_daily_loss_pct a) of Inl e \<Rightarrow> Inl e | Inr loss \<Rightarrow>
     if \<not> refers q (ra_proposal_id a) (td_proposals db) then Inl (sq_integrity q) else
    (case insert_row q (ra_assessment_id a)
        \<lparr>aw_proposal_id = ra_proposal_id a, aw_decision = ra_decision a, aw_rejection_reason = ra_rejection_reason a,
         aw_rejection_detail = ra_rejection_detail a, aw_approved_size_usd = amount, aw_approved_stop_loss_pct = sl,
         aw_portfolio_value_usd = value, aw_current_daily_loss_pct = loss,
         aw_open_positions_count = ra_open_positions_count a, aw_created_at = ra_timestamp a\<rparr> (td_assessments db) of Inl e \<Rightarrow> Inl e
     | Inr t \<Rightarrow> Inr (db\<lparr>td_assessments := t\<rparr>))))))"

definition execution_to_row :: "sql \<Rightarrow> execution_result \<Rightarrow> error + execution_row" where
  "execution_to_row q r =
    (case fits_opt q 100 (er_exchange_order_id r) of Some e \<Rightarrow> Inl e | None \<Rightarrow>
    (case sq_text q 20 (er_symbol r) of Some e \<Rightarrow> Inl e | None \<Rightarrow>
    (case fits_opt q 10 (er_fee_currency r) of Some e \<Rightarrow> Inl e | None \<Rightarrow>
    (case sq_numeric q 30 8 (er_requested_quantity r) of Inl e \<Rightarrow> Inl e | Inr rq \<Rightarrow>
    (case sq_numeric q 30 8 (er_filled_quantity r) of Inl e \<Rightarrow> Inl e | Inr fq \<Rightarrow>
    (case opt_ok (sq_numeric q 20 8) (er_average_fill_price r) of Inl e \<Rightarrow> Inl e | Inr price \<Rightarrow>
    (case opt_ok (sq_numeric q 20 2) (er_total_cost_usd r) of Inl e \<Rightarrow> Inl e | Inr cost \<Rightarrow>
    (case opt_ok (sq_numeric q 20 8) (er_fee_usd r) of Inl e \<Rightarrow> Inl e | Inr fee \<Rightarrow>
      Inr \<lparr>ew_proposal_id = er_proposal_id r, ew_assessment_id = er_assessment_id r,
        ew_exchange_order_id = er_exchange_order_id r, ew_symbol = er_symbol r, ew_side = er_side r,
        ew_order_type = er_order_type r, ew_status = er_status r, ew_requested_quantity = rq, ew_filled_quantity = fq,
        ew_average_fill_price = price, ew_total_cost_usd = cost, ew_fee_usd = fee, ew_fee_currency = er_fee_currency r,
        ew_is_paper = er_is_paper r, ew_error_message = er_error_message r, ew_retry_count = er_retry_count r,
        ew_created_at = er_timestamp r\<rparr>))))))))"

definition save_execution :: "sql \<Rightarrow> execution_result \<Rightarrow> trade_db \<Rightarrow> error + trade_db" where
  "save_execution q r db =
    (case execution_to_row q r of Inl e \<Rightarrow> Inl e | Inr row \<Rightarrow>
     if \<not> refers q (er_proposal_id r) (td_proposals db) \<or> \<not> refers q (er_assessment_id r) (td_assessments db)
     then Inl (sq_integrity q) else
    (case insert_row q (er_result_id r) row (td_executions db) of Inl e \<Rightarrow> Inl e
     | Inr t \<Rightarrow> Inr (db\<lparr>td_executions := t\<rparr>)))"

fun row_to_execution :: "uuid \<times> execution_row \<Rightarrow> execution_result" where
  "row_to_execution (k, r) = \<lparr>er_result_id = k, er_proposal_id = ew_proposal_id r, er_assessment_id = ew_assessment_id r,
     er_exchange_order_id = ew_exchange_order_id r, er_timestamp = ew_created_at r, er_symbol = ew_symbol r,
     er_side = ew_side r, er_order_type = ew_order_type r, er_status = ew_status r,
     er_requested_quantity = ew_requested_quantity r, er_filled_quantity = ew_filled_quantity r,
     er_average_fill_price = ew_average_fill_price r, er_total_cost_usd = ew_total_cost_usd r, er_fee_usd = ew_fee_usd r,
     er_fee_currency = ew_fee_currency r, er_realized_pnl_usd = None, er_stop_loss_order_id = None,
     er_take_profit_order_id = None, er_is_paper = ew_is_paper r, er_error_message = ew_error_message r,
     er_retry_count = ew_retry_count r\<rparr>"

definition get_executions :: "sql \<Rightarrow> symbol \<Rightarrow> time option \<Rightarrow> nat \<Rightarrow> trade_db \<Rightarrow> execution_result list" where
  "get_executions q s since n db = map row_to_execution (take n (sort_key (ew_created_at \<circ> snd)
     (filter (\<lambda>(k, r). ew_symbol r = s \<and> in_range since None (ew_created_at r)) (scan q (td_executions db)))))"

definition signed_cost :: "execution_row \<Rightarrow> money option" where
  "signed_cost r = (if ew_side r = SELL then ew_total_cost_usd r else map_option uminus (ew_total_cost_usd r))"

text \<open>\<open>coalesce(sum(column), 0)\<close>: nulls are not counted.\<close>

definition sum_column :: "money option list \<Rightarrow> money" where
  "sum_column xs = sum_list (map (\<lambda>x. case x of None \<Rightarrow> 0 | Some v \<Rightarrow> v) xs)"

definition day_executions :: "int \<Rightarrow> trade_db \<Rightarrow> execution_row list" where
  "day_executions day db = filter (\<lambda>r. day * 86400 * 10 ^ 6 \<le> ew_created_at r \<and> ew_created_at r < (day + 1) * 86400 * 10 ^ 6 \<and>
     ew_status r \<in> {FILLED, PARTIALLY_FILLED}) (dvals (td_executions db))"

definition get_daily_pnl :: "int \<Rightarrow> trade_db \<Rightarrow> rat" where
  "get_daily_pnl day db = (let rows = day_executions day db in
     fl (sum_column (map signed_cost rows) - sum_column (map ew_fee_usd rows)))"

text \<open>The audit write of the risk agent and of the execution agent. Each is bounded by a timeout and
  its failures are only logged; a timeout is the number of commits that were made before it.\<close>

definition persist_decision :: "sql \<Rightarrow> nat option \<Rightarrow> trade_proposal \<Rightarrow> risk_assessment \<Rightarrow> trade_db \<Rightarrow> trade_db" where
  "persist_decision q timeout p a db =
    (if timeout = Some 0 then db else
     case save_proposal q p db of Inl e \<Rightarrow> db | Inr db1 \<Rightarrow>
     if timeout = Some 1 then db1 else
     case save_assessment q a db1 of Inl e \<Rightarrow> db1 | Inr db2 \<Rightarrow> db2)"

definition persist_execution :: "sql \<Rightarrow> nat option \<Rightarrow> execution_result \<Rightarrow> trade_db \<Rightarrow> trade_db" where
  "persist_execution q timeout r db =
    (if timeout = Some 0 then db else case save_execution q r db of Inl e \<Rightarrow> db | Inr db1 \<Rightarrow> db1)"

subsection \<open>The audit trail\<close>

definition audit_ok :: "trade_db \<Rightarrow> bool" where
  "audit_ok db \<longleftrightarrow> dict_ok (td_proposals db) \<and> dict_ok (td_assessments db) \<and> dict_ok (td_executions db) \<and>
     aw_proposal_id ` set (dvals (td_assessments db)) \<subseteq> fst ` set (td_proposals db) \<and>
     ew_proposal_id ` set (dvals (td_executions db)) \<subseteq> fst ` set (td_proposals db) \<and>
     ew_assessment_id ` set (dvals (td_executions db)) \<subseteq> fst ` set (td_assessments db)"

definition empty_trade_db :: trade_db where
  "empty_trade_db = \<lparr>td_proposals = [], td_assessments = [], td_executions = []\<rparr>"

datatype audit_write = Decision_write "nat option" trade_proposal risk_assessment | Execution_write "nat option" execution_result

fun audit :: "sql \<Rightarrow> audit_write \<Rightarrow> trade_db \<Rightarrow> trade_db" where
  "audit q (Decision_write t p a) = persist_decision q t p a"
| "audit q (Execution_write t r) = persist_execution q t r"

lemma insert_rowE:
  assumes "insert_row q k r t = Inr t'"
  obtains "map_of t k = None" "t' = t @ [(k, r)]"
  using assms by (auto simp: insert_row_def update_new split: if_splits)

lemma save_proposalE:
  assumes "save_proposal q p db = Inr db'"
  obtains row where "map_of (td_proposals db) (tp_proposal_id p) = None"
    "db' = db\<lparr>td_proposals := td_proposals db @ [(tp_proposal_id p, row)]\<rparr>"
  using assms unfolding save_proposal_def by (elim ok_elims insert_rowE) (simp only: sum.inject, metis)

lemma save_assessmentE:
  assumes "save_assessment q a db = Inr db'"
  obtains row where "map_of (td_assessments db) (ra_assessment_id a) = None" "aw_proposal_id row = ra_proposal_id a"
    "refers q (ra_proposal_id a) (td_proposals db)"
    "db' = db\<lparr>td_assessments := td_assessments db @ [(ra_assessment_id a, row)]\<rparr>"
  using assms unfolding save_assessment_def
  by (elim ok_elims) (split if_split_asm, simp, elim ok_elims insert_rowE, force)

lemma save_executionE:
  assumes "save_execution q r db = Inr db'"
  obtains row where "execution_to_row q r = Inr row" "map_of (td_executions db) (er_result_id r) = None"
    "refers q (er_proposal_id r) (td_proposals db)" "refers q (er_assessment_id r) (td_assessments db)"
    "db' = db\<lparr>td_executions := td_executions db @ [(er_result_id r, row)]\<rparr>"
  using assms unfolding save_execution_def
  by (elim okE) (split if_split_asm, simp, elim okE insert_rowE, force)

lemma execution_row_refs:
  "execution_to_row q r = Inr row \<Longrightarrow> ew_proposal_id row = er_proposal_id r \<and> ew_assessment_id row = er_assessment_id r"
  unfolding execution_to_row_def by (elim ok_elims, simp only: sum.inject, hypsubst, simp)

lemma key_iff: "map_of t k = None \<longleftrightarrow> k \<notin> fst ` set t"
  by (simp add: map_of_eq_None_iff)

lemma refers_key: "refers q k t \<Longrightarrow> sq_foreign_keys q \<Longrightarrow> k \<in> fst ` set t"
  by (simp add: refers_def key_iff)

lemma audit_ok_proposal: "save_proposal q p db = Inr db' \<Longrightarrow> audit_ok db \<Longrightarrow> audit_ok db'"
  by (elim save_proposalE) (simp add: key_iff audit_ok_def subset_insertI2)

lemma audit_ok_assessment:
  "save_assessment q a db = Inr db' \<Longrightarrow> sq_foreign_keys q \<Longrightarrow> audit_ok db \<Longrightarrow> audit_ok db'"
  by (elim save_assessmentE, drule (1) refers_key) (simp add: key_iff audit_ok_def subset_insertI2)

lemma audit_ok_execution:
  "save_execution q r db = Inr db' \<Longrightarrow> sq_foreign_keys q \<Longrightarrow> audit_ok db \<Longrightarrow> audit_ok db'"
  by (elim save_executionE, drule (1) refers_key, drule (1) refers_key)
    (simp add: key_iff audit_ok_def execution_row_refs)

lemma audit_ok_step: "sq_foreign_keys q \<Longrightarrow> audit_ok db \<Longrightarrow> audit_ok (audit q w db)"
  by (cases w) (auto simp: persist_decision_def persist_execution_def audit_ok_proposal audit_ok_assessment
    audit_ok_execution split: sum.split)

text \<open>The audit trail holds no execution without its decision. Whatever decisions and executions the agents
  write, in any order and however the writes time out, every execution in the database refers to a
  stored proposal and a stored assessment; conversely the write of an execution whose assessment was
  lost changes nothing, so its loss is silent.\<close>

theorem audit_trail_closed:
  assumes "sq_foreign_keys q"
  shows "audit_ok (fold (audit q) ws empty_trade_db) \<and>
    (map_of (td_assessments db) (er_assessment_id r) = None \<longrightarrow> persist_execution q t r db = db)"
proof -
  have "audit_ok db \<Longrightarrow> audit_ok (fold (audit q) ws db)" for db
    using assms by (induction ws arbitrary: db) (simp_all add: audit_ok_step)
  moreover have "persist_execution q t r db = db" if "map_of (td_assessments db) (er_assessment_id r) = None"
    using assms that by (auto simp: persist_execution_def refers_def elim!: save_executionE split: sum.split)
  ultimately show ?thesis by (simp add: audit_ok_def empty_trade_db_def)
qed

subsection \<open>Executions read back\<close>

text \<open>The columns keep an execution's numbers when they are already at the columns' scales.\<close>

definition at_scale :: "sql \<Rightarrow> execution_result \<Rightarrow> bool" where
  "at_scale q r \<longleftrightarrow> sq_numeric q 30 8 (er_requested_quantity r) = Inr (er_requested_quantity r) \<and>
     sq_numeric q 30 8 (er_filled_quantity r) = Inr (er_filled_quantity r) \<and>
     opt_ok (sq_numeric q 20 8) (er_average_fill_price r) = Inr (er_average_fill_price r) \<and>
     opt_ok (sq_numeric q 20 2) (er_total_cost_usd r) = Inr (er_total_cost_usd r) \<and>
     opt_ok (sq_numeric q 20 8) (er_fee_usd r) = Inr (er_fee_usd r)"

definition without_profit :: "execution_result \<Rightarrow> execution_result" where
  "without_profit r = r\<lparr>er_realized_pnl_usd := None, er_stop_loss_order_id := None, er_take_profit_order_id := None\<rparr>"

lemma execution_row_at_scale:
  "execution_to_row q r = Inr row \<Longrightarrow> at_scale q r \<Longrightarrow> row_to_execution (er_result_id r, row) = without_profit r"
  unfolding execution_to_row_def
  by (elim ok_elims, simp only: sum.inject, hypsubst) (simp add: at_scale_def without_profit_def)

text \<open>What is read back for an execution that was stored: all of it but the realized profit and the
  two stop order identifiers, at its place in time.\<close>

theorem execution_repo_roundtrip:
  assumes "sql_laws q" "save_execution q r db = Inr db'" "at_scale q r" "length (td_executions db') \<le> n"
  shows "without_profit r \<in> set (get_executions q (er_symbol r) None n db') \<and>
    sorted (map er_timestamp (get_executions q s since n db'))"
proof
  obtain row where row: "execution_to_row q r = Inr row"
    "db' = db\<lparr>td_executions := td_executions db @ [(er_result_id r, row)]\<rparr>"
    using assms(2) by (rule save_executionE)
  define keep where "keep = (\<lambda>(k::uuid, row::execution_row). ew_symbol row = er_symbol r)"
  have len: "length (filter P (scan q (td_executions db'))) \<le> n" for P
    using assms(4) length_filter_le [of P "scan q (td_executions db')"] by (simp add: length_scan [OF assms(1)])
  have "ew_symbol row = er_symbol r"
    using arg_cong [OF execution_row_at_scale [OF row(1) assms(3)], of er_symbol] by (simp add: without_profit_def)
  then have "(er_result_id r, row) \<in> set (filter keep (scan q (td_executions db')))"
    using row(2) by (simp add: keep_def set_scan [OF assms(1)])
  then have "row_to_execution (er_result_id r, row) \<in> set (get_executions q (er_symbol r) None n db')"
    using len [of keep] unfolding get_executions_def set_map
    by (intro imageI) (simp add: keep_def in_range_def)
  then show "without_profit r \<in> set (get_executions q (er_symbol r) None n db')"
    by (simp only: execution_row_at_scale [OF row(1) assms(3)])
  have "er_timestamp \<circ> row_to_execution = ew_created_at \<circ> snd" by (auto simp: fun_eq_iff)
  then show "sorted (map er_timestamp (get_executions q s since n db'))"
    by (simp add: get_executions_def sorted_wrt_take take_map [symmetric])
qed

text \<open>The profit of a day counts what was bought and is still held as a loss.\<close>

theorem daily_pnl_counts_open_buys:
  assumes "day_executions day db = [r]" "ew_side r = BUY" "ew_total_cost_usd r = Some c" "ew_fee_usd r = Some f"
  shows "get_daily_pnl day db = fl (- c - f)"
  by (simp add: get_daily_pnl_def assms sum_column_def signed_cost_def)

subsection \<open>Positions\<close>

record position_row =
  po_position_id :: uuid
  po_side :: order_side
  po_quantity :: money
  po_entry_price :: money
  po_current_price :: "money option"
  po_unrealised_pnl_usd :: "money option"
  po_stop_loss_price :: "money option"
  po_take_profit_price :: "money option"
  po_is_paper :: bool
  po_opened_at :: time
  po_updated_at :: time

type_synonym position_table = "(symbol, position_row) dict"

definition row_to_position :: "(uuid \<Rightarrow> string) \<Rightarrow> symbol \<times> position_row \<Rightarrow> broker_position" where
  "row_to_position uuid_text kr = (case kr of (s, r) \<Rightarrow>
     \<lparr>bp_symbol = s, bp_side = po_side r, bp_quantity = po_quantity r, bp_entry_price = po_entry_price r,
      bp_current_price = (case po_current_price r of None \<Rightarrow> 0 | Some x \<Rightarrow> x),
      bp_unrealised_pnl_usd = (case po_unrealised_pnl_usd r of None \<Rightarrow> 0 | Some x \<Rightarrow> x),
      bp_stop_loss = po_stop_loss_price r, bp_take_profit = po_take_profit_price r,
      bp_position_id = Some (uuid_text (po_position_id r))\<rparr>)"

record position_env =
  pq_now :: time
  pq_uuid :: uuid
  pq_is_paper :: bool

definition upsert_position :: "sql \<Rightarrow> position_env \<Rightarrow> broker_position \<Rightarrow> position_table \<Rightarrow> error + position_table" where
  "upsert_position q env p t =
    (case sq_text q 20 (bp_symbol p) of Some e \<Rightarrow> Inl e | None \<Rightarrow>
    (case sq_numeric q 30 8 (bp_quantity p) of Inl e \<Rightarrow> Inl e | Inr qty \<Rightarrow>
    (case sq_numeric q 20 8 (bp_entry_price p) of Inl e \<Rightarrow> Inl e | Inr entry \<Rightarrow>
    (case sq_numeric q 20 8 (bp_current_price p) of Inl e \<Rightarrow> Inl e | Inr current \<Rightarrow>
    (case sq_numeric q 20 2 (bp_unrealised_pnl_usd p) of Inl e \<Rightarrow> Inl e | Inr pnl \<Rightarrow>
    (case opt_ok (sq_numeric q 20 8) (bp_stop_loss p) of Inl e \<Rightarrow> Inl e | Inr sl \<Rightarrow>
    (case opt_ok (sq_numeric q 20 8) (bp_take_profit p) of Inl e \<Rightarrow> Inl e | Inr tp \<Rightarrow>
      Inr (AList.update (bp_symbol p)
        \<lparr>po_position_id = (case map_of t (bp_symbol p) of Some r \<Rightarrow> po_position_id r | None \<Rightarrow> pq_uuid env),
         po_side = bp_side p, po_quantity = qty, po_entry_price = entry, po_current_price = Some current,
         po_unrealised_pnl_usd = Some pnl, po_stop_loss_price = sl, po_take_profit_price = tp, po_is_paper = pq_is_paper env,
         po_opened_at = (case map_of t (bp_symbol p) of Some r \<Rightarrow> po_opened_at r | None \<Rightarrow> pq_now env),
         po_updated_at = pq_now env\<rparr> t))))))))"

definition get_open_positions :: "sql \<Rightarrow> (uuid \<Rightarrow> string) \<Rightarrow> position_table \<Rightarrow> broker_position list" where
  "get_open_positions q uuid_text t = map (row_to_position uuid_text) (scan q t)"

definition delete_position :: "symbol \<Rightarrow> position_table \<Rightarrow> position_table" where
  "delete_position s t = AList.delete s t"

definition get_position :: "(uuid \<Rightarrow> string) \<Rightarrow> symbol \<Rightarrow> position_table \<Rightarrow> broker_position option" where
  "get_position uuid_text s t = map_option (\<lambda>r. row_to_position uuid_text (s, r)) (map_of t s)"

text \<open>The table is a map of symbols: a write replaces that symbol's row and keeps its identifier and
  opening time, and leaves every other symbol alone.\<close>

theorem position_repo_is_a_map:
  assumes "upsert_position q env p t = Inr t'" "dict_ok t"
  shows "dict_ok t' \<and> (\<exists>x. get_position uuid_text (bp_symbol p) t' = Some x \<and> bp_side x = bp_side p) \<and>
    (\<forall>s. s \<noteq> bp_symbol p \<longrightarrow> get_position uuid_text s t' = get_position uuid_text s t) \<and>
    (\<forall>r. map_of t (bp_symbol p) = Some r \<longrightarrow> (\<exists>r'. map_of t' (bp_symbol p) = Some r' \<and>
       po_position_id r' = po_position_id r \<and> po_opened_at r' = po_opened_at r)) \<and>
    get_position uuid_text (bp_symbol p) (delete_position (bp_symbol p) t') = None"
  using assms unfolding upsert_position_def
  by (elim ok_elims, simp only: sum.inject, hypsubst) (simp add: get_position_def row_to_position_def delete_position_def)

subsection \<open>A concrete database\<close>

text \<open>Columns that round half-even, strings that must fit, scans from the newest row.\<close>

definition demo_sql :: sql where
  "demo_sql = \<lparr>sq_numeric = (\<lambda>p s x. Inr (of_int (rne (x * 10 ^ s)) / 10 ^ s)),
     sq_text = (\<lambda>n s. if length s \<le> n then None else Some (Database_error ''value too long'')),
     sq_scan = (\<lambda>n. rev [0..<n]), sq_integrity = Database_error ''integrity'', sq_foreign_keys = True\<rparr>"

lemma demo_sql_laws: "sql_laws demo_sql"
  by (auto simp: sql_laws_def demo_sql_def divide_right_mono rne_mono mult_right_mono)

theorem candle_repo_roundtrip_witness:
  "let c = mk_candle ''X'' 120 1; d = mk_candle ''X'' 60 1; e = mk_candle ''X'' 120 2
   in \<exists>db rows. upsert_candles demo_sql [c, d, e] [] = Inr db \<and>
     (\<forall>k. get_candles demo_sql ''X'' ''1m'' None None k db = Inr (limited k rows)) \<and> oc_timestamp ` set rows = {60, 120}"
proof -
  define cs where "cs = [mk_candle ''X'' 120 1, mk_candle ''X'' 60 1, mk_candle ''X'' 120 2]"
  have "case upsert_candles demo_sql cs [] of Inr db \<Rightarrow> list_all candle_ok cs | _ \<Rightarrow> False"
    unfolding cs_def by code_simp
  then obtain db where db: "upsert_candles demo_sql cs [] = Inr db" "list_all candle_ok cs" by (auto split: sum.splits)
  have keys: "(''X'', ''1m'', t) \<in> candle_key ` set cs \<longleftrightarrow> t \<in> {60, 120}" for t
    by (auto simp: cs_def candle_key_def mk_candle_def)
  show ?thesis
    using candle_repo_roundtrip [OF demo_sql_laws db, of "''X''" "''1m''" None None] db(1)
    unfolding keys Let_def cs_def [symmetric] by (auto simp: in_range_def set_eq_iff)
qed

definition demo_execution :: execution_result where
  "demo_execution = \<lparr>er_result_id = 9, er_proposal_id = 7, er_assessment_id = 3, er_exchange_order_id = Some ''paper-1'',
     er_timestamp = 60, er_symbol = ''X'', er_side = BUY, er_order_type = MARKET, er_status = FILLED,
     er_requested_quantity = 1, er_filled_quantity = 1, er_average_fill_price = Some 100, er_total_cost_usd = Some 100,
     er_fee_usd = Some (1 / 10), er_fee_currency = Some ''USD'', er_realized_pnl_usd = Some 5, er_stop_loss_order_id = None,
     er_take_profit_order_id = None, er_is_paper = True, er_error_message = None, er_retry_count = 0\<rparr>"

definition demo_decision :: audit_write where
  "demo_decision = Decision_write None (mk_proposal 7 ''X'' BUY 100 100 0) (mk_assessment 7 ''X'' BUY 100 100)"

lemma demo_audit:
  "dvals (map (\<lambda>(k, r). (k, ew_total_cost_usd r)) (td_executions (fold (audit demo_sql) [demo_decision, Execution_write None demo_execution] empty_trade_db))) = [Some 100]"
  by code_simp

theorem audit_trail_closed_witness:
  "let db = fold (audit demo_sql) [demo_decision, Execution_write None demo_execution] empty_trade_db
   in audit_ok db \<and> length (td_executions db) = 1 \<and>
     persist_execution demo_sql None demo_execution empty_trade_db = empty_trade_db"
proof -
  have f: "sq_foreign_keys demo_sql" by (simp add: demo_sql_def)
  have "length (td_executions (fold (audit demo_sql) [demo_decision, Execution_write None demo_execution] empty_trade_db)) = 1"
    using arg_cong [OF demo_audit, of length] by simp
  then show ?thesis
    using audit_trail_closed [OF f, of "[demo_decision, Execution_write None demo_execution]" empty_trade_db demo_execution None]
    by (simp add: empty_trade_db_def)
qed

end
