(* ===== verification/Seed_History.thy ===== *)
theory Seed_History
  imports Repositories
begin

text \<open>
  The seeding of a history (\<open>scripts/seed_historical.py\<close>): pages of candles from the exchange,
  upserted until the present is reached. The exchange is a function of the call's number and the
  requested start; its answers are rows of optional floats. Nothing bounds the number of calls, so
  the loop is a partial function whose value is None when it never returns.

  Proved here: the loop returns when every page ends at or after the requested start, and how many
  pages it takes; on an exchange that answers with old candles for ever it does not return.
\<close>

definition SEED_TIMEFRAME_MS :: "(string, int) dict" where
  "SEED_TIMEFRAME_MS = [(''1m'', 60000), (''5m'', 300000), (''15m'', 900000), (''1h'', 3600000), (''4h'', 14400000), (''1d'', 86400000)]"

definition seed_step :: "string \<Rightarrow> int" where
  "seed_step tf = (case map_of SEED_TIMEFRAME_MS tf of None \<Rightarrow> 60000 | Some ms \<Rightarrow> ms)"

text \<open>Every upsert commits, so a failure leaves those before it in the table.\<close>

fun upsert_each :: "sql \<Rightarrow> candle list \<Rightarrow> candle_table \<Rightarrow> (error + unit) \<times> candle_table" where
  "upsert_each q [] db = (Inr (), db)"
| "upsert_each q (c # cs) db = (case upsert_candle q c db of Inl e \<Rightarrow> (Inl e, db) | Inr db1 \<Rightarrow> upsert_each q cs db1)"

type_synonym raw_row = "rat option list"

record seed_env =
  sv_fetch :: "nat \<Rightarrow> rat \<Rightarrow> error + raw_row list"
  sv_received :: "nat \<Rightarrow> time"
  sv_start_ms :: rat
  sv_now_ms :: rat

partial_function (option) seed_loop ::
  "sql \<Rightarrow> seed_env \<Rightarrow> symbol \<Rightarrow> string \<Rightarrow> nat \<Rightarrow> rat \<Rightarrow> nat \<Rightarrow> candle_table \<Rightarrow> ((error + nat) \<times> candle_table) option" where
  "seed_loop q env s tf i since acc db =
    (if \<not> since < sv_now_ms env then Some (Inr acc, db) else
     case sv_fetch env i since of Inl e \<Rightarrow> Some (Inl e, db)
     | Inr raw \<Rightarrow> if raw = [] then Some (Inr acc, db) else
       (case map_ok (\<lambda>row. candle_from_ccxt (sv_received env i) row s tf) raw of Inl e \<Rightarrow> Some (Inl e, db)
        | Inr candles \<Rightarrow>
         (case upsert_each q candles db of (Inl e, db1) \<Rightarrow> Some (Inl e, db1)
          | (Inr _, db1) \<Rightarrow>
            (case last raw of Some ms # _ \<Rightarrow> seed_loop q env s tf (Suc i) (ms + of_int (seed_step tf)) (acc + length raw) db1
             | _ \<Rightarrow> Some (Inl (Type_error ''timestamp''), db1)))))"

definition seed_symbol_timeframe ::
  "sql \<Rightarrow> seed_env \<Rightarrow> symbol \<Rightarrow> string \<Rightarrow> candle_table \<Rightarrow> ((error + nat) \<times> candle_table) option" where
  "seed_symbol_timeframe q env s tf db = seed_loop q env s tf 0 (sv_start_ms env) 0 db"

fun seed_pairs ::
  "sql \<Rightarrow> (symbol \<Rightarrow> string \<Rightarrow> seed_env) \<Rightarrow> (symbol \<times> string) list \<Rightarrow> nat \<Rightarrow> candle_table \<Rightarrow> ((error + nat) \<times> candle_table) option" where
  "seed_pairs q env [] acc db = Some (Inr acc, db)"
| "seed_pairs q env ((s, tf) # ps) acc db = (case seed_symbol_timeframe q (env s tf) s tf db of None \<Rightarrow> None
     | Some (Inl e, db1) \<Rightarrow> Some (Inl e, db1)
     | Some (Inr n, db1) \<Rightarrow> seed_pairs q env ps (acc + n) db1)"

text \<open>The nested loops over symbols and timeframes. The exchange is connected before and disconnected
  after them, whatever happens in between.\<close>

definition run_seed ::
  "sql \<Rightarrow> (symbol \<Rightarrow> string \<Rightarrow> seed_env) \<Rightarrow> symbol list \<Rightarrow> string list \<Rightarrow> candle_table \<Rightarrow> ((error + nat) \<times> candle_table) option" where
  "run_seed q env symbols timeframes db =
     seed_pairs q env (concat (map (\<lambda>s. map (\<lambda>tf. (s, tf)) timeframes) symbols)) 0 db"

subsection \<open>The loop returns\<close>

text \<open>Each page ends at or after the start it was asked for, which is what the exchange's interface
  documents for its \<open>since\<close> argument.\<close>

definition pages_from_since :: "seed_env \<Rightarrow> bool" where
  "pages_from_since env \<longleftrightarrow> (\<forall>i since raw ms rest. sv_fetch env i since = Inr raw \<longrightarrow> raw \<noteq> [] \<longrightarrow> last raw = Some ms # rest \<longrightarrow> since \<le> ms)"

lemma seed_step_pos: "60000 \<le> seed_step tf"
  by (auto simp: seed_step_def SEED_TIMEFRAME_MS_def)

text \<open>Seeding returns. When the exchange answers a request with candles from its start on, the loop for
  a pair returns, with a result or an exception, for any history and any database.\<close>

theorem seed_terminates:
  assumes "pages_from_since env"
  shows "\<exists>out. seed_symbol_timeframe q env s tf db = Some out"
proof -
  have "\<exists>out. seed_loop q env s tf i since acc db = Some out"
    if "sv_now_ms env - since \<le> of_nat n * 60000" for n i since acc db
    using that
  proof (induction n arbitrary: i since acc db)
    case 0
    then show ?case by (subst seed_loop.simps) simp
  next
    case (Suc n)
    have page: "\<exists>out. seed_loop q env s tf (Suc i) (ms + of_int (seed_step tf)) (acc + length raw) db1 = Some out"
      if "sv_fetch env i since = Inr raw" "raw \<noteq> []" "last raw = Some ms # rest" for raw ms rest db1
    proof (rule Suc.IH)
      have "since \<le> ms" using assms that unfolding pages_from_since_def by blast
      moreover have "(60000 :: rat) \<le> of_int (seed_step tf)" using seed_step_pos [of tf] by linarith
      ultimately show "sv_now_ms env - (ms + of_int (seed_step tf)) \<le> of_nat n * 60000"
        using Suc.prems by (simp add: algebra_simps)
    qed
    show ?case
      by (subst seed_loop.simps) (use page in \<open>auto split: sum.split prod.split list.split option.split\<close>)
  qed
  moreover obtain n :: nat where "sv_now_ms env - sv_start_ms env \<le> of_nat n * 60000"
    using ex_less_of_nat_mult [of "60000 :: rat" "sv_now_ms env - sv_start_ms env"] by (auto intro: less_imp_le)
  ultimately show ?thesis unfolding seed_symbol_timeframe_def by blast
qed

subsection \<open>Concrete exchanges\<close>

definition page_at :: "rat \<Rightarrow> raw_row list" where
  "page_at ms = [[Some ms, Some 1, Some 1, Some 1, Some 1, Some 1]]"

definition live_env :: seed_env where
  "live_env = \<lparr>sv_fetch = (\<lambda>i since. Inr (page_at since)), sv_received = (\<lambda>i. 0), sv_start_ms = 0, sv_now_ms = 180000\<rparr>"

theorem seed_terminates_witness:
  "\<exists>out. seed_symbol_timeframe demo_sql live_env ''X'' ''1m'' [] = Some out"
proof (rule seed_terminates)
  show "pages_from_since live_env" by (simp add: pages_from_since_def live_env_def page_at_def)
qed

text \<open>An exchange that answers every request with the same old candle.\<close>

definition stale_env :: seed_env where
  "stale_env = live_env\<lparr>sv_fetch := \<lambda>i since. Inr (page_at 0)\<rparr>"

lemma stale_candle:
  "\<exists>c. map_ok (\<lambda>row. candle_from_ccxt 0 row ''X'' ''1m'') (page_at 0) = Inr [c] \<and> (\<exists>r. candle_to_row demo_sql c = Inr r)"
proof -
  have "case map_ok (\<lambda>row. candle_from_ccxt 0 row ''X'' ''1m'') (page_at 0) of Inr [c] \<Rightarrow>
      (case candle_to_row demo_sql c of Inr r \<Rightarrow> True | _ \<Rightarrow> False) | _ \<Rightarrow> False"
    by code_simp
  then show ?thesis by (auto split: sum.splits list.splits)
qed

lemma stale_facts:
  "sv_fetch stale_env i since = Inr (page_at 0)" "sv_now_ms stale_env = 180000" "sv_received stale_env i = 0" "sv_start_ms stale_env = 0"
  by (simp_all add: stale_env_def live_env_def)

lemma page_facts: "page_at ms \<noteq> []" "last (page_at ms) = [Some ms, Some 1, Some 1, Some 1, Some 1, Some 1]" "length (page_at ms) = 1"
  by (simp_all add: page_at_def)

text \<open>Then the script never returns: nothing in the loop checks that the start advances.\<close>

theorem stale_pages_never_return:
  "seed_symbol_timeframe demo_sql stale_env ''X'' ''1m'' db = None"
proof -
  obtain c r where c: "map_ok (\<lambda>row. candle_from_ccxt 0 row ''X'' ''1m'') (page_at 0) = Inr [c]" "candle_to_row demo_sql c = Inr r"
    using stale_candle by blast
  have never: "seed_loop q env s tf i since acc db = Some out \<Longrightarrow>
      q = demo_sql \<longrightarrow> env = stale_env \<longrightarrow> s = ''X'' \<longrightarrow> tf = ''1m'' \<longrightarrow> since < 180000 \<longrightarrow> False"
    for q env s tf i since acc db out
  proof (induction rule: seed_loop.raw_induct [rotated, consumes 1])
    case (1 loop q env s tf i since acc db out)
    have step: "seed_step ''1m'' = 60000" by (simp add: seed_step_def SEED_TIMEFRAME_MS_def)
    show ?case
    proof (intro impI)
      assume eqs: "q = demo_sql" "env = stale_env" "s = ''X''" "tf = ''1m''" "since < 180000"
      have "loop demo_sql stale_env ''X'' ''1m'' (Suc i) 60000 (acc + 1) (AList.update (candle_key c) r db) = Some out"
        using 1(2) unfolding eqs by (simp add: stale_facts page_facts c upsert_candle_def step eqs(5))
      from 1(1) [OF this] show False by simp
    qed
  qed
  show ?thesis
    using never [of demo_sql stale_env "''X''" "''1m''" 0 0 0 db]
    by (cases "seed_symbol_timeframe demo_sql stale_env ''X'' ''1m'' db")
      (auto simp: seed_symbol_timeframe_def stale_facts)
qed

end
