(* ===== verification/Candle_Files.thy ===== *)
theory Candle_Files
  imports Seed_History "HOL-Library.List_Lexorder" "HOL-Library.Char_ord"
begin

text \<open>
  Candles in files (\<open>backtest/data.py\<close>) and the seeding of the database from them
  (\<open>scripts/seed.py\<close>). A file is what the csv module reads and writes: a header of column names and
  rows of fields. The text of a number or of a timestamp is opaque: writing and reading it are the
  parameters of a codec, whose law is that what was written is read back. A directory is a dictionary
  of file names.

  Proved here: the cache returns the history that was put into it, the name of a file gives back its
  symbol and timeframe, and a seeded file is all or nothing in the database.
\<close>

record 'f codec =
  cd_time :: "time \<Rightarrow> 'f"
  cd_number :: "rat \<Rightarrow> 'f"
  cd_read_time :: "'f \<Rightarrow> error + time"
  cd_read_number :: "'f \<Rightarrow> error + rat"

definition codec_law :: "'f codec \<Rightarrow> bool" where
  "codec_law k \<longleftrightarrow> (\<forall>t. cd_read_time k (cd_time k t) = Inr t) \<and> (\<forall>x. cd_read_number k (cd_number k x) = Inr x)"

type_synonym 'f csv = "string list \<times> 'f list list"
type_synonym 'f directory = "(string, 'f csv) dict"

datatype load_error = File_not_found string | Bad_row error

definition CSV_HEADER :: "string list" where
  "CSV_HEADER = [''timestamp'', ''open'', ''high'', ''low'', ''close'', ''volume'']"

definition csv_name :: "symbol \<Rightarrow> string \<Rightarrow> string" where
  "csv_name s tf = safe_symbol s @ ''_'' @ tf @ ''.csv''"

subsection \<open>Reading and writing\<close>

text \<open>\<open>DictReader\<close>: a column that is not in the header raises, one that a short row lacks is None, and a
  repeated column counts by its last; empty rows are skipped.\<close>

definition csv_field :: "string list \<Rightarrow> 'f list \<Rightarrow> string \<Rightarrow> error + 'f option" where
  "csv_field header row name = (if name \<in> set header then Inr (map_of (rev (zip header row)) name) else Inl (Key_error name))"

definition csv_number :: "'f codec \<Rightarrow> string list \<Rightarrow> 'f list \<Rightarrow> string \<Rightarrow> error + rat" where
  "csv_number k header row name = (case csv_field header row name of Inl e \<Rightarrow> Inl e
     | Inr None \<Rightarrow> Inl (Type_error name) | Inr (Some x) \<Rightarrow> cd_read_number k x)"

definition read_row :: "'f codec \<Rightarrow> time \<Rightarrow> symbol \<Rightarrow> string \<Rightarrow> string list \<Rightarrow> 'f list \<Rightarrow> error + candle" where
  "read_row k received s tf header row =
    (case csv_field header row ''timestamp'' of Inl e \<Rightarrow> Inl e | Inr stamp \<Rightarrow>
    (case csv_number k header row ''open'' of Inl e \<Rightarrow> Inl e | Inr op \<Rightarrow>
    (case csv_number k header row ''high'' of Inl e \<Rightarrow> Inl e | Inr hi \<Rightarrow>
    (case csv_number k header row ''low'' of Inl e \<Rightarrow> Inl e | Inr lo \<Rightarrow>
    (case csv_number k header row ''close'' of Inl e \<Rightarrow> Inl e | Inr cl \<Rightarrow>
    (case csv_number k header row ''volume'' of Inl e \<Rightarrow> Inl e | Inr vol \<Rightarrow>
    (case (case stamp of None \<Rightarrow> Inl (Validation_error ''timestamp'') | Some x \<Rightarrow> cd_read_time k x) of Inl e \<Rightarrow> Inl e | Inr t \<Rightarrow>
      validate_ohlcv_consistency \<lparr>oc_symbol = s, oc_timeframe = tf, oc_timestamp = t, oc_open = op, oc_high = hi,
        oc_low = lo, oc_close = cl, oc_volume = vol, oc_quote_volume = None, oc_is_closed = True,
        oc_received_at = received\<rparr>)))))))"

definition read_csv :: "'f codec \<Rightarrow> time \<Rightarrow> symbol \<Rightarrow> string \<Rightarrow> 'f csv \<Rightarrow> error + candle list" where
  "read_csv k received s tf content = map_ok (read_row k received s tf (fst content)) (filter (\<lambda>row. row \<noteq> []) (snd content))"

definition load_candles :: "'f codec \<Rightarrow> time \<Rightarrow> 'f directory \<Rightarrow> symbol \<Rightarrow> string \<Rightarrow> load_error + candle list" where
  "load_candles k received dir s tf = (case map_of dir (csv_name s tf) of None \<Rightarrow> Inl (File_not_found (csv_name s tf))
     | Some content \<Rightarrow> (case read_csv k received s tf content of Inl e \<Rightarrow> Inl (Bad_row e)
        | Inr cs \<Rightarrow> Inr (sort_key oc_timestamp cs)))"

definition csv_row :: "'f codec \<Rightarrow> candle \<Rightarrow> 'f list" where
  "csv_row k c = [cd_time k (oc_timestamp c), cd_number k (oc_open c), cd_number k (oc_high c), cd_number k (oc_low c),
     cd_number k (oc_close c), cd_number k (oc_volume c)]"

definition write_csv :: "'f codec \<Rightarrow> candle list \<Rightarrow> 'f csv" where
  "write_csv k cs = (CSV_HEADER, map (csv_row k) cs)"

text \<open>The fetch connects, fetches and disconnects; its outcome is the argument.\<close>

definition fetch_and_cache ::
  "'f codec \<Rightarrow> (error + candle list) \<Rightarrow> symbol \<Rightarrow> string \<Rightarrow> 'f directory \<Rightarrow> (error + candle list) \<times> 'f directory" where
  "fetch_and_cache k fetched s tf cache = (case fetched of Inl e \<Rightarrow> (Inl e, cache)
     | Inr cs \<Rightarrow> (Inr cs, AList.update (csv_name s tf) (write_csv k cs) cache))"

subsection \<open>File names\<close>

text \<open>\<open>str.rpartition\<close> of a separator of one character: the parts around its last occurrence.\<close>

definition rpartition :: "char \<Rightarrow> string \<Rightarrow> string \<times> string" where
  "rpartition c s = (if c \<in> set s then (rev (tl (dropWhile (\<lambda>x. x \<noteq> c) (rev s))), rev (takeWhile (\<lambda>x. x \<noteq> c) (rev s)))
     else ([], s))"

text \<open>\<open>Path.stem\<close>: a name without its last suffix; a leading or a trailing dot starts none.\<close>

definition path_stem :: "string \<Rightarrow> string" where
  "path_stem name = (let p = rpartition CHR ''.'' name in if fst p = [] \<or> snd p = [] then name else fst p)"

definition parse_filename :: "string \<Rightarrow> symbol \<times> string" where
  "parse_filename name = (let p = rpartition CHR ''_'' (path_stem name)
     in (map (\<lambda>c. if c = CHR ''-'' then CHR ''/'' else c) (fst p), snd p))"

definition is_csv :: "string \<Rightarrow> bool" where
  "is_csv name \<longleftrightarrow> 4 \<le> length name \<and> drop (length name - 4) name = ''.csv''"

definition csv_files :: "'f directory \<Rightarrow> string list" where
  "csv_files dir = sort (filter is_csv (map fst dir))"

definition discover_files :: "'f directory \<Rightarrow> string option \<Rightarrow> string option \<Rightarrow> string list" where
  "discover_files dir s tf = filter (\<lambda>name. case parse_filename name of (fs, ftf) \<Rightarrow>
     (case s of None \<Rightarrow> True | Some x \<Rightarrow> x = [] \<or> fs = x) \<and> (case tf of None \<Rightarrow> True | Some x \<Rightarrow> x = [] \<or> ftf = x)) (csv_files dir)"

definition available_datasets :: "'f directory \<Rightarrow> (symbol \<times> string) list" where
  "available_datasets dir = map parse_filename (csv_files dir)"

subsection \<open>Seeding from files\<close>

definition load_csv_candles :: "'f codec \<Rightarrow> time \<Rightarrow> string \<Rightarrow> 'f csv \<Rightarrow> error + candle list" where
  "load_csv_candles k received name content = (case parse_filename name of (s, tf) \<Rightarrow> read_csv k received s tf content)"

text \<open>One transaction: what fails inside it leaves the table as it was.\<close>

definition seed_file :: "sql \<Rightarrow> 'f codec \<Rightarrow> time \<Rightarrow> string \<Rightarrow> 'f csv \<Rightarrow> candle_table \<Rightarrow> (error + nat) \<times> candle_table" where
  "seed_file q k received name content db = (case load_csv_candles k received name content of Inl e \<Rightarrow> (Inl e, db)
     | Inr cs \<Rightarrow> (case upsert_candles q cs db of Inl e \<Rightarrow> (Inl e, db) | Inr db1 \<Rightarrow> (Inr (length cs), db1)))"

record seed_args =
  sd_symbol :: "string option"
  sd_timeframe :: "string option"
  sd_dry_run :: bool

text \<open>Each file is read once for its line of output, which in a dry run needs a first and a last
  candle, and read again by the seeding.\<close>

fun seed_files ::
  "sql \<Rightarrow> 'f codec \<Rightarrow> time \<Rightarrow> bool \<Rightarrow> (string \<times> 'f csv) list \<Rightarrow> nat \<Rightarrow> candle_table \<Rightarrow> (error + nat) \<times> candle_table" where
  "seed_files q k received dry [] n db = (Inr n, db)"
| "seed_files q k received dry ((name, content) # fs) n db =
    (case load_csv_candles k received name content of Inl e \<Rightarrow> (Inl e, db)
     | Inr cs \<Rightarrow> if dry then (if cs = [] then (Inl Index_error, db) else seed_files q k received dry fs (n + length cs) db)
       else (case seed_file q k received name content db of (Inl e, db1) \<Rightarrow> (Inl e, db1)
         | (Inr m, db1) \<Rightarrow> seed_files q k received dry fs (n + m) db1))"

text \<open>The exit code, or the exception that ends the script.\<close>

definition seed_main ::
  "sql \<Rightarrow> 'f codec \<Rightarrow> time \<Rightarrow> seed_args \<Rightarrow> 'f directory option \<Rightarrow> candle_table \<Rightarrow> (error + int) \<times> candle_table" where
  "seed_main q k received args dir db = (case dir of None \<Rightarrow> (Inr 1, db)
     | Some d \<Rightarrow> (let files = discover_files d (sd_symbol args) (sd_timeframe args) in
         if files = [] then (Inr 1, db)
         else case seed_files q k received (sd_dry_run args) (map (\<lambda>n. (n, the (map_of d n))) files) 0 db of
           (Inl e, db1) \<Rightarrow> (Inl e, db1) | (Inr n, db1) \<Rightarrow> (Inr 0, db1)))"

subsection \<open>What the files give back\<close>

definition as_read :: "time \<Rightarrow> candle \<Rightarrow> candle" where
  "as_read received c = c\<lparr>oc_quote_volume := None, oc_is_closed := True, oc_received_at := received\<rparr>"

lemma read_written_row:
  assumes "codec_law k" "candle_ok c" "oc_symbol c = s" "oc_timeframe c = tf"
  shows "read_row k received s tf CSV_HEADER (csv_row k c) = Inr (as_read received c)"
proof -
  have f: "csv_field CSV_HEADER (csv_row k c) ''timestamp'' = Inr (Some (cd_time k (oc_timestamp c)))"
    "csv_field CSV_HEADER (csv_row k c) ''open'' = Inr (Some (cd_number k (oc_open c)))"
    "csv_field CSV_HEADER (csv_row k c) ''high'' = Inr (Some (cd_number k (oc_high c)))"
    "csv_field CSV_HEADER (csv_row k c) ''low'' = Inr (Some (cd_number k (oc_low c)))"
    "csv_field CSV_HEADER (csv_row k c) ''close'' = Inr (Some (cd_number k (oc_close c)))"
    "csv_field CSV_HEADER (csv_row k c) ''volume'' = Inr (Some (cd_number k (oc_volume c)))"
    by (simp_all add: csv_field_def CSV_HEADER_def csv_row_def)
  have "candle_ok (as_read received c)" using assms(2) by (simp add: candle_ok_def as_read_def)
  moreover have "as_read received c = \<lparr>oc_symbol = s, oc_timeframe = tf, oc_timestamp = oc_timestamp c, oc_open = oc_open c,
    oc_high = oc_high c, oc_low = oc_low c, oc_close = oc_close c, oc_volume = oc_volume c, oc_quote_volume = None,
    oc_is_closed = True, oc_received_at = received\<rparr>"
    using assms(3,4) by (simp add: as_read_def)
  ultimately show ?thesis using assms(1) by (simp add: read_row_def csv_number_def f codec_law_def validate_ohlcv_iff)
qed

lemma read_written:
  assumes "codec_law k" "list_all (\<lambda>c. candle_ok c \<and> oc_symbol c = s \<and> oc_timeframe c = tf) cs"
  shows "read_csv k received s tf (write_csv k cs) = Inr (map (as_read received) cs)"
proof -
  have "filter (\<lambda>row. row \<noteq> []) (map (csv_row k) cs) = map (csv_row k) cs" by (simp add: filter_map csv_row_def comp_def)
  moreover have "map_ok (read_row k received s tf CSV_HEADER) (map (csv_row k) cs) = Inr (map (as_read received) cs)"
    using assms(2) by (induction cs) (simp_all add: read_written_row [OF assms(1)])
  ultimately show ?thesis by (simp add: read_csv_def write_csv_def)
qed

text \<open>The cache is a faithful copy. After a fetch was cached, loading that symbol and timeframe from the
  cache returns the fetched candles in ascending time, unchanged but for the quote volume, which the
  file does not hold, and the time of receipt; no other file of the cache changes.\<close>

theorem cache_roundtrip:
  assumes "codec_law k" "fetch_and_cache k (Inr cs) s tf cache = (out, cache')"
    and "list_all (\<lambda>c. candle_ok c \<and> oc_symbol c = s \<and> oc_timeframe c = tf) cs"
  shows "out = Inr cs \<and> load_candles k received cache' s tf = Inr (map (as_read received) (sort_key oc_timestamp cs)) \<and>
    (\<forall>name. name \<noteq> csv_name s tf \<longrightarrow> map_of cache' name = map_of cache name)"
proof -
  have "insort_key oc_timestamp (as_read received c) (map (as_read received) ds) = map (as_read received) (insort_key oc_timestamp c ds)"
    for c ds by (induction ds) (simp_all add: as_read_def)
  then have "sort_key oc_timestamp (map (as_read received) cs) = map (as_read received) (sort_key oc_timestamp cs)"
    by (induction cs) simp_all
  then show ?thesis
    using assms(2) read_written [OF assms(1,3), of received] by (auto simp: fetch_and_cache_def load_candles_def)
qed

definition demo_codec :: "(time + rat) codec" where
  "demo_codec = \<lparr>cd_time = Inl, cd_number = Inr,
     cd_read_time = (\<lambda>f. case f of Inl t \<Rightarrow> Inr t | Inr x \<Rightarrow> Inl (Validation_error ''timestamp'')),
     cd_read_number = (\<lambda>f. case f of Inl t \<Rightarrow> Inl Decimal_invalid | Inr x \<Rightarrow> Inr x)\<rparr>"

theorem cache_roundtrip_witness:
  "let cs = [mk_candle ''BTC/USDT'' 120 1, mk_candle ''BTC/USDT'' 60 2]
   in load_candles demo_codec 7 (snd (fetch_and_cache demo_codec (Inr cs) ''BTC/USDT'' ''1m'' [])) ''BTC/USDT'' ''1m'' =
      Inr (map (as_read 7) (sort_key oc_timestamp cs))"
proof -
  define cs where "cs = [mk_candle ''BTC/USDT'' 120 1, mk_candle ''BTC/USDT'' 60 2]"
  have k: "codec_law demo_codec" by (simp add: codec_law_def demo_codec_def)
  have ok: "list_all (\<lambda>c. candle_ok c \<and> oc_symbol c = ''BTC/USDT'' \<and> oc_timeframe c = ''1m'') cs"
    by (simp add: cs_def mk_candle_def candle_ok_def)
  show ?thesis
    using cache_roundtrip [OF k surjective_pairing ok, of "[]" 7] unfolding cs_def [symmetric] Let_def by blast
qed

lemma rpartition_last: "c \<notin> set b \<Longrightarrow> rpartition c (a @ c # b) = (a, b)"
  by (simp add: rpartition_def takeWhile_append dropWhile_append)

text \<open>The name of a file gives back its symbol and timeframe, as long as the symbol has no hyphen of its
  own and the timeframe no underscore; so the listing of a directory that was filled by the cache is
  the list of what was cached.\<close>

theorem filename_roundtrip:
  assumes "CHR ''-'' \<notin> set s" "CHR ''_'' \<notin> set tf"
  shows "parse_filename (csv_name s tf) = (s, tf) \<and> is_csv (csv_name s tf)"
proof -
  have "csv_name s tf = (safe_symbol s @ ''_'' @ tf) @ CHR ''.'' # ''csv''" by (simp add: csv_name_def)
  then have "path_stem (csv_name s tf) = safe_symbol s @ CHR ''_'' # tf"
    using rpartition_last [of "CHR ''.''" "''csv''" "safe_symbol s @ ''_'' @ tf"] by (simp add: path_stem_def)
  moreover have "map (\<lambda>c. if c = CHR ''-'' then CHR ''/'' else c) (safe_symbol s) = s"
    using assms(1) by (induction s) (auto simp: safe_symbol_def)
  ultimately show ?thesis
    using rpartition_last [OF assms(2), of "safe_symbol s"] by (simp add: parse_filename_def is_csv_def csv_name_def)
qed

text \<open>A symbol with a hyphen comes back as another symbol.\<close>

theorem hyphen_is_lost: "parse_filename (csv_name ''BTC-PERP'' ''1h'') = (''BTC/PERP'', ''1h'')"
  by code_simp

text \<open>A file is seeded completely or not at all, and a dry run writes nothing.\<close>

theorem seed_file_atomic:
  "(case seed_file q k received name content db of (Inl e, db1) \<Rightarrow> db1 = db
     | (Inr n, db1) \<Rightarrow> \<exists>cs. load_csv_candles k received name content = Inr cs \<and> n = length cs \<and> upsert_candles q cs db = Inr db1) \<and>
   snd (seed_files q k received True fs m db) = db"
proof
  show "case seed_file q k received name content db of (Inl e, db1) \<Rightarrow> db1 = db
     | (Inr n, db1) \<Rightarrow> \<exists>cs. load_csv_candles k received name content = Inr cs \<and> n = length cs \<and> upsert_candles q cs db = Inr db1"
    by (auto simp: seed_file_def split: sum.split)
  show "snd (seed_files q k received True fs m db) = db"
    by (induction fs arbitrary: m) (auto split: sum.split)
qed

text \<open>What a cached history seeds: from the file into the database and out of it again, the candles keep
  their order and their times.\<close>

theorem cached_history_is_seeded:
  assumes "codec_law k" "sql_laws q" "CHR ''-'' \<notin> set s" "CHR ''_'' \<notin> set tf"
    and "list_all (\<lambda>c. candle_ok c \<and> oc_symbol c = s \<and> oc_timeframe c = tf) cs"
    and "seed_file q k received (csv_name s tf) (write_csv k cs) [] = (Inr n, db)"
  shows "n = length cs \<and> (\<exists>rows. get_candles q s tf None None None db = Inr rows \<and> sorted_wrt (<) (map oc_timestamp rows) \<and>
    oc_timestamp ` set rows = oc_timestamp ` set cs)"
proof -
  have load: "load_csv_candles k received (csv_name s tf) (write_csv k cs) = Inr (map (as_read received) cs)"
    using filename_roundtrip [OF assms(3,4)] read_written [OF assms(1,5)] by (simp add: load_csv_candles_def)
  then have up: "n = length cs" "upsert_candles q (map (as_read received) cs) [] = Inr db"
    using assms(6) by (auto simp: seed_file_def split: sum.splits)
  have ok: "list_all candle_ok (map (as_read received) cs)"
    using assms(5) by (auto simp: list_all_iff as_read_def candle_ok_def)
  have keys: "(s, tf, t) \<in> candle_key ` set (map (as_read received) cs) \<longleftrightarrow> t \<in> oc_timestamp ` set cs" for t
    using assms(5) by (force simp: list_all_iff as_read_def candle_key_def image_iff)
  obtain rows where "get_candles q s tf None None None db = Inr rows" "sorted_wrt (<) (map oc_timestamp rows)"
    "\<forall>t. t \<in> oc_timestamp ` set rows \<longleftrightarrow> t \<in> oc_timestamp ` set cs"
    using candle_rows [OF assms(2) up(2) ok, of s tf None None] unfolding keys by (auto simp: in_range_def limited_def)
  then show ?thesis using up(1) by blast
qed

end
