(* ===== verification/Launcher.thy ===== *)
theory Launcher
  imports Base_Agent ML_Signals Signal_Generator Model_Registry "HOL-Library.Sublist" "HOL-Library.List_Lexorder" "HOL-Library.Char_ord"
begin

text \<open>
  The scripts around the agents: the single-process launcher with its crash watcher and shutdown
  (\<open>scripts/start.py\<close>), the health probe (\<open>scripts/healthcheck.py\<close>), the comparison of the two signal
  generators on a history (\<open>scripts/evaluate_model.py\<close>). Printing, the web server, the process's signal handlers and the
  clients of the probed services are outside: a probe's outcome and the end of a task are events.

  Proved here: the launcher stops exactly after a signal or after its watcher saw a task end, and then
  cancels what is left in reverse order; the probe's exit code; the comparison counts every signal
  once.
\<close>

subsection \<open>The launcher\<close>

definition build_agents :: "bool \<Rightarrow> bool \<Rightarrow> string list" where
  "build_agents sentiment_enabled sentiment_importable =
     [''monitoring_agent'', ''market_data_agent'', ''technical_analysis_agent''] @
     (if sentiment_enabled \<and> sentiment_importable then [''sentiment_agent''] else []) @
     [''decision_agent'', ''risk_agent'', ''execution_agent'']"

datatype task_state = Task_running | Task_done | Task_cancelled

record launcher =
  la_tasks :: "(string \<times> task_state) list"
  la_stop :: bool
  la_cancelled :: "string list"

definition launch :: "bool \<Rightarrow> bool \<Rightarrow> launcher" where
  "launch sentiment_enabled sentiment_importable = \<lparr>la_tasks = map (\<lambda>n. (n, Task_running)) (build_agents sentiment_enabled sentiment_importable @ [''api_server'']),
     la_stop = False, la_cancelled = []\<rparr>"

datatype launcher_event = Task_ends string | Stop_signal | Watcher_tick

definition task_ends :: "string \<Rightarrow> (string \<times> task_state) list \<Rightarrow> (string \<times> task_state) list" where
  "task_ends n tasks = map (\<lambda>(m, x). (m, if m = n \<and> x = Task_running then Task_done else x)) tasks"

text \<open>One round of \<open>_watch_for_crash\<close>: the first task found done sets the stop event.\<close>

definition watch_round :: "launcher \<Rightarrow> launcher" where
  "watch_round st = (if la_stop st then st
     else if list_ex (\<lambda>(_, x). x \<noteq> Task_running) (la_tasks st) then st\<lparr>la_stop := True\<rparr> else st)"

fun launch_event :: "launcher_event \<Rightarrow> launcher \<Rightarrow> launcher" where
  "launch_event (Task_ends n) st = st\<lparr>la_tasks := task_ends n (la_tasks st)\<rparr>"
| "launch_event Stop_signal st = st\<lparr>la_stop := True\<rparr>"
| "launch_event Watcher_tick st = watch_round st"

definition shutdown :: "launcher \<Rightarrow> launcher" where
  "shutdown st = st\<lparr>la_cancelled := map fst (filter (\<lambda>(_, x). x = Task_running) (rev (la_tasks st))),
     la_tasks := map (\<lambda>(n, x). (n, if x = Task_running then Task_cancelled else x)) (la_tasks st)\<rparr>"

text \<open>\<open>main\<close>: events are handled until the stop event is set, then everything is shut down; None while
  the launcher still runs.\<close>

fun run_launcher :: "launcher_event list \<Rightarrow> launcher \<Rightarrow> launcher option" where
  "run_launcher es st = (if la_stop st then Some (shutdown st)
     else case es of [] \<Rightarrow> None | e # rest \<Rightarrow> run_launcher rest (launch_event e st))"

declare run_launcher.simps [simp del]

definition ended :: "launcher \<Rightarrow> bool" where
  "ended st \<longleftrightarrow> list_ex (\<lambda>(_, x). x \<noteq> Task_running) (la_tasks st)"

text \<open>What ends the launcher: a signal, or a tick of the watcher after a task has ended.\<close>

fun stops :: "string set \<Rightarrow> bool \<Rightarrow> launcher_event list \<Rightarrow> bool" where
  "stops names down [] = False"
| "stops names down (Task_ends n # es) = stops names (down \<or> n \<in> names) es"
| "stops names down (Stop_signal # es) = True"
| "stops names down (Watcher_tick # es) = (down \<or> stops names down es)"

lemma task_ends_names [simp]: "map fst (task_ends n tasks) = map fst tasks"
  by (auto simp: task_ends_def comp_def)

lemma task_ends_ended:
  "list_ex (\<lambda>(_, x). x \<noteq> Task_running) (task_ends n tasks) \<longleftrightarrow> list_ex (\<lambda>(_, x). x \<noteq> Task_running) tasks \<or> n \<in> fst ` set tasks"
  by (induction tasks) (auto simp: task_ends_def split: if_splits)

text \<open>The launcher stops exactly when it should: after a signal, or at the first tick of the watcher after
  a supervised task has ended (which its supervisor lets happen only when it gave up or the agent
  left its loop), and never otherwise. Then no task is left running, and those it cancels are
  cancelled from the last started to the first.\<close>

theorem launcher_stops_iff:
  assumes "\<not> la_stop st"
  shows "(run_launcher es st \<noteq> None \<longleftrightarrow> stops (fst ` set (la_tasks st)) (ended st) es) \<and>
    (\<forall>out. run_launcher es st = Some out \<longrightarrow> list_all (\<lambda>(_, x). x \<noteq> Task_running) (la_tasks out) \<and>
       map fst (la_tasks out) = map fst (la_tasks st) \<and> subseq (la_cancelled out) (rev (map fst (la_tasks st))))"
  using assms
proof (induction es arbitrary: st)
  case Nil
  then show ?case by (simp add: run_launcher.simps)
next
  case (Cons e es)
  have run: "run_launcher (e # es) st = run_launcher es (launch_event e st)" using Cons.prems by (simp add: run_launcher.simps)
  have down: "run_launcher es x = Some (shutdown x)" if "la_stop x" for x using that by (simp add: run_launcher.simps)
  have shut: "list_all (\<lambda>(_, x). x \<noteq> Task_running) (la_tasks (shutdown x)) \<and> map fst (la_tasks (shutdown x)) = map fst (la_tasks x) \<and>
      subseq (la_cancelled (shutdown x)) (rev (map fst (la_tasks x)))" for x
    by (auto simp: shutdown_def list_all_iff rev_map comp_def case_prod_beta intro!: subseq_map subseq_filter_left)
  show ?case
  proof (cases e)
    case (Task_ends n)
    have "fst ` set (task_ends n (la_tasks st)) = fst ` set (la_tasks st)"
      by (simp only: set_map [symmetric] task_ends_names)
    then show ?thesis
      using Cons.IH [of "launch_event e st"] Cons.prems unfolding run
      by (simp add: Task_ends ended_def task_ends_ended)
  next
    case Stop_signal
    then show ?thesis using down [of "launch_event e st"] shut [of "launch_event e st"] unfolding run by simp
  next
    case Watcher_tick
    show ?thesis
    proof (cases "ended st")
      case True
      then have "launch_event e st = st\<lparr>la_stop := True\<rparr>" using Cons.prems by (simp add: Watcher_tick watch_round_def ended_def)
      then show ?thesis using down [of "launch_event e st"] shut [of "launch_event e st"] True unfolding run
        by (simp add: Watcher_tick)
    next
      case False
      then have "launch_event e st = st" using Cons.prems by (simp add: Watcher_tick watch_round_def ended_def)
      then show ?thesis using Cons.IH [OF Cons.prems] False unfolding run by (simp add: Watcher_tick)
    qed
  qed
qed

subsection \<open>The health probe\<close>

datatype probe = Probe_up | Probe_down string | Probe_raised string

record probe_row =
  pr_name :: string
  pr_up :: bool
  pr_detail :: string

text \<open>An agent's entry in the monitoring registry; None is a value that is not a mapping.\<close>

record agent_info =
  ai_status :: "string option"
  ai_is_stale :: bool
  ai_age :: "string option"

definition probe_agent_row :: "string \<Rightarrow> agent_info \<Rightarrow> probe_row" where
  "probe_agent_row name info = (let status = (case ai_status info of None \<Rightarrow> ''unknown'' | Some x \<Rightarrow> x) in
     \<lparr>pr_name = ''agent:'' @ name, pr_up = (map lower status \<in> {''running'', ''starting''} \<and> \<not> ai_is_stale info),
      pr_detail = (case ai_age info of None \<Rightarrow> status | Some a \<Rightarrow> status @ '', last seen '' @ a @ ''s ago'')\<rparr>)"

definition check_agents :: "(string \<times> agent_info option) list option \<Rightarrow> probe_row list" where
  "check_agents answer = (case answer of None \<Rightarrow> []
     | Some agents \<Rightarrow> concat (map (\<lambda>(name, info). case info of None \<Rightarrow> [] | Some i \<Rightarrow> [probe_agent_row name i]) (sort_key fst agents)))"

fun probe_result :: "string \<times> probe \<Rightarrow> probe_row" where
  "probe_result (name, Probe_up) = \<lparr>pr_name = name, pr_up = True, pr_detail = []\<rparr>"
| "probe_result (name, Probe_down why) = \<lparr>pr_name = name, pr_up = False, pr_detail = why\<rparr>"
| "probe_result (name, Probe_raised why) = \<lparr>pr_name = name, pr_up = False, pr_detail = ''unhandled: '' @ why\<rparr>"

definition health_main ::
  "probe \<Rightarrow> probe \<Rightarrow> probe \<Rightarrow> probe \<Rightarrow> (string \<times> agent_info option) list option \<Rightarrow> probe_row list \<times> int" where
  "health_main redis postgres monitoring api answer =
    (let rows = map probe_result [(''redis'', redis), (''postgres'', postgres), (''monitoring'', monitoring), (''api'', api)]
     in (rows @ check_agents answer, if list_all pr_up rows then 0 else 1))"

text \<open>The exit code is that of the four services alone: it is 0 exactly when all of them answered, whatever
  the agents report, and every down row names its reason.\<close>

theorem health_exit_code:
  "(snd (health_main r p m a answer) = 0 \<longleftrightarrow> r = Probe_up \<and> p = Probe_up \<and> m = Probe_up \<and> a = Probe_up) \<and>
    snd (health_main r p m a answer) \<in> {0, 1} \<and>
    snd (health_main r p m a answer) = snd (health_main r p m a None)"
proof -
  have "pr_up (probe_result (n, x)) \<longleftrightarrow> x = Probe_up" for n x by (cases x) simp_all
  then show ?thesis by (simp add: health_main_def Let_def)
qed

subsection \<open>Comparing the generators\<close>

definition ends_with :: "string \<Rightarrow> string \<Rightarrow> bool" where
  "ends_with suff s \<longleftrightarrow> length suff \<le> length s \<and> drop (length s - length suff) s = suff"

datatype label = Buy_label | Sell_label | Neutral_label

definition direction_label :: "signal_direction \<Rightarrow> label" where
  "direction_label d = (if ends_with ''buy'' (direction_value d) then Buy_label
     else if ends_with ''sell'' (direction_value d) then Sell_label else Neutral_label)"

record signal_counts =
  sc_buy :: nat
  sc_sell :: nat
  sc_neutral :: nat
  sc_total :: nat

definition no_signals :: signal_counts where
  "no_signals = \<lparr>sc_buy = 0, sc_sell = 0, sc_neutral = 0, sc_total = 0\<rparr>"

definition count_label :: "label \<Rightarrow> signal_counts \<Rightarrow> signal_counts" where
  "count_label l n = (case l of Buy_label \<Rightarrow> n\<lparr>sc_buy := sc_buy n + 1\<rparr> | Sell_label \<Rightarrow> n\<lparr>sc_sell := sc_sell n + 1\<rparr>
     | Neutral_label \<Rightarrow> n\<lparr>sc_neutral := sc_neutral n + 1\<rparr>)\<lparr>sc_total := sc_total n + 1\<rparr>"

record comparison =
  cm_ml_registry :: buffer_registry
  cm_rule_registry :: buffer_registry
  cm_ml :: signal_counts
  cm_rule :: signal_counts
  cm_ml_directions :: "(nat \<times> label) list"
  cm_rule_directions :: "(nat \<times> label) list"
  cm_agreement :: nat
  cm_disagreement :: nat

definition start_comparison :: comparison where
  "start_comparison = \<lparr>cm_ml_registry = [], cm_rule_registry = [], cm_ml = no_signals, cm_rule = no_signals,
     cm_ml_directions = [], cm_rule_directions = [], cm_agreement = 0, cm_disagreement = 0\<rparr>"

definition note_ml :: "nat \<Rightarrow> technical_signal option \<Rightarrow> comparison \<Rightarrow> comparison" where
  "note_ml i sig c = (case sig of None \<Rightarrow> c | Some s \<Rightarrow> c\<lparr>cm_ml := count_label (direction_label (ts_direction s)) (cm_ml c),
     cm_ml_directions := cm_ml_directions c @ [(i, direction_label (ts_direction s))]\<rparr>)"

definition note_rule :: "nat \<Rightarrow> technical_signal option \<Rightarrow> comparison \<Rightarrow> comparison" where
  "note_rule i sig c = (case sig of None \<Rightarrow> c | Some s \<Rightarrow> c\<lparr>cm_rule := count_label (direction_label (ts_direction s)) (cm_rule c),
     cm_rule_directions := cm_rule_directions c @ [(i, direction_label (ts_direction s))]\<rparr>)"

definition note_agreement :: "technical_signal option \<Rightarrow> technical_signal option \<Rightarrow> comparison \<Rightarrow> comparison" where
  "note_agreement m r c = (case (m, r) of
     (Some x, Some y) \<Rightarrow> if direction_label (ts_direction x) = direction_label (ts_direction y)
       then c\<lparr>cm_agreement := cm_agreement c + 1\<rparr> else c\<lparr>cm_disagreement := cm_disagreement c + 1\<rparr>
   | _ \<Rightarrow> c)"

type_synonym generator = "candle_buffer \<Rightarrow> error + technical_signal option"

fun compare_generators :: "(nat \<Rightarrow> generator) \<Rightarrow> (nat \<Rightarrow> generator) \<Rightarrow> nat \<Rightarrow> candle list \<Rightarrow> comparison \<Rightarrow> error + comparison" where
  "compare_generators ml rule i [] c = Inr c"
| "compare_generators ml rule i (x # xs) c =
    (case registry_add x (cm_ml_registry c) of (ml_buf, mr) \<Rightarrow>
     case registry_add x (cm_rule_registry c) of (rule_buf, rr) \<Rightarrow>
     (let c1 = c\<lparr>cm_ml_registry := mr, cm_rule_registry := rr\<rparr> in
      if \<not> is_warm ml_buf then compare_generators ml rule (Suc i) xs c1
      else case ml i ml_buf of Inl e \<Rightarrow> Inl e | Inr m \<Rightarrow>
      case rule i rule_buf of Inl e \<Rightarrow> Inl e | Inr r \<Rightarrow>
        compare_generators ml rule (Suc i) xs (note_agreement m r (note_rule i r (note_ml i m c1)))))"

text \<open>The simulated profit of each signal over the next bar, in percent.\<close>

definition simulated_pnl :: "rat list \<Rightarrow> (nat \<times> label) list \<Rightarrow> error + rat" where
  "simulated_pnl cl dirs = (case foldl (\<lambda>acc (i, l). case acc of Inl e \<Rightarrow> Inl e | Inr v \<Rightarrow>
      if i + 1 \<ge> length cl then Inr v
      else if cl ! i = 0 then Inl Zero_division
      else (let ret = fdiv (fsub (cl ! (i + 1)) (cl ! i)) (cl ! i) in
        Inr (case l of Buy_label \<Rightarrow> fadd v ret | Sell_label \<Rightarrow> fsub v ret | Neutral_label \<Rightarrow> v))) (Inr 0) dirs of
    Inl e \<Rightarrow> Inl e | Inr v \<Rightarrow> Inr (fmul v 100))"

definition buy_hold_pnl :: "rat list \<Rightarrow> error + rat" where
  "buy_hold_pnl cl = (if cl = [] then Inr 0 else if hd cl = 0 then Inl Zero_division
     else Inr (fmul (fdiv (fsub (last cl) (hd cl)) (hd cl)) 100))"

definition evaluate_generators ::
  "(nat \<Rightarrow> gen_env) \<Rightarrow> indicator_lib \<Rightarrow> numpy \<Rightarrow> math_lib \<Rightarrow> ('m \<Rightarrow> rat list \<Rightarrow> error + rat list) \<Rightarrow> ta_settings \<Rightarrow> 'm ml_generator \<Rightarrow>
     candle list \<Rightarrow> error + (comparison \<times> rat \<times> rat \<times> rat)" where
  "evaluate_generators env lib np ml predict cfg g cs =
    (case compare_generators (\<lambda>i. ml_generate (env i) np ml predict cfg g) (\<lambda>i. generate (env i) lib np cfg) 0 cs start_comparison of Inl e \<Rightarrow> Inl e
     | Inr c \<Rightarrow> (let cl = map (\<lambda>x. fl (oc_close x)) cs in
        case simulated_pnl cl (cm_ml_directions c) of Inl e \<Rightarrow> Inl e | Inr ml_pnl \<Rightarrow>
        case simulated_pnl cl (cm_rule_directions c) of Inl e \<Rightarrow> Inl e | Inr rule_pnl \<Rightarrow>
        case buy_hold_pnl cl of Inl e \<Rightarrow> Inl e | Inr hold \<Rightarrow> Inr (c, ml_pnl, rule_pnl, hold)))"

text \<open>The exit code: without candles, without a model in the registry or when the model does not load the
  script fails before it compares anything.\<close>

definition evaluate_main ::
  "candle list \<Rightarrow> string option \<Rightarrow> string option \<Rightarrow> (string \<Rightarrow> 'm ml_generator) \<Rightarrow> ('m ml_generator \<Rightarrow> error + 'r) \<Rightarrow> error + (int \<times> 'r option)" where
  "evaluate_main cs given latest load run =
    (if cs = [] then Inr (1, None)
     else case (case given of Some p \<Rightarrow> Some p | None \<Rightarrow> latest) of None \<Rightarrow> Inr (1, None)
     | Some path \<Rightarrow> (let g = load path in
        if \<not> mg_loaded g then Inr (1, None)
        else case run g of Inl e \<Rightarrow> Inl e | Inr r \<Rightarrow> Inr (0, Some r)))"

definition counts_ok :: "signal_counts \<Rightarrow> (nat \<times> label) list \<Rightarrow> bool" where
  "counts_ok n ds \<longleftrightarrow> sc_total n = length ds \<and> sc_buy n = length (filter (\<lambda>d. snd d = Buy_label) ds) \<and>
     sc_sell n = length (filter (\<lambda>d. snd d = Sell_label) ds) \<and> sc_neutral n = length (filter (\<lambda>d. snd d = Neutral_label) ds)"

lemma counts_ok_step: "counts_ok n ds \<Longrightarrow> counts_ok (count_label l n) (ds @ [(i, l)])"
  by (cases l) (simp_all add: counts_ok_def count_label_def)

definition comparison_ok :: "comparison \<Rightarrow> bool" where
  "comparison_ok c \<longleftrightarrow> cm_ml_registry c = cm_rule_registry c \<and> counts_ok (cm_ml c) (cm_ml_directions c) \<and>
     counts_ok (cm_rule c) (cm_rule_directions c) \<and>
     cm_agreement c + cm_disagreement c \<le> sc_total (cm_ml c) \<and> cm_agreement c + cm_disagreement c \<le> sc_total (cm_rule c)"

lemma comparison_step:
  assumes "comparison_ok c"
  shows "comparison_ok (note_agreement m r (note_rule i r (note_ml i m c)))"
  using assms counts_ok_step [of "cm_ml c" "cm_ml_directions c"] counts_ok_step [of "cm_rule c" "cm_rule_directions c"]
  by (cases m; cases r) (auto simp: comparison_ok_def note_agreement_def note_rule_def note_ml_def count_label_def split: label.split)

text \<open>The comparison is fair and counts every signal once: both generators always see the same buffer, the
  three counts of a generator are those of its recorded directions, and the agreements and
  disagreements never outnumber either generator's signals.\<close>

theorem comparison_counts:
  "compare_generators ml rule i cs c = Inr c' \<Longrightarrow> comparison_ok c \<Longrightarrow> comparison_ok c'"
proof (induction cs arbitrary: i c)
  case (Cons x cs)
  obtain b r where reg: "registry_add x (cm_ml_registry c) = (b, r)" by (cases "registry_add x (cm_ml_registry c)")
  define c1 where "c1 = c\<lparr>cm_ml_registry := r, cm_rule_registry := r\<rparr>"
  have same: "registry_add x (cm_rule_registry c) = (b, r)" using reg Cons.prems(2) by (simp add: comparison_ok_def)
  have ok: "comparison_ok c1" using Cons.prems(2) by (simp add: comparison_ok_def c1_def)
  note step = Cons.prems(1) [unfolded compare_generators.simps reg same prod.case Let_def, folded c1_def]
  show ?case
  proof (cases "is_warm b")
    case False
    then show ?thesis using step Cons.IH ok by simp
  next
    case True
    then obtain m r' where "compare_generators ml rule (Suc i) cs (note_agreement m r' (note_rule i r' (note_ml i m c1))) = Inr c'"
      using step by (auto split: sum.splits)
    then show ?thesis using Cons.IH comparison_step [OF ok] by blast
  qed
qed simp

end
