(* ===== verification/Spec2Isabelle.thy ===== *)
theory Spec2Isabelle
  imports Risk_Agent Decision_Agent Market_Data_Agent TA_Agent MT5_Bridge Messaging Monitoring_Agent Trading_System Walk_Forward ML_Signals Model_Registry Control_API Data_Sources Stream_Handler Dashboard_API Evaluation Script_Backtest Seed_History Candle_Files Launcher
begin

text \<open>
  A model of a multi-agent trading system, with the properties that make it correct.

  \<^bold>\<open>The program.\<close> Agents exchange typed messages over a Redis bus. The market data agent polls an
  exchange, normalises candles and publishes them; the technical analysis agent fills a buffer per
  symbol and timeframe and turns warm buffers into signals, by rules or by a trained model; the
  decision agent fuses signals into proposals; the risk agent approves, cuts or rejects each proposal
  and books what it approves; the execution agent sends approved assessments to a broker (simulated, or
  MetaTrader 5 behind an HTTP bridge), publishes the result and watches stop losses; the risk agent
  books the result. The monitoring agent watches heartbeats. A web interface shows the state and can
  halt trading by a latch that survives restarts. Beside the agents stand a backtest with
  benchmarks and a walk-forward evaluation, a database of candles and of the audit trail, and scripts.

  \<^bold>\<open>Theories and the code they model\<close> (paths under \<open>src/\<close>).

  \<^item> Numbers: \<open>Numerics\<close>, \<open>PyNum\<close>, \<open>Decimal_Bounds\<close>, \<open>Float_Functions\<close>, \<open>Text_Format\<close> (Python's \<open>float\<close>,
    \<open>Decimal\<close>, \<open>round\<close>, \<open>quantize\<close>, \<open>math.sqrt\<close> and number formats). \<open>Prelude\<close> has the shared types, dictionaries
    as association lists, bounded histories and the collections of facts; \<open>Errors\<close> is \<open>core/exceptions.py\<close>.
  \<^item> Data: \<open>Config\<close> (\<open>core/config.py\<close>), \<open>Market_Models\<close>, \<open>Signal_Models\<close>, \<open>Trade_Models\<close>, \<open>System_Models\<close>
    (\<open>core/models/\<close>).
  \<^item> The bus and the life of an agent: \<open>Messaging\<close> (\<open>core/messaging.py\<close>), \<open>Base_Agent\<close> (\<open>agents/base.py\<close>: start
    with the halt latch, error counting, supervision).
  \<^item> Market data: \<open>Fetcher\<close>, \<open>Stream_Handler\<close>, \<open>Normaliser\<close>, \<open>Market_Data_Agent\<close> (\<open>agents/market_data/\<close>),
    \<open>Data_Sources\<close> (\<open>data_sources/\<close>).
  \<^item> Analysis: \<open>Candle_Buffer\<close>, \<open>Indicators\<close>, \<open>Signal_Generator\<close>, \<open>TA_Agent\<close> (\<open>agents/technical_analysis/\<close>);
    \<open>Feature_Engineer\<close>, \<open>ML_Training\<close>, \<open>ML_Signals\<close>, \<open>Model_Registry\<close> (its \<open>ml/\<close>).
  \<^item> Decision: \<open>Signal_Aggregator\<close>, \<open>Proposal_Builder\<close>, \<open>Decision_Agent\<close> (\<open>agents/decision/\<close>).
  \<^item> Risk: \<open>Circuit_Breaker\<close>, \<open>Drawdown_Monitor\<close>, \<open>Position_Sizer\<close>, \<open>Risk_Agent\<close> (\<open>agents/risk/\<close>).
  \<^item> Execution: \<open>Broker_Interface\<close>, \<open>Paper_Broker\<close>, \<open>Symbol_Mapper\<close>, \<open>MT5_Bridge\<close>, \<open>Execution_Agent\<close>
    (\<open>agents/execution/\<close>).
  \<^item> Observation and control: \<open>Monitoring_Agent\<close> (\<open>agents/monitoring/\<close>), \<open>Control_API\<close>, \<open>Dashboard_API\<close> (\<open>api/\<close>).
  \<^item> Evaluation: \<open>Backtest_Engine\<close>, \<open>Backtest_Metrics\<close>, \<open>Benchmarks\<close>, \<open>Walk_Forward\<close>, \<open>Evaluation\<close> (\<open>backtest/\<close>),
    \<open>Script_Backtest\<close> (\<open>scripts/backtest.py\<close>).
  \<^item> Storage and scripts: \<open>Repositories\<close> (\<open>core/db/repositories/\<close>, \<open>core/db/models.py\<close>), \<open>Seed_History\<close>,
    \<open>Candle_Files\<close> (\<open>scripts/seed_historical.py\<close>, \<open>scripts/seed.py\<close>, \<open>backtest/data.py\<close>), \<open>Launcher\<close>
    (\<open>scripts/start.py\<close>, \<open>healthcheck.py\<close>, \<open>evaluate_model.py\<close>).
  \<^item> \<open>Trading_System\<close> composes the risk agent, the execution agent and the simulated broker.

  Each theory keeps the order of its source: the state as a record, one definition per operation with
  its guards and early returns, a handler with every state change, and then the facts.

  \<^bold>\<open>What is proved.\<close>

  \<^item> Safety of orders: an approval passed every limit; a halt and a tripped breaker are final, also
    across a restart; no order without an approved assessment and none while halted; proposals
    respect confidence, trend and size.
  \<^item> Books: the simulated broker refines an abstract book, never fills a proposal twice while it
    remembers it, conserves equity on opening and loses on a round trip at one price; the risk ledger
    is the initial balance plus the profits (less what reopening a held symbol overwrites); a rejected order releases what was reserved and a result
    counts once; in every reachable state of the composed system the two books agree.
  \<^item> Messages and queues: candles are published once, buffers hold the newest running records,
    terminal commands leave the queue in order and once, a silent agent is reported.
  \<^item> Backtests: every trade is justified by its bars, equity is the sum of the profits, no decision
    depends on later bars, training rows are the rows the live generator computes, the drawdown is the
    maximum of its definition.
  \<^item> Storage: what a table returns after any upserts, an audit trail without dangling references,
    files that are read back as written, model files that are published atomically.
  \<^item> Termination: the supervisor, the reconnect loop, the retried fetch and the seeding loop.

  Laws shared by several operations are locales (\<open>rounding\<close>, \<open>bounded_memory\<close>, \<open>latch\<close>, \<open>ledger\<close>,
  \<open>execution_broker\<close>, \<open>candle_source\<close>), each interpreted on the code's own definitions.

  \<^bold>\<open>How the code is read.\<close>

  \<^item> A float or finite \<open>Decimal\<close> is the rational it denotes; each operation rounds its exact result
    (binary, 53 digits; decimal, 28 digits), ties to even. Overflow of a float to infinity is not
    represented; NaN is None. \<open>Decimal(str(x))\<close> of a float is \<open>dec_of_float\<close>.
  \<^item> Time is in microseconds. Clocks, fresh identifiers, random streams and the outcomes of input and
    output are fields of environment records that the operations take.
  \<^item> A function that may raise returns \<open>error + 'a\<close>, with the state beside it where it is changed
    before the exception; what a caller swallows is a branch. Logging and metrics are left out.
  \<^item> What is not in the repository is a parameter: numpy and talib, libm, xgboost, Redis, the SQL engine,
    ccxt and tenacity, the MetaTrader 5 terminal, the file system, the csv and json codecs. What the
    code relies on there (a column rounds monotonically, a codec reads what it wrote, an exchange
    answers from the requested start) is a named hypothesis with a concrete instance.
  \<^item> JSON bodies are typed records; where a body is inspected dynamically the cases are values.
  \<^item> Concurrency is interleaving: the tasks of an agent are steps on a shared state, in any order.

  \<^bold>\<open>Bounds.\<close> Histories keep the capacities of the source (500 bars, 1000 remembered orders and results). No
  loop needs fuel: retry and reconnect loops end by their measures, and the seeding loop, which the
  code does not bound, is a partial function whose None is a run that never returns. Theorems about
  decimals assume amounts small enough for \<open>quantize\<close> not to raise, and say so.

  \<^bold>\<open>Not modelled.\<close> The HTML report of a backtest (\<open>backtest/report.py\<close>), logging and metrics
  (\<open>core/logging.py\<close>, \<open>core/metrics.py\<close>), the connection pool and the schema migrations
  (\<open>core/db/connection.py\<close>, \<open>core/db/migrations/\<close>), the training command line (\<open>scripts/train_model.py\<close>)
  and the sentiment agent, a stub that waits; the web servers, the Slack client, the banners and the
  argument parsers of modelled files; the heartbeat and alert tables; the dashboard and the terminal's
  expert advisor, which are in other languages.
\<close>

end
